(* ===== verification/Signpost_Prelude.thy ===== *)
theory Signpost_Prelude
  imports Main "HOL-Library.Word" "HOL-Library.Signed_Division"
begin

text \<open>
  Shared vocabulary of the development: the machine types of the Signpost C code, the
  ways in which a C call can fail to return, the byte-level operations of
  \<open>string.h\<close> the code uses (\<open>memcpy\<close>, \<open>strnlen\<close>, \<open>strncpy\<close>, \<open>strncmp\<close>), the
  little-endian memory layout of the target (a Cortex-M), and the generic lemmas about them.
  A C object in memory (a buffer, a string) is the list of its bytes.
\<close>

unbundle bit_operations_syntax

section \<open>Machine types\<close>

type_synonym byte = "8 word"
type_synonym u16 = "16 word"
type_synonym u32 = "32 word"
type_synonym bytes = "byte list"

named_theorems c_mem \<open>facts about buffers, strings and their byte encodings\<close>

text \<open>
  \<open>size_t\<close> has 32 bits on the target. Lengths are natural numbers, and a subtraction of
  two \<open>size_t\<close> values whose result may be negative is written with its wrap-around.
\<close>

definition size_sub :: "nat \<Rightarrow> nat \<Rightarrow> nat" where
  "size_sub a b = nat ((int a - int b) mod 2 ^ 32)"

definition size_add :: "nat \<Rightarrow> nat \<Rightarrow> nat" where
  "size_add a b = (a + b) mod 2 ^ 32"

definition to_uint16 :: "nat \<Rightarrow> nat" where
  "to_uint16 n = n mod 2 ^ 16"

definition to_uint8 :: "nat \<Rightarrow> nat" where
  "to_uint8 n = n mod 2 ^ 8"

text \<open>The conversion of a \<open>size_t\<close> to the 32-bit \<open>int\<close> of a return value.\<close>

definition to_int32 :: "nat \<Rightarrow> int" where
  "to_int32 n = (let k = int n mod 2 ^ 32 in if k < 2 ^ 31 then k else k - 2 ^ 32)"

lemma size_sub_le [c_mem]: "b \<le> a \<Longrightarrow> a < 2 ^ 32 \<Longrightarrow> size_sub a b = a - b"
  by (simp add: size_sub_def nat_diff_distrib nat_mod_distrib flip: of_nat_diff)

lemma size_sub_wrap: "a < b \<Longrightarrow> b \<le> 2 ^ 32 \<Longrightarrow> size_sub a b = 2 ^ 32 - (b - a)"
proof -
  assume *: "a < b" "b \<le> 2 ^ 32"
  have "(int a - int b) mod 2 ^ 32 = (int a - int b + 2 ^ 32) mod 2 ^ 32"
    by simp
  also have "\<dots> = int a - int b + 2 ^ 32"
    using * by (intro mod_pos_pos_trivial) auto
  also have "\<dots> = int (2 ^ 32 - (b - a))"
    using * by (simp add: of_nat_diff)
  finally show ?thesis by (simp add: size_sub_def)
qed

lemma size_add_less [c_mem]: "a + b < 2 ^ 32 \<Longrightarrow> size_add a b = a + b"
  by (simp add: size_add_def)

lemma to_uint16_less [c_mem]: "n < 2 ^ 16 \<Longrightarrow> to_uint16 n = n"
  by (simp add: to_uint16_def)

lemma to_uint8_less [c_mem]: "n < 2 ^ 8 \<Longrightarrow> to_uint8 n = n"
  by (simp add: to_uint8_def)

lemma unat_byte_less: "unat (w :: byte) < 256"
  using unsigned_less [of w, where 'a = nat] by simp

lemma unat_u16_less: "unat (w :: u16) < 65536"
  using unsigned_less [of w, where 'a = nat] by simp

lemma to_int32_small [c_mem]: "n < 2 ^ 31 \<Longrightarrow> to_int32 n = int n"
proof -
  assume "n < 2 ^ 31"
  then have "int n < 2 ^ 31" "int n < 2 ^ 32" by simp_all
  then show ?thesis by (simp add: to_int32_def Let_def)
qed

text \<open>The division of C truncates.\<close>

lemma sdiv_nonneg: "0 \<le> (x :: int) \<Longrightarrow> 0 < k \<Longrightarrow> x sdiv k = x div k"
  by (cases "x = 0") (simp_all add: signed_divide_int_def)

lemma sdiv_minus: "(- x) sdiv k = - (x sdiv k)" for x k :: int
  by (simp add: signed_divide_int_def sgn_minus)

section \<open>Calls that do not return\<close>

text \<open>
  \<open>OutOfBounds\<close>: the C code reads or writes outside an object; \<open>NullPointer\<close>: it uses a
  null pointer (a failed \<open>malloc\<close>, a callback that was never set). Both are undefined
  behaviour. \<open>Uninitialised\<close>: it compares memory nothing was written to.
  \<open>Blocked\<close>: the code waits for an event that never comes. \<open>DivisionByZero\<close>: it divides an integer by zero. A computation that
  can do either has the type \<open>fault + 'a\<close>; \<open>andthen\<close> runs the next step of the code only when
  the one before it returned.
\<close>

datatype fault = OutOfBounds | NullPointer | Uninitialised | Blocked | DivisionByZero

fun andthen :: "fault + 'a \<Rightarrow> ('a \<Rightarrow> fault + 'b) \<Rightarrow> fault + 'b" where
  "andthen (Inl e) f = Inl e"
| "andthen (Inr x) f = f x"

lemma andthen_Inr_iff:
  "andthen m f = Inr y \<longleftrightarrow> (\<exists>x. m = Inr x \<and> f x = Inr y)"
  by (cases m) auto

lemma andthen_InrE:
  assumes "andthen m f = Inr y"
  obtains x where "m = Inr x" "f x = Inr y"
  using assms by (cases m) auto

lemma andthen_cong [fundef_cong]:
  "m = m' \<Longrightarrow> (\<And>x. m' = Inr x \<Longrightarrow> f x = f' x) \<Longrightarrow> andthen m f = andthen m' f'"
  by (cases m') auto

section \<open>Buffers\<close>

text \<open>
  \<open>overwrite buf off xs\<close> is the buffer \<open>buf\<close> with the bytes \<open>xs\<close> written at offset \<open>off\<close>.
  \<open>memcpy_at\<close> is the C call: it is undefined when the bytes do not fit.
\<close>

definition overwrite :: "'a list \<Rightarrow> nat \<Rightarrow> 'a list \<Rightarrow> 'a list" where
  "overwrite buf off xs = take off buf @ xs @ drop (off + length xs) buf"

definition memcpy_at :: "'a list \<Rightarrow> nat \<Rightarrow> 'a list \<Rightarrow> fault + 'a list" where
  "memcpy_at buf off xs =
     (if off + length xs \<le> length buf then Inr (overwrite buf off xs) else Inl OutOfBounds)"

text \<open>\<open>read_at buf off n\<close>: the \<open>n\<close> bytes at offset \<open>off\<close>, undefined outside the object.\<close>

definition read_at :: "'a list \<Rightarrow> nat \<Rightarrow> nat \<Rightarrow> fault + 'a list" where
  "read_at buf off n =
     (if off + n \<le> length buf then Inr (take n (drop off buf)) else Inl OutOfBounds)"

lemma length_overwrite [c_mem]: "off + length xs \<le> length buf \<Longrightarrow> length (overwrite buf off xs) = length buf"
  by (simp add: overwrite_def)

lemma memcpy_at_Inr [c_mem]:
  "off + length xs \<le> length buf \<Longrightarrow> memcpy_at buf off xs = Inr (overwrite buf off xs)"
  by (simp add: memcpy_at_def)

lemma memcpy_at_length: "memcpy_at buf off xs = Inr buf' \<Longrightarrow> length buf' = length buf"
  by (auto simp: memcpy_at_def length_overwrite split: if_splits)

lemma take_overwrite_prefix [c_mem]:
  "n \<le> off \<Longrightarrow> off \<le> length buf \<Longrightarrow> take n (overwrite buf off xs) = take n buf"
  by (simp add: overwrite_def)

lemma take_overwrite_all [c_mem]:
  "off + length xs \<le> length buf \<Longrightarrow>
   take (off + length xs) (overwrite buf off xs) = take off buf @ xs"
  by (simp add: overwrite_def)

lemma overwrite_0 [c_mem]: "overwrite buf 0 xs = xs @ drop (length xs) buf"
  by (simp add: overwrite_def)

lemma read_at_Inr [c_mem]: "off + n \<le> length buf \<Longrightarrow> read_at buf off n = Inr (take n (drop off buf))"
  by (simp add: read_at_def)

section \<open>C strings\<close>

text \<open>
  A string is the bytes of the object that holds it; it ends before the first 0 byte.
  \<open>strnlen\<close> looks at no more than \<open>n\<close> bytes; \<open>strncpy\<close> gives the \<open>n\<close> bytes it writes
  (padded with 0); \<open>strncmp_eq\<close> is the test \<open>strncmp(a, b, n) == 0\<close>.
\<close>

definition cstr :: "bytes \<Rightarrow> bytes" where
  "cstr s = takeWhile (\<lambda>c. c \<noteq> 0) s"

definition strnlen :: "bytes \<Rightarrow> nat \<Rightarrow> nat" where
  "strnlen s n = length (takeWhile (\<lambda>c. c \<noteq> 0) (take n s))"

definition strncpy_bytes :: "bytes \<Rightarrow> nat \<Rightarrow> bytes" where
  "strncpy_bytes s n = take n (cstr s) @ replicate (n - length (cstr s)) 0"

definition strncmp_eq :: "bytes \<Rightarrow> bytes \<Rightarrow> nat \<Rightarrow> bool" where
  "strncmp_eq a b n \<longleftrightarrow> take n (cstr a) = take n (cstr b)"

text \<open>String literals, and what \<open>snprintf\<close> writes for \<open>%02X\<close> and \<open>%u\<close>.\<close>

definition chars :: "string \<Rightarrow> bytes" where
  "chars s = map of_char s"

definition hex_digit :: "byte \<Rightarrow> byte" where
  "hex_digit d = (if d < 10 then 0x30 + d else 0x41 + (d - 10))"

definition hex2 :: "byte \<Rightarrow> bytes" where
  "hex2 b = [hex_digit (drop_bit 4 b), hex_digit (b AND 0xF)]"

fun decimal_text :: "nat \<Rightarrow> bytes" where
  "decimal_text n = (if n < 10 then [0x30 + word_of_nat n] else decimal_text (n div 10) @ [0x30 + word_of_nat (n mod 10)])"

declare decimal_text.simps [simp del]

lemma strnlen_le [c_mem]: "strnlen s n \<le> n"
  unfolding strnlen_def by (rule order_trans [OF length_takeWhile_le]) simp

lemma strnlen_le_length [c_mem]: "strnlen s n \<le> length s"
  unfolding strnlen_def by (rule order_trans [OF length_takeWhile_le]) simp

lemma length_strncpy_bytes [c_mem]: "length (strncpy_bytes s n) = n"
  by (simp add: strncpy_bytes_def)

lemma takeWhile_take: "takeWhile P (take n xs) = take n (takeWhile P xs)"
  by (induction xs arbitrary: n) (auto simp: take_Cons split: nat.splits)

lemma strnlen_eq: "strnlen s n = min n (length (cstr s))"
  by (simp add: strnlen_def cstr_def takeWhile_take min.commute)

lemma cstr_strncpy: "cstr (strncpy_bytes s n) = take n (cstr s)"
proof -
  have "\<forall>c\<in>set (take n (cstr s)). c \<noteq> 0"
    by (auto simp: cstr_def dest!: in_set_takeD set_takeWhileD)
  then show ?thesis
    unfolding strncpy_bytes_def by (subst (1) cstr_def) (simp add: takeWhile_append takeWhile_replicate)
qed

lemma strncmp_strncpy: "strncmp_eq a (strncpy_bytes b n) n \<longleftrightarrow> strncmp_eq a b n"
  by (simp add: strncmp_eq_def cstr_strncpy)

section \<open>Little-endian memory layout\<close>

definition le16 :: "u16 \<Rightarrow> bytes" where
  "le16 w = [ucast w, ucast (drop_bit 8 w)]"

definition of_le16 :: "bytes \<Rightarrow> u16" where
  "of_le16 bs = (case bs of a # b # _ \<Rightarrow> ucast a OR push_bit 8 (ucast b) | _ \<Rightarrow> 0)"

definition le32 :: "u32 \<Rightarrow> bytes" where
  "le32 w = [ucast w, ucast (drop_bit 8 w), ucast (drop_bit 16 w), ucast (drop_bit 24 w)]"

definition of_le32 :: "bytes \<Rightarrow> u32" where
  "of_le32 bs = (case bs of a # b # c # d # _ \<Rightarrow>
       ucast a OR push_bit 8 (ucast b) OR push_bit 16 (ucast c) OR push_bit 24 (ucast d)
     | _ \<Rightarrow> 0)"

lemma length_le16 [simp]: "length (le16 w) = 2"
  by (simp add: le16_def)

lemma length_le32 [simp]: "length (le32 w) = 4"
  by (simp add: le32_def)

lemma of_le16_le16 [simp]: "of_le16 (le16 w @ xs) = w"
  by (simp add: of_le16_def le16_def, rule bit_word_eqI) (auto simp: bit_simps)

lemma of_le16_le16_nil [simp]: "of_le16 (le16 w) = w"
  using of_le16_le16 [of w "[]"] by simp

lemma of_le32_le32 [simp]: "of_le32 (le32 w @ xs) = w"
proof (rule bit_word_eqI)
  fix n assume "n < LENGTH(32)"
  have "24 \<le> n \<Longrightarrow> 24 + (n - 24) = n" "16 \<le> n \<Longrightarrow> 16 + (n - 16) = n" by simp_all
  with \<open>n < LENGTH(32)\<close> show "bit (of_le32 (le32 w @ xs)) n \<longleftrightarrow> bit w n"
    by (cases "n < 16"; cases "n < 24") (auto simp: of_le32_def le32_def bit_simps)
qed

lemma of_le32_le32_nil [simp]: "of_le32 (le32 w) = w"
  using of_le32_le32 [of w "[]"] by simp

end
