(* ===== verification/Crc16.thy ===== *)
theory Crc16
  imports Signpost_Prelude
begin

text \<open>
  The CRC of the processing API: \<open>signpost/apps/libsignpost/CRC16.c\<close>. The file has two
  versions of \<open>CRC16_Calc\<close>: the table lookup that is compiled (\<open>CRC16_Calc\<close> here) and
  the bit-serial one behind \<open>#else\<close> (\<open>CRC16_Calc_bitwise\<close>). The data pointer and the
  length of the C functions are one list here.

  The lemmas show that the two versions agree, that \<open>CRC16_Check\<close> accepts a block exactly when
  its last two bytes are the complemented CRC of the rest, and that every error confined to
  two consecutive bytes changes the CRC. They come from two facts about the shift register,
  linearity and injectivity, stated once in a locale.
\<close>

section \<open>The code\<close>

definition CRC16_INIT_VALUE :: u16 where "CRC16_INIT_VALUE = 0xFFFF"
definition CRC16_GOOD_VALUE :: u16 where "CRC16_GOOD_VALUE = 0x0F47"
definition CRC16_POLYNOM :: u16 where "CRC16_POLYNOM = 0x8408"

definition CRC16_Table :: "u16 list" where
  "CRC16_Table = [
    0x0000, 0x1189, 0x2312, 0x329b, 0x4624, 0x57ad, 0x6536, 0x74bf,
    0x8c48, 0x9dc1, 0xaf5a, 0xbed3, 0xca6c, 0xdbe5, 0xe97e, 0xf8f7,
    0x1081, 0x0108, 0x3393, 0x221a, 0x56a5, 0x472c, 0x75b7, 0x643e,
    0x9cc9, 0x8d40, 0xbfdb, 0xae52, 0xdaed, 0xcb64, 0xf9ff, 0xe876,
    0x2102, 0x308b, 0x0210, 0x1399, 0x6726, 0x76af, 0x4434, 0x55bd,
    0xad4a, 0xbcc3, 0x8e58, 0x9fd1, 0xeb6e, 0xfae7, 0xc87c, 0xd9f5,
    0x3183, 0x200a, 0x1291, 0x0318, 0x77a7, 0x662e, 0x54b5, 0x453c,
    0xbdcb, 0xac42, 0x9ed9, 0x8f50, 0xfbef, 0xea66, 0xd8fd, 0xc974,
    0x4204, 0x538d, 0x6116, 0x709f, 0x0420, 0x15a9, 0x2732, 0x36bb,
    0xce4c, 0xdfc5, 0xed5e, 0xfcd7, 0x8868, 0x99e1, 0xab7a, 0xbaf3,
    0x5285, 0x430c, 0x7197, 0x601e, 0x14a1, 0x0528, 0x37b3, 0x263a,
    0xdecd, 0xcf44, 0xfddf, 0xec56, 0x98e9, 0x8960, 0xbbfb, 0xaa72,
    0x6306, 0x728f, 0x4014, 0x519d, 0x2522, 0x34ab, 0x0630, 0x17b9,
    0xef4e, 0xfec7, 0xcc5c, 0xddd5, 0xa96a, 0xb8e3, 0x8a78, 0x9bf1,
    0x7387, 0x620e, 0x5095, 0x411c, 0x35a3, 0x242a, 0x16b1, 0x0738,
    0xffcf, 0xee46, 0xdcdd, 0xcd54, 0xb9eb, 0xa862, 0x9af9, 0x8b70,
    0x8408, 0x9581, 0xa71a, 0xb693, 0xc22c, 0xd3a5, 0xe13e, 0xf0b7,
    0x0840, 0x19c9, 0x2b52, 0x3adb, 0x4e64, 0x5fed, 0x6d76, 0x7cff,
    0x9489, 0x8500, 0xb79b, 0xa612, 0xd2ad, 0xc324, 0xf1bf, 0xe036,
    0x18c1, 0x0948, 0x3bd3, 0x2a5a, 0x5ee5, 0x4f6c, 0x7df7, 0x6c7e,
    0xa50a, 0xb483, 0x8618, 0x9791, 0xe32e, 0xf2a7, 0xc03c, 0xd1b5,
    0x2942, 0x38cb, 0x0a50, 0x1bd9, 0x6f66, 0x7eef, 0x4c74, 0x5dfd,
    0xb58b, 0xa402, 0x9699, 0x8710, 0xf3af, 0xe226, 0xd0bd, 0xc134,
    0x39c3, 0x284a, 0x1ad1, 0x0b58, 0x7fe7, 0x6e6e, 0x5cf5, 0x4d7c,
    0xc60c, 0xd785, 0xe51e, 0xf497, 0x8028, 0x91a1, 0xa33a, 0xb2b3,
    0x4a44, 0x5bcd, 0x6956, 0x78df, 0x0c60, 0x1de9, 0x2f72, 0x3efb,
    0xd68d, 0xc704, 0xf59f, 0xe416, 0x90a9, 0x8120, 0xb3bb, 0xa232,
    0x5ac5, 0x4b4c, 0x79d7, 0x685e, 0x1ce1, 0x0d68, 0x3ff3, 0x2e7a,
    0xe70e, 0xf687, 0xc41c, 0xd595, 0xa12a, 0xb0a3, 0x8238, 0x93b1,
    0x6b46, 0x7acf, 0x4854, 0x59dd, 0x2d62, 0x3ceb, 0x0e70, 0x1ff9,
    0xf78f, 0xe606, 0xd49d, 0xc514, 0xb1ab, 0xa022, 0x92b9, 0x8330,
    0x7bc7, 0x6a4e, 0x58d5, 0x495c, 0x3de3, 0x2c6a, 0x1ef1, 0x0f78]"

definition crc16_table_step :: "u16 \<Rightarrow> byte \<Rightarrow> u16" where
  "crc16_table_step crc b =
     drop_bit 8 crc XOR CRC16_Table ! unat ((crc XOR ucast b) AND 0x00FF)"

definition CRC16_Calc :: "bytes \<Rightarrow> u16 \<Rightarrow> u16" where
  "CRC16_Calc data initVal = foldl crc16_table_step initVal data"

text \<open>The bit-serial version: the inner loop runs \<open>bits\<close> times over \<open>(crc, byte)\<close>.\<close>

fun crc16_bits :: "nat \<Rightarrow> u16 \<Rightarrow> byte \<Rightarrow> u16" where
  "crc16_bits 0 crc byte = crc"
| "crc16_bits (Suc bits) crc byte =
     crc16_bits bits
       (if (ucast (byte AND 1) :: u16) XOR (crc AND 1) \<noteq> 0
        then drop_bit 1 crc XOR CRC16_POLYNOM else drop_bit 1 crc)
       (drop_bit 1 byte)"

definition CRC16_Calc_bitwise :: "bytes \<Rightarrow> u16 \<Rightarrow> u16" where
  "CRC16_Calc_bitwise data initVal = foldl (crc16_bits 8) initVal data"

definition CRC16_Check :: "bytes \<Rightarrow> u16 \<Rightarrow> bool" where
  "CRC16_Check data initVal \<longleftrightarrow> NOT (CRC16_Calc data initVal) = CRC16_GOOD_VALUE"

section \<open>Linear shift registers\<close>

text \<open>
  A register whose step distributes over XOR and maps nothing but 0 to 0. Everything the CRC
  proofs need about runs of the register follows from these two laws.
\<close>

locale linear_register =
  fixes g :: "u16 \<Rightarrow> u16"
  assumes g_xor: "g (x XOR y) = g x XOR g y"
    and g_kernel: "g x = 0 \<Longrightarrow> x = 0"
begin

lemma g_zero: "g 0 = 0"
  using g_xor [of 0 0] by simp

lemma run_xor: "(g ^^ n) (x XOR y) = (g ^^ n) x XOR (g ^^ n) y"
  by (induction n) (simp_all add: g_xor)

lemma run_zero: "(g ^^ n) 0 = 0"
  by (induction n) (simp_all add: g_zero)

lemma run_kernel: "(g ^^ n) x = 0 \<Longrightarrow> x = 0"
  by (induction n) (auto dest: g_kernel)

lemma run_inj: "(g ^^ n) x = (g ^^ n) y \<longleftrightarrow> x = y"
proof
  assume "(g ^^ n) x = (g ^^ n) y"
  then have "(g ^^ n) (x XOR y) = 0" by (simp add: run_xor)
  then have "x XOR y = 0" by (rule run_kernel)
  then have "(x XOR y) XOR y = 0 XOR y" by (rule arg_cong)
  then show "x = y" by (simp add: xor.assoc)
qed simp

end

definition crc_shift :: "u16 \<Rightarrow> u16" where
  "crc_shift x = (if bit x 0 then drop_bit 1 x XOR CRC16_POLYNOM else drop_bit 1 x)"

lemma bit_polynom_15: "bit CRC16_POLYNOM 15"
  by (simp add: CRC16_POLYNOM_def)

lemma crc_shift_15: "bit (crc_shift x) 15 \<longleftrightarrow> bit x 0"
proof -
  have "\<not> bit x 16" using bit_imp_le_length [of x 16] by auto
  then show ?thesis using bit_polynom_15 by (simp add: crc_shift_def bit_drop_bit_eq bit_xor_iff)
qed

lemma crc_shift_kernel: "crc_shift x = 0 \<Longrightarrow> x = 0"
proof (rule bit_word_eqI)
  fix n assume z: "crc_shift x = 0" and n: "n < LENGTH(16)"
  have b0: "\<not> bit x 0" using z crc_shift_15 [of x] by simp
  then have "drop_bit 1 x = 0" using z by (simp only: crc_shift_def if_False)
  then have "\<not> bit (drop_bit 1 x) (n - 1)" by simp
  then show "bit x n \<longleftrightarrow> bit (0::u16) n"
    using b0 n by (cases n) (simp_all add: bit_drop_bit_eq)
qed

lemma crc_shift_xor: "crc_shift (x XOR y) = crc_shift x XOR crc_shift y"
proof (rule bit_word_eqI)
  fix n assume "n < LENGTH(16)"
  show "bit (crc_shift (x XOR y)) n \<longleftrightarrow> bit (crc_shift x XOR crc_shift y) n"
    by (cases "bit x 0"; cases "bit y 0") (simp_all add: crc_shift_def bit_xor_iff bit_drop_bit_eq, blast+)
qed

interpretation crc: linear_register crc_shift
  by unfold_locales (auto simp: crc_shift_xor dest: crc_shift_kernel)

lemma of_nat_add_exp_xor:
  assumes "j < 2 ^ k"
  shows "(of_nat (j + 2 ^ k) :: u16) = of_nat j XOR of_nat (2 ^ k)"
proof -
  have "\<not> bit j k" using assms by (simp add: bit_iff_odd)
  then have "j AND 2 ^ k = 0" by (simp add: and_exp_eq_0_iff_not_bit)
  then have "j + 2 ^ k = j XOR 2 ^ k" by (rule disjunctive_add_eq_xor)
  then show ?thesis by (simp only: of_nat_xor_eq)
qed

text \<open>Eight steps of the register: one byte of data.\<close>

definition crc_byte :: "u16 \<Rightarrow> u16" where 
  "crc_byte x = (crc_shift ^^ 8) x"

lemma crc_byte_table_double:
  assumes "L = map (\<lambda>i. crc_byte (of_nat i)) [0..<2 ^ k]"
  shows "L @ map (\<lambda>x. x XOR crc_byte (of_nat (2 ^ k))) L
    = map (\<lambda>i. crc_byte (of_nat i)) [0..<2 ^ Suc k]"
proof -
  have "[0..<2 ^ Suc k] = [0..<2 ^ k] @ map (\<lambda>j. j + 2 ^ k) [0..<(2::nat) ^ k]"
    by (simp add: map_add_upt upt_add_eq_append [of 0] mult_2)
  moreover have "map (\<lambda>j. crc_byte (of_nat (j + 2 ^ k))) [0..<2 ^ k]
      = map (\<lambda>x. x XOR crc_byte (of_nat (2 ^ k))) L"
    unfolding assms map_map comp_def
    by (rule map_cong [OF refl]) (simp only: set_upt atLeastLessThan_iff of_nat_add_exp_xor crc_byte_def crc.run_xor)
  ultimately show ?thesis by (simp add: assms comp_def)
qed

lemma funpow_8: "(f ^^ 8) x = f (f (f (f (f (f (f (f x)))))))"
  by (simp add: eval_nat_numeral)

lemma crc_byte_basis:
  "crc_byte 0 = 0" "crc_byte 1 = 0x1189" "crc_byte 2 = 0x2312" "crc_byte 4 = 0x4624" "crc_byte 8 = 0x8c48"
  "crc_byte 16 = 0x1081" "crc_byte 32 = 0x2102" "crc_byte 64 = 0x4204" "crc_byte 128 = 0x8408"
  unfolding crc_byte_def funpow_8 by (simp_all add: crc_shift_def CRC16_POLYNOM_def)
lemma crc16_table_entries:
  "CRC16_Table = map (\<lambda>i. crc_byte (of_nat i)) [0..<256]"
proof -
  define f where "f k L = L @ map (\<lambda>x. x XOR crc_byte (of_nat (2 ^ k))) L" for k :: nat and L
  have step: "f k (map (\<lambda>i. crc_byte (of_nat i)) [0..<2 ^ k]) = map (\<lambda>i. crc_byte (of_nat i)) [0..<2 ^ Suc k]" for k
    unfolding f_def by (rule crc_byte_table_double [OF refl])
  have "map (\<lambda>i. crc_byte (of_nat i)) [0..<2 ^ 8] = f 7 (f 6 (f 5 (f 4 (f 3 (f 2 (f 1 (f 0 [crc_byte 0])))))))"
    using step [of 0] step [of 1] step [of 2] step [of 3] step [of 4] step [of 5] step [of 6] step [of 7]
    by (simp only: Suc_numeral) simp
  also have "\<dots> = CRC16_Table"
    by (simp add: f_def crc_byte_basis CRC16_Table_def)
  finally show ?thesis by simp
qed

section \<open>The bit-serial loop and the table step are the same register\<close>

lemma crc16_bits_register:
  "crc16_bits n crc byte = (crc_shift ^^ n) (crc XOR ucast byte) XOR ucast (drop_bit n byte)"
proof (induction n arbitrary: crc byte)
  case 0
  show ?case by (simp add: xor.assoc)
next
  case (Suc n)
  have b0: "(ucast (byte AND 1) :: u16) XOR (crc AND 1) \<noteq> 0 \<longleftrightarrow> bit (crc XOR ucast byte) 0"
  proof -
    have r: "bit (crc XOR ucast byte) 0 \<longleftrightarrow> bit crc 0 \<noteq> bit byte 0"
      by (simp only: bit_xor_iff bit_unsigned_iff) simp
    show ?thesis unfolding r
      by (cases "odd byte"; cases "odd crc") (simp_all add: and_one_eq mod_2_eq_odd bit_0)
  qed
  have sh: "drop_bit 1 (crc XOR ucast byte) = drop_bit 1 crc XOR (ucast (drop_bit 1 byte) :: u16)"
    by (rule bit_word_eqI) (auto simp: bit_simps dest: bit_imp_le_length)
  let ?crc' = "if (ucast (byte AND 1) :: u16) XOR (crc AND 1) \<noteq> 0
        then drop_bit 1 crc XOR CRC16_POLYNOM else drop_bit 1 crc"
  have step: "?crc' XOR ucast (drop_bit 1 byte) = crc_shift (crc XOR ucast byte)"
    unfolding crc_shift_def b0 sh by (simp add: xor.assoc xor.commute xor.left_commute)
  have "crc16_bits (Suc n) crc byte = crc16_bits n ?crc' (drop_bit 1 byte)" by simp
  also have "\<dots> = (crc_shift ^^ n) (crc_shift (crc XOR ucast byte)) XOR ucast (drop_bit n (drop_bit 1 byte))"
    by (simp only: Suc.IH step)
  also have "\<dots> = (crc_shift ^^ Suc n) (crc XOR ucast byte) XOR ucast (drop_bit (Suc n) byte)"
    by (simp add: funpow_swap1 drop_bit_Suc)
  finally show ?case .
qed

lemma crc16_bits_8: "crc16_bits 8 crc byte = crc_byte (crc XOR ucast byte)"
proof -
  have "drop_bit 8 byte = 0" by (rule bit_word_eqI) (auto simp: bit_simps dest: bit_imp_le_length)
  then show ?thesis by (simp only: crc16_bits_register crc_byte_def) simp
qed

lemma crc_shift_low_clear:
  "(\<And>i. i < n \<Longrightarrow> \<not> bit x i) \<Longrightarrow> (crc_shift ^^ n) x = drop_bit n x"
proof (induction n)
  case (Suc n)
  then have "(crc_shift ^^ n) x = drop_bit n x" by simp
  moreover have "\<not> bit (drop_bit n x) 0" using Suc.prems [of n] by (simp add: bit_drop_bit_eq)
  ultimately show ?case
    by (simp only: funpow.simps o_apply) (simp add: crc_shift_def drop_bit_drop_bit)
qed simp

lemma crc_shift_8_split:
  "crc_byte x = crc_byte (x AND 0x00FF) XOR drop_bit 8 x"
proof -
  have mask: "(0x00FF :: u16) = mask 8" by (simp add: mask_eq_exp_minus_1)
  have split: "x = (x AND 0x00FF) XOR push_bit 8 (drop_bit 8 x)"
    unfolding mask by (rule bit_word_eqI) (auto simp: bit_simps)
  have "(crc_shift ^^ 8) (push_bit 8 (drop_bit 8 x)) = drop_bit 8 (push_bit 8 (drop_bit 8 x))"
    by (rule crc_shift_low_clear) (simp add: bit_simps)
  also have "\<dots> = drop_bit 8 x" by (rule bit_word_eqI) (auto simp: bit_simps dest: bit_imp_le_length)
  finally show ?thesis by (subst split) (simp only: crc.run_xor crc_byte_def)
qed

lemma crc16_table_step_byte: "crc16_table_step crc b = crc_byte (crc XOR ucast b)"
proof -
  let ?x = "crc XOR ucast b"
  have le: "?x AND 0x00FF \<le> 0x00FF" by (rule word_and_le1)
  then have lt: "unat (?x AND 0x00FF) < 256"
    by (simp add: word_le_nat_alt)
  then have "CRC16_Table ! unat (?x AND 0x00FF) = crc_byte (?x AND 0x00FF)"
    by (simp add: crc16_table_entries)
  moreover have "drop_bit 8 crc = drop_bit 8 ?x"
    by (rule bit_word_eqI) (auto simp: bit_simps dest: bit_imp_le_length)
  ultimately show ?thesis
    by (simp add: crc16_table_step_def crc_shift_8_split [of ?x] xor.commute)
qed

lemma crc_byte_xor: "crc_byte (x XOR y) = crc_byte x XOR crc_byte y"
  by (simp add: crc_byte_def crc.run_xor)

lemma crc_byte_inj: "crc_byte x = crc_byte y \<longleftrightarrow> x = y"
  by (simp add: crc_byte_def crc.run_inj)

lemma crc_byte_high: "crc_byte (push_bit 8 (ucast (b :: byte))) = ucast b"
proof -
  have "crc_byte (push_bit 8 (ucast b)) = drop_bit 8 (push_bit 8 (ucast b) :: u16)"
    unfolding crc_byte_def by (rule crc_shift_low_clear) (simp add: bit_simps)
  also have "\<dots> = ucast b" by (rule bit_word_eqI) (auto simp: bit_simps dest: bit_imp_le_length)
  finally show ?thesis .
qed

lemma xor_cancel_right: "(x :: u16) XOR z = y XOR z \<longleftrightarrow> x = y"
proof
  assume "x XOR z = y XOR z"
  then have "(x XOR z) XOR z = (y XOR z) XOR z" by (rule arg_cong)
  then show "x = y" by (simp add: xor.assoc)
qed simp

lemma CRC16_Calc_append: "CRC16_Calc (xs @ ys) c = CRC16_Calc ys (CRC16_Calc xs c)"
  by (simp add: CRC16_Calc_def)

lemma CRC16_Calc_Nil: "CRC16_Calc [] c = c"
  by (simp add: CRC16_Calc_def)

lemma CRC16_Calc_Cons: "CRC16_Calc (b # bs) c = CRC16_Calc bs (crc_byte (c XOR ucast b))"
  by (simp add: CRC16_Calc_def crc16_table_step_byte)

lemmas CRC16_Calc_steps = CRC16_Calc_append CRC16_Calc_Nil CRC16_Calc_Cons

lemma CRC16_Calc_inj: "CRC16_Calc bs c = CRC16_Calc bs c' \<longleftrightarrow> c = c'"
  by (induction bs arbitrary: c c') (simp_all add: CRC16_Calc_steps crc_byte_inj xor_cancel_right)

text \<open>Two bytes fed to the register are one 16-bit word, low byte first.\<close>

lemma crc_byte_pair:
  "crc_byte (crc_byte (c XOR ucast a) XOR ucast b) = crc_byte (crc_byte (c XOR of_le16 [a, b]))"
proof -
  have "of_le16 [a, b] = ucast a XOR push_bit 8 (ucast b)"
    by (simp add: of_le16_def, rule bit_word_eqI) (auto simp: bit_simps dest: bit_imp_le_length)
  then have "crc_byte (c XOR of_le16 [a, b]) = crc_byte (c XOR ucast a) XOR ucast b"
    by (simp add: crc_byte_xor crc_byte_high xor.assoc [symmetric])
  then show ?thesis by simp
qed

lemma of_le16_pair_inj: "of_le16 [a, b] = of_le16 [a', b'] \<longleftrightarrow> a = a' \<and> b = b'"
proof
  assume *: "of_le16 [a, b] = of_le16 [a', b']"
  have inv: "le16 (of_le16 [x, y]) = [x, y]" for x y
  proof -
    let ?w = "ucast x OR push_bit 8 (ucast y) :: u16"
    have "ucast ?w = x" by (rule bit_word_eqI) (auto simp: bit_simps)
    moreover have "ucast (drop_bit 8 ?w) = y"
      by (rule bit_word_eqI) (auto simp: bit_simps dest: bit_imp_le_length)
    ultimately show ?thesis by (simp add: le16_def of_le16_def)
  qed
  have "[a, b] = le16 (of_le16 [a, b])" by (rule inv [symmetric])
  also have "\<dots> = le16 (of_le16 [a', b'])" by (simp only: *)
  also have "\<dots> = [a', b']" by (rule inv)
  finally show "a = a' \<and> b = b'" by simp
qed simp

section \<open>Properties\<close>

text \<open>C1: the table-driven \<open>CRC16_Calc\<close> that is compiled computes the same value as the
  bit-serial version kept behind \<open>#else\<close>, for every block and every initial value.\<close>

theorem crc16_table_is_bitwise: "CRC16_Calc data initVal = CRC16_Calc_bitwise data initVal"
  unfolding CRC16_Calc_def CRC16_Calc_bitwise_def
  by (induction data arbitrary: initVal) (simp_all only: foldl.simps crc16_table_step_byte crc16_bits_8)

text \<open>\<open>CRC16_Check\<close> accepts a block exactly when its last two bytes are the one's
  complement of the CRC of the bytes before them, low byte first.\<close>

theorem crc16_check_iff:
  "CRC16_Check (data @ [lo, hi]) initVal \<longleftrightarrow> [lo, hi] = le16 (NOT (CRC16_Calc data initVal))"
proof -
  let ?c = "CRC16_Calc data initVal" and ?w = "of_le16 [lo, hi]"
  have res: "crc_byte (crc_byte 0xFFFF) = NOT CRC16_GOOD_VALUE"
    unfolding crc_byte_def funpow_8 by (simp add: crc_shift_def CRC16_POLYNOM_def CRC16_GOOD_VALUE_def)
  have "CRC16_Check (data @ [lo, hi]) initVal \<longleftrightarrow> crc_byte (crc_byte (?c XOR ?w)) = crc_byte (crc_byte 0xFFFF)"
    unfolding res CRC16_Check_def CRC16_Calc_steps crc_byte_pair by (metis bit.double_compl)
  also have "\<dots> \<longleftrightarrow> ?c XOR ?w = 0xFFFF" by (simp only: crc_byte_inj)
  also have "\<dots> \<longleftrightarrow> ?w = NOT ?c"
  proof -
    have "(0xFFFF :: u16) = -1" by simp
    then have "(0xFFFF :: u16) = NOT ?c XOR ?c"
      by (simp only:) (rule bit_word_eqI, simp only: bit_simps, simp)
    then show ?thesis using xor_cancel_right [of ?w ?c "NOT ?c"] by (simp only: xor.commute)
  qed
  also have "\<dots> \<longleftrightarrow> [lo, hi] = le16 (NOT ?c)"
  proof
    assume "?w = NOT ?c"
    then have "of_le16 [lo, hi] = of_le16 (le16 (NOT ?c))" by simp
    then show "[lo, hi] = le16 (NOT ?c)" by (simp add: le16_def of_le16_pair_inj)
  qed (simp add: of_le16_le16_nil)
  finally show ?thesis .
qed

text \<open>Two consecutive bytes are one word of the register, so two blocks that differ there have different CRCs.\<close>

lemma crc16_separates_two_bytes:
  assumes "(a, b) \<noteq> (a', b')"
  shows "CRC16_Calc (pre @ [a, b] @ post) initVal \<noteq> CRC16_Calc (pre @ [a', b'] @ post) initVal"
proof -
  have "c XOR of_le16 [a, b] \<noteq> c XOR of_le16 [a', b']" for c
    using assms xor_cancel_right [of "of_le16 [a, b]" c "of_le16 [a', b']"]
    by (auto simp: of_le16_pair_inj xor.commute)
  then show ?thesis
    by (simp add: CRC16_Calc_steps CRC16_Calc_inj crc_byte_inj crc_byte_pair)
qed

text \<open>C3: a block followed by the complement of its CRC, low byte first, passes \<open>CRC16_Check\<close>; when at most two consecutive
  bytes of it are changed, wherever they lie (in the data, in the CRC, or across the two), the check refuses it.\<close>

theorem crc16_check_catches_two_byte_errors:
  assumes "data @ le16 (NOT (CRC16_Calc data initVal)) = pre @ [a, b] @ post" "(a', b') \<noteq> (a, b)"
  shows "CRC16_Check (pre @ [a, b] @ post) initVal \<and> \<not> CRC16_Check (pre @ [a', b'] @ post) initVal"
proof -
  let ?crc = "NOT (CRC16_Calc data initVal)"
  have ok: "CRC16_Check (data @ le16 ?crc) initVal"
    using crc16_check_iff [of data "ucast ?crc" "ucast (drop_bit 8 ?crc)"] by (simp add: le16_def)
  moreover have "CRC16_Calc (pre @ [a', b'] @ post) initVal \<noteq> CRC16_Calc (pre @ [a, b] @ post) initVal"
    using assms(2) by (rule crc16_separates_two_bytes)
  ultimately show ?thesis
    unfolding assms(1) CRC16_Check_def by (metis bit.double_compl)
qed

theorem crc16_check_catches_two_byte_errors_witness:
  "CRC16_Check ([0x31] @ [0x32, 0x33] @ le16 (NOT (CRC16_Calc [0x31, 0x32, 0x33] CRC16_INIT_VALUE))) CRC16_INIT_VALUE \<and>
   \<not> CRC16_Check ([0x31] @ [0x33, 0x32] @ le16 (NOT (CRC16_Calc [0x31, 0x32, 0x33] CRC16_INIT_VALUE))) CRC16_INIT_VALUE"
  using crc16_check_catches_two_byte_errors [of "[0x31, 0x32, 0x33]" CRC16_INIT_VALUE "[0x31]" "0x32" "0x33"
      "le16 (NOT (CRC16_Calc [0x31, 0x32, 0x33] CRC16_INIT_VALUE))" "0x33" "0x32"]
  by simp

end
