(* ===== verification/Signpost_Port.thy ===== *)
theory Signpost_Port
  imports Signpost_Prelude
begin

text \<open>
  The platform interface \<open>signpost/apps/libsignpost/port_signpost.h\<close>. What a platform does
  is not fixed by that file, so it is part of the environment: the record \<open>env\<close> holds, for
  each kind of call, the list of results the platform will give (a call past the end of its list
  succeeds), and the log of what the library did to the platform. Every theorem about a send or
  an initialisation holds for every such script.
\<close>

section \<open>Error codes\<close>

definition PORT_SUCCESS :: int where "PORT_SUCCESS = 0"
definition PORT_FAIL :: int where "PORT_FAIL = -1"
definition PORT_EBUSY :: int where "PORT_EBUSY = -2"
definition PORT_EINVAL :: int where "PORT_EINVAL = -6"
definition PORT_ESIZE :: int where "PORT_ESIZE = -7"
definition PORT_ENOMEM :: int where "PORT_ENOMEM = -9"
definition PORT_ENOSUPPORT :: int where "PORT_ENOSUPPORT = -10"
definition PORT_ENOACK :: int where "PORT_ENOACK = -13"
definition PORT_EI2C_WRITE :: int where "PORT_EI2C_WRITE = -100"
definition PORT_ECRYPT :: int where "PORT_ECRYPT = -101"
definition PORT_ENOSAT :: int where "PORT_ENOSAT = -102"

lemmas port_codes =
  PORT_SUCCESS_def PORT_FAIL_def PORT_EBUSY_def PORT_EINVAL_def PORT_ESIZE_def PORT_ENOMEM_def
  PORT_ENOSUPPORT_def PORT_ENOACK_def PORT_EI2C_WRITE_def PORT_ECRYPT_def PORT_ENOSAT_def

definition PORT_I2C_MAX_LEN :: nat where "PORT_I2C_MAX_LEN = 255"

section \<open>The platform as an environment\<close>

datatype pin_op =
    ModOutSet | ModOutClear | LedOn | LedOff | DelayMs nat
  | ModInRead | EnableRising | EnableFalling | InitI2c byte | RngInit | RngSync

record env =
  wr_rcs :: "int list"
  wr_log :: "(byte \<times> bytes) list"
  rd_log :: "bytes list"
  listen_rcs :: "int list"
  pin_rcs :: "int list"
  pin_log :: "pin_op list"
  malloc_rcs :: "bool list"
  drbg_count :: nat

definition clean_env :: env where
  "clean_env = \<lparr>wr_rcs = [], wr_log = [], rd_log = [], listen_rcs = [], pin_rcs = [], pin_log = [],
     malloc_rcs = [], drbg_count = 0\<rparr>"

fun pop :: "'a \<Rightarrow> 'a list \<Rightarrow> 'a \<times> 'a list" where
  "pop d [] = (d, [])"
| "pop d (r # rs) = (r, rs)"

text \<open>
  A blocking bus write gives the number of bytes sent or an error code; \<open>wr_log\<close> holds the
  writes that reached the bus, oldest first.
\<close>

definition port_signpost_i2c_master_write :: "byte \<Rightarrow> bytes \<Rightarrow> env \<Rightarrow> int \<times> env" where
  "port_signpost_i2c_master_write addr buf e =
     (let (rc, rcs) = pop (int (length buf)) (wr_rcs e)
      in (rc, e\<lparr>wr_rcs := rcs, wr_log := (if rc < 0 then wr_log e else wr_log e @ [(addr, buf)])\<rparr>))"

definition port_signpost_i2c_slave_listen :: "env \<Rightarrow> int \<times> env" where
  "port_signpost_i2c_slave_listen e =
     (let (rc, rcs) = pop PORT_SUCCESS (listen_rcs e) in (rc, e\<lparr>listen_rcs := rcs\<rparr>))"

definition port_signpost_i2c_slave_read_setup :: "bytes \<Rightarrow> env \<Rightarrow> env" where
  "port_signpost_i2c_slave_read_setup buf e = e\<lparr>rd_log := rd_log e @ [buf]\<rparr>"

definition port_pin :: "pin_op \<Rightarrow> env \<Rightarrow> int \<times> env" where
  "port_pin op e =
     (let (rc, rcs) = pop PORT_SUCCESS (pin_rcs e)
      in (rc, e\<lparr>pin_rcs := rcs, pin_log := pin_log e @ [op]\<rparr>))"

definition port_signpost_delay_ms :: "nat \<Rightarrow> env \<Rightarrow> env" where
  "port_signpost_delay_ms ms e = e\<lparr>pin_log := pin_log e @ [DelayMs ms]\<rparr>"

definition env_malloc :: "env \<Rightarrow> bool \<times> env" where
  "env_malloc e = (let (ok, oks) = pop True (malloc_rcs e) in (ok, e\<lparr>malloc_rcs := oks\<rparr>))"

text \<open>A platform on which the coming bus writes and listens all succeed.\<close>

definition bus_ok :: "env \<Rightarrow> bool" where
  "bus_ok e \<longleftrightarrow> wr_rcs e = [] \<and> listen_rcs e = []"

lemma bus_ok_clean [simp]: "bus_ok clean_env"
  by (simp add: bus_ok_def clean_env_def)

lemma master_write_ok:
  "wr_rcs e = [] \<Longrightarrow> port_signpost_i2c_master_write a buf e = (int (length buf), e\<lparr>wr_log := wr_log e @ [(a, buf)]\<rparr>)"
  by (simp add: port_signpost_i2c_master_write_def)

lemma slave_listen_ok:
  "listen_rcs e = [] \<Longrightarrow> port_signpost_i2c_slave_listen e = (PORT_SUCCESS, e)"
  by (simp add: port_signpost_i2c_slave_listen_def)

end
