(* ===== verification/Signbus_Io.thy ===== *)
theory Signbus_Io
  imports Signpost_Port
begin

text \<open>
  The network layer of the bus: \<open>signpost/apps/libsignpost/signbus_io_interface.c\<close>. A
  message is cut into packets of at most 255 bytes, each with an 8-byte header; the receiver puts
  the fragments of one message together by their offsets.

  The file-level statics are the fields of \<open>io_state\<close>. The buffer, the two result cells and the
  callback that an asynchronous receive points to are fields too (\<open>async_recv_buf\<close>,
  \<open>async_encrypted\<close>, \<open>async_src_address\<close>, \<open>async_callback\<close>). Packets come from a list of
  bus events: \<open>get_message\<close> blocks while it waits for the next fragment, so it takes the
  events it needs from the list and returns the rest; it is \<open>Inl Blocked\<close> when they run
  out, and \<open>Inl OutOfBounds\<close> when one of its \<open>memcpy\<close> calls leaves its object.
\<close>

section \<open>Packets\<close>

definition HEADER_LEN :: nat where "HEADER_LEN = 8"
definition MAX_DATA_LEN :: nat where "MAX_DATA_LEN = PORT_I2C_MAX_LEN - HEADER_LEN"

lemma max_data_len [simp]: "MAX_DATA_LEN = 247"
  by (simp add: MAX_DATA_LEN_def PORT_I2C_MAX_LEN_def HEADER_LEN_def)

text \<open>
  The header as it lies in memory: the 16-bit fields hold the values after \<open>htons\<close>. The
  bit fields of the flag byte are, from bit 0: fragment, encrypted, two reserved, version.
\<close>

record packet =
  flags_storage :: byte
  psrc :: byte
  psequence_number :: u16
  plength :: u16
  pfragment_offset :: u16
  pdata :: bytes

definition htons :: "u16 \<Rightarrow> u16" where
  "htons x = push_bit 8 (x AND 0x00FF) OR drop_bit 8 (x AND 0xFF00)"

definition set_is_fragment :: "bool \<Rightarrow> byte \<Rightarrow> byte" where
  "set_is_fragment b f = (f AND 0xFE) OR (if b then 0x01 else 0)"

definition set_is_encrypted :: "bool \<Rightarrow> byte \<Rightarrow> byte" where
  "set_is_encrypted b f = (f AND 0xFD) OR (if b then 0x02 else 0)"

definition set_version :: "byte \<Rightarrow> byte \<Rightarrow> byte" where
  "set_version v f = (f AND 0x0F) OR push_bit 4 v"

definition is_fragment :: "packet \<Rightarrow> bool" where
  "is_fragment p \<longleftrightarrow> bit (flags_storage p) 0"

definition is_encrypted :: "packet \<Rightarrow> bool" where
  "is_encrypted p \<longleftrightarrow> bit (flags_storage p) 1"

definition packet_version :: "packet \<Rightarrow> byte" where
  "packet_version p = drop_bit 4 (flags_storage p)"

definition packet_bytes :: "packet \<Rightarrow> bytes" where
  "packet_bytes p = [flags_storage p, psrc p] @ le16 (psequence_number p) @ le16 (plength p)
     @ le16 (pfragment_offset p) @ pdata p"

text \<open>\<open>memcpy(&packet, packet_buf, PORT_I2C_MAX_LEN)\<close>\<close>

definition packet_of_bytes :: "bytes \<Rightarrow> packet" where
  "packet_of_bytes bs = \<lparr>flags_storage = bs ! 0, psrc = bs ! 1,
     psequence_number = of_le16 (drop 2 bs), plength = of_le16 (drop 4 bs),
     pfragment_offset = of_le16 (drop 6 bs), pdata = take MAX_DATA_LEN (drop 8 bs)\<rparr>"

definition zero_packet :: packet where
  "zero_packet = \<lparr>flags_storage = 0, psrc = 0, psequence_number = 0, plength = 0,
     pfragment_offset = 0, pdata = replicate MAX_DATA_LEN 0\<rparr>"

section \<open>State\<close>

datatype io_callback = ProtocolAsyncCallback | OtherIoCallback nat

record io_state =
  this_device_address :: byte
  sequence_number :: u16
  newpkt_new :: bool
  newpkt_len :: byte
  slave_write_buf :: bytes
  packet_buf :: bytes
  async_active :: bool
  async_recv_buf :: bytes
  async_encrypted :: bool
  async_src_address :: byte
  async_callback :: "io_callback option"
  slave_read_data_bytes_remaining :: nat
  slave_read_data_len :: nat
  readPacket :: packet
  slave_read_data :: bytes
  slave_read_callback :: "io_callback option"

definition io_boot :: io_state where
  "io_boot = \<lparr>this_device_address = 0, sequence_number = 0, newpkt_new = False, newpkt_len = 0,
     slave_write_buf = replicate PORT_I2C_MAX_LEN 0, packet_buf = replicate PORT_I2C_MAX_LEN 0,
     async_active = False, async_recv_buf = [], async_encrypted = False, async_src_address = 0,
     async_callback = None, slave_read_data_bytes_remaining = 0, slave_read_data_len = 0,
     readPacket = zero_packet, slave_read_data = [], slave_read_callback = None\<rparr>"

definition signbus_io_init :: "byte \<Rightarrow> io_state \<Rightarrow> env \<Rightarrow> io_state \<times> env" where
  "signbus_io_init address s e =
     (s\<lparr>this_device_address := address\<rparr>, snd (port_pin (InitI2c address) e))"

section \<open>Sending\<close>

text \<open>The number of packets is a \<open>uint16_t\<close>.\<close>

definition num_packets :: "nat \<Rightarrow> nat" where
  "num_packets len =
     to_uint16 (if len mod MAX_DATA_LEN \<noteq> 0 then len div MAX_DATA_LEN + 1 else len div MAX_DATA_LEN)"

definition message_header :: "bool \<Rightarrow> nat \<Rightarrow> io_state \<Rightarrow> packet \<Rightarrow> packet" where
  "message_header encrypted len s p = p\<lparr>
     flags_storage := set_version 0x01 (set_is_encrypted encrypted (flags_storage p)),
     psrc := this_device_address s,
     psequence_number := htons (sequence_number s),
     plength := htons (word_of_nat (num_packets len * HEADER_LEN + len))\<rparr>"

text \<open>One pass of the \<open>while (toSend > 0)\<close> loop sends one packet.\<close>

definition fill_packet :: "bytes \<Rightarrow> nat \<Rightarrow> packet \<Rightarrow> packet" where
  "fill_packet data toSend p =
     (let morePackets = toSend > MAX_DATA_LEN;
          offset = to_uint16 (length data - toSend);
          n = (if morePackets then MAX_DATA_LEN else toSend)
      in p\<lparr>flags_storage := set_is_fragment morePackets (flags_storage p),
           pfragment_offset := htons (word_of_nat offset),
           pdata := overwrite (pdata p) 0 (take n (drop offset data))\<rparr>)"

function io_send_loop :: "byte \<Rightarrow> bytes \<Rightarrow> packet \<Rightarrow> nat \<Rightarrow> env \<Rightarrow> int \<times> env" where
  "io_send_loop dest data p toSend e =
     (if toSend = 0 then (to_int32 (length data), e)
      else
        let p' = fill_packet data toSend p;
            morePackets = toSend > MAX_DATA_LEN;
            n = (if morePackets then PORT_I2C_MAX_LEN else HEADER_LEN + toSend);
            (rc, e') = port_signpost_i2c_master_write dest (take n (packet_bytes p')) e
        in if rc < 0 then (rc, e')
           else io_send_loop dest data p' (if morePackets then toSend - MAX_DATA_LEN else 0) e')"
  by pat_completeness auto
termination
  by (relation "measure (\<lambda>(dest, data, p, toSend, e). toSend)") auto

declare io_send_loop.simps [simp del]

definition signbus_io_send :: "byte \<Rightarrow> bool \<Rightarrow> bytes \<Rightarrow> io_state \<Rightarrow> env \<Rightarrow> int \<times> io_state \<times> env" where
  "signbus_io_send dest encrypted data s e =
     (let s' = s\<lparr>sequence_number := sequence_number s + 1\<rparr>;
          p = message_header encrypted (length data) s' zero_packet;
          (rc, e') = io_send_loop dest data p (length data) e
      in (rc, s', e'))"

section \<open>Receiving\<close>

datatype io_event = SlaveWrite bytes | SlaveError int

text \<open>
  A bus master writes to this device: the driver puts at most 255 bytes into
  \<open>slave_write_buf\<close> and calls \<open>signbus_io_slave_write_callback\<close> with their number or an
  error. \<open>io_arrival\<close> is the part of that callback before it looks at \<open>async_active\<close>.
\<close>

fun io_arrival :: "io_event \<Rightarrow> io_state \<Rightarrow> io_state" where
  "io_arrival (SlaveError rc) s = s"
| "io_arrival (SlaveWrite bs) s =
     (let buf = overwrite (slave_write_buf s) 0 (take PORT_I2C_MAX_LEN bs);
          len = length (take PORT_I2C_MAX_LEN bs)
      in s\<lparr>slave_write_buf := buf,
           packet_buf := overwrite (packet_buf s) 0 (take len buf),
           newpkt_new := True,
           newpkt_len := word_of_nat len\<rparr>)"

text \<open>The locals of \<open>get_message\<close> that live across packets, and the cells it writes.\<close>

record rx =
  rx_data :: bytes
  rx_received :: nat
  rx_sequence_number :: u16
  rx_source_address :: byte
  rx_encrypted :: bool
  rx_src :: byte

definition copy_fragment :: "packet \<Rightarrow> nat \<Rightarrow> nat \<Rightarrow> rx \<Rightarrow> fault + rx" where
  "copy_fragment p off n r =
     andthen (read_at (pdata p) 0 n) (\<lambda>xs.
     andthen (memcpy_at (rx_data r) off xs) (\<lambda>d.
     Inr (r\<lparr>rx_data := d, rx_received := rx_received r + n\<rparr>)))"

definition rx_packet :: "packet \<Rightarrow> byte \<Rightarrow> rx \<Rightarrow> fault + rx \<times> bool" where
  "rx_packet p pktlen r =
     (if rx_received r \<noteq> 0 \<and>
         \<not> (rx_sequence_number r = psequence_number p \<and> rx_source_address r = psrc p)
      then Inr (r, False)
      else
        let r1 = (if rx_received r = 0
                  then r\<lparr>rx_sequence_number := psequence_number p,
                         rx_source_address := psrc p,
                         rx_encrypted := is_encrypted p\<rparr>
                  else r);
            r2 = r1\<lparr>rx_src := psrc p\<rparr>;
            len = length (rx_data r);
            fragmentOffset = unat (htons (pfragment_offset p));
            remainder = to_uint16 (size_sub len fragmentOffset);
            payload = size_sub (unat pktlen) HEADER_LEN
        in if is_fragment p
           then if fragmentOffset + MAX_DATA_LEN > len
                then andthen (copy_fragment p fragmentOffset remainder r2) (\<lambda>r3. Inr (r3, True))
                else andthen (copy_fragment p fragmentOffset MAX_DATA_LEN r2) (\<lambda>r3. Inr (r3, False))
           else if size_add fragmentOffset payload > len
                then andthen (copy_fragment p fragmentOffset remainder r2) (\<lambda>r3. Inr (r3, True))
                else andthen (copy_fragment p fragmentOffset payload r2) (\<lambda>r3. Inr (r3, True)))"

text \<open>\<open>port_signpost_wait_for(&newpkt.new)\<close>: take events until the flag is set.\<close>

fun wait_for_packet :: "io_event list \<Rightarrow> io_state \<Rightarrow> (io_state \<times> io_event list) option" where
  "wait_for_packet [] s = (if newpkt_new s then Some (s, []) else None)"
| "wait_for_packet (ev # evs) s =
     (if newpkt_new s then Some (s, ev # evs) else wait_for_packet evs (io_arrival ev s))"

lemma wait_for_packet_less:
  "wait_for_packet evs s = Some (s', evs') \<Longrightarrow>
   2 * length evs' < 2 * length evs + (if newpkt_new s then 1 else 0)"
  by (induction evs s rule: wait_for_packet.induct) (auto split: if_splits)

function get_message_loop ::
  "io_event list \<Rightarrow> io_state \<Rightarrow> rx \<Rightarrow> fault + rx \<times> io_state \<times> io_event list" where
  "get_message_loop evs s r =
     (case wait_for_packet evs s of
        None \<Rightarrow> Inl Blocked
      | Some (s1, evs1) \<Rightarrow>
          let s2 = s1\<lparr>newpkt_new := False\<rparr>
          in andthen (rx_packet (packet_of_bytes (packet_buf s2)) (newpkt_len s2) r) (\<lambda>(r', done).
             if done then Inr (r', s2, evs1) else get_message_loop evs1 s2 r'))"
  by pat_completeness auto
termination
  by (relation "measure (\<lambda>(evs, s, r). 2 * length evs + (if newpkt_new s then 1 else 0))")
     (auto dest: wait_for_packet_less)

declare get_message_loop.simps [simp del]

text \<open>
  The whole of \<open>get_message\<close>: what it received, the callback it has to call with
  \<open>lengthReceived\<close> (its last act), the state and the events that are left. The cells it
  starts from (\<open>*encrypted\<close>, \<open>*src\<close>) are arguments.
\<close>

definition get_message ::
  "io_event list \<Rightarrow> bytes \<Rightarrow> bool \<Rightarrow> byte \<Rightarrow> io_state
     \<Rightarrow> fault + rx \<times> io_callback option \<times> io_state \<times> io_event list" where
  "get_message evs data encrypted src s =
     andthen (get_message_loop evs (s\<lparr>async_active := False\<rparr>)
               \<lparr>rx_data = data, rx_received = 0, rx_sequence_number = 0, rx_source_address = 0,
                rx_encrypted = encrypted, rx_src = src\<rparr>) (\<lambda>(r, s', evs').
     Inr (r, async_callback s', s'\<lparr>async_callback := None\<rparr>, evs'))"

text \<open>
  The callback of the driver. When an asynchronous receive is active it runs
  \<open>get_message\<close> on the registered buffer and cells; the result names the callback to run
  (with the received length) after the state is updated.
\<close>

definition signbus_io_slave_write_callback ::
  "io_event \<Rightarrow> io_event list \<Rightarrow> io_state
     \<Rightarrow> fault + (io_callback \<times> nat) option \<times> io_state \<times> io_event list" where
  "signbus_io_slave_write_callback ev evs s =
     (let s1 = io_arrival ev s
      in case ev of
           SlaveError rc \<Rightarrow> Inr (None, s1, evs)
         | SlaveWrite bs \<Rightarrow>
             if async_active s1
             then andthen (get_message evs (async_recv_buf s1) (async_encrypted s1)
                            (async_src_address s1) s1) (\<lambda>(r, cb, s2, evs').
                  Inr (map_option (\<lambda>c. (c, rx_received r)) cb,
                       s2\<lparr>async_recv_buf := rx_data r, async_encrypted := rx_encrypted r,
                          async_src_address := rx_src r\<rparr>, evs'))
             else Inr (None, s1, evs))"

definition signbus_io_recv ::
  "io_event list \<Rightarrow> bytes \<Rightarrow> bool \<Rightarrow> byte \<Rightarrow> io_state \<Rightarrow> env
     \<Rightarrow> fault + (int \<times> rx option \<times> io_callback option \<times> io_state \<times> io_event list \<times> env)" where
  "signbus_io_recv evs recv_buf encrypted src s e =
     (let (rc, e') = port_signpost_i2c_slave_listen e
      in if rc < 0 then Inr (rc, None, None, s, evs, e')
         else andthen (get_message evs recv_buf encrypted src s) (\<lambda>(r, cb, s', evs').
              Inr (to_int32 (rx_received r), Some r, cb, s', evs', e')))"

definition signbus_io_recv_async ::
  "io_callback \<Rightarrow> bytes \<Rightarrow> bool \<Rightarrow> byte \<Rightarrow> io_state \<Rightarrow> env \<Rightarrow> int \<times> io_state \<times> env" where
  "signbus_io_recv_async callback recv_buf encrypted src s e =
     (let (rc, e') = port_signpost_i2c_slave_listen e
      in (rc, s\<lparr>async_callback := Some callback, async_recv_buf := recv_buf,
                async_src_address := src, async_encrypted := encrypted, async_active := True\<rparr>, e'))"

section \<open>Slave reads\<close>

text \<open>
  A bus master reads from this device: each call hands the driver the next fragment of the
  buffer given to \<open>signbus_io_set_read_buffer\<close>. The result names the callback to run.
\<close>

definition read_fragment :: "io_state \<Rightarrow> env \<Rightarrow> fault + io_state \<times> env" where
  "read_fragment s e =
     (let fragment = slave_read_data_bytes_remaining s > MAX_DATA_LEN;
          offset = to_uint16 (size_sub (slave_read_data_len s) (slave_read_data_bytes_remaining s));
          data_len = (if fragment then MAX_DATA_LEN else slave_read_data_bytes_remaining s);
          p = readPacket s
      in andthen (read_at (slave_read_data s) offset data_len) (\<lambda>xs.
         let p' = p\<lparr>flags_storage := set_is_fragment fragment (flags_storage p),
                    pfragment_offset := htons (word_of_nat offset),
                    pdata := overwrite (pdata p) 0 xs\<rparr>
         in Inr (s\<lparr>readPacket := p',
                   slave_read_data_bytes_remaining := slave_read_data_bytes_remaining s - data_len\<rparr>,
                 port_signpost_i2c_slave_read_setup (packet_bytes p') e)))"

function signbus_iterate_slave_read :: "io_state \<Rightarrow> env \<Rightarrow> fault + io_callback option \<times> io_state \<times> env" where
  "signbus_iterate_slave_read s e =
     (if slave_read_data_bytes_remaining s > 0
      then andthen (read_fragment s e) (\<lambda>(s', e'). Inr (None, s', e'))
      else if slave_read_callback s = None \<and> slave_read_data_len s > 0
      then signbus_iterate_slave_read (s\<lparr>slave_read_data_bytes_remaining := slave_read_data_len s\<rparr>) e
      else case slave_read_callback s of
             None \<Rightarrow> Inl NullPointer
           | Some cb \<Rightarrow> Inr (Some cb, s, e))"
  by pat_completeness auto
termination
  by (relation "measure (\<lambda>(s, e). if slave_read_data_bytes_remaining s > 0 then 0 else 1)") auto

declare signbus_iterate_slave_read.simps [simp del]

definition signbus_io_set_read_buffer ::
  "bytes \<Rightarrow> nat \<Rightarrow> io_state \<Rightarrow> env \<Rightarrow> fault + int \<times> io_callback option \<times> io_state \<times> env" where
  "signbus_io_set_read_buffer data len s e =
     (let (rc, e') = port_signpost_i2c_slave_listen e
      in if rc < 0 then Inr (rc, None, s, e')
         else
           let s1 = s\<lparr>sequence_number := sequence_number s + 1, slave_read_data_len := len,
                      slave_read_data := data, slave_read_data_bytes_remaining := len\<rparr>;
               p = readPacket s1;
               p' = p\<lparr>flags_storage := set_version 0x01 (flags_storage p),
                      psrc := this_device_address s1,
                      psequence_number := htons (sequence_number s1),
                      plength := htons (word_of_nat (num_packets len * HEADER_LEN + len))\<rparr>
           in andthen (signbus_iterate_slave_read (s1\<lparr>readPacket := p'\<rparr>) e') (\<lambda>(cb, s2, e2).
              Inr (PORT_SUCCESS, cb, s2, e2)))"

definition signbus_io_set_read_callback :: "io_callback \<Rightarrow> io_state \<Rightarrow> io_state" where
  "signbus_io_set_read_callback cb s = s\<lparr>slave_read_callback := Some cb\<rparr>"

end
