(* ===== verification/Codec.thy ===== *)
theory Codec
  imports Main
begin

text \<open>
  The interface of an encoder and its decoder. Every wire format of the system (fragments on
  the bus, sealed datagrams, application messages, serial frames) is one of these, and a
  protocol stack is a stack of them: the laws of the stack follow from the laws of its parts.
\<close>

locale codec =
  fixes encode :: "'a \<Rightarrow> 'b"
    and decode :: "'b \<Rightarrow> 'a option"
    and valid :: "'a \<Rightarrow> bool"
  assumes decode_encode: "valid x \<Longrightarrow> decode (encode x) = Some x"
begin

lemma encode_eq_iff: "valid x \<Longrightarrow> valid y \<Longrightarrow> encode x = encode y \<longleftrightarrow> x = y"
  by (metis decode_encode option.inject)

lemma encode_inj: "inj_on encode {x. valid x}"
  by (auto simp: inj_on_def encode_eq_iff)

lemma decode_all: "\<forall>x\<in>set xs. valid x \<Longrightarrow> map (decode \<circ> encode) xs = map Some xs"
  by (simp add: decode_encode)

lemma decoded_is_sent: "valid x \<Longrightarrow> decode (encode x) = Some y \<Longrightarrow> y = x"
  by (simp add: decode_encode)

end

locale codec_stack =
  upper: codec encode1 decode1 valid1 + lower: codec encode2 decode2 valid2
  for encode1 :: "'a \<Rightarrow> 'b" and decode1 :: "'b \<Rightarrow> 'a option" and valid1 :: "'a \<Rightarrow> bool"
    and encode2 :: "'b \<Rightarrow> 'c" and decode2 :: "'c \<Rightarrow> 'b option" and valid2 :: "'b \<Rightarrow> bool" +
  assumes fits: "valid1 x \<Longrightarrow> valid2 (encode1 x)"

sublocale codec_stack \<subseteq> stack: codec "\<lambda>x. encode2 (encode1 x)" "\<lambda>y. Option.bind (decode2 y) decode1" valid1
  by unfold_locales (simp add: fits upper.decode_encode lower.decode_encode)

end
