(* ===== verification/Signbus_Link.thy ===== *)
theory Signbus_Link
  imports Signbus_Io Codec
begin

text \<open>
  What the network layer of \<open>signbus_io_interface.c\<close> promises: \<open>signbus_io_send\<close> puts the
  fragments of a message on the bus, one frame each, and \<open>get_message\<close> puts them together
  again, whatever other traffic comes between them. The contract of the two is
  \<open>fragments\<close> and \<open>frame_bytes\<close>.
\<close>

section \<open>The fragments of a message\<close>

text \<open>
  The contract of \<open>signbus_io_send\<close>: a message is the list of its fragments (offset, more to
  come, bytes), and each fragment is one frame on the wire.
\<close>

function fragments :: "nat \<Rightarrow> bytes \<Rightarrow> (nat \<times> bool \<times> bytes) list" where
  "fragments off data =
     (if data = [] then []
      else (off, length data > MAX_DATA_LEN, take MAX_DATA_LEN data)
             # fragments (off + MAX_DATA_LEN) (drop MAX_DATA_LEN data))"
  by pat_completeness auto
termination by (relation "measure (\<lambda>(off, data). length data)") auto

declare fragments.simps [simp del]

definition frame_flags :: "bool \<Rightarrow> bool \<Rightarrow> byte" where
  "frame_flags encrypted mf = 0x10 OR (if encrypted then 0x02 else 0) OR (if mf then 0x01 else 0)"

fun frame_bytes :: "byte \<Rightarrow> u16 \<Rightarrow> bool \<Rightarrow> u16 \<Rightarrow> nat \<times> bool \<times> bytes \<Rightarrow> bytes" where
  "frame_bytes src sq encrypted tot (off, mf, chunk) =
     [frame_flags encrypted mf, src] @ le16 (htons sq) @ le16 (htons tot)
       @ le16 (htons (word_of_nat off)) @ chunk"

definition message_total :: "nat \<Rightarrow> u16" where
  "message_total len = word_of_nat (num_packets len * HEADER_LEN + len)"

lemma header_flags:
  "set_is_fragment mf (set_version 1 (set_is_encrypted enc 0)) = frame_flags enc mf"
  by (simp add: set_is_fragment_def set_version_def set_is_encrypted_def frame_flags_def)

lemma set_is_fragment_twice: "set_is_fragment m (set_is_fragment m' f) = set_is_fragment m f"
  by (rule bit_word_eqI) (auto simp: set_is_fragment_def bit_simps)

lemma set_is_fragment_flags: "set_is_fragment m (frame_flags enc m') = frame_flags enc m"
  by (simp only: header_flags [symmetric] set_is_fragment_twice)

lemma bit_frame_flags:
  "bit (frame_flags enc mf) 0 \<longleftrightarrow> mf" "bit (frame_flags enc mf) (Suc 0) \<longleftrightarrow> enc"
  by (auto simp: frame_flags_def)

lemma htons_htons: "htons (htons x) = x"
proof (rule bit_word_eqI)
  fix n assume n: "n < LENGTH(16)"
  have m: "(0x00FF :: u16) = mask 8" "(0xFF00 :: u16) = push_bit 8 (mask 8)"
    by (simp_all add: mask_eq_exp_minus_1)
  have "n \<ge> 8 \<Longrightarrow> n - 8 + 8 = n" "n < 8 \<Longrightarrow> n + 8 - 8 = n" by simp_all
  with n show "bit (htons (htons x)) n \<longleftrightarrow> bit x n"
    unfolding htons_def m by (cases "n < 8") (auto simp: bit_simps)
qed

lemma length_frame_bytes [simp]: "length (frame_bytes src sq enc tot (off, mf, chunk)) = 8 + length chunk"
  by simp

section \<open>Sending\<close>

text \<open>The packet the loop carries from one pass to the next: only these parts matter.\<close>

definition carries :: "byte \<Rightarrow> u16 \<Rightarrow> bool \<Rightarrow> u16 \<Rightarrow> packet \<Rightarrow> bool" where
  "carries src sq enc tot p \<longleftrightarrow> psrc p = src \<and> psequence_number p = htons sq \<and> plength p = htons tot
     \<and> length (pdata p) = MAX_DATA_LEN
     \<and> (\<forall>m. set_is_fragment m (flags_storage p) = frame_flags enc m)"

lemma carries_message_header:
  "carries (this_device_address s) (sequence_number s) enc (message_total len)
     (message_header enc len s zero_packet)"
  by (simp add: carries_def message_header_def zero_packet_def message_total_def header_flags)

lemma carries_fill:
  assumes "carries src sq enc tot p" "toSend \<le> length data" "length data < 2 ^ 16" "0 < toSend"
  shows "carries src sq enc tot (fill_packet data toSend p)"
    and "take (if toSend > MAX_DATA_LEN then PORT_I2C_MAX_LEN else HEADER_LEN + toSend)
           (packet_bytes (fill_packet data toSend p))
         = frame_bytes src sq enc tot (length data - toSend, toSend > MAX_DATA_LEN,
             take MAX_DATA_LEN (drop (length data - toSend) data))"
proof -
  let ?n = "if toSend > MAX_DATA_LEN then MAX_DATA_LEN else toSend"
  let ?chunk = "take ?n (drop (length data - toSend) data)"
  have off: "to_uint16 (length data - toSend) = length data - toSend"
    using assms by (simp add: to_uint16_def)
  have len: "length ?chunk = ?n" using assms by auto
  show "carries src sq enc tot (fill_packet data toSend p)"
    using assms len off
    by (auto simp: carries_def fill_packet_def Let_def set_is_fragment_flags length_overwrite)
  have chunk: "?chunk = take MAX_DATA_LEN (drop (length data - toSend) data)"
    using assms by auto
  define hdr where "hdr = [frame_flags enc (toSend > MAX_DATA_LEN), src] @ le16 (htons sq)
      @ le16 (htons tot) @ le16 (htons (word_of_nat (length data - toSend)))"
  have hdr: "length hdr = HEADER_LEN" by (simp add: hdr_def HEADER_LEN_def)
  have fields: "psrc p = src" "psequence_number p = htons sq" "plength p = htons tot"
    "set_is_fragment (toSend > MAX_DATA_LEN) (flags_storage p) = frame_flags enc (toSend > MAX_DATA_LEN)"
    using assms(1) by (auto simp: carries_def)
  have "fill_packet data toSend p = p\<lparr>flags_storage := frame_flags enc (toSend > MAX_DATA_LEN),
      pfragment_offset := htons (word_of_nat (length data - toSend)),
      pdata := ?chunk @ drop ?n (pdata p)\<rparr>"
    by (simp only: fill_packet_def Let_def off fields overwrite_0 len)
  then have "packet_bytes (fill_packet data toSend p) = hdr @ ?chunk @ drop ?n (pdata p)"
    by (simp add: packet_bytes_def hdr_def fields del: max_data_len)
  then have "take (if toSend > MAX_DATA_LEN then PORT_I2C_MAX_LEN else HEADER_LEN + toSend)
      (packet_bytes (fill_packet data toSend p)) = hdr @ ?chunk"
    using hdr len by (simp add: PORT_I2C_MAX_LEN_def HEADER_LEN_def del: take_drop)
  then show "take (if toSend > MAX_DATA_LEN then PORT_I2C_MAX_LEN else HEADER_LEN + toSend)
           (packet_bytes (fill_packet data toSend p))
         = frame_bytes src sq enc tot (length data - toSend, toSend > MAX_DATA_LEN,
             take MAX_DATA_LEN (drop (length data - toSend) data))"
    by (simp only: chunk hdr_def frame_bytes.simps append_assoc)
qed

text \<open>Frames go out in order, until one write fails.\<close>

fun write_all :: "byte \<Rightarrow> bytes list \<Rightarrow> int \<Rightarrow> env \<Rightarrow> int \<times> env" where
  "write_all dest [] n e = (n, e)"
| "write_all dest (b # bs) n e =
     (let (rc, e') = port_signpost_i2c_master_write dest b e
      in if rc < 0 then (rc, e') else write_all dest bs n e')"

definition io_frames :: "byte \<Rightarrow> u16 \<Rightarrow> bool \<Rightarrow> bytes \<Rightarrow> bytes list" where
  "io_frames src sq enc data = map (frame_bytes src sq enc (message_total (length data))) (fragments 0 data)"

lemma io_send_loop_frames:
  assumes "carries src sq enc tot p" "toSend \<le> length data" "length data < 2 ^ 16"
  shows "io_send_loop dest data p toSend e =
    write_all dest (map (frame_bytes src sq enc tot)
      (fragments (length data - toSend) (drop (length data - toSend) data))) (int (length data)) e"
  using assms
proof (induction dest data p toSend e rule: io_send_loop.induct)
  case (1 dest data p toSend e)
  show ?case
  proof (cases "toSend = 0")
    case True
    with "1.prems" show ?thesis
      by (simp add: io_send_loop.simps fragments.simps to_int32_small)
  next
    case False
    let ?off = "length data - toSend"
    let ?p = "fill_packet data toSend p"
    let ?n = "if toSend > MAX_DATA_LEN then PORT_I2C_MAX_LEN else HEADER_LEN + toSend"
    let ?next = "if toSend > MAX_DATA_LEN then toSend - MAX_DATA_LEN else 0"
    let ?f = "(?off, toSend > MAX_DATA_LEN, take MAX_DATA_LEN (drop ?off data))"
    obtain rc e' where wr: "port_signpost_i2c_master_write dest (frame_bytes src sq enc tot ?f) e = (rc, e')"
      by (cases "port_signpost_i2c_master_write dest (frame_bytes src sq enc tot ?f) e")
    have fill: "carries src sq enc tot ?p" "take ?n (packet_bytes ?p) = frame_bytes src sq enc tot ?f"
      using carries_fill [OF "1.prems"(1,2,3)] False by auto
    have fr: "fragments ?off (drop ?off data) = ?f # fragments (?off + MAX_DATA_LEN) (drop MAX_DATA_LEN (drop ?off data))"
      using False "1.prems"(2) by (subst fragments.simps) auto
    have nx: "fragments (length data - ?next) (drop (length data - ?next) data)
        = fragments (?off + MAX_DATA_LEN) (drop MAX_DATA_LEN (drop ?off data))"
      using "1.prems"(2) by (auto simp: fragments.simps [of _ "[]"] Suc_diff_le diff_diff_right add.commute)
    have step: "io_send_loop dest data p toSend e = (if rc < 0 then (rc, e') else io_send_loop dest data ?p ?next e')"
      using False unfolding io_send_loop.simps [of dest data p toSend e] Let_def fill wr by simp
    show ?thesis
    proof (cases "rc < 0")
      case True
      then show ?thesis unfolding step fr by (simp only: write_all.simps list.map wr) simp
    next
      case rc: False
      have "io_send_loop dest data ?p ?next e' = write_all dest (map (frame_bytes src sq enc tot)
          (fragments (length data - ?next) (drop (length data - ?next) data))) (int (length data)) e'"
        by (rule "1.IH" [OF False refl refl refl _ refl]) (use "1.prems" fill wr rc in \<open>auto simp: Let_def\<close>)
      then show ?thesis
        using rc unfolding step fr nx by (simp only: write_all.simps list.map wr) simp
    qed
  qed
qed

lemma write_all_ok:
  "wr_rcs e = [] \<Longrightarrow> write_all dest bs n e = (n, e\<lparr>wr_log := wr_log e @ map (Pair dest) bs\<rparr>)"
  by (induction bs arbitrary: e) (simp_all add: master_write_ok)

lemma signbus_io_send_write_all:
  assumes "length data < 2 ^ 16"
  shows "signbus_io_send dest enc data s e =
    (let (rc, e') = write_all dest (io_frames (this_device_address s) (sequence_number s + 1) enc data)
                      (int (length data)) e
     in (rc, s\<lparr>sequence_number := sequence_number s + 1\<rparr>, e'))"
  using io_send_loop_frames [OF carries_message_header
      [of "s\<lparr>sequence_number := sequence_number s + 1\<rparr>" enc "length data"], of "length data" data dest e] assms
  by (simp add: signbus_io_send_def Let_def io_frames_def)

lemma signbus_io_send_frames:
  assumes "length data < 2 ^ 16" "wr_rcs e = []"
  shows "signbus_io_send dest enc data s e =
    (int (length data), s\<lparr>sequence_number := sequence_number s + 1\<rparr>,
     e\<lparr>wr_log := wr_log e @ map (Pair dest)
        (io_frames (this_device_address s) (sequence_number s + 1) enc data)\<rparr>)"
  using assms by (simp add: signbus_io_send_write_all write_all_ok)

lemma fragments_chunks: "concat (map (\<lambda>(off, mf, chunk). chunk) (fragments off data)) = data"
  by (induction off data rule: fragments.induct) (subst fragments.simps, auto)

lemma fragments_sizes: "(o', mf, chunk) \<in> set (fragments off data) \<Longrightarrow> 0 < length chunk \<and> length chunk \<le> MAX_DATA_LEN"
  by (induction off data rule: fragments.induct) (subst (asm) (2) fragments.simps, auto split: if_splits)

lemma length_fragments: "length (fragments off data) = (length data + (MAX_DATA_LEN - 1)) div MAX_DATA_LEN"
proof (induction off data rule: fragments.induct)
  case (1 off data)
  show ?case
  proof (cases "data = []")
    case False
    then have "length (fragments off data) = Suc ((length data - 247 + 246) div 247)"
      using 1 by (subst fragments.simps) simp
    also have "\<dots> = (length data + 246) div 247"
    proof (cases "length data \<le> 247")
      case True
      have "(length data + 246) div 247 = 1"
        by (rule div_nat_eqI) (use True False in \<open>simp_all add: Suc_le_eq\<close>)
      with True show ?thesis by simp
    next
      case big: False
      then have "length data + 246 = (length data - 247 + 246) + 247" by simp
      then show ?thesis by (simp only: div_add_self2)
    qed
    finally show ?thesis by simp
  qed (simp add: fragments.simps)
qed

lemma write_all_fail:
  assumes "wr_rcs e = oks @ rc # later" "\<forall>k\<in>set oks. 0 \<le> k" "rc < 0" "length oks < length bs"
  shows "write_all dest bs n e
    = (rc, e\<lparr>wr_rcs := later, wr_log := wr_log e @ map (Pair dest) (take (length oks) bs)\<rparr>)"
  using assms
proof (induction oks arbitrary: bs e)
  case Nil
  then show ?case by (cases bs) (simp_all add: port_signpost_i2c_master_write_def)
next
  case (Cons k oks)
  then obtain b bs' where bs: "bs = b # bs'" by (cases bs) auto
  show ?case
    using Cons.prems Cons.IH [of "e\<lparr>wr_rcs := oks @ rc # later, wr_log := wr_log e @ [(dest, b)]\<rparr>" bs']
    by (simp add: bs port_signpost_i2c_master_write_def)
qed

lemma io_frames_payload: "concat (map (drop HEADER_LEN) (io_frames src sq enc data)) = data"
proof -
  have "concat (map (drop HEADER_LEN) (map (frame_bytes src sq enc tot) fs))
      = concat (map (\<lambda>(off, mf, chunk). chunk) fs)" for fs tot
    by (induction fs) (auto simp: HEADER_LEN_def le16_def)
  then show ?thesis by (simp add: io_frames_def fragments_chunks)
qed

lemma io_frames_sizes:
  "f \<in> set (io_frames src sq enc data) \<Longrightarrow> HEADER_LEN < length f \<and> length f \<le> PORT_I2C_MAX_LEN"
  using fragments_sizes by (fastforce simp: io_frames_def HEADER_LEN_def PORT_I2C_MAX_LEN_def)

lemma length_io_frames: "length (io_frames src sq enc data) = (length data + (MAX_DATA_LEN - 1)) div MAX_DATA_LEN"
  by (simp add: io_frames_def length_fragments)

section \<open>Receiving\<close>

definition io_wf :: "io_state \<Rightarrow> bool" where
  "io_wf s \<longleftrightarrow> length (slave_write_buf s) = PORT_I2C_MAX_LEN \<and> length (packet_buf s) = PORT_I2C_MAX_LEN"

lemma io_wf_arrival: "io_wf s \<Longrightarrow> io_wf (io_arrival ev s)"
  by (cases ev) (auto simp: io_wf_def Let_def length_overwrite)

lemma io_wf_update [simp]:
  "io_wf (s\<lparr>newpkt_new := b\<rparr>) = io_wf s" "io_wf (s\<lparr>async_active := b\<rparr>) = io_wf s"
  "io_wf (s\<lparr>async_callback := c\<rparr>) = io_wf s" "io_wf (s\<lparr>sequence_number := q\<rparr>) = io_wf s"
  "io_wf (s\<lparr>async_recv_buf := d\<rparr>) = io_wf s" "io_wf (s\<lparr>async_encrypted := b\<rparr>) = io_wf s"
  "io_wf (s\<lparr>async_src_address := a\<rparr>) = io_wf s" "io_wf (s\<lparr>this_device_address := a\<rparr>) = io_wf s"
  by (simp_all add: io_wf_def)

lemma io_wf_boot [simp]: "io_wf io_boot"
  by (simp add: io_wf_def io_boot_def)

lemma wait_for_arrival:
  "\<not> newpkt_new s \<Longrightarrow>
   wait_for_packet (SlaveWrite bs # evs) s = Some (io_arrival (SlaveWrite bs) s, evs)"
  by (cases evs) (simp_all add: Let_def)

lemma arrival_buffer:
  assumes "io_wf s" "length bs \<le> PORT_I2C_MAX_LEN"
  shows "\<exists>junk. packet_buf (io_arrival (SlaveWrite bs) s) = bs @ junk
      \<and> length junk = PORT_I2C_MAX_LEN - length bs"
    and "newpkt_len (io_arrival (SlaveWrite bs) s) = word_of_nat (length bs)"
  using assms by (auto simp: io_wf_def Let_def overwrite_0)

text \<open>What the receiver reads back from the packet buffer after a frame has arrived.\<close>

lemma packet_of_frame:
  assumes "io_wf s" "length chunk \<le> MAX_DATA_LEN"
    and p: "p = packet_of_bytes (packet_buf (io_arrival (SlaveWrite (frame_bytes src sq enc tot (off, mf, chunk))) s))"
  shows "is_fragment p = mf" "is_encrypted p = enc" "psrc p = src"
    "psequence_number p = htons sq" "htons (pfragment_offset p) = word_of_nat off"
    "take (length chunk) (pdata p) = chunk" "length (pdata p) = MAX_DATA_LEN"
proof -
  let ?bs = "frame_bytes src sq enc tot (off, mf, chunk)"
  have "length ?bs \<le> PORT_I2C_MAX_LEN" using assms(2) by (simp add: PORT_I2C_MAX_LEN_def)
  from arrival_buffer(1) [OF assms(1) this] obtain junk
    where b: "packet_buf (io_arrival (SlaveWrite ?bs) s) = ?bs @ junk"
      and j: "length junk = PORT_I2C_MAX_LEN - length ?bs" by blast
  have split: "?bs @ junk = [frame_flags enc mf, src] @ le16 (htons sq) @ le16 (htons tot)
      @ le16 (htons (word_of_nat off)) @ chunk @ junk" by simp
  have d: "drop 2 (?bs @ junk) = le16 (htons sq) @ le16 (htons tot) @ le16 (htons (word_of_nat off)) @ chunk @ junk"
    "drop 6 (?bs @ junk) = le16 (htons (word_of_nat off)) @ chunk @ junk"
    "drop 8 (?bs @ junk) = chunk @ junk"
    unfolding split by (simp_all add: le16_def)
  show "is_fragment p = mf" "is_encrypted p = enc" "psrc p = src"
    by (simp_all only: p b packet_of_bytes_def is_fragment_def is_encrypted_def)
      (simp_all add: bit_frame_flags)
  show "psequence_number p = htons sq" "htons (pfragment_offset p) = word_of_nat off"
    by (simp_all only: p b packet_of_bytes_def d packet.simps of_le16_le16 htons_htons)
  show "take (length chunk) (pdata p) = chunk" "length (pdata p) = MAX_DATA_LEN"
    using assms(2) j unfolding p b packet_of_bytes_def d by (simp_all add: PORT_I2C_MAX_LEN_def)
qed

lemma newpkt_len_frame:
  assumes "length chunk \<le> MAX_DATA_LEN"
  shows "size_sub (unat (newpkt_len (io_arrival
    (SlaveWrite (frame_bytes src sq enc tot (off, mf, chunk))) s))) HEADER_LEN = length chunk"
proof -
  have "unat (word_of_nat (8 + length chunk) :: byte) = 8 + length chunk"
    using assms by (simp add: unat_of_nat del: of_nat_add)
  then show ?thesis
    using assms by (simp add: Let_def PORT_I2C_MAX_LEN_def HEADER_LEN_def size_sub_le)
qed

text \<open>
  One packet of the awaited message: its bytes go to its offset, or as many of them as the
  receive buffer has room for.
\<close>

definition rx_put :: "byte \<Rightarrow> u16 \<Rightarrow> bool \<Rightarrow> nat \<Rightarrow> bytes \<Rightarrow> rx \<Rightarrow> rx" where
  "rx_put src sq enc off chunk r = r\<lparr>
     rx_data := overwrite (rx_data r) off (take (length (rx_data r) - off) chunk),
     rx_received := off + min (length chunk) (length (rx_data r) - off),
     rx_sequence_number := htons sq, rx_source_address := src,
     rx_encrypted := (if off = 0 then enc else rx_encrypted r), rx_src := src\<rparr>"

lemma rx_packet_step:
  assumes "io_wf s" "length chunk \<le> MAX_DATA_LEN" "mf \<longrightarrow> length chunk = MAX_DATA_LEN"
    and "rx_received r = off" "off \<noteq> 0 \<longrightarrow> rx_sequence_number r = htons sq \<and> rx_source_address r = src"
    and "off \<le> length (rx_data r)" "length (rx_data r) < 2 ^ 16"
    and s2: "s2 = io_arrival (SlaveWrite (frame_bytes src sq enc tot (off, mf, chunk))) s"
  shows "rx_packet (packet_of_bytes (packet_buf s2)) (newpkt_len s2) r
    = Inr (rx_put src sq enc off chunk r, \<not> mf \<or> off + length chunk > length (rx_data r))"
proof -
  define p where "p = packet_of_bytes (packet_buf s2)"
  note pf = packet_of_frame [OF assms(1,2) p_def [unfolded s2]]
  have off: "off < 2 ^ 16" using assms(6,7) by simp
  then have fo: "unat (htons (pfragment_offset p)) = off"
    by (simp add: pf(5) unat_of_nat)
  have rem: "to_uint16 (size_sub (length (rx_data r)) off) = length (rx_data r) - off"
    using assms(6,7) by (simp add: size_sub_le to_uint16_def)
  have pl: "size_sub (unat (newpkt_len s2)) HEADER_LEN = length chunk"
    unfolding s2 by (rule newpkt_len_frame [OF assms(2)])
  have add: "size_add off (length chunk) = off + length chunk"
    using off assms(2) by (simp add: size_add_def)
  have copy: "copy_fragment p off n r' = Inr (r'\<lparr>rx_data := overwrite (rx_data r') off (take n chunk),
      rx_received := rx_received r' + n\<rparr>)" if "n \<le> length chunk" "off + n \<le> length (rx_data r')" for n r'
  proof -
    have "take n (pdata p) = take n chunk"
      using pf(6) that(1) by (metis min.absorb1 take_take)
    with that pf(7) assms(2) show ?thesis
      by (simp add: copy_fragment_def read_at_Inr memcpy_at_def del: max_data_len)
  qed
  let ?r2 = "r\<lparr>rx_sequence_number := htons sq, rx_source_address := src,
     rx_encrypted := (if off = 0 then enc else rx_encrypted r), rx_src := src\<rparr>"
  have r2: "(if rx_received r = 0
         then r\<lparr>rx_sequence_number := psequence_number p, rx_source_address := psrc p,
                rx_encrypted := is_encrypted p\<rparr>
         else r)\<lparr>rx_src := psrc p\<rparr> = ?r2"
    using assms(4,5) pf(2,3,4) by (cases "off = 0") simp_all
  have guard: "(rx_received r \<noteq> 0 \<and>
         \<not> (rx_sequence_number r = psequence_number p \<and> rx_source_address r = psrc p)) = False"
    using assms(4,5) pf(3,4) by auto
  show ?thesis
    unfolding p_def [symmetric] rx_packet_def guard if_False r2 Let_def fo rem pl
    using assms(3,4,6) by (auto simp: pf(1) add copy rx_put_def min_def)
qed

text \<open>
  Exactly the packets with an offset inside the receive buffer are harmless: \<open>remainder\<close>
  wraps when the offset is past its end.
\<close>

lemma rx_packet_in_bounds_iff:
  assumes "unat pktlen \<ge> HEADER_LEN" "length (pdata p) = MAX_DATA_LEN" "length (rx_data r) < 2 ^ 16"
    and "rx_received r = 0 \<or> rx_sequence_number r = psequence_number p \<and> rx_source_address r = psrc p"
  shows "rx_packet p pktlen r = Inl OutOfBounds \<longleftrightarrow> unat (htons (pfragment_offset p)) > length (rx_data r)"
    and "unat (htons (pfragment_offset p)) \<le> length (rx_data r) \<Longrightarrow>
      \<exists>r' d. rx_packet p pktlen r = Inr (r', d) \<and> length (rx_data r') = length (rx_data r)"
proof -
  let ?off = "unat (htons (pfragment_offset p))"
  let ?len = "length (rx_data r)"
  have pk: "size_sub (unat pktlen) HEADER_LEN \<le> MAX_DATA_LEN"
    using assms(1) unat_byte_less [of pktlen] by (simp add: size_sub_le HEADER_LEN_def)
  have off: "?off < 2 ^ 16" using unat_u16_less [of "htons (pfragment_offset p)"] by simp
  have add: "size_add ?off (size_sub (unat pktlen) HEADER_LEN) = ?off + size_sub (unat pktlen) HEADER_LEN"
    using off pk by (simp add: size_add_def)
  have rem: "to_uint16 (size_sub ?len ?off) = ?len - ?off" if "?off \<le> ?len"
    using that assms(3) by (simp add: size_sub_le to_uint16_def)
  have bad: "copy_fragment p ?off n r' = Inl OutOfBounds" if "length (rx_data r') < ?off" for n r'
    using that by (auto simp: copy_fragment_def read_at_def memcpy_at_def)
  have good: "\<exists>r''. copy_fragment p ?off n r' = Inr r'' \<and> length (rx_data r'') = length (rx_data r')"
    if "?off + n \<le> length (rx_data r')" "n \<le> MAX_DATA_LEN" for n r'
    using that assms(2) by (auto simp: copy_fragment_def read_at_def memcpy_at_def length_overwrite)
  define r2 where "r2 = (if rx_received r = 0
         then r\<lparr>rx_sequence_number := psequence_number p, rx_source_address := psrc p,
                rx_encrypted := is_encrypted p\<rparr>
         else r)\<lparr>rx_src := psrc p\<rparr>"
  have r2: "rx_data r2 = rx_data r" by (simp add: r2_def)
  have guard: "(rx_received r \<noteq> 0 \<and>
         \<not> (rx_sequence_number r = psequence_number p \<and> rx_source_address r = psrc p)) = False"
    using assms(4) by auto
  have inb: "\<exists>r' d. rx_packet p pktlen r = Inr (r', d) \<and> length (rx_data r') = ?len" if "?off \<le> ?len"
  proof -
    have fin: "\<exists>r' d. andthen (copy_fragment p ?off n r2) (\<lambda>r3. Inr (r3, b)) = (Inr (r', d) :: fault + rx \<times> bool)
        \<and> length (rx_data r') = ?len" if "?off + n \<le> ?len" "n \<le> MAX_DATA_LEN" for n b
      using good [of n r2] that r2 by fastforce
    show ?thesis
      unfolding rx_packet_def guard if_False r2_def [symmetric] Let_def add rem [OF that]
      by (split if_split, intro conjI impI; split if_split, intro conjI impI; rule fin)
        (use pk that in auto)
  qed
  then show "?off \<le> ?len \<Longrightarrow> \<exists>r' d. rx_packet p pktlen r = Inr (r', d) \<and> length (rx_data r') = ?len" .
  have oob: "rx_packet p pktlen r = Inl OutOfBounds" if "?len < ?off"
    unfolding rx_packet_def guard if_False r2_def [symmetric] Let_def add
    using bad [of r2] that r2 by auto
  show "rx_packet p pktlen r = Inl OutOfBounds \<longleftrightarrow> ?off > ?len"
    using inb oob by (metis Inl_Inr_False not_le)
qed

section \<open>Reassembly\<close>

definition foreign :: "byte \<Rightarrow> u16 \<Rightarrow> io_event \<Rightarrow> bool" where
  "foreign src sq ev = (case ev of
     SlaveError _ \<Rightarrow> True
   | SlaveWrite bs \<Rightarrow> length bs \<ge> 4 \<and> (bs ! 1 \<noteq> src \<or> of_le16 (drop 2 bs) \<noteq> htons sq))"

text \<open>Waiting for packets touches the packet buffers only.\<close>

definition only_buffers :: "io_state \<Rightarrow> io_state \<Rightarrow> bool" where
  "only_buffers s s' \<longleftrightarrow> s' = s\<lparr>slave_write_buf := slave_write_buf s', packet_buf := packet_buf s',
     newpkt_new := newpkt_new s', newpkt_len := newpkt_len s'\<rparr>"

lemma only_buffers_refl [simp]: "only_buffers s s"
  by (simp add: only_buffers_def)

lemma only_buffers_trans: "only_buffers s s' \<Longrightarrow> only_buffers s' s'' \<Longrightarrow> only_buffers s s''"
  unfolding only_buffers_def by (cases s; cases s'; cases s'') simp

lemma only_buffers_arrival: "only_buffers s ((io_arrival ev s)\<lparr>newpkt_new := b\<rparr>)"
  by (cases ev; cases s) (simp_all add: only_buffers_def Let_def)

lemma only_buffers_callback:
  "only_buffers s s' \<Longrightarrow> only_buffers (s\<lparr>async_callback := c\<rparr>) (s'\<lparr>async_callback := c\<rparr>)"
  unfolding only_buffers_def by (cases s; cases s') simp

lemma only_buffers_same:
  assumes "only_buffers s s'"
  shows "async_callback s' = async_callback s" "async_active s' = async_active s"
    "this_device_address s' = this_device_address s" "sequence_number s' = sequence_number s"
    "async_recv_buf s' = async_recv_buf s"
  using assms unfolding only_buffers_def by (cases s; cases s'; simp)+

lemma get_message_loop_error:
  "\<not> newpkt_new s \<Longrightarrow> get_message_loop (SlaveError rc # evs) s r = get_message_loop evs s r"
  by (subst (1 2) get_message_loop.simps) simp

lemma get_message_loop_write:
  "\<not> newpkt_new s \<Longrightarrow> get_message_loop (SlaveWrite bs # evs) s r =
    (let s2 = (io_arrival (SlaveWrite bs) s)\<lparr>newpkt_new := False\<rparr>
     in andthen (rx_packet (packet_of_bytes (packet_buf s2)) (newpkt_len s2) r) (\<lambda>(r', d).
          if d then Inr (r', s2, evs) else get_message_loop evs s2 r'))"
  by (subst get_message_loop.simps, subst wait_for_arrival) (simp_all add: Let_def del: io_arrival.simps)

lemma rx_packet_foreign:
  assumes "io_wf s" "foreign src sq (SlaveWrite bs)" "s2 = io_arrival (SlaveWrite bs) s"
    and "rx_received r \<noteq> 0" "rx_sequence_number r = htons sq" "rx_source_address r = src"
  shows "rx_packet (packet_of_bytes (packet_buf s2)) l r = Inr (r, False)"
proof -
  let ?bs = "take PORT_I2C_MAX_LEN bs"
  have "take (min (length bs) PORT_I2C_MAX_LEN) bs = ?bs" by (simp add: min_def)
  then obtain junk where b: "packet_buf s2 = ?bs @ junk"
    using assms(1,3) by (auto simp: io_wf_def Let_def overwrite_0)
  have len: "length bs \<ge> 4" using assms(2) by (simp add: foreign_def)
  then obtain a b1 c d rest where bs: "bs = a # b1 # c # d # rest"
    by (auto simp: numeral_eq_Suc Suc_le_length_iff)
  then have "packet_buf s2 = a # b1 # c # d # (take (PORT_I2C_MAX_LEN - 4) rest @ junk)"
    using b by (simp add: PORT_I2C_MAX_LEN_def take_Cons')
  moreover have "b1 \<noteq> src \<or> of_le16 [c, d] \<noteq> htons sq"
    using assms(2) by (simp add: foreign_def bs of_le16_def)
  ultimately show ?thesis
    using assms(4-6) by (auto simp: rx_packet_def packet_of_bytes_def of_le16_def)
qed

text \<open>
  The receiver side of the contract: whatever packets other messages, other devices and
  bus errors put between the fragments, the loop collects the rest of the message it awaits.
\<close>

definition rest_received ::
  "byte \<Rightarrow> u16 \<Rightarrow> nat \<Rightarrow> bytes \<Rightarrow> io_event list \<Rightarrow> io_state \<Rightarrow> rx
     \<Rightarrow> fault + rx \<times> io_state \<times> io_event list \<Rightarrow> bool" where
  "rest_received src sq off rest later s r res \<longleftrightarrow> (\<exists>r' s' evs'. res = Inr (r', s', evs') \<and> io_wf s'
     \<and> \<not> newpkt_new s' \<and> only_buffers s s' \<and> rx_src r' = src \<and> rx_encrypted r' = rx_encrypted r
     \<and> rx_received r' = off + min (length rest) (length (rx_data r) - off)
     \<and> length (rx_data r') = length (rx_data r)
     \<and> take (rx_received r') (rx_data r') = take off (rx_data r) @ take (length (rx_data r) - off) rest
     \<and> (off + length rest \<le> length (rx_data r) \<longrightarrow> filter (\<lambda>ev. \<not> foreign src sq ev) evs' = later))"

lemma rest_received_buffers:
  "rest_received src sq off rest later s1 r res \<Longrightarrow> only_buffers s s1
     \<Longrightarrow> rest_received src sq off rest later s r res"
  unfolding rest_received_def by (blast intro: only_buffers_trans)

lemma rx_put_facts:
  assumes "off \<le> length (rx_data r)"
  shows "length (rx_data (rx_put src sq enc off chunk r)) = length (rx_data r)"
    and "take (rx_received (rx_put src sq enc off chunk r)) (rx_data (rx_put src sq enc off chunk r))
      = take off (rx_data r) @ take (length (rx_data r) - off) chunk"
proof -
  have "off + length (take (length (rx_data r) - off) chunk) \<le> length (rx_data r)"
    using assms by auto
  from take_overwrite_all [OF this] length_overwrite [OF this]
  show "length (rx_data (rx_put src sq enc off chunk r)) = length (rx_data r)"
    "take (rx_received (rx_put src sq enc off chunk r)) (rx_data (rx_put src sq enc off chunk r))
      = take off (rx_data r) @ take (length (rx_data r) - off) chunk"
    by (simp_all add: rx_put_def)
qed

lemma rest_received_step:
  assumes "rest_received src sq (off + n) (drop n rest) later s (rx_put src sq enc off (take n rest) r) res"
    and "0 < off" "n \<le> length rest" "off + n \<le> length (rx_data r)"
  shows "rest_received src sq off rest later s r res"
proof -
  let ?r1 = "rx_put src sq enc off (take n rest) r"
  have off: "off \<le> length (rx_data r)" and rec: "rx_received ?r1 = off + n"
    using assms by (simp_all add: rx_put_def)
  note put = rx_put_facts [OF off, of src sq enc "take n rest"]
  have "take (length (rx_data r) - off) (take n rest) = take n rest"
    using assms(4) by simp
  then have tk: "take (off + n) (rx_data ?r1) = take off (rx_data r) @ take n rest"
    using put(2) rec by (simp only:)
  moreover have "take (length (rx_data r) - off) rest = take n rest @ take (length (rx_data r) - (off + n)) (drop n rest)"
    using assms(4) take_add [of n "length (rx_data r) - (off + n)" rest] by simp
  ultimately show ?thesis
    using assms put(1) unfolding rest_received_def by (auto simp: rx_put_def)
qed

lemma rest_received_last:
  assumes "io_wf s" "\<not> newpkt_new s" "0 < off" "off \<le> length (rx_data r)"
    and "length rest \<le> n \<or> off + n > length (rx_data r)"
    and "length rest \<le> n \<longrightarrow> filter (\<lambda>ev. \<not> foreign src sq ev) evs = later"
  shows "rest_received src sq off rest later s r (Inr (rx_put src sq enc off (take n rest) r, s, evs))"
proof -
  note put = rx_put_facts [OF assms(4), of src sq enc "take n rest"]
  have "take (length (rx_data r) - off) (take n rest) = take (length (rx_data r) - off) rest"
    using assms(5) by (auto simp: min_def)
  moreover have "off + min (length (take n rest)) (length (rx_data r) - off)
      = off + min (length rest) (length (rx_data r) - off)"
    using assms(5) by auto
  ultimately show ?thesis
    using assms put unfolding rest_received_def by (auto simp: rx_put_def)
qed

lemma get_message_loop_rest:
  assumes "io_wf s" "\<not> newpkt_new s" "rest \<noteq> []"
    and "0 < off" "rx_received r = off" "rx_sequence_number r = htons sq" "rx_source_address r = src"
    and "off \<le> length (rx_data r)" "length (rx_data r) < 2 ^ 16"
    and "filter (\<lambda>ev. \<not> foreign src sq ev) evs
      = map (\<lambda>f. SlaveWrite (frame_bytes src sq enc tot f)) (fragments off rest) @ later"
  shows "rest_received src sq off rest later s r (get_message_loop evs s r)"
  using assms
proof (induction evs arbitrary: s r off rest)
  case Nil
  then show ?case by (simp add: fragments.simps)
next
  case (Cons ev evs)
  let ?s = "(io_arrival ev s)\<lparr>newpkt_new := False\<rparr>"
  let ?frame = "frame_bytes src sq enc tot (off, length rest > MAX_DATA_LEN, take MAX_DATA_LEN rest)"
  have wf: "io_wf ?s" using Cons.prems(1) by (simp add: io_wf_arrival)
  have same: "only_buffers s ?s" by (rule only_buffers_arrival)
  show ?case
  proof (cases "foreign src sq ev")
    case True
    show ?thesis
    proof (cases ev)
      case (SlaveError rc)
      have "rest_received src sq off rest later s r (get_message_loop evs s r)"
        by (rule Cons.IH) (use Cons.prems True in auto)
      then show ?thesis using Cons.prems(2) SlaveError by (simp add: get_message_loop_error)
    next
      case (SlaveWrite bs)
      have "rx_packet (packet_of_bytes (packet_buf (io_arrival ev s))) (newpkt_len (io_arrival ev s)) r = Inr (r, False)"
        by (rule rx_packet_foreign [OF Cons.prems(1), of src sq bs])
          (use True SlaveWrite Cons.prems in auto)
      then have "get_message_loop (ev # evs) s r = get_message_loop evs ?s r"
        using Cons.prems(2) SlaveWrite by (simp add: get_message_loop_write Let_def)
      moreover have "rest_received src sq off rest later ?s r (get_message_loop evs ?s r)"
        by (rule Cons.IH) (use Cons.prems True wf in auto)
      ultimately show ?thesis using same by (simp add: rest_received_buffers)
    qed
  next
    case False
    have ev: "ev = SlaveWrite ?frame"
      and fl: "filter (\<lambda>ev. \<not> foreign src sq ev) evs = map (\<lambda>f. SlaveWrite (frame_bytes src sq enc tot f))
          (fragments (off + MAX_DATA_LEN) (drop MAX_DATA_LEN rest)) @ later"
      using Cons.prems(10) False Cons.prems(3) fragments.simps [of off rest] by auto
    let ?r = "rx_put src sq enc off (take MAX_DATA_LEN rest) r"
    let ?done = "\<not> length rest > MAX_DATA_LEN \<or> off + length (take MAX_DATA_LEN rest) > length (rx_data r)"
    have "rx_packet (packet_of_bytes (packet_buf (io_arrival ev s))) (newpkt_len (io_arrival ev s)) r
        = Inr (?r, ?done)"
      by (rule rx_packet_step [OF Cons.prems(1) _ _ Cons.prems(5) _ Cons.prems(8,9)])
        (use Cons.prems ev in auto)
    then have step: "get_message_loop (ev # evs) s r
        = (if ?done then Inr (?r, ?s, evs) else get_message_loop evs ?s ?r)"
      using Cons.prems(2) ev by (simp add: get_message_loop_write Let_def)
    have "rest_received src sq off rest later ?s r (get_message_loop (ev # evs) s r)"
    proof (cases ?done)
      case True
      have "rest_received src sq off rest later ?s r (Inr (?r, ?s, evs))"
        by (rule rest_received_last [OF wf _ Cons.prems(4,8)])
          (use True fl fragments.simps [of _ "[]"] in \<open>auto simp: min_def split: if_splits\<close>)
      with True step show ?thesis by simp
    next
      case undone: False
      have room: "MAX_DATA_LEN < length rest" "off + MAX_DATA_LEN \<le> length (rx_data r)"
        using undone by auto
      have put: "rx_received ?r = off + MAX_DATA_LEN" "rx_sequence_number ?r = htons sq"
        "rx_source_address ?r = src" "length (rx_data ?r) = length (rx_data r)"
        using room by (simp_all add: rx_put_def length_overwrite min.absorb1 min.absorb2)
      have "rest_received src sq (off + MAX_DATA_LEN) (drop MAX_DATA_LEN rest) later ?s ?r
          (get_message_loop evs ?s ?r)"
        by (rule Cons.IH [OF wf _ _ _ put(1-3)]) (use room put(4) fl Cons.prems(9) in \<open>simp_all del: max_data_len\<close>, simp)
      then have "rest_received src sq off rest later ?s r (get_message_loop evs ?s ?r)"
        by (rule rest_received_step) (use Cons.prems(4) room in simp_all)
      with undone step show ?thesis by simp
    qed
    then show ?thesis using same by (rule rest_received_buffers)
  qed
qed

lemma get_message_loop_errors:
  "\<not> newpkt_new s \<Longrightarrow> \<forall>ev\<in>set pre. \<exists>rc. ev = SlaveError rc
     \<Longrightarrow> get_message_loop (pre @ evs) s r = get_message_loop evs s r"
  by (induction pre) (auto simp: get_message_loop_error)

text \<open>What a receive gives for a message: the message, cut at the end of the buffer.\<close>

definition received_message ::
  "byte \<Rightarrow> u16 \<Rightarrow> bool \<Rightarrow> bytes \<Rightarrow> nat \<Rightarrow> io_event list \<Rightarrow> io_state \<Rightarrow> rx \<Rightarrow> io_state \<Rightarrow> io_event list \<Rightarrow> bool" where
  "received_message src sq enc data n later s r s' evs' \<longleftrightarrow> io_wf s' \<and> \<not> newpkt_new s' \<and> only_buffers s s'
     \<and> rx_src r = src \<and> rx_encrypted r = enc \<and> rx_received r = min (length data) n
     \<and> length (rx_data r) = n \<and> take (rx_received r) (rx_data r) = take n data
     \<and> (length data \<le> n \<longrightarrow> filter (\<lambda>ev. \<not> foreign src sq ev) evs' = later)"

lemma received_from_rest:
  assumes "rest_received src sq n (drop n data) later s r res" "only_buffers s0 s"
    and n: "n < length data" "n \<le> length (rx_data r)" "take n (rx_data r) = take n data"
  shows "\<exists>r' s' evs'. res = Inr (r', s', evs')
    \<and> received_message src sq (rx_encrypted r) data (length (rx_data r)) later s0 r' s' evs'"
proof -
  let ?n = "length (rx_data r)"
  have 1: "take ?n data = take n data @ take (?n - n) (drop n data)"
    using n(2) take_add [of n "?n - n" data] by simp
  have 2: "n + min (length (drop n data)) (?n - n) = min (length data) ?n"
    using n by simp
  have 3: "n + length (drop n data) \<le> ?n \<longleftrightarrow> length data \<le> ?n"
    using n by simp
  from assms(1) obtain r' s' evs' where res: "res = Inr (r', s', evs')" and
    "io_wf s'" "\<not> newpkt_new s'" "only_buffers s s'" "rx_src r' = src" "rx_encrypted r' = rx_encrypted r"
    "rx_received r' = min (length data) ?n" "length (rx_data r') = ?n"
    "take (rx_received r') (rx_data r') = take ?n data"
    "length data \<le> ?n \<longrightarrow> filter (\<lambda>ev. \<not> foreign src sq ev) evs' = later"
    unfolding rest_received_def 2 3 n(3) 1 [symmetric] by blast
  with assms(2) only_buffers_trans show ?thesis
    unfolding received_message_def by blast
qed

lemma get_message_loop_message:
  assumes "io_wf s" "\<not> newpkt_new s" "data \<noteq> []" "rx_received r = 0" "length (rx_data r) < 2 ^ 16"
    and "\<forall>ev\<in>set pre. \<exists>rc. ev = SlaveError rc"
    and "filter (\<lambda>ev. \<not> foreign src sq ev) evs
      = map (\<lambda>f. SlaveWrite (frame_bytes src sq enc tot f)) (tl (fragments 0 data)) @ later"
  shows "\<exists>r' s' evs'. get_message_loop
      (pre @ SlaveWrite (frame_bytes src sq enc tot (hd (fragments 0 data))) # evs) s r = Inr (r', s', evs')
      \<and> received_message src sq enc data (length (rx_data r)) later s r' s' evs'"
proof -
  let ?frame = "frame_bytes src sq enc tot (0, length data > MAX_DATA_LEN, take MAX_DATA_LEN data)"
  let ?s = "(io_arrival (SlaveWrite ?frame) s)\<lparr>newpkt_new := False\<rparr>"
  let ?r = "rx_put src sq enc 0 (take MAX_DATA_LEN data) r"
  let ?done = "\<not> length data > MAX_DATA_LEN \<or> 0 + length (take MAX_DATA_LEN data) > length (rx_data r)"
  let ?n = "length (rx_data r)"
  have wf: "io_wf ?s" using assms(1) by (simp add: io_wf_arrival del: io_arrival.simps)
  have same: "only_buffers s ?s" by (rule only_buffers_arrival)
  have fr: "fragments 0 data = (0, length data > MAX_DATA_LEN, take MAX_DATA_LEN data)
      # fragments MAX_DATA_LEN (drop MAX_DATA_LEN data)"
    using assms(3) by (subst fragments.simps) simp
  have "rx_packet (packet_of_bytes (packet_buf (io_arrival (SlaveWrite ?frame) s)))
      (newpkt_len (io_arrival (SlaveWrite ?frame) s)) r = Inr (?r, ?done)"
    by (rule rx_packet_step [OF assms(1) _ _ assms(4) _ _ assms(5)]) auto
  then have step: "get_message_loop (pre @ SlaveWrite ?frame # evs) s r
      = (if ?done then Inr (?r, ?s, evs) else get_message_loop evs ?s ?r)"
    unfolding get_message_loop_errors [OF assms(2,6)]
    using assms(2) by (simp add: get_message_loop_write Let_def del: io_arrival.simps frame_bytes.simps)
  have fl: "filter (\<lambda>ev. \<not> foreign src sq ev) evs
      = map (\<lambda>f. SlaveWrite (frame_bytes src sq enc tot f)) (fragments MAX_DATA_LEN (drop MAX_DATA_LEN data)) @ later"
    using assms(7) fr by simp
  note put = rx_put_facts [of 0 r src sq enc "take MAX_DATA_LEN data", simplified]
  show ?thesis
  proof (cases ?done)
    case True
    have "received_message src sq enc data ?n later s ?r ?s evs"
      using True put wf same fl unfolding received_message_def
      by (auto simp: rx_put_def min_def fragments.simps [of _ "[]"] simp del: io_arrival.simps frame_bytes.simps)
    moreover have "get_message_loop (pre @ SlaveWrite (frame_bytes src sq enc tot (hd (fragments 0 data))) # evs) s r
        = Inr (?r, ?s, evs)"
      unfolding fr list.sel step using True by (simp only: if_True)
    ultimately show ?thesis by (simp only:) blast
  next
    case False
    let ?rest = "drop MAX_DATA_LEN data"
    have rest: "rest_received src sq MAX_DATA_LEN ?rest later ?s ?r (get_message_loop evs ?s ?r)"
      by (rule get_message_loop_rest [OF wf]) (use False assms(5) put fl in \<open>auto simp: rx_put_def\<close>)
    have room: "MAX_DATA_LEN < length data" "MAX_DATA_LEN \<le> ?n" using False by auto
    have "take ?n (take MAX_DATA_LEN data) = take MAX_DATA_LEN data" "rx_received ?r = MAX_DATA_LEN"
      using room by (simp_all add: rx_put_def min.absorb1 min.absorb2)
    then have pre: "take MAX_DATA_LEN (rx_data ?r) = take MAX_DATA_LEN data"
      using put(2) by simp
    have "\<exists>r' s' evs'. get_message_loop evs ?s ?r = Inr (r', s', evs')
      \<and> received_message src sq (rx_encrypted ?r) data (length (rx_data ?r)) later s r' s' evs'"
      by (rule received_from_rest [OF rest same]) (use room pre put(1) in auto)
    moreover have "rx_encrypted ?r = enc" by (simp add: rx_put_def)
    moreover have "get_message_loop (pre @ SlaveWrite (frame_bytes src sq enc tot (hd (fragments 0 data))) # evs) s r
        = get_message_loop evs ?s ?r"
      unfolding fr list.sel step using False by (simp only: if_False)
    moreover have "length (rx_data ?r) = ?n" using put(1) by simp
    ultimately show ?thesis by (simp only:)
  qed
qed

text \<open>
  \<open>get_message\<close> on a message whose first fragment is the next packet. Before it, only bus errors
  may come; between its fragments, anything that is not from the same sender with the same
  sequence number.
\<close>

lemma get_message_message:
  assumes "io_wf s" "\<not> newpkt_new s" "data \<noteq> []" "length buf < 2 ^ 16"
    and "\<forall>ev\<in>set pre. \<exists>rc. ev = SlaveError rc"
    and "filter (\<lambda>ev. \<not> foreign src sq ev) evs = map SlaveWrite (tl (io_frames src sq enc data)) @ later"
  shows "\<exists>r s' evs'. get_message (pre @ SlaveWrite (hd (io_frames src sq enc data)) # evs) buf enc0 src0 s
      = Inr (r, async_callback s, s', evs')
    \<and> received_message src sq enc data (length buf) later
        (s\<lparr>async_active := False, async_callback := None\<rparr>) r s' evs'"
proof -
  let ?s = "s\<lparr>async_active := False\<rparr>"
  let ?r = "\<lparr>rx_data = buf, rx_received = 0, rx_sequence_number = 0, rx_source_address = 0,
                rx_encrypted = enc0, rx_src = src0\<rparr>"
  have hd: "hd (io_frames src sq enc data)
      = frame_bytes src sq enc (message_total (length data)) (hd (fragments 0 data))"
    using assms(3) by (simp add: io_frames_def fragments.simps [of 0 data] del: frame_bytes.simps)
  have tl: "map SlaveWrite (tl (io_frames src sq enc data)) = map (\<lambda>f. SlaveWrite
      (frame_bytes src sq enc (message_total (length data)) f)) (tl (fragments 0 data))"
    by (simp add: io_frames_def map_tl comp_def del: frame_bytes.simps)
  have "\<exists>r' s' evs'. get_message_loop
      (pre @ SlaveWrite (frame_bytes src sq enc (message_total (length data)) (hd (fragments 0 data))) # evs) ?s ?r
        = Inr (r', s', evs') \<and> received_message src sq enc data (length (rx_data ?r)) later ?s r' s' evs'"
    by (rule get_message_loop_message) (use assms tl in simp_all)
  then obtain r' s' evs' where
    loop: "get_message_loop (pre @ SlaveWrite (hd (io_frames src sq enc data)) # evs) ?s ?r = Inr (r', s', evs')"
    and recv: "received_message src sq enc data (length buf) later ?s r' s' evs'"
    unfolding hd by auto
  from recv have same: "only_buffers ?s s'" by (simp add: received_message_def)
  then have cb: "async_callback s' = async_callback s"
    by (auto dest: only_buffers_same)
  have "received_message src sq enc data (length buf) later
        (s\<lparr>async_active := False, async_callback := None\<rparr>) r' (s'\<lparr>async_callback := None\<rparr>) evs'"
    using recv only_buffers_callback [OF same, of None] by (auto simp: received_message_def)
  then show ?thesis
    using loop cb by (simp add: get_message_def)
qed

text \<open>The link as a codec: a message and its frames, received by a node that has just booted.\<close>

definition io_receive :: "nat \<Rightarrow> bytes list \<Rightarrow> (byte \<times> bool \<times> bytes) option" where
  "io_receive n fs = (case get_message (map SlaveWrite fs) (replicate n 0) False 0 io_boot of
       Inl _ \<Rightarrow> None
     | Inr (r, _, _, _) \<Rightarrow> Some (rx_src r, rx_encrypted r, take (rx_received r) (rx_data r)))"

lemma io_boot_quiet [simp]: "\<not> newpkt_new io_boot" "async_callback io_boot = None"
  by (simp_all add: io_boot_def)

lemma io_frames_Cons: "data \<noteq> [] \<Longrightarrow> hd (io_frames src sq enc data) # tl (io_frames src sq enc data) = io_frames src sq enc data"
  by (simp add: io_frames_def fragments.simps [of 0 data])

lemma io_frames_not_foreign:
  "f \<in> set (io_frames src sq enc data) \<Longrightarrow> \<not> foreign src sq (SlaveWrite f)"
  by (auto simp: io_frames_def foreign_def)

lemma io_frames_tl_not_foreign:
  "filter (\<lambda>ev. \<not> foreign src sq ev) (map SlaveWrite (tl (io_frames src sq enc data)))
    = map SlaveWrite (tl (io_frames src sq enc data))"
proof (rule filter_True)
  have "set (tl (io_frames src sq enc data)) \<subseteq> set (io_frames src sq enc data)"
    by (cases "io_frames src sq enc data") auto
  then show "\<forall>ev\<in>set (map SlaveWrite (tl (io_frames src sq enc data))). \<not> foreign src sq ev"
    using io_frames_not_foreign by (auto simp del: io_event.simps)
qed

lemma io_receive_frames:
  assumes "data \<noteq> []" "length data \<le> n" "n < 2 ^ 16"
  shows "io_receive n (io_frames src sq enc data) = Some (src, enc, data)"
proof -
  let ?fs = "io_frames src sq enc data"
  have "filter (\<lambda>ev. \<not> foreign src sq ev) (map SlaveWrite (tl ?fs)) = map SlaveWrite (tl ?fs)"
    by (rule io_frames_tl_not_foreign)
  then obtain r s' evs' where
    "get_message (map SlaveWrite ?fs) (replicate n 0) False 0 io_boot = Inr (r, None, s', evs')"
    "received_message src sq enc data n [] (io_boot\<lparr>async_active := False, async_callback := None\<rparr>) r s' evs'"
    using get_message_message [of io_boot data "replicate n 0" "[]" src sq "map SlaveWrite (tl ?fs)" enc "[]" False 0]
      assms io_frames_Cons [OF assms(1), of src sq enc] by (auto simp flip: list.map(2))
  then show ?thesis
    using assms(2) by (auto simp: io_receive_def received_message_def)
qed

interpretation link: codec "\<lambda>(src, enc, data). io_frames src sq enc data" "io_receive n"
    "\<lambda>(src, enc, data). data \<noteq> [] \<and> length data \<le> n \<and> n < 2 ^ 16" for sq n
  by unfold_locales (auto simp: io_receive_frames)

text \<open>
  The asynchronous receive: the driver's callback for the first fragment runs the same loop on
  the registered buffer, and calls the registered callback once.
\<close>

lemma get_message_arrived:
  assumes "\<not> newpkt_new s"
  shows "get_message evs buf enc src (io_arrival (SlaveWrite bs) s) = get_message (SlaveWrite bs # evs) buf enc src s"
proof -
  let ?s = "s\<lparr>async_active := False\<rparr>"
  have comm: "(io_arrival (SlaveWrite bs) s)\<lparr>async_active := False\<rparr> = io_arrival (SlaveWrite bs) ?s"
    by (simp add: Let_def)
  have "wait_for_packet (SlaveWrite bs # evs) ?s = Some (io_arrival (SlaveWrite bs) ?s, evs)"
    by (rule wait_for_arrival) (simp add: assms)
  moreover have "wait_for_packet evs (io_arrival (SlaveWrite bs) ?s) = Some (io_arrival (SlaveWrite bs) ?s, evs)"
    by (cases evs) (simp_all add: Let_def)
  ultimately have "get_message_loop evs (io_arrival (SlaveWrite bs) ?s) r = get_message_loop (SlaveWrite bs # evs) ?s r" for r
    by (simp only: get_message_loop.simps [of evs] get_message_loop.simps [of "SlaveWrite bs # evs"])
  then show ?thesis by (simp only: get_message_def comm)
qed

lemma slave_write_callback_message:
  assumes "io_wf s" "\<not> newpkt_new s" "async_active s" "async_callback s = Some cb" "data \<noteq> []"
    and "length (async_recv_buf s) < 2 ^ 16"
    and "filter (\<lambda>ev. \<not> foreign src sq ev) evs = map SlaveWrite (tl (io_frames src sq enc data)) @ later"
  shows "\<exists>r s0 evs'. signbus_io_slave_write_callback (SlaveWrite (hd (io_frames src sq enc data))) evs s
      = Inr (Some (cb, rx_received r),
          s0\<lparr>async_recv_buf := rx_data r, async_encrypted := enc, async_src_address := src\<rparr>, evs')
    \<and> received_message src sq enc data (length (async_recv_buf s)) later
        (s\<lparr>async_active := False, async_callback := None\<rparr>) r s0 evs'"
proof -
  let ?f = "hd (io_frames src sq enc data)"
  let ?s1 = "io_arrival (SlaveWrite ?f) s"
  obtain r s0 evs' where
    get: "get_message ([] @ SlaveWrite ?f # evs) (async_recv_buf s) (async_encrypted s) (async_src_address s) s
      = Inr (r, Some cb, s0, evs')"
    and recv: "received_message src sq enc data (length (async_recv_buf s)) later
        (s\<lparr>async_active := False, async_callback := None\<rparr>) r s0 evs'"
    using get_message_message [OF assms(1,2,5,6) _ assms(7), of "[]" "async_encrypted s" "async_src_address s"]
      assms(4) by auto
  have same: "async_active ?s1" "async_recv_buf ?s1 = async_recv_buf s"
    "async_encrypted ?s1 = async_encrypted s" "async_src_address ?s1 = async_src_address s"
    using assms(3) by (simp_all add: Let_def)
  have "rx_encrypted r = enc" "rx_src r = src"
    using recv by (simp_all add: received_message_def)
  then have "signbus_io_slave_write_callback (SlaveWrite ?f) evs s = Inr (Some (cb, rx_received r),
          s0\<lparr>async_recv_buf := rx_data r, async_encrypted := enc, async_src_address := src\<rparr>, evs')"
    using same get get_message_arrived [OF assms(2), of evs _ _ _ ?f]
    unfolding signbus_io_slave_write_callback_def Let_def by (simp del: io_arrival.simps)
  with recv show ?thesis by blast
qed

section \<open>Properties\<close>

text \<open>C4: on a bus where every write succeeds, a send puts frames of 9 to 255 bytes on the bus, as
  few as can hold the message; their payloads in order are the message, and the return value is its
  length.\<close>

theorem send_puts_message_on_bus:
  assumes "length data < 2 ^ 16" "wr_rcs e = []"
  shows "\<exists>fs. signbus_io_send dest enc data s e
      = (int (length data), s\<lparr>sequence_number := sequence_number s + 1\<rparr>,
         e\<lparr>wr_log := wr_log e @ map (Pair dest) fs\<rparr>)
    \<and> concat (map (drop HEADER_LEN) fs) = data
    \<and> (\<forall>f\<in>set fs. HEADER_LEN < length f \<and> length f \<le> PORT_I2C_MAX_LEN)
    \<and> length fs = (length data + (MAX_DATA_LEN - 1)) div MAX_DATA_LEN"
  using signbus_io_send_frames [OF assms] io_frames_payload io_frames_sizes length_io_frames by blast

theorem send_puts_message_on_bus_witness:
  "\<exists>fs. signbus_io_send 0x22 True (replicate 300 7) io_boot clean_env
      = (300, io_boot\<lparr>sequence_number := sequence_number io_boot + 1\<rparr>,
         clean_env\<lparr>wr_log := wr_log clean_env @ map (Pair 0x22) fs\<rparr>)
    \<and> concat (map (drop HEADER_LEN) fs) = replicate 300 7
    \<and> (\<forall>f\<in>set fs. HEADER_LEN < length f \<and> length f \<le> PORT_I2C_MAX_LEN) \<and> length fs = 2"
  using send_puts_message_on_bus [of "replicate 300 7" clean_env "0x22" True io_boot]
  by (simp add: clean_env_def)

text \<open>A send stops at the first write that fails and gives its error code; exactly the frames
  before it are on the bus, and the sequence number is used up all the same.\<close>

theorem send_stops_at_failure:
  assumes "length data < 2 ^ 16" "wr_rcs e = oks @ rc # later" "\<forall>k\<in>set oks. 0 \<le> k" "rc < 0"
    and "length oks * MAX_DATA_LEN < length data"
  shows "signbus_io_send dest enc data s e = (rc, s\<lparr>sequence_number := sequence_number s + 1\<rparr>,
     e\<lparr>wr_rcs := later, wr_log := wr_log e @ map (Pair dest)
        (take (length oks) (io_frames (this_device_address s) (sequence_number s + 1) enc data))\<rparr>)"
proof -
  have "length oks < length (io_frames (this_device_address s) (sequence_number s + 1) enc data)"
    using assms(5) by (simp add: length_io_frames less_eq_div_iff_mult_less_eq Suc_le_eq [symmetric])
  with assms show ?thesis by (simp add: signbus_io_send_write_all write_all_fail)
qed

theorem send_stops_at_failure_witness:
  "signbus_io_send 0x22 False (replicate 300 7) io_boot (clean_env\<lparr>wr_rcs := [255, -100]\<rparr>)
    = (-100, io_boot\<lparr>sequence_number := sequence_number io_boot + 1\<rparr>,
       (clean_env\<lparr>wr_rcs := [255, -100]\<rparr>)\<lparr>wr_rcs := [], wr_log := wr_log (clean_env\<lparr>wr_rcs := [255, -100]\<rparr>)
         @ map (Pair 0x22) (take 1 (io_frames (this_device_address io_boot)
             (sequence_number io_boot + 1) False (replicate 300 7)))\<rparr>)"
  using send_stops_at_failure [of "replicate 300 7" "clean_env\<lparr>wr_rcs := [255, -100]\<rparr>" "[255]" "-100" "[]"
      "0x22" False io_boot] by simp

text \<open>C6: a receive gives exactly the message another node sent, with its sender and its encryption
  flag, cut at the end of the buffer: bus errors may come before it, and bus errors and packets of
  other messages between its fragments. Packets after the message stay for later receives.\<close>

theorem recv_gives_sent_message:
  assumes "signbus_io_send dest enc data t clean_env = (rc, t', et)" "fs = map snd (wr_log et)"
    and "data \<noteq> []" "length data < 2 ^ 16" "length buf < 2 ^ 16"
    and "io_wf s" "\<not> newpkt_new s" "listen_rcs e = []"
    and "\<forall>ev\<in>set pre. \<exists>k. ev = SlaveError k"
    and "filter (\<lambda>ev. \<not> foreign (this_device_address t) (sequence_number t + 1) ev) evs
      = map SlaveWrite (tl fs) @ later"
  shows "\<exists>r s' evs'. signbus_io_recv (pre @ SlaveWrite (hd fs) # evs) buf enc0 src0 s e
      = Inr (int (min (length data) (length buf)), Some r, async_callback s, s', evs', e)
    \<and> take (rx_received r) (rx_data r) = take (length buf) data \<and> length (rx_data r) = length buf
    \<and> rx_encrypted r = enc \<and> rx_src r = this_device_address t \<and> io_wf s' \<and> \<not> newpkt_new s'
    \<and> (length data \<le> length buf \<longrightarrow>
        filter (\<lambda>ev. \<not> foreign (this_device_address t) (sequence_number t + 1) ev) evs' = later)"
proof -
  let ?src = "this_device_address t" and ?sq = "sequence_number t + 1"
  have fs: "fs = io_frames ?src ?sq enc data"
    using assms(1,2,4) by (auto simp: signbus_io_send_frames clean_env_def comp_def)
  obtain r s' evs' where
    get: "get_message (pre @ SlaveWrite (hd fs) # evs) buf enc0 src0 s = Inr (r, async_callback s, s', evs')"
    and recv: "received_message ?src ?sq enc data (length buf) later
        (s\<lparr>async_active := False, async_callback := None\<rparr>) r s' evs'"
    using get_message_message [OF assms(6,7,3,5,9)] assms(10) unfolding fs by blast
  have "rx_received r = min (length data) (length buf)"
    using recv by (simp add: received_message_def)
  then have "to_int32 (rx_received r) = int (min (length data) (length buf))"
    using assms(4) by (subst to_int32_small) auto
  then show ?thesis
    using get recv assms(8) by (auto simp: signbus_io_recv_def slave_listen_ok PORT_SUCCESS_def received_message_def)
qed

theorem recv_gives_sent_message_witness:
  "\<exists>fs r s' evs'. fs = map snd (wr_log (snd (snd (signbus_io_send 0x22 True (replicate 300 7) io_boot clean_env))))
    \<and> signbus_io_recv ([SlaveError (-1)] @ SlaveWrite (hd fs) #
          ([SlaveError (-1), SlaveWrite [0x10, 0x99, 0, 1, 5]] @ map SlaveWrite (tl fs)))
        (replicate 400 0) False 0 io_boot clean_env
      = Inr (300, Some r, None, s', evs', clean_env)
    \<and> take (rx_received r) (rx_data r) = replicate 300 7 \<and> rx_encrypted r"
proof -
  let ?data = "replicate 300 (7 :: byte)"
  define fs where "fs = map snd (wr_log (snd (snd (signbus_io_send 0x22 True ?data io_boot clean_env))))"
  obtain rc t' et where send: "signbus_io_send 0x22 True ?data io_boot clean_env = (rc, t', et)"
    by (cases "signbus_io_send 0x22 True ?data io_boot clean_env") auto
  have fs: "fs = io_frames 0 1 True ?data"
    by (simp add: fs_def signbus_io_send_frames clean_env_def comp_def io_boot_def)
  have "set (tl fs) \<subseteq> set fs" by (cases fs) auto
  then have "filter (\<lambda>ev. \<not> foreign 0 1 ev) (map SlaveWrite (tl fs)) = map SlaveWrite (tl fs)"
    using io_frames_not_foreign fs by (intro filter_True) auto
  moreover have "foreign 0 1 (SlaveError (-1))" "foreign 0 1 (SlaveWrite [0x10, 0x99, 0, 1, 5])"
    by (simp_all add: foreign_def)
  ultimately have fl: "filter (\<lambda>ev. \<not> foreign (this_device_address io_boot) (sequence_number io_boot + 1) ev)
      ([SlaveError (-1), SlaveWrite [0x10, 0x99, 0, 1, 5]] @ map SlaveWrite (tl fs)) = map SlaveWrite (tl fs) @ []"
    by (simp add: io_boot_def)
  have et: "fs = map snd (wr_log et)" using fs_def send by simp
  from recv_gives_sent_message [OF send et _ _ _ io_wf_boot _ _ _ fl, of "replicate 400 0" clean_env
      "[SlaveError (-1)]" False 0] obtain r s' evs' where
    "signbus_io_recv ([SlaveError (-1)] @ SlaveWrite (hd fs) #
          ([SlaveError (-1), SlaveWrite [0x10, 0x99, 0, 1, 5]] @ map SlaveWrite (tl fs)))
        (replicate 400 0) False 0 io_boot clean_env
      = Inr (int (min (length ?data) (length (replicate 400 (0 :: byte)))), Some r,
          async_callback io_boot, s', evs', clean_env)"
    "take (rx_received r) (rx_data r) = take (length (replicate 400 (0 :: byte))) ?data" "rx_encrypted r"
    by (auto simp: clean_env_def)
  then have "signbus_io_recv ([SlaveError (-1)] @ SlaveWrite (hd fs) #
          ([SlaveError (-1), SlaveWrite [0x10, 0x99, 0, 1, 5]] @ map SlaveWrite (tl fs)))
        (replicate 400 0) False 0 io_boot clean_env = Inr (300, Some r, None, s', evs', clean_env)"
    "take (rx_received r) (rx_data r) = ?data"
    by simp_all
  with \<open>rx_encrypted r\<close> fs_def show ?thesis by blast
qed

text \<open>C7: a packet of the awaited message (or a first packet) with a whole header is handled without
  leaving the receive buffer exactly when its fragment offset lies in the buffer; past its end,
  the room that is left wraps around and the copy runs out of bounds.\<close>

theorem rx_packet_safe_iff_offset_in_buffer:
  assumes "HEADER_LEN \<le> unat pktlen" "length (pdata p) = MAX_DATA_LEN" "length (rx_data r) < 2 ^ 16"
    and "rx_received r = 0 \<or> rx_sequence_number r = psequence_number p \<and> rx_source_address r = psrc p"
  shows "(\<exists>r' d. rx_packet p pktlen r = Inr (r', d)) \<longleftrightarrow> unat (htons (pfragment_offset p)) \<le> length (rx_data r)"
  using rx_packet_in_bounds_iff [OF assms] by (metis Inl_Inr_False not_le)

theorem rx_packet_safe_iff_offset_in_buffer_witness:
  "\<not> (\<exists>r' d. rx_packet (zero_packet\<lparr>pfragment_offset := htons 247\<rparr>) 8
      \<lparr>rx_data = replicate 20 0, rx_received = 0, rx_sequence_number = 0, rx_source_address = 0,
       rx_encrypted = False, rx_src = 0\<rparr> = Inr (r', d))"
  by (subst rx_packet_safe_iff_offset_in_buffer)
    (simp_all add: HEADER_LEN_def zero_packet_def htons_htons)

text \<open>A node with a receive buffer shorter than one fragment writes out of bounds when it misses
  the first packet of a longer message, or has read only that packet of it: the next fragment of
  the same message starts a new one.\<close>

theorem second_fragment_overflows_short_buffer:
  assumes "io_wf s" "\<not> newpkt_new s" "length buf < MAX_DATA_LEN" "MAX_DATA_LEN < length data" "length data < 2 ^ 16"
  shows "get_message (SlaveWrite (io_frames src sq enc data ! 1) # evs) buf enc0 src0 s = Inl OutOfBounds"
proof -
  let ?mf = "MAX_DATA_LEN < length data - MAX_DATA_LEN"
  let ?chunk = "take MAX_DATA_LEN (drop MAX_DATA_LEN data)"
  let ?f = "frame_bytes src sq enc (message_total (length data)) (MAX_DATA_LEN, ?mf, ?chunk)"
  have f: "io_frames src sq enc data ! 1 = ?f"
    using assms(4)
    by (cases "data = []") (simp_all add: io_frames_def fragments.simps [of 0] fragments.simps [of 247] del: frame_bytes.simps)
  let ?s = "s\<lparr>async_active := False\<rparr>"
  let ?s2 = "io_arrival (SlaveWrite ?f) ?s"
  define p where "p = packet_of_bytes (packet_buf ?s2)"
  have c: "length ?chunk \<le> MAX_DATA_LEN" by simp
  have wf: "io_wf ?s" using assms(1) by simp
  note pf = packet_of_frame [OF wf c p_def]
  have nl: "unat (newpkt_len ?s2) \<ge> HEADER_LEN"
  proof -
    have "unat (word_of_nat (8 + length ?chunk) :: byte) = 8 + length ?chunk"
      using c by (simp add: unat_of_nat del: of_nat_add)
    then show ?thesis
      using c by (simp add: Let_def PORT_I2C_MAX_LEN_def HEADER_LEN_def)
  qed
  have "rx_packet p (newpkt_len ?s2) r = Inl OutOfBounds" if "rx_data r = buf" "rx_received r = 0" for r
    by (subst rx_packet_in_bounds_iff(1) [OF nl pf(7)]) (use assms(3) that pf(5) in \<open>simp_all add: unat_of_nat\<close>)
  then show ?thesis
    unfolding get_message_def f using assms(2)
    by (subst get_message_loop_write) (simp_all add: Let_def p_def del: io_arrival.simps frame_bytes.simps)
qed

theorem second_fragment_overflows_short_buffer_witness:
  "get_message [SlaveWrite (io_frames 0x22 5 True (replicate 300 7) ! 1)] (replicate 20 0) False 0 io_boot
    = Inl OutOfBounds"
  by (rule second_fragment_overflows_short_buffer) simp_all

end
