(* ===== verification/Signbus_Protocol.thy ===== *)
theory Signbus_Protocol
  imports Signbus_Link
begin

text \<open>
  The protocol layer of the bus: \<open>signpost/apps/libsignpost/signbus_protocol_layer.c\<close> and
  the random numbers of \<open>signpost_entropy.c\<close>. A datagram is sealed before it goes to the network
  layer: with a key it is encrypted with AES256-CTR under a fresh IV and followed by an HMAC of IV
  and ciphertext; without one it is followed by its SHA-256 hash.

  The mbedTLS library is not part of the repository: it is the parameter \<open>m\<close> of the definitions, a
  record of the calls the code makes, each with its return code. What the code relies on is
  \<open>mbedtls_ok\<close>.
\<close>

section \<open>The cryptographic library\<close>

definition MBEDTLS_MAX_IV_LENGTH :: nat where "MBEDTLS_MAX_IV_LENGTH = 16"
definition SHA256_LEN :: nat where "SHA256_LEN = 32"
definition ECDH_KEY_LENGTH :: nat where "ECDH_KEY_LENGTH = 32"

lemmas protocol_lens = MBEDTLS_MAX_IV_LENGTH_def SHA256_LEN_def ECDH_KEY_LENGTH_def

datatype cipher_op = Encrypt | Decrypt

record mbedtls =
  entropy_add_source :: int
  ctr_drbg_seed :: int
  ctr_drbg_random :: "nat \<Rightarrow> nat \<Rightarrow> int \<times> bytes"
  cipher_setup :: int
  cipher_setkey :: "bytes \<Rightarrow> cipher_op \<Rightarrow> int"
  cipher_reset :: int
  cipher_crypt :: "cipher_op \<Rightarrow> bytes \<Rightarrow> bytes \<Rightarrow> bytes \<Rightarrow> int \<times> bytes"
  md_setup :: "bool \<Rightarrow> int"
  md_hmac_starts :: "bytes \<Rightarrow> int"
  md_hmac_update :: "bytes \<Rightarrow> int"
  md_hmac_finish :: "bytes \<Rightarrow> bytes \<Rightarrow> int \<times> bytes"
  md_starts :: int
  md_update :: "bytes \<Rightarrow> int"
  md_finish :: "bytes \<Rightarrow> int \<times> bytes"

text \<open>
  The documented behaviour: every call succeeds, random bytes come in the number asked for, counter
  mode keeps the length and decryption undoes encryption, and a digest has 32 bytes.
\<close>

definition mbedtls_ok :: "mbedtls \<Rightarrow> bool" where
  "mbedtls_ok m \<longleftrightarrow> 0 \<le> entropy_add_source m \<and> 0 \<le> ctr_drbg_seed m
   \<and> (\<forall>k n. 0 \<le> fst (ctr_drbg_random m k n) \<and> length (snd (ctr_drbg_random m k n)) = n)
   \<and> 0 \<le> cipher_setup m \<and> (\<forall>key op. 0 \<le> cipher_setkey m key op) \<and> 0 \<le> cipher_reset m
   \<and> (\<forall>op key iv xs. 0 \<le> fst (cipher_crypt m op key iv xs)
        \<and> length (snd (cipher_crypt m op key iv xs)) = length xs)
   \<and> (\<forall>key iv xs. snd (cipher_crypt m Decrypt key iv (snd (cipher_crypt m Encrypt key iv xs))) = xs)
   \<and> (\<forall>b. 0 \<le> md_setup m b) \<and> (\<forall>key. 0 \<le> md_hmac_starts m key) \<and> (\<forall>xs. 0 \<le> md_hmac_update m xs)
   \<and> 0 \<le> md_starts m \<and> (\<forall>xs. 0 \<le> md_update m xs)
   \<and> (\<forall>key xs. 0 \<le> fst (md_hmac_finish m key xs) \<and> length (snd (md_hmac_finish m key xs)) = SHA256_LEN)
   \<and> (\<forall>xs. 0 \<le> fst (md_finish m xs) \<and> length (snd (md_finish m xs)) = SHA256_LEN)"

definition signpost_entropy_init :: "mbedtls \<Rightarrow> env \<Rightarrow> int \<times> env" where
  "signpost_entropy_init m e =
     (let (rc, e1) = port_pin RngInit e
      in if rc < 0 then (rc, e1)
         else let (rc2, e2) = port_pin RngSync e1
              in if rc2 < 0 then (rc2, e2)
                 else if entropy_add_source m < 0 then (entropy_add_source m, e2)
                 else if ctr_drbg_seed m < 0 then (ctr_drbg_seed m, e2)
                 else (0, e2))"

text \<open>The generator's state is the number of calls made so far.\<close>

definition signpost_entropy_rand :: "mbedtls \<Rightarrow> nat \<Rightarrow> nat \<Rightarrow> env \<Rightarrow> (int \<times> bytes) \<times> env" where
  "signpost_entropy_rand m len num e =
     (ctr_drbg_random m (drbg_count e) (if len < num then len else num), e\<lparr>drbg_count := drbg_count e + 1\<rparr>)"

section \<open>Cipher and digest\<close>

text \<open>The return code, the IV buffer and the output buffer's contents after the call.\<close>

definition cipher :: "mbedtls \<Rightarrow> cipher_op \<Rightarrow> bytes \<Rightarrow> bytes \<Rightarrow> bytes \<Rightarrow> env \<Rightarrow> (int \<times> bytes \<times> bytes) \<times> env" where
  "cipher m operation key iv xs e =
     (let ((ret, iv'), e') =
            (if operation = Encrypt
             then let ((r, ivenc), e1) = signpost_entropy_rand m MBEDTLS_MAX_IV_LENGTH MBEDTLS_MAX_IV_LENGTH e
                  in ((r, if r < 0 then iv else ivenc), e1)
             else ((0, iv), e))
      in if ret < 0 then ((PORT_FAIL, iv', []), e')
         else if cipher_setup m < 0 then ((PORT_FAIL, iv', []), e')
         else if cipher_setkey m (take ECDH_KEY_LENGTH key) operation < 0 then ((PORT_FAIL, iv', []), e')
         else if cipher_reset m < 0 then ((PORT_FAIL, iv', []), e')
         else let (r, out) = cipher_crypt m operation (take ECDH_KEY_LENGTH key) iv' xs
              in if r < 0 then ((PORT_FAIL, iv', []), e') else ((PORT_SUCCESS, iv', out), e'))"

text \<open>The digest is written only when every step succeeds.\<close>

definition message_digest :: "mbedtls \<Rightarrow> bytes option \<Rightarrow> bytes \<Rightarrow> int \<times> bytes option" where
  "message_digest m key xs =
     (if md_setup m (key \<noteq> None) < 0 then (PORT_FAIL, None)
      else case key of
        Some k \<Rightarrow>
          if md_hmac_starts m (take ECDH_KEY_LENGTH k) < 0 then (PORT_FAIL, None)
          else if md_hmac_update m xs < 0 then (PORT_FAIL, None)
          else let (r, out) = md_hmac_finish m (take ECDH_KEY_LENGTH k) xs
               in if r < 0 then (PORT_FAIL, None) else (PORT_SUCCESS, Some out)
      | None \<Rightarrow>
          if md_starts m < 0 then (PORT_FAIL, None)
          else if md_update m xs < 0 then (PORT_FAIL, None)
          else let (r, out) = md_finish m xs
               in if r < 0 then (PORT_FAIL, None) else (PORT_SUCCESS, Some out))"

section \<open>Sending\<close>

type_synonym addr_to_key = "byte \<Rightarrow> bytes option"

definition encrypted_buflen :: "nat \<Rightarrow> nat" where
  "encrypted_buflen n = 16 * (n div 16 + (if n mod 16 \<noteq> 0 then 1 else 0)) + 16"

definition protocol_buflen :: "nat \<Rightarrow> nat" where
  "protocol_buflen n = MBEDTLS_MAX_IV_LENGTH + encrypted_buflen n + SHA256_LEN"

text \<open>
  The payload part of \<open>signbus_protocol_send\<close>: fill \<open>protocol_buf\<close> and compute how much of it is
  used. A negative code ends the call; every write to the buffer is checked.
\<close>

definition protocol_seal ::
  "mbedtls \<Rightarrow> bytes option \<Rightarrow> bytes \<Rightarrow> env \<Rightarrow> fault + (int \<times> bytes \<times> nat) \<times> env" where
  "protocol_seal m key clear_buf e =
     (let buf0 = replicate (protocol_buflen (length clear_buf)) 0
      in andthen
          (case key of
             Some k \<Rightarrow>
               let ((ret, iv, ct), e1) = cipher m Encrypt k (take MBEDTLS_MAX_IV_LENGTH buf0) clear_buf e
               in if ret < 0 then Inr ((PORT_FAIL, buf0, 0), e1)
                  else andthen (memcpy_at buf0 0 iv) (\<lambda>b1.
                       andthen (memcpy_at b1 MBEDTLS_MAX_IV_LENGTH ct) (\<lambda>b2.
                       Inr ((PORT_SUCCESS, b2, MBEDTLS_MAX_IV_LENGTH + length ct), e1)))
           | None \<Rightarrow>
               andthen (memcpy_at buf0 0 clear_buf) (\<lambda>b1. Inr ((PORT_SUCCESS, b1, length clear_buf), e)))
          (\<lambda>((ret, b, used), e').
             if ret < 0 then Inr ((ret, b, used), e')
             else case message_digest m key (take used b) of
                    (r, Some d) \<Rightarrow> andthen (memcpy_at b used d) (\<lambda>b'.
                       Inr ((PORT_SUCCESS, b', used + SHA256_LEN), e'))
                  | (r, None) \<Rightarrow> Inr ((PORT_FAIL, b, used), e')))"

definition signbus_protocol_send ::
  "mbedtls \<Rightarrow> byte \<Rightarrow> addr_to_key option \<Rightarrow> bytes \<Rightarrow> io_state \<Rightarrow> env \<Rightarrow> fault + int \<times> io_state \<times> env" where
  "signbus_protocol_send m dest addr_to_key clear_buf s e =
     (case addr_to_key of
        None \<Rightarrow> Inl NullPointer
      | Some f \<Rightarrow>
          let key = f dest
          in andthen (protocol_seal m key clear_buf e) (\<lambda>((ret, b, used), e').
             if ret < 0 then Inr (PORT_FAIL, s, e')
             else Inr (signbus_io_send dest (key \<noteq> None) (take used b) s e')))"

section \<open>Receiving\<close>

text \<open>
  \<open>protocol_encrypted_buffer_received\<close>: the return value and the output buffer. In the first
  test \<open>SHA256_LEN + (key == NULL) ? 0 : MBEDTLS_MAX_IV_LENGTH\<close>, the sum is the condition
  of the conditional expression.
\<close>

definition sane_length :: "bytes option \<Rightarrow> nat" where
  "sane_length key = (if SHA256_LEN + (if key = None then 1 else 0) \<noteq> 0 then 0 else MBEDTLS_MAX_IV_LENGTH)"

definition protocol_encrypted_buffer_received ::
  "mbedtls \<Rightarrow> bytes option \<Rightarrow> bytes \<Rightarrow> nat \<Rightarrow> bytes \<Rightarrow> nat \<Rightarrow> env \<Rightarrow> fault + (int \<times> bytes) \<times> env" where
  "protocol_encrypted_buffer_received m key protocol_buf buflen output_buf output_buflen e =
     (if buflen < sane_length key then Inr ((PORT_ESIZE, output_buf), e)
      else
        andthen (read_at protocol_buf 0 (size_sub buflen SHA256_LEN)) (\<lambda>payload.
        case message_digest m key payload of
          (_, None) \<Rightarrow> Inl Uninitialised
        | (_, Some hmac_or_hash) \<Rightarrow>
        andthen (read_at protocol_buf (size_sub buflen SHA256_LEN) SHA256_LEN) (\<lambda>tag.
        if hmac_or_hash \<noteq> tag then Inr ((PORT_ENOMEM, output_buf), e)
        else case key of
          Some k \<Rightarrow>
            let n = size_sub (size_sub buflen MBEDTLS_MAX_IV_LENGTH) SHA256_LEN
            in if output_buflen < n then Inr ((PORT_ESIZE, output_buf), e)
               else andthen (read_at protocol_buf 0 MBEDTLS_MAX_IV_LENGTH) (\<lambda>iv.
                    andthen (read_at protocol_buf MBEDTLS_MAX_IV_LENGTH n) (\<lambda>ct.
                    let ((ret, _, pt), e') = cipher m Decrypt k iv ct e
                    in if ret < 0 then Inr ((PORT_FAIL, output_buf), e')
                       else andthen (memcpy_at output_buf 0 pt) (\<lambda>out.
                            Inr ((to_int32 (length pt), out), e'))))
        | None \<Rightarrow>
            let clear_len = size_sub buflen SHA256_LEN
            in if output_buflen < clear_len then Inr ((PORT_ESIZE, output_buf), e)
               else andthen (memcpy_at output_buf 0 payload) (\<lambda>out.
                    Inr ((to_int32 clear_len, out), e)))))"

text \<open>
  The result of a blocking receive: the return value, the caller's buffer, the sender
  address, the callback the network layer ran, and what is left of state, events and
  platform. The key is looked up only for a message marked as encrypted.
\<close>

definition recv_key :: "addr_to_key option \<Rightarrow> bool \<Rightarrow> byte \<Rightarrow> bytes option" where
  "recv_key addr_to_key encrypted sender =
     (case addr_to_key of None \<Rightarrow> None | Some f \<Rightarrow> if encrypted then f sender else None)"

definition signbus_protocol_recv ::
  "mbedtls \<Rightarrow> io_event list \<Rightarrow> addr_to_key option \<Rightarrow> byte \<Rightarrow> bytes \<Rightarrow> io_state \<Rightarrow> env
     \<Rightarrow> fault + int \<times> bytes \<times> byte \<times> io_callback option \<times> io_state \<times> io_event list \<times> env" where
  "signbus_protocol_recv m evs addr_to_key sender clear_buf s e =
     andthen (signbus_io_recv evs (replicate (protocol_buflen (length clear_buf)) 0) False sender s e)
       (\<lambda>(len_or_rc, rx, cb, s', evs', e').
          case rx of
            None \<Rightarrow> Inr (len_or_rc, clear_buf, sender, cb, s', evs', e')
          | Some r \<Rightarrow>
              if len_or_rc < 0 then Inr (len_or_rc, clear_buf, rx_src r, cb, s', evs', e')
              else andthen (protocol_encrypted_buffer_received m
                       (recv_key addr_to_key (rx_encrypted r) (rx_src r))
                       (rx_data r) (nat len_or_rc) clear_buf (length clear_buf) e') (\<lambda>((rc, out), e2).
                   Inr (rc, out, rx_src r, cb, s', evs', e2)))"

section \<open>Asynchronous receive\<close>

datatype prot_callback = AppLayerCallback | OtherProtCallback nat

text \<open>
  The statics of the file. \<open>async_buf\<close> is \<open>None\<close> while no buffer was set up. While a receive is
  registered, its memory, the encryption flag of \<open>cb_data\<close> and the cell for the sender are
  the fields \<open>async_recv_buf\<close>, \<open>async_encrypted\<close> and \<open>async_src_address\<close> of the network layer.
\<close>

record prot_state =
  prot_cb :: "prot_callback option"
  prot_addr_to_key :: "addr_to_key option"
  prot_buf :: bytes
  prot_buflen :: nat
  async_buf :: "bytes option"

definition prot_boot :: prot_state where
  "prot_boot = \<lparr>prot_cb = None, prot_addr_to_key = None, prot_buf = [], prot_buflen = 0, async_buf = None\<rparr>"

definition signbus_protocol_setup_async :: "bytes option \<Rightarrow> prot_state \<Rightarrow> prot_state" where
  "signbus_protocol_setup_async buf ps = ps\<lparr>async_buf := buf\<rparr>"

text \<open>The result names the callback of the user and its argument.\<close>

definition protocol_async_callback ::
  "mbedtls \<Rightarrow> int \<Rightarrow> prot_state \<Rightarrow> io_state \<Rightarrow> env \<Rightarrow> fault + (prot_callback \<times> int) \<times> prot_state \<times> env" where
  "protocol_async_callback m len_or_rc ps s e =
     (case prot_cb ps of
        None \<Rightarrow> Inl NullPointer
      | Some cb \<Rightarrow>
          if len_or_rc < 0 then Inr ((cb, len_or_rc), ps, e)
          else andthen (protocol_encrypted_buffer_received m
                   (recv_key (prot_addr_to_key ps) (async_encrypted s) (async_src_address s))
                   (async_recv_buf s) (nat len_or_rc) (prot_buf ps) (prot_buflen ps) e) (\<lambda>((rc, out), e').
               Inr ((cb, rc), ps\<lparr>prot_buf := out, async_buf := Some (async_recv_buf s)\<rparr>, e')))"

definition signbus_protocol_recv_async ::
  "prot_callback \<Rightarrow> byte \<Rightarrow> addr_to_key option \<Rightarrow> bytes \<Rightarrow> prot_state \<Rightarrow> io_state \<Rightarrow> env
     \<Rightarrow> int \<times> prot_state \<times> io_state \<times> env" where
  "signbus_protocol_recv_async cb sender addr_to_key recv_buf ps s e =
     (case async_buf ps of
        None \<Rightarrow> (PORT_EINVAL, ps, s, e)
      | Some buf \<Rightarrow>
          let ps' = ps\<lparr>prot_cb := Some cb, prot_addr_to_key := addr_to_key,
                       prot_buflen := length recv_buf, prot_buf := recv_buf\<rparr>;
              (rc, s', e') = signbus_io_recv_async ProtocolAsyncCallback buf (async_encrypted s) sender s e
          in (rc, ps', s', e'))"

section \<open>The sealed datagram\<close>

text \<open>The contract: what a datagram looks like on the wire, and when it is accepted.\<close>

definition tag_of :: "mbedtls \<Rightarrow> bytes option \<Rightarrow> bytes \<Rightarrow> bytes" where
  "tag_of m key xs = (case key of
     Some k \<Rightarrow> snd (md_hmac_finish m (take ECDH_KEY_LENGTH k) xs)
   | None \<Rightarrow> snd (md_finish m xs))"

definition sealed_payload :: "mbedtls \<Rightarrow> bytes option \<Rightarrow> bytes \<Rightarrow> bytes \<Rightarrow> bytes" where
  "sealed_payload m key iv xs = (case key of
     Some k \<Rightarrow> iv @ snd (cipher_crypt m Encrypt (take ECDH_KEY_LENGTH k) iv xs)
   | None \<Rightarrow> xs)"

definition seal :: "mbedtls \<Rightarrow> bytes option \<Rightarrow> bytes \<Rightarrow> bytes \<Rightarrow> bytes" where
  "seal m key iv xs = sealed_payload m key iv xs @ tag_of m key (sealed_payload m key iv xs)"

definition next_iv :: "mbedtls \<Rightarrow> env \<Rightarrow> bytes" where
  "next_iv m e = snd (ctr_drbg_random m (drbg_count e) MBEDTLS_MAX_IV_LENGTH)"

definition seal_env :: "bytes option \<Rightarrow> env \<Rightarrow> env" where
  "seal_env key e = (if key = None then e else e\<lparr>drbg_count := drbg_count e + 1\<rparr>)"

lemma mbedtls_okD:
  assumes "mbedtls_ok m"
  shows "\<not> entropy_add_source m < 0" "\<not> ctr_drbg_seed m < 0" "\<not> fst (ctr_drbg_random m k n) < 0" "length (snd (ctr_drbg_random m k n)) = n"
    "\<not> cipher_setup m < 0" "\<not> cipher_setkey m key op < 0" "\<not> cipher_reset m < 0"
    "\<not> fst (cipher_crypt m op key iv xs) < 0" "length (snd (cipher_crypt m op key iv xs)) = length xs"
    "snd (cipher_crypt m Decrypt key iv (snd (cipher_crypt m Encrypt key iv xs))) = xs"
    "\<not> md_setup m b < 0" "\<not> md_hmac_starts m key < 0" "\<not> md_hmac_update m xs < 0"
    "\<not> md_starts m < 0" "\<not> md_update m xs < 0"
    "\<not> fst (md_hmac_finish m key xs) < 0" "length (snd (md_hmac_finish m key xs)) = SHA256_LEN"
    "\<not> fst (md_finish m xs) < 0" "length (snd (md_finish m xs)) = SHA256_LEN"
  using assms by (simp_all add: mbedtls_ok_def not_less)

lemma message_digest_ok: "mbedtls_ok m \<Longrightarrow> message_digest m key xs = (PORT_SUCCESS, Some (tag_of m key xs))"
  by (simp add: message_digest_def mbedtls_okD tag_of_def case_prod_beta Let_def split: option.split)

lemma cipher_encrypt_ok:
  "mbedtls_ok m \<Longrightarrow> cipher m Encrypt key iv xs e
    = ((PORT_SUCCESS, next_iv m e, snd (cipher_crypt m Encrypt (take ECDH_KEY_LENGTH key) (next_iv m e) xs)),
       e\<lparr>drbg_count := drbg_count e + 1\<rparr>)"
  by (simp add: cipher_def signpost_entropy_rand_def mbedtls_okD next_iv_def case_prod_beta Let_def)

lemma cipher_decrypt_ok:
  "mbedtls_ok m \<Longrightarrow> cipher m Decrypt key iv xs e
    = ((PORT_SUCCESS, iv, snd (cipher_crypt m Decrypt (take ECDH_KEY_LENGTH key) iv xs)), e)"
  by (simp add: cipher_def mbedtls_okD case_prod_beta Let_def)

lemma length_tag_of [simp]: "mbedtls_ok m \<Longrightarrow> length (tag_of m key xs) = SHA256_LEN"
  by (simp add: tag_of_def mbedtls_okD split: option.split)

lemma length_next_iv [simp]: "mbedtls_ok m \<Longrightarrow> length (next_iv m e) = MBEDTLS_MAX_IV_LENGTH"
  by (simp add: next_iv_def mbedtls_okD)

lemma length_sealed_payload:
  "mbedtls_ok m \<Longrightarrow> length iv = MBEDTLS_MAX_IV_LENGTH \<Longrightarrow>
   length (sealed_payload m key iv xs) = (if key = None then 0 else MBEDTLS_MAX_IV_LENGTH) + length xs"
  by (simp add: sealed_payload_def mbedtls_okD split: option.split)

lemma length_seal:
  "mbedtls_ok m \<Longrightarrow> length iv = MBEDTLS_MAX_IV_LENGTH \<Longrightarrow>
   length (seal m key iv xs) = (if key = None then 0 else MBEDTLS_MAX_IV_LENGTH) + length xs + SHA256_LEN"
  by (simp add: seal_def length_sealed_payload)

lemma encrypted_buflen_ge: "n + 16 \<le> encrypted_buflen n" "encrypted_buflen n \<le> n + 31"
proof -
  have "n = 16 * (n div 16) + n mod 16" "n mod 16 < 16" by simp_all
  then show "n + 16 \<le> encrypted_buflen n" "encrypted_buflen n \<le> n + 31"
    unfolding encrypted_buflen_def by (cases "n mod 16 = 0"; simp; linarith)+
qed

text \<open>The buffer of \<open>signbus_protocol_send\<close> is big enough, and it holds the sealed datagram.\<close>

lemma take_memcpy_append:
  assumes "take n b = xs" "n = length xs" "n + length ys \<le> length b" "n \<le> length b"
  shows "\<exists>b'. memcpy_at b n ys = Inr b' \<and> length b' = length b \<and> take (n + length ys) b' = xs @ ys"
  using assms by (auto simp: memcpy_at_def length_overwrite take_overwrite_all)

lemma protocol_seal_ok:
  assumes "mbedtls_ok m"
  shows "\<exists>b. protocol_seal m key xs e
      = Inr ((PORT_SUCCESS, b, length (seal m key (next_iv m e) xs)), seal_env key e)
    \<and> take (length (seal m key (next_iv m e) xs)) b = seal m key (next_iv m e) xs"
proof -
  let ?p = "sealed_payload m key (next_iv m e) xs"
  let ?b0 = "replicate (protocol_buflen (length xs)) (0 :: byte)"
  note lens = length_sealed_payload [OF assms length_next_iv [OF assms]]
  have room: "length ?p + SHA256_LEN \<le> length ?b0"
    using encrypted_buflen_ge(1) [of "length xs"] by (simp add: lens protocol_buflen_def protocol_lens)
  obtain b where b: "(case key of
             Some k \<Rightarrow>
               let ((ret, iv, ct), e1) = cipher m Encrypt k (take MBEDTLS_MAX_IV_LENGTH ?b0) xs e
               in if ret < 0 then Inr ((PORT_FAIL, ?b0, 0), e1)
                  else andthen (memcpy_at ?b0 0 iv) (\<lambda>b1.
                       andthen (memcpy_at b1 MBEDTLS_MAX_IV_LENGTH ct) (\<lambda>b2.
                       Inr ((PORT_SUCCESS, b2, MBEDTLS_MAX_IV_LENGTH + length ct), e1)))
           | None \<Rightarrow>
               andthen (memcpy_at ?b0 0 xs) (\<lambda>b1. Inr ((PORT_SUCCESS, b1, length xs), e)))
        = (Inr ((PORT_SUCCESS, b, length ?p), seal_env key e) :: fault + (int \<times> bytes \<times> nat) \<times> env)"
    and tb: "take (length ?p) b = ?p" "length b = length ?b0"
  proof (cases key)
    case None
    then show thesis
      using that room by (simp add: memcpy_at_def overwrite_0 sealed_payload_def seal_env_def)
  next
    case (Some k)
    let ?iv = "next_iv m e"
    let ?ct = "snd (cipher_crypt m Encrypt (take ECDH_KEY_LENGTH k) ?iv xs)"
    have p: "?p = ?iv @ ?ct" using Some by (simp add: sealed_payload_def)
    have iv: "length ?iv = MBEDTLS_MAX_IV_LENGTH" using assms by simp
    obtain b1 where b1: "memcpy_at ?b0 0 ?iv = Inr b1" "length b1 = length ?b0" "take (length ?iv) b1 = ?iv"
      using take_memcpy_append [of 0 ?b0 "[]" ?iv] room p by auto
    obtain b2 where b2: "memcpy_at b1 (length ?iv) ?ct = Inr b2" "length b2 = length b1"
      "take (length ?iv + length ?ct) b2 = ?iv @ ?ct"
      using take_memcpy_append [OF b1(3) refl, of ?ct] b1(2) room p by auto
    show thesis
      by (rule that [of b2])
        (use Some b1 b2 p iv in \<open>simp_all add: cipher_encrypt_ok [OF assms] seal_env_def PORT_SUCCESS_def\<close>)
  qed
  obtain b' where b': "memcpy_at b (length ?p) (tag_of m key ?p) = Inr b'"
    "take (length ?p + length (tag_of m key ?p)) b' = ?p @ tag_of m key ?p"
    using take_memcpy_append [OF tb(1) refl, of "tag_of m key ?p"] tb(2) room assms by auto
  have "protocol_seal m key xs e = Inr ((PORT_SUCCESS, b', length ?p + SHA256_LEN), seal_env key e)"
    unfolding protocol_seal_def Let_def [of ?b0] b
    using b' tb assms by (simp add: message_digest_ok PORT_SUCCESS_def)
  then show ?thesis
    using b'(2) assms by (simp add: seal_def)
qed

section \<open>Opening a datagram\<close>

lemma sane_length_0 [simp]: "sane_length key = 0"
  by (simp add: sane_length_def SHA256_LEN_def)

text \<open>
  A datagram \<open>payload @ tag\<close> with a whole digest. The receiver first compares the digest and
  only then looks at the size of the output buffer.
\<close>

lemma protocol_received_start:
  assumes "mbedtls_ok m" "length wire < 2 ^ 31" "SHA256_LEN \<le> length wire" "take (length wire) buf = wire"
  shows "protocol_encrypted_buffer_received m key buf (length wire) out n e =
    (let payload = take (length wire - SHA256_LEN) wire
     in if tag_of m key payload \<noteq> drop (length wire - SHA256_LEN) wire then Inr ((PORT_ENOMEM, out), e)
     else case key of
       None \<Rightarrow> if n < length payload then Inr ((PORT_ESIZE, out), e)
               else andthen (memcpy_at out 0 payload) (\<lambda>out'. Inr ((int (length payload), out'), e))
     | Some k \<Rightarrow>
         let l = size_sub (size_sub (length wire) MBEDTLS_MAX_IV_LENGTH) SHA256_LEN
         in if n < l then Inr ((PORT_ESIZE, out), e)
            else andthen (read_at buf 0 MBEDTLS_MAX_IV_LENGTH) (\<lambda>iv.
                 andthen (read_at buf MBEDTLS_MAX_IV_LENGTH l) (\<lambda>ct.
                 let pt = snd (cipher_crypt m Decrypt (take ECDH_KEY_LENGTH k) iv ct)
                 in andthen (memcpy_at out 0 pt) (\<lambda>out'. Inr ((to_int32 (length pt), out'), e)))))"
proof -
  let ?n = "length wire"
  have sz: "size_sub ?n SHA256_LEN = ?n - SHA256_LEN" "?n \<le> length buf"
    using assms(2,3) length_take [of ?n buf] assms(4) by (simp_all add: size_sub_le)
  have "take k buf = take k wire" if "k \<le> ?n" for k
    using assms(4) that by (metis min.absorb1 take_take)
  then have rd0: "read_at buf 0 (?n - SHA256_LEN) = Inr (take (?n - SHA256_LEN) wire)"
    using sz(2) by (simp add: read_at_Inr)
  have "take SHA256_LEN (drop (?n - SHA256_LEN) buf) = drop (?n - SHA256_LEN) wire"
    using assms(3,4) by (simp add: take_drop)
  then have tag: "read_at buf (?n - SHA256_LEN) SHA256_LEN = Inr (drop (?n - SHA256_LEN) wire)"
    using assms(3) sz(2) by (simp add: read_at_Inr)
  have "length (take (?n - SHA256_LEN) wire) = ?n - SHA256_LEN" by simp
  then show ?thesis
    using assms(2)
    by (simp add: protocol_encrypted_buffer_received_def sz rd0 tag message_digest_ok [OF assms(1)]
        cipher_decrypt_ok [OF assms(1)] PORT_SUCCESS_def to_int32_small Let_def split: option.split)
qed

lemma received_bad_tag:
  assumes "mbedtls_ok m" "length wire < 2 ^ 31" "SHA256_LEN \<le> length wire" "take (length wire) buf = wire"
    and "tag_of m key (take (length wire - SHA256_LEN) wire) \<noteq> drop (length wire - SHA256_LEN) wire"
  shows "protocol_encrypted_buffer_received m key buf (length wire) out n e = Inr ((PORT_ENOMEM, out), e)"
  using assms(5) by (simp add: protocol_received_start [OF assms(1-4)] Let_def)

lemma received_seal:
  assumes "mbedtls_ok m" "length iv = MBEDTLS_MAX_IV_LENGTH" "wire = seal m key iv xs" "length wire < 2 ^ 31"
    and "take (length wire) buf = wire" "length xs \<le> length out"
  shows "protocol_encrypted_buffer_received m key buf (length wire) out (length out) e
    = Inr ((int (length xs), overwrite out 0 xs), e)"
proof -
  let ?p = "sealed_payload m key iv xs"
  have wire: "wire = ?p @ tag_of m key ?p" using assms(3) by (simp add: seal_def)
  have len: "length wire = length ?p + SHA256_LEN" using wire assms(1) by simp
  then have parts: "take (length wire - SHA256_LEN) wire = ?p" "drop (length wire - SHA256_LEN) wire = tag_of m key ?p"
    using wire by simp_all
  have s32: "SHA256_LEN \<le> length wire" using len by simp
  show ?thesis
  proof (cases key)
    case None
    then have "?p = xs" by (simp add: sealed_payload_def)
    with None assms(6) show ?thesis
      unfolding protocol_received_start [OF assms(1,4) s32 assms(5)] Let_def parts by (simp add: memcpy_at_def)
  next
    case (Some k)
    let ?ct = "snd (cipher_crypt m Encrypt (take ECDH_KEY_LENGTH k) iv xs)"
    have p: "?p = iv @ ?ct" and ct: "length ?ct = length xs"
      using Some assms(1) by (simp_all add: sealed_payload_def mbedtls_okD)
    have l: "size_sub (size_sub (length wire) MBEDTLS_MAX_IV_LENGTH) SHA256_LEN = length xs"
      using assms(2,4) len p ct by (simp add: size_sub_le)
    have "buf = wire @ drop (length wire) buf"
      using append_take_drop_id [of "length wire" buf] assms(5) by simp
    then have buf: "buf = iv @ ?ct @ tag_of m key ?p @ drop (length wire) buf"
      using wire p by simp
    have rd: "read_at buf 0 MBEDTLS_MAX_IV_LENGTH = Inr iv"
      "read_at buf MBEDTLS_MAX_IV_LENGTH (length xs) = Inr ?ct"
      by (subst buf, simp add: read_at_def assms(2) [symmetric] ct)+
    show ?thesis
      using Some assms(4,6) rd len p ct
      unfolding protocol_received_start [OF assms(1,4) s32 assms(5)] Let_def parts l
      by (simp add: mbedtls_okD [OF assms(1)] memcpy_at_def to_int32_small)
  qed
qed

text \<open>A datagram shorter than a digest: the test against \<open>sane_length\<close> lets it pass.\<close>

lemma received_short:
  assumes "n < SHA256_LEN" "length buf < 2 ^ 31"
  shows "protocol_encrypted_buffer_received m key buf n out olen e = Inl OutOfBounds"
proof -
  have "size_sub n SHA256_LEN = 2 ^ 32 - (SHA256_LEN - n)"
    using assms(1) by (intro size_sub_wrap) (simp_all add: SHA256_LEN_def)
  then have "length buf < size_sub n SHA256_LEN"
    using assms by (simp add: SHA256_LEN_def)
  then show ?thesis
    by (simp add: protocol_encrypted_buffer_received_def read_at_def)
qed

section \<open>Datagrams over the bus\<close>

lemma signbus_protocol_send_seal:
  assumes "mbedtls_ok m" "wire = seal m (f dest) (next_iv m e) xs"
  shows "signbus_protocol_send m dest (Some f) xs s e
    = Inr (signbus_io_send dest (f dest \<noteq> None) wire s (seal_env (f dest) e))"
  using protocol_seal_ok [OF assms(1), of "f dest" xs e] assms(2)
  by (auto simp: signbus_protocol_send_def PORT_SUCCESS_def Let_def)

lemma seal_not_Nil [simp]: "mbedtls_ok m \<Longrightarrow> seal m key iv xs \<noteq> []"
  using length_tag_of [of m key "sealed_payload m key iv xs"]
  by (auto simp: seal_def SHA256_LEN_def simp del: length_tag_of)

lemma seal_fits:
  "mbedtls_ok m \<Longrightarrow> length iv = MBEDTLS_MAX_IV_LENGTH \<Longrightarrow> length xs \<le> n
     \<Longrightarrow> length (seal m key iv xs) \<le> protocol_buflen n"
  using encrypted_buflen_ge(1) [of n] by (simp add: length_seal protocol_buflen_def)

text \<open>
  The receiver's half of the round trip, blocking and asynchronous. The key a receiver uses is
  \<open>recv_key\<close> at the flag in the packet header.
\<close>

lemma signbus_protocol_recv_seal:
  assumes m: "mbedtls_ok m" "length iv = MBEDTLS_MAX_IV_LENGTH" "wire = seal m (recv_key f enc src) iv xs"
    and "length xs \<le> length clear_buf" "protocol_buflen (length clear_buf) < 2 ^ 16"
    and io: "io_wf s" "\<not> newpkt_new s" "listen_rcs e = []"
    and pre: "\<forall>ev\<in>set pre. \<exists>k. ev = SlaveError k"
    and fl: "filter (\<lambda>ev. \<not> foreign src sq ev) evs = map SlaveWrite (tl (io_frames src sq enc wire)) @ later"
  shows "\<exists>s' evs'. signbus_protocol_recv m (pre @ SlaveWrite (hd (io_frames src sq enc wire)) # evs) f sender clear_buf s e
      = Inr (int (length xs), overwrite clear_buf 0 xs, src, async_callback s, s', evs', e)
    \<and> io_wf s' \<and> \<not> newpkt_new s' \<and> filter (\<lambda>ev. \<not> foreign src sq ev) evs' = later"
proof -
  let ?n = "protocol_buflen (length clear_buf)"
  have fits: "length wire \<le> ?n" unfolding m(3) by (rule seal_fits [OF m(1,2) assms(4)])
  have ne: "wire \<noteq> []" using m by simp
  have b: "length (replicate ?n (0 :: byte)) < 2 ^ 16" using assms(5) by simp
  obtain r s' evs' where
    get: "get_message (pre @ SlaveWrite (hd (io_frames src sq enc wire)) # evs) (replicate ?n 0) False sender s
      = Inr (r, async_callback s, s', evs')"
    and recv: "received_message src sq enc wire (length (replicate ?n (0 :: byte))) later
        (s\<lparr>async_active := False, async_callback := None\<rparr>) r s' evs'"
    using get_message_message [OF io(1,2) ne b pre fl] by blast
  from recv fits have r: "rx_received r = length wire" "rx_encrypted r = enc" "rx_src r = src"
    "take (length wire) (rx_data r) = wire" "io_wf s'" "\<not> newpkt_new s'"
    "filter (\<lambda>ev. \<not> foreign src sq ev) evs' = later"
    by (auto simp: received_message_def)
  have small: "length wire < 2 ^ 31" using fits assms(5) by simp
  have "signbus_io_recv (pre @ SlaveWrite (hd (io_frames src sq enc wire)) # evs) (replicate ?n 0) False sender s e
      = Inr (int (length wire), Some r, async_callback s, s', evs', e)"
    using get r(1) small io(3) by (simp add: signbus_io_recv_def slave_listen_ok PORT_SUCCESS_def to_int32_small)
  then show ?thesis
    using r received_seal [OF m(1-3) small r(4) assms(4), of e] by (simp add: signbus_protocol_recv_def)
qed

lemma protocol_async_callback_seal:
  assumes "mbedtls_ok m" "length iv = MBEDTLS_MAX_IV_LENGTH" "prot_cb ps = Some cb"
    and "wire = seal m (recv_key (prot_addr_to_key ps) (async_encrypted s) (async_src_address s)) iv xs"
    and "length wire < 2 ^ 31" "take (length wire) (async_recv_buf s) = wire"
    and "length (prot_buf ps) = prot_buflen ps" "length xs \<le> prot_buflen ps"
  shows "protocol_async_callback m (int (length wire)) ps s e
    = Inr ((cb, int (length xs)), ps\<lparr>prot_buf := overwrite (prot_buf ps) 0 xs, async_buf := Some (async_recv_buf s)\<rparr>, e)"
  using received_seal [OF assms(1,2,4-6), of "prot_buf ps" e] assms(3,7,8)
  by (simp add: protocol_async_callback_def)

section \<open>Properties\<close>

text \<open>C9: a datagram whose digest does not verify is rejected with \<open>PORT_ENOMEM\<close>, whatever the
  payload, and the output buffer is left as it was. With a key the digest is the HMAC under
  that key.\<close>

theorem bad_digest_is_rejected:
  assumes "mbedtls_ok m" "length (payload @ tag) < 2 ^ 31" "length tag = SHA256_LEN"
    and "take (length (payload @ tag)) buf = payload @ tag" "tag_of m key payload \<noteq> tag"
  shows "protocol_encrypted_buffer_received m key buf (length (payload @ tag)) out n e = Inr ((PORT_ENOMEM, out), e)"
  by (rule received_bad_tag [OF assms(1,2) _ assms(4)]) (use assms(3,5) in simp_all)

text \<open>A toy library for the witnesses: it adds the first IV byte to every byte and sums for a digest.\<close>

definition toy_tls :: mbedtls where
  "toy_tls = \<lparr>entropy_add_source = 0, ctr_drbg_seed = 0, ctr_drbg_random = (\<lambda>k n. (0, replicate n (word_of_nat k))),
     cipher_setup = 0, cipher_setkey = (\<lambda>_ _. 0), cipher_reset = 0,
     cipher_crypt = (\<lambda>op key iv xs. (0, map (\<lambda>x. if op = Encrypt then x + hd (iv @ [0]) else x - hd (iv @ [0])) xs)),
     md_setup = (\<lambda>_. 0), md_hmac_starts = (\<lambda>_. 0), md_hmac_update = (\<lambda>_. 0),
     md_hmac_finish = (\<lambda>key xs. (0, replicate 32 (sum_list key + sum_list xs))),
     md_starts = 0, md_update = (\<lambda>_. 0), md_finish = (\<lambda>xs. (0, replicate 32 (sum_list xs)))\<rparr>"

lemma toy_tls_ok: "mbedtls_ok toy_tls"
  by (simp add: mbedtls_ok_def toy_tls_def SHA256_LEN_def comp_def)

theorem bad_digest_is_rejected_witness:
  "protocol_encrypted_buffer_received toy_tls (Some (replicate 32 3)) ([1, 2, 3] @ replicate 32 9) 35
     [0, 0, 0, 0] 4 clean_env = Inr ((PORT_ENOMEM, [0, 0, 0, 0]), clean_env)"
proof -
  have "tag_of toy_tls (Some (replicate 32 3)) [1, 2, 3] \<noteq> replicate 32 9"
    by (simp add: tag_of_def toy_tls_def sum_list_replicate ECDH_KEY_LENGTH_def)
  then show ?thesis
    using bad_digest_is_rejected [OF toy_tls_ok, of "[1, 2, 3]" "replicate 32 9" "[1, 2, 3] @ replicate 32 9"
        "Some (replicate 32 3)" "[0, 0, 0, 0]" 4 clean_env] by (simp add: SHA256_LEN_def)
qed

text \<open>C10: a datagram of fewer than 32 bytes is not caught by the size check of the receiver, and
  the digest is computed over memory past the buffer.\<close>

theorem short_datagram_reads_out_of_bounds:
  assumes "mbedtls_ok m" "n < SHA256_LEN" "length buf < 2 ^ 31"
  shows "protocol_encrypted_buffer_received m key buf n out olen e = Inl OutOfBounds"
  by (rule received_short [OF assms(2,3)])

theorem short_datagram_reads_out_of_bounds_witness:
  "protocol_encrypted_buffer_received toy_tls None (replicate 68 0) 31 [] 0 clean_env = Inl OutOfBounds"
  by (rule short_datagram_reads_out_of_bounds [OF toy_tls_ok]) (simp_all add: SHA256_LEN_def)

text \<open>C11: a receiver that has a key for a sender still accepts a datagram of that sender that is
  not encrypted and carries only a hash, which needs no key: the flag of the packet header
  decides.\<close>

theorem unencrypted_datagram_accepted_despite_key:
  assumes "mbedtls_ok m" "f src = Some k" "wire = xs @ tag_of m None xs"
    and "length xs \<le> length clear_buf" "protocol_buflen (length clear_buf) < 2 ^ 16"
    and "io_wf s" "\<not> newpkt_new s" "listen_rcs e = []"
  shows "\<exists>s' evs'. signbus_protocol_recv m (map SlaveWrite (io_frames src sq False wire)) (Some f) sender clear_buf s e
      = Inr (int (length xs), overwrite clear_buf 0 xs, src, async_callback s, s', evs', e)"
proof -
  let ?fs = "io_frames src sq False wire"
  have wire: "wire = seal m (recv_key (Some f) False src) (next_iv m e) xs"
    using assms(3) by (simp add: seal_def sealed_payload_def recv_key_def)
  then have ne: "wire \<noteq> []" using assms(1) by simp
  have "filter (\<lambda>ev. \<not> foreign src sq ev) (map SlaveWrite (tl ?fs)) = map SlaveWrite (tl ?fs) @ []"
    using io_frames_tl_not_foreign by simp
  from signbus_protocol_recv_seal [OF assms(1) _ wire assms(4-8) _ this, of "[]" sender] assms(1) io_frames_Cons [OF ne, of src sq False]
  show ?thesis by (auto simp flip: list.map(2))
qed

theorem unencrypted_datagram_accepted_despite_key_witness:
  "\<exists>s' evs'. signbus_protocol_recv toy_tls
      (map SlaveWrite (io_frames 0x22 7 False ([1, 2] @ tag_of toy_tls None [1, 2])))
      (Some (\<lambda>a. if a = 0x22 then Some (replicate 32 9) else None)) 0 [0, 0, 0] io_boot clean_env
    = Inr (2, overwrite [0, 0, 0] 0 [1, 2], 0x22, async_callback io_boot, s', evs', clean_env)"
  using unencrypted_datagram_accepted_despite_key [OF toy_tls_ok, of "\<lambda>a. if a = 0x22 then Some (replicate 32 9) else None"
      "0x22" "replicate 32 9" "[1, 2] @ tag_of toy_tls None [1, 2]" "[1, 2]" "[0, 0, 0]" io_boot clean_env 7 0]
  by (simp add: protocol_buflen_def encrypted_buflen_def protocol_lens clean_env_def)

end
