(* ===== verification/Signbus_App.thy ===== *)
theory Signbus_App
  imports Signbus_Protocol
begin

text \<open>
  The application layer of the bus, \<open>signpost/apps/libsignpost/signbus_app_layer.c\<close>: a
  message is a frame type, an API and a message type in front of its bytes. The second half of
  the theory puts the three layers together: a message that one node sends with
  \<open>signbus_app_send\<close> is the message another node's callback gets.
\<close>

section \<open>Messages\<close>

definition NotificationFrame :: byte where "NotificationFrame = 0"
definition CommandFrame :: byte where "CommandFrame = 1"
definition ResponseFrame :: byte where "ResponseFrame = 2"
definition ErrorFrame :: byte where "ErrorFrame = 3"

lemmas frame_types = NotificationFrame_def CommandFrame_def ResponseFrame_def ErrorFrame_def

definition InitializationApiType :: byte where "InitializationApiType = 1"
definition StorageApiType :: byte where "StorageApiType = 2"
definition NetworkingApiType :: byte where "NetworkingApiType = 3"
definition ProcessingApiType :: byte where "ProcessingApiType = 4"
definition EnergyApiType :: byte where "EnergyApiType = 5"
definition TimeLocationApiType :: byte where "TimeLocationApiType = 6"
definition EdisonApiType :: byte where "EdisonApiType = 7"
definition JsonApiType :: byte where "JsonApiType = 8"
definition WatchdogApiType :: byte where "WatchdogApiType = 9"

lemmas api_types = InitializationApiType_def StorageApiType_def NetworkingApiType_def
  ProcessingApiType_def EnergyApiType_def TimeLocationApiType_def EdisonApiType_def JsonApiType_def
  WatchdogApiType_def

text \<open>
  The cells the caller's pointers lead to. \<open>message\<close> points into the receive buffer: its
  bytes are those from there to the end of that buffer.
\<close>

record app_cells =
  frame_type :: byte
  api_type :: byte
  message_type :: byte
  message_length :: nat
  message :: bytes

definition app_parse :: "bytes \<Rightarrow> nat \<Rightarrow> fault + app_cells \<times> int" where
  "app_parse recv_buf received_length =
     (if length recv_buf < 3 then Inl OutOfBounds
      else Inr (\<lparr>frame_type = recv_buf ! 0, api_type = recv_buf ! 1, message_type = recv_buf ! 2,
                 message_length = size_sub received_length 3, message = drop 3 recv_buf\<rparr>,
                to_int32 (size_sub received_length 3)))"

section \<open>Sending and receiving\<close>

definition signbus_app_send ::
  "mbedtls \<Rightarrow> byte \<Rightarrow> addr_to_key option \<Rightarrow> byte \<Rightarrow> byte \<Rightarrow> byte \<Rightarrow> nat \<Rightarrow> bytes \<Rightarrow> io_state \<Rightarrow> env
     \<Rightarrow> fault + int \<times> io_state \<times> env" where
  "signbus_app_send m dest addr_to_key frame api msg_type msg_len msg s e =
     andthen (read_at msg 0 msg_len) (\<lambda>xs.
     signbus_protocol_send m dest addr_to_key ([frame, api, msg_type] @ xs) s e)"

definition signbus_app_recv ::
  "mbedtls \<Rightarrow> io_event list \<Rightarrow> addr_to_key option \<Rightarrow> byte \<Rightarrow> app_cells \<Rightarrow> bytes \<Rightarrow> io_state \<Rightarrow> env
     \<Rightarrow> fault + int \<times> app_cells \<times> bytes \<times> byte \<times> io_callback option \<times> io_state \<times> io_event list \<times> env" where
  "signbus_app_recv m evs addr_to_key sender cells recv_buf s e =
     andthen (signbus_protocol_recv m evs addr_to_key sender recv_buf s e)
       (\<lambda>(len_or_rc, buf, src, cb, s', evs', e').
          if len_or_rc < 0 then Inr (len_or_rc, cells, buf, src, cb, s', evs', e')
          else andthen (app_parse buf (nat len_or_rc)) (\<lambda>(cells', rc).
               Inr (rc, cells', buf, src, cb, s', evs', e')))"

datatype app_callback = ApiRecvCallback | OtherAppCallback nat

text \<open>The static \<open>cb_data\<close>; the receive buffer it points to is the \<open>prot_buf\<close> of the layer below.\<close>

record app_state =
  app_cb :: "app_callback option"
  app_recv :: app_cells

definition app_boot :: app_state where
  "app_boot = \<lparr>app_cb = None, app_recv = \<lparr>frame_type = 0, api_type = 0, message_type = 0,
     message_length = 0, message = []\<rparr>\<rparr>"

definition app_layer_callback :: "int \<Rightarrow> app_state \<Rightarrow> bytes \<Rightarrow> fault + (app_callback \<times> int) \<times> app_state" where
  "app_layer_callback len_or_rc a recv_buf =
     (case app_cb a of
        None \<Rightarrow> Inl NullPointer
      | Some cb \<Rightarrow>
          if len_or_rc < 0 then Inr ((cb, len_or_rc), a)
          else andthen (app_parse recv_buf (nat len_or_rc)) (\<lambda>(cells, rc). Inr ((cb, rc), a\<lparr>app_recv := cells\<rparr>)))"

definition signbus_app_recv_async ::
  "app_callback \<Rightarrow> byte \<Rightarrow> addr_to_key option \<Rightarrow> bytes \<Rightarrow> app_state \<Rightarrow> prot_state \<Rightarrow> io_state \<Rightarrow> env
     \<Rightarrow> int \<times> app_state \<times> prot_state \<times> io_state \<times> env" where
  "signbus_app_recv_async cb sender addr_to_key recv_buf a ps s e =
     (let a' = a\<lparr>app_cb := Some cb\<rparr>;
          (rc, ps', s', e') = signbus_protocol_recv_async AppLayerCallback sender addr_to_key recv_buf ps s e
      in (rc, a', ps', s', e'))"

section \<open>The three layers of a node\<close>

record net =
  n_io :: io_state
  n_prot :: prot_state
  n_app :: app_state
  n_env :: env

definition net_boot :: net where
  "net_boot = \<lparr>n_io = io_boot, n_prot = prot_boot, n_app = app_boot, n_env = clean_env\<rparr>"

text \<open>
  A bus event up to the call of the application's callback: the network layer runs the callback
  it was given, that runs the protocol layer's, and that the application layer's.
\<close>

definition net_receive ::
  "mbedtls \<Rightarrow> io_event \<Rightarrow> io_event list \<Rightarrow> net \<Rightarrow> fault + (app_callback \<times> int) option \<times> net \<times> io_event list" where
  "net_receive m ev evs n =
     andthen (signbus_io_slave_write_callback ev evs (n_io n)) (\<lambda>(cb, s', evs').
       case cb of
         Some (ProtocolAsyncCallback, len) \<Rightarrow>
           andthen (protocol_async_callback m (to_int32 len) (n_prot n) s' (n_env n)) (\<lambda>((pcb, rc), ps', e').
             case pcb of
               AppLayerCallback \<Rightarrow>
                 andthen (app_layer_callback rc (n_app n) (prot_buf ps')) (\<lambda>(call, a').
                 Inr (Some call, n\<lparr>n_io := s', n_prot := ps', n_app := a', n_env := e'\<rparr>, evs'))
             | OtherProtCallback _ \<Rightarrow> Inr (None, n\<lparr>n_io := s', n_prot := ps', n_env := e'\<rparr>, evs'))
       | _ \<Rightarrow> Inr (None, n\<lparr>n_io := s'\<rparr>, evs'))"

definition net_send ::
  "mbedtls \<Rightarrow> byte \<Rightarrow> addr_to_key \<Rightarrow> byte \<Rightarrow> byte \<Rightarrow> byte \<Rightarrow> nat \<Rightarrow> bytes \<Rightarrow> net \<Rightarrow> fault + int \<times> net" where
  "net_send m dest f frame api msg_type msg_len msg n =
     andthen (signbus_app_send m dest (Some f) frame api msg_type msg_len msg (n_io n) (n_env n))
       (\<lambda>(rc, s', e'). Inr (rc, n\<lparr>n_io := s', n_env := e'\<rparr>))"

definition net_recv_async :: "app_callback \<Rightarrow> addr_to_key \<Rightarrow> bytes \<Rightarrow> net \<Rightarrow> int \<times> net" where
  "net_recv_async cb f recv_buf n =
     (let (rc, a', ps', s', e') = signbus_app_recv_async cb (async_src_address (n_io n)) (Some f) recv_buf
            (n_app n) (n_prot n) (n_io n) (n_env n)
      in (rc, \<lparr>n_io = s', n_prot = ps', n_app = a', n_env = e'\<rparr>))"

section \<open>The stack of codecs\<close>

text \<open>
  Every layer is a codec: an application message in a datagram payload, a payload in a sealed
  datagram of its sender, a datagram in the frames of the link. The stack is a codec by the
  laws of the layers.
\<close>

definition app_payload :: "byte \<times> byte \<times> byte \<times> bytes \<Rightarrow> bytes" where
  "app_payload = (\<lambda>(frame, api, mt, xs). [frame, api, mt] @ xs)"

definition app_decode :: "bytes \<Rightarrow> (byte \<times> byte \<times> byte \<times> bytes) option" where
  "app_decode bs = (case app_parse bs (length bs) of
     Inl _ \<Rightarrow> None
   | Inr (c, _) \<Rightarrow> Some (frame_type c, api_type c, message_type c, take (message_length c) (message c)))"

lemma app_parse_payload:
  assumes "take (3 + length xs) buf = app_payload (frame, api, mt, xs)" "3 + length xs < 2 ^ 31"
  shows "app_parse buf (3 + length xs) = Inr (\<lparr>frame_type = frame, api_type = api, message_type = mt,
      message_length = length xs, message = drop 3 buf\<rparr>, int (length xs))"
    and "take (length xs) (drop 3 buf) = xs"
proof -
  obtain rest where "buf = app_payload (frame, api, mt, xs) @ rest"
    using append_take_drop_id [of "3 + length xs" buf] unfolding assms(1) by metis
  then have buf: "buf = frame # api # mt # xs @ rest" by (simp add: app_payload_def)
  have "size_sub (3 + length xs) 3 = length xs" using assms(2) by (simp add: size_sub_le)
  then show "app_parse buf (3 + length xs) = Inr (\<lparr>frame_type = frame, api_type = api, message_type = mt,
      message_length = length xs, message = drop 3 buf\<rparr>, int (length xs))"
    "take (length xs) (drop 3 buf) = xs"
    using assms(2) by (simp_all add: app_parse_def to_int32_small buf)
qed

interpretation app_codec: codec app_payload app_decode "\<lambda>(frame, api, mt, xs). 3 + length xs < 2 ^ 31"
proof
  fix x :: "byte \<times> byte \<times> byte \<times> bytes"
  assume v: "case x of (frame, api, mt, xs) \<Rightarrow> 3 + length xs < 2 ^ 31"
  obtain frame api mt xs where x: "x = (frame, api, mt, xs)" by (cases x) auto
  have "length (app_payload x) = 3 + length xs" by (simp add: x app_payload_def)
  moreover have "take (3 + length xs) (app_payload x) = app_payload (frame, api, mt, xs)"
    by (simp add: x app_payload_def)
  ultimately show "app_decode (app_payload x) = Some x"
    using v app_parse_payload [of xs "app_payload x" frame api mt] by (simp add: app_decode_def x)
qed

text \<open>A node with the keys \<open>f\<close> opens a datagram of the sender \<open>src\<close>.\<close>

definition datagram_open ::
  "mbedtls \<Rightarrow> addr_to_key \<Rightarrow> byte \<Rightarrow> nat \<Rightarrow> bool \<times> bytes \<Rightarrow> bytes option" where
  "datagram_open m f src n = (\<lambda>(enc, wire).
     case protocol_encrypted_buffer_received m (recv_key (Some f) enc src) wire (length wire)
            (replicate n 0) n clean_env of
       Inl _ \<Rightarrow> None
     | Inr ((rc, out), _) \<Rightarrow> if rc < 0 then None else Some (take (nat rc) out))"

interpretation datagram: codec "\<lambda>xs. (f src \<noteq> None, seal m (f src) iv xs)" "datagram_open m f src n"
    "\<lambda>xs. mbedtls_ok m \<and> length iv = MBEDTLS_MAX_IV_LENGTH \<and> length xs \<le> n \<and> n < 2 ^ 31 - 64"
  for m f src iv n
proof
  fix xs :: bytes
  assume v: "mbedtls_ok m \<and> length iv = MBEDTLS_MAX_IV_LENGTH \<and> length xs \<le> n \<and> n < 2 ^ 31 - 64"
  let ?w = "seal m (f src) iv xs"
  have key: "recv_key (Some f) (f src \<noteq> None) src = f src"
    by (auto simp: recv_key_def)
  have "length ?w < 2 ^ 31"
    using v by (simp add: length_seal protocol_lens)
  then have "protocol_encrypted_buffer_received m (f src) ?w (length ?w) (replicate n 0) (length (replicate n (0::byte))) clean_env
      = Inr ((int (length xs), overwrite (replicate n 0) 0 xs), clean_env)"
    using v by (intro received_seal [of _ iv]) simp_all
  then show "datagram_open m f src n (f src \<noteq> None, ?w) = Some xs"
    unfolding datagram_open_def prod.case key by (simp add: overwrite_0)
qed

text \<open>The frames of a datagram of the sender \<open>src\<close>, received by a node that has just booted.\<close>

definition link_decode :: "nat \<Rightarrow> bytes list \<Rightarrow> (bool \<times> bytes) option" where
  "link_decode n fs = map_option snd (io_receive n fs)"

interpretation frames: codec "\<lambda>(enc, wire). io_frames src sq enc wire" "link_decode n"
    "\<lambda>(enc, wire). wire \<noteq> [] \<and> length wire \<le> n \<and> n < 2 ^ 16" for src sq n
proof
  fix x :: "bool \<times> bytes"
  assume "case x of (enc, wire) \<Rightarrow> wire \<noteq> [] \<and> length wire \<le> n \<and> n < 2 ^ 16"
  then show "link_decode n (case x of (enc, wire) \<Rightarrow> io_frames src sq enc wire) = Some x"
    using link.decode_encode [where x = "(src, x)" and n = n and sq = sq] by (auto simp: link_decode_def)
qed

text \<open>A message that fits a receive buffer of \<open>n\<close> bytes.\<close>

definition message_fits :: "mbedtls \<Rightarrow> bytes \<Rightarrow> nat \<Rightarrow> byte \<times> byte \<times> byte \<times> bytes \<Rightarrow> bool" where
  "message_fits m iv n x \<longleftrightarrow> mbedtls_ok m \<and> length iv = MBEDTLS_MAX_IV_LENGTH
     \<and> length (app_payload x) \<le> n \<and> protocol_buflen n < 2 ^ 16"

lemma protocol_buflen_bounds: "n + 64 \<le> protocol_buflen n" "protocol_buflen n \<le> n + 79"
  using encrypted_buflen_ge [of n] by (simp_all add: protocol_buflen_def protocol_lens)

interpretation sealed: codec_stack app_payload app_decode "message_fits m iv n"
    "\<lambda>xs. (f src \<noteq> None, seal m (f src) iv xs)" "datagram_open m f src n"
    "\<lambda>xs. mbedtls_ok m \<and> length iv = MBEDTLS_MAX_IV_LENGTH \<and> length xs \<le> n \<and> n < 2 ^ 31 - 64"
  for m f src iv n
proof unfold_locales
  fix x
  assume v: "message_fits m iv n x"
  have n: "n < 2 ^ 16" using v protocol_buflen_bounds [of n] by (simp add: message_fits_def)
  show "app_decode (app_payload x) = Some x"
    by (rule app_codec.decode_encode) (use v n in \<open>auto simp: message_fits_def app_payload_def\<close>)
  show "mbedtls_ok m \<and> length iv = MBEDTLS_MAX_IV_LENGTH \<and> length (app_payload x) \<le> n \<and> n < 2 ^ 31 - 64"
    using v n by (simp add: message_fits_def)
qed

interpretation message_stack: codec_stack
    "\<lambda>x. (f src \<noteq> None, seal m (f src) iv (app_payload x))"
    "\<lambda>y. Option.bind (datagram_open m f src n y) app_decode" "message_fits m iv n"
    "\<lambda>(enc, wire). io_frames src sq enc wire" "link_decode (protocol_buflen n)"
    "\<lambda>(enc, wire). wire \<noteq> [] \<and> length wire \<le> protocol_buflen n \<and> protocol_buflen n < 2 ^ 16"
  for m f src iv n sq
proof unfold_locales
  fix x
  assume v: "message_fits m iv n x"
  show "case (f src \<noteq> None, seal m (f src) iv (app_payload x)) of
      (enc, wire) \<Rightarrow> wire \<noteq> [] \<and> length wire \<le> protocol_buflen n \<and> protocol_buflen n < 2 ^ 16"
    using v seal_fits [of m iv "app_payload x" n "f src"] by (simp add: message_fits_def)
qed

section \<open>Two nodes\<close>

definition sent_wire :: "mbedtls \<Rightarrow> byte \<Rightarrow> addr_to_key \<Rightarrow> byte \<times> byte \<times> byte \<times> bytes \<Rightarrow> net \<Rightarrow> bytes" where
  "sent_wire m dest f x n = seal m (f dest) (next_iv m (n_env n)) (app_payload x)"

definition sent_frames :: "mbedtls \<Rightarrow> byte \<Rightarrow> addr_to_key \<Rightarrow> byte \<times> byte \<times> byte \<times> bytes \<Rightarrow> net \<Rightarrow> bytes list" where
  "sent_frames m dest f x n = io_frames (this_device_address (n_io n)) (sequence_number (n_io n) + 1)
     (f dest \<noteq> None) (sent_wire m dest f x n)"

lemma length_sent_wire:
  assumes "mbedtls_ok m"
  shows "length (sent_wire m dest f (fr, api, mt, xs) n)
    = (if f dest = None then 0 else MBEDTLS_MAX_IV_LENGTH) + 3 + length xs + SHA256_LEN"
  using assms by (simp add: sent_wire_def length_seal app_payload_def)

lemma sent_wire_not_Nil [simp]: "mbedtls_ok m \<Longrightarrow> sent_wire m dest f x n \<noteq> []"
  by (simp add: sent_wire_def)

text \<open>What a send does to the bus, on any platform script.\<close>

lemma net_send_write_all:
  assumes "mbedtls_ok m" "length xs < 2 ^ 16 - 64"
  shows "net_send m dest f fr api mt (length xs) xs n =
    (let w = sent_wire m dest f (fr, api, mt, xs) n;
         (rc, e) = write_all dest (sent_frames m dest f (fr, api, mt, xs) n) (int (length w)) (seal_env (f dest) (n_env n))
     in Inr (rc, n\<lparr>n_io := (n_io n)\<lparr>sequence_number := sequence_number (n_io n) + 1\<rparr>, n_env := e\<rparr>))"
proof -
  let ?w = "sent_wire m dest f (fr, api, mt, xs) n"
  have len: "length ?w < 2 ^ 16"
    using assms by (simp add: length_sent_wire protocol_lens)
  have "signbus_protocol_send m dest (Some f) (app_payload (fr, api, mt, xs)) (n_io n) (n_env n)
      = Inr (signbus_io_send dest (f dest \<noteq> None) ?w (n_io n) (seal_env (f dest) (n_env n)))"
    by (rule signbus_protocol_send_seal [OF assms(1)]) (simp add: sent_wire_def)
  then show ?thesis
    unfolding net_send_def signbus_app_send_def signbus_io_send_write_all [OF len]
    by (simp add: read_at_Inr app_payload_def sent_frames_def Let_def case_prod_beta)
qed

lemma wr_log_seal_env [simp]: "wr_log (seal_env key e) = wr_log e" "wr_rcs (seal_env key e) = wr_rcs e"
  by (simp_all add: seal_env_def)

lemma net_send_frames:
  assumes "mbedtls_ok m" "length xs < 2 ^ 16 - 64" "wr_rcs (n_env n) = []"
  shows "\<exists>n'. net_send m dest f fr api mt (length xs) xs n
      = Inr (int (length (sent_wire m dest f (fr, api, mt, xs) n)), n')
    \<and> wr_log (n_env n') = wr_log (n_env n) @ map (Pair dest) (sent_frames m dest f (fr, api, mt, xs) n)"
  using assms by (simp add: net_send_write_all write_all_ok Let_def)

lemma net_send_log:
  assumes "mbedtls_ok m" "length xs < 2 ^ 16 - 64" "wr_rcs (n_env n) = []"
    and "net_send m dest f fr api mt (length xs) xs n = Inr (rc, n')"
  shows "wr_log (n_env n') = wr_log (n_env n) @ map (Pair dest) (sent_frames m dest f (fr, api, mt, xs) n)"
  using net_send_frames [OF assms(1-3), of dest f fr api mt] assms(4) by auto

text \<open>A node that waits for a message: the callbacks of all three layers are registered.\<close>

definition listening :: "app_callback \<Rightarrow> addr_to_key \<Rightarrow> net \<Rightarrow> bool" where
  "listening cb f n \<longleftrightarrow> io_wf (n_io n) \<and> async_active (n_io n)
     \<and> async_callback (n_io n) = Some ProtocolAsyncCallback
     \<and> prot_cb (n_prot n) = Some AppLayerCallback \<and> prot_addr_to_key (n_prot n) = Some f
     \<and> app_cb (n_app n) = Some cb \<and> length (prot_buf (n_prot n)) = prot_buflen (n_prot n)
     \<and> length (async_recv_buf (n_io n)) < 2 ^ 16"

lemma net_recv_async_listening:
  assumes "async_buf (n_prot n) = Some b" "length b < 2 ^ 16" "io_wf (n_io n)" "net_recv_async cb f recv_buf n = (rc, n')"
  shows "listening cb f n'" "async_recv_buf (n_io n') = b" "prot_buf (n_prot n') = recv_buf"
    "newpkt_new (n_io n') = newpkt_new (n_io n)"
  using assms
  by (auto simp: net_recv_async_def signbus_app_recv_async_def signbus_protocol_recv_async_def
      signbus_io_recv_async_def listening_def Let_def io_wf_def split: prod.splits)

lemma net_receive_message:
  assumes m: "mbedtls_ok m" "length iv = MBEDTLS_MAX_IV_LENGTH"
    "wire = seal m (recv_key (Some f) enc src) iv (app_payload (fr, api, mt, xs))"
    and n: "listening cb f n" "\<not> newpkt_new (n_io n)" "length wire \<le> length (async_recv_buf (n_io n))"
      "3 + length xs \<le> prot_buflen (n_prot n)"
    and fl: "filter (\<lambda>ev. \<not> foreign src sq ev) evs = map SlaveWrite (tl (io_frames src sq enc wire)) @ later"
  shows "\<exists>n' evs'. net_receive m (SlaveWrite (hd (io_frames src sq enc wire))) evs n
      = Inr (Some (cb, int (length xs)), n', evs')
    \<and> frame_type (app_recv (n_app n')) = fr \<and> api_type (app_recv (n_app n')) = api
    \<and> message_type (app_recv (n_app n')) = mt \<and> message_length (app_recv (n_app n')) = length xs
    \<and> take (length xs) (message (app_recv (n_app n'))) = xs
    \<and> async_src_address (n_io n') = src \<and> \<not> async_active (n_io n') \<and> \<not> newpkt_new (n_io n') \<and> io_wf (n_io n')
    \<and> n_env n' = n_env n \<and> this_device_address (n_io n') = this_device_address (n_io n)
    \<and> sequence_number (n_io n') = sequence_number (n_io n)
    \<and> length (prot_buf (n_prot n')) = length (prot_buf (n_prot n))
    \<and> length (message (app_recv (n_app n'))) = length (prot_buf (n_prot n)) - 3
    \<and> (\<exists>b. async_buf (n_prot n') = Some b \<and> length b = length (async_recv_buf (n_io n)))
    \<and> filter (\<lambda>ev. \<not> foreign src sq ev) evs' = later"
proof -
  let ?f = "hd (io_frames src sq enc wire)"
  have ne: "wire \<noteq> []" using m by simp
  obtain r s0 evs' where
    cb: "signbus_io_slave_write_callback (SlaveWrite ?f) evs (n_io n) = Inr (Some (ProtocolAsyncCallback, rx_received r),
          s0\<lparr>async_recv_buf := rx_data r, async_encrypted := enc, async_src_address := src\<rparr>, evs')"
    and recv: "received_message src sq enc wire (length (async_recv_buf (n_io n))) later
        ((n_io n)\<lparr>async_active := False, async_callback := None\<rparr>) r s0 evs'"
    using slave_write_callback_message [OF _ n(2) _ _ ne _ fl] n(1) by (auto simp: listening_def)
  have small: "length wire < 2 ^ 31" using n(1,3) by (simp add: listening_def)
  from recv n(3) have r: "rx_received r = length wire" "take (length wire) (rx_data r) = wire" "io_wf s0" "\<not> newpkt_new s0"
    "filter (\<lambda>ev. \<not> foreign src sq ev) evs' = later" "\<not> async_active s0"
    "length (rx_data r) = length (async_recv_buf (n_io n))"
    "this_device_address s0 = this_device_address (n_io n)" "sequence_number s0 = sequence_number (n_io n)"
    by (auto simp: received_message_def dest: only_buffers_same)
  let ?s = "s0\<lparr>async_recv_buf := rx_data r, async_encrypted := enc, async_src_address := src\<rparr>"
  let ?x = "app_payload (fr, api, mt, xs)"
  have lx: "length ?x = 3 + length xs" by (simp add: app_payload_def)
  let ?buf = "overwrite (prot_buf (n_prot n)) 0 ?x"
  have prot: "protocol_async_callback m (int (length wire)) (n_prot n) ?s (n_env n)
      = Inr ((AppLayerCallback, int (length ?x)),
          (n_prot n)\<lparr>prot_buf := ?buf, async_buf := Some (async_recv_buf ?s)\<rparr>, n_env n)"
    by (rule protocol_async_callback_seal [OF m(1,2)])
      (use n(1,4) m(3) r(2) small lx in \<open>simp_all add: listening_def\<close>)
  have "take (3 + length xs) ?buf = ?x" using lx by (simp add: overwrite_0)
  moreover have "3 + length xs < 2 ^ 31"
    using small m(1,2) lx unfolding m(3) by (simp add: length_seal)
  ultimately have app: "app_parse ?buf (3 + length xs) = Inr (\<lparr>frame_type = fr, api_type = api, message_type = mt,
      message_length = length xs, message = drop 3 ?buf\<rparr>, int (length xs))" "take (length xs) (drop 3 ?buf) = xs"
    by (rule app_parse_payload)+
  have call: "app_layer_callback (int (length ?x)) (n_app n) ?buf = Inr ((cb, int (length xs)),
      (n_app n)\<lparr>app_recv := \<lparr>frame_type = fr, api_type = api, message_type = mt,
      message_length = length xs, message = drop 3 ?buf\<rparr>\<rparr>)"
    using n(1) app(1) unfolding lx app_layer_callback_def nat_int by (simp add: listening_def)
  have "net_receive m (SlaveWrite ?f) evs n = Inr (Some (cb, int (length xs)),
      n\<lparr>n_io := ?s, n_prot := (n_prot n)\<lparr>prot_buf := ?buf, async_buf := Some (async_recv_buf ?s)\<rparr>,
        n_app := (n_app n)\<lparr>app_recv := \<lparr>frame_type = fr, api_type = api, message_type = mt,
          message_length = length xs, message = drop 3 ?buf\<rparr>\<rparr>, n_env := n_env n\<rparr>, evs')"
    unfolding net_receive_def cb using prot call r(1) small
    by (simp only: andthen.simps prod.case option.case io_callback.case prot_callback.case to_int32_small prot_state.simps prot_state.select_convs) simp
  moreover have "length ?buf = length (prot_buf (n_prot n))"
    using n(1,4) lx by (simp add: listening_def length_overwrite)
  ultimately show ?thesis using app(2) r by simp
qed

section \<open>Properties\<close>

text \<open>C12: what one node sends, the other node's application callback gets: its return value is the
  length of the message, and frame type, API, message type, bytes and sender are those of the
  sender, encrypted or not, whatever bus errors and packets of other messages arrive between
  the fragments. The two nodes only have to hold the same key for each other.\<close>

theorem message_reaches_callback:
  assumes "mbedtls_ok m" "wr_rcs (n_env t) = []" "length xs < 2 ^ 16 - 64"
    and "net_send m dest g fr api mt (length xs) xs t = Inr (rc, t')"
    and "fs = map snd (drop (length (wr_log (n_env t))) (wr_log (n_env t')))"
    and "src = this_device_address (n_io t)" "sq = sequence_number (n_io t) + 1"
    and "g dest = None \<or> f src = g dest"
    and "listening cb f n" "\<not> newpkt_new (n_io n)"
    and "length xs + 51 \<le> length (async_recv_buf (n_io n))" "length xs + 3 \<le> prot_buflen (n_prot n)"
    and "filter (\<lambda>ev. \<not> foreign src sq ev) evs = map SlaveWrite (tl fs) @ later"
  shows "\<exists>n' evs'. net_receive m (SlaveWrite (hd fs)) evs n = Inr (Some (cb, int (length xs)), n', evs')
    \<and> frame_type (app_recv (n_app n')) = fr \<and> api_type (app_recv (n_app n')) = api
    \<and> message_type (app_recv (n_app n')) = mt \<and> message_length (app_recv (n_app n')) = length xs
    \<and> take (length xs) (message (app_recv (n_app n'))) = xs
    \<and> async_src_address (n_io n') = src \<and> filter (\<lambda>ev. \<not> foreign src sq ev) evs' = later"
proof -
  let ?w = "sent_wire m dest g (fr, api, mt, xs) t"
  have "wr_log (n_env t') = wr_log (n_env t) @ map (Pair dest) (sent_frames m dest g (fr, api, mt, xs) t)"
    by (rule net_send_log [OF assms(1,3,2,4)])
  then have fs: "fs = io_frames src sq (g dest \<noteq> None) ?w"
    using assms(5-7) by (simp add: comp_def sent_frames_def)
  have "recv_key (Some f) (g dest \<noteq> None) src = g dest"
    using assms(8) by (auto simp: recv_key_def)
  then have wire: "?w = seal m (recv_key (Some f) (g dest \<noteq> None) src) (next_iv m (n_env t)) (app_payload (fr, api, mt, xs))"
    by (simp add: sent_wire_def)
  have "length ?w \<le> length (async_recv_buf (n_io n))" "3 + length xs \<le> prot_buflen (n_prot n)"
    using assms(1,11,12) by (simp_all add: length_sent_wire protocol_lens)
  from net_receive_message [OF assms(1) _ wire assms(9,10) this assms(13) [unfolded fs]] assms(1)
  show ?thesis unfolding fs by auto
qed

theorem message_reaches_callback_witness:
  "\<exists>t rc t' fs n n' evs'. t = net_boot\<lparr>n_io := io_boot\<lparr>this_device_address := 0x20\<rparr>\<rparr>
    \<and> net_send toy_tls 0x22 (\<lambda>_. Some (replicate 32 9)) CommandFrame StorageApiType 3 5 [1, 2, 3, 4, 5] t = Inr (rc, t')
    \<and> fs = map snd (drop 0 (wr_log (n_env t')))
    \<and> n = snd (net_recv_async ApiRecvCallback (\<lambda>_. Some (replicate 32 9)) (replicate 100 0)
            (net_boot\<lparr>n_prot := prot_boot\<lparr>async_buf := Some (replicate 200 0)\<rparr>\<rparr>))
    \<and> net_receive toy_tls (SlaveWrite (hd fs)) (map SlaveWrite (tl fs)) n = Inr (Some (ApiRecvCallback, 5), n', evs')
    \<and> take 5 (message (app_recv (n_app n'))) = [1, 2, 3, 4, 5]"
proof -
  let ?f = "\<lambda>_ :: byte. Some (replicate 32 (9 :: byte))"
  let ?t = "net_boot\<lparr>n_io := io_boot\<lparr>this_device_address := 0x20\<rparr>\<rparr>"
  define xs :: bytes where "xs = [1, 2, 3, 4, 5]"
  have len: "length xs = 5" by (simp add: xs_def)
  let ?b = "net_boot\<lparr>n_prot := prot_boot\<lparr>async_buf := Some (replicate 200 (0 :: byte))\<rparr>\<rparr>"
  obtain rc' n where n: "net_recv_async ApiRecvCallback ?f (replicate 100 0) ?b = (rc', n)"
    by (cases "net_recv_async ApiRecvCallback ?f (replicate 100 0) ?b") auto
  have l: "listening ApiRecvCallback ?f n" "async_recv_buf (n_io n) = replicate 200 0" "prot_buf (n_prot n) = replicate 100 0"
    "newpkt_new (n_io n) = newpkt_new (n_io ?b)"
    using net_recv_async_listening [OF _ _ _ n, of "replicate 200 0"] by (simp_all add: net_boot_def)
  have q: "wr_rcs (n_env ?t) = []" "\<not> newpkt_new (n_io n)" "prot_buflen (n_prot n) = 100"
    using l by (simp_all add: net_boot_def clean_env_def listening_def)
  obtain rc t' where s: "net_send toy_tls 0x22 ?f CommandFrame StorageApiType 3 (length xs) xs ?t = Inr (rc, t')"
    and log: "wr_log (n_env t') = wr_log (n_env ?t) @ map (Pair 0x22) (sent_frames toy_tls 0x22 ?f (CommandFrame, StorageApiType, 3, xs) ?t)"
    using net_send_frames [OF toy_tls_ok _ q(1), of xs "0x22" ?f CommandFrame StorageApiType 3] len by auto
  define fs where "fs = map snd (drop (length (wr_log (n_env ?t))) (wr_log (n_env t')))"
  have fs: "fs = io_frames (this_device_address (n_io ?t)) (sequence_number (n_io ?t) + 1) True
      (sent_wire toy_tls 0x22 ?f (CommandFrame, StorageApiType, 3, xs) ?t)"
    using log by (simp add: fs_def comp_def sent_frames_def)
  from message_reaches_callback [OF toy_tls_ok q(1) _ s fs_def refl refl _ l(1) q(2), of "map SlaveWrite (tl fs)" "[]"]
  obtain n' evs' where "net_receive toy_tls (SlaveWrite (hd fs)) (map SlaveWrite (tl fs)) n
      = Inr (Some (ApiRecvCallback, 5), n', evs')" "take 5 (message (app_recv (n_app n'))) = xs"
    using l q by (auto simp: fs io_frames_tl_not_foreign len)
  moreover have "fs = map snd (drop 0 (wr_log (n_env t')))"
    by (simp add: fs_def net_boot_def clean_env_def)
  moreover have "n = snd (net_recv_async ApiRecvCallback ?f (replicate 100 0) ?b)" by (simp add: n)
  ultimately show ?thesis using s len unfolding xs_def by metis
qed

text \<open>The wire format is unambiguous: two sends of a node in the same state that put the same
  frames on the bus sent the same message.\<close>

theorem frames_determine_message:
  assumes "mbedtls_ok m" "wr_rcs (n_env t) = []" "length xs < 60000" "length ys < 60000"
    and "net_send m dest f fr api mt (length xs) xs t = Inr (rc, t1)"
    and "net_send m dest f fr' api' mt' (length ys) ys t = Inr (rc', t2)"
    and "wr_log (n_env t1) = wr_log (n_env t2)"
  shows "(fr, api, mt, xs) = (fr', api', mt', ys)"
proof -
  let ?iv = "next_iv m (n_env t)"
  have logs: "wr_log (n_env t1) = wr_log (n_env t) @ map (Pair dest) (sent_frames m dest f (fr, api, mt, xs) t)"
    "wr_log (n_env t2) = wr_log (n_env t) @ map (Pair dest) (sent_frames m dest f (fr', api', mt', ys) t)"
    by (rule net_send_log [OF assms(1) _ assms(2,5)], use assms(3) in simp, rule net_send_log [OF assms(1) _ assms(2,6)], use assms(4) in simp)
  have "inj (Pair dest)" by (simp add: inj_def)
  then have eq: "sent_frames m dest f (fr, api, mt, xs) t = sent_frames m dest f (fr', api', mt', ys) t"
    using logs assms(7) by (metis inj_map_eq_map same_append_eq)
  have fits: "message_fits m ?iv 60003 (fr, api, mt, xs)" "message_fits m ?iv 60003 (fr', api', mt', ys)"
    using assms(1,3,4) by (simp_all add: message_fits_def app_payload_def protocol_buflen_def encrypted_buflen_def protocol_lens)
  show ?thesis
    using message_stack.stack.encode_eq_iff [OF fits, of "this_device_address (n_io t)"
        "sequence_number (n_io t) + 1" "\<lambda>_. f dest"] eq
    by (simp add: sent_frames_def sent_wire_def)
qed

theorem frames_determine_message_witness:
  "\<exists>rc t1. net_send toy_tls 0x22 (\<lambda>_. None) CommandFrame StorageApiType 3 2 [8, 9] net_boot = Inr (rc, t1)
    \<and> (CommandFrame, StorageApiType, 3, [8, 9]) = (CommandFrame, StorageApiType, 3, [8, 9 :: byte])"
proof -
  have q: "wr_rcs (n_env net_boot) = []" by (simp add: net_boot_def clean_env_def)
  obtain rc t1 where s: "net_send toy_tls 0x22 (\<lambda>_. None) CommandFrame StorageApiType 3 (length [8, 9 :: byte]) [8, 9] net_boot = Inr (rc, t1)"
    using net_send_frames [OF toy_tls_ok _ q, of "[8, 9]" "0x22" "\<lambda>_. None" CommandFrame StorageApiType 3] by auto
  from frames_determine_message [OF toy_tls_ok q _ _ s s refl] s show ?thesis by (simp add: numeral_2_eq_2)
qed

end
