(* ===== verification/Signpost_Api.thy ===== *)
theory Signpost_Api
  imports Signbus_App "HOL-Library.Sublist"
begin

text \<open>
  The core of \<open>signpost/apps/libsignpost/signpost_api.c\<close>: the module table and its look-ups, sending,
  the callbacks of the services and the dispatch of incoming messages to them. The statics of
  the file are the records \<open>api\<close> (module table, receive state, initialisation) and \<open>services\<close>
  (what the six services keep while they wait for a reply).

  The cells \<open>incoming_*\<close> are the cells of the layers below. A pointer static to a caller's object is
  a flag (set or null) with the object's memory beside it. Handlers the application registers are
  the parameter \<open>H\<close>: they see the message and may change the state. The waiting calls of the
  platform take events from a list; a \<open>Burst\<close> is the packets from one arrival to the end of the
  message, as \<open>get_message\<close> blocks until it has them.
\<close>

section \<open>The module table\<close>

definition NUM_MODULES :: nat where "NUM_MODULES = 8"
definition NAME_LEN :: nat where "NAME_LEN = 16"
definition MOD_STATE_MAGIC :: u32 where "MOD_STATE_MAGIC = 0xDEADBEEF"
definition ModuleAddressController :: byte where "ModuleAddressController = 0x20"
definition ModuleAddressStorage :: byte where "ModuleAddressStorage = 0x21"
definition ModuleAddressRadio :: byte where "ModuleAddressRadio = 0x22"

record module_state =
  magic :: u32
  self_mod_num :: byte
  i2c_address :: byte
  self_name :: bytes
  names :: "bytes list"
  i2c_address_mods :: "byte list"
  nonces :: "u16 list"
  haskey :: "bool list"
  keys :: "bytes list"

definition module_zero :: module_state where
  "module_zero = \<lparr>magic = 0, self_mod_num = 0, i2c_address = 0, self_name = replicate NAME_LEN 0,
     names = replicate NUM_MODULES (replicate NAME_LEN 0), i2c_address_mods = replicate NUM_MODULES 0,
     nonces = replicate NUM_MODULES 0, haskey = replicate NUM_MODULES False,
     keys = replicate NUM_MODULES (replicate ECDH_KEY_LENGTH 0)\<rparr>"

definition module_wf :: "module_state \<Rightarrow> bool" where
  "module_wf mi \<longleftrightarrow> length (self_name mi) = NAME_LEN
     \<and> length (names mi) = NUM_MODULES \<and> (\<forall>x\<in>set (names mi). length x = NAME_LEN)
     \<and> length (i2c_address_mods mi) = NUM_MODULES \<and> length (nonces mi) = NUM_MODULES
     \<and> length (haskey mi) = NUM_MODULES
     \<and> length (keys mi) = NUM_MODULES \<and> (\<forall>k\<in>set (keys mi). length k = ECDH_KEY_LENGTH)"

text \<open>The three loops over the table stop at the first slot that matches.\<close>

definition signpost_api_addr_to_key :: "module_state \<Rightarrow> byte \<Rightarrow> bytes option" where
  "signpost_api_addr_to_key mi addr =
     map_option (\<lambda>i. keys mi ! i) (List.find (\<lambda>i. addr = i2c_address_mods mi ! i \<and> haskey mi ! i) [0..<NUM_MODULES])"

definition signpost_api_addr_to_mod_num :: "module_state \<Rightarrow> byte \<Rightarrow> int" where
  "signpost_api_addr_to_mod_num mi addr =
     (case List.find (\<lambda>i. addr = i2c_address_mods mi ! i) [0..<NUM_MODULES] of
        Some i \<Rightarrow> int i
      | None \<Rightarrow> PORT_FAIL)"

definition signpost_api_appid_to_mod_num :: "module_state \<Rightarrow> u16 \<Rightarrow> int" where
  "signpost_api_appid_to_mod_num mi appid = signpost_api_addr_to_mod_num mi (ucast appid)"

definition signpost_api_module_name_to_mod_num :: "module_state \<Rightarrow> bytes \<Rightarrow> int" where
  "signpost_api_module_name_to_mod_num mi name =
     (case List.find (\<lambda>i. strncmp_eq name (names mi ! i) NAME_LEN) [0..<NUM_MODULES] of
        Some i \<Rightarrow> int i
      | None \<Rightarrow> PORT_FAIL)"

definition signpost_api_revoke_key :: "byte \<Rightarrow> module_state \<Rightarrow> int \<times> module_state" where
  "signpost_api_revoke_key n mi =
     (if unat n \<ge> NUM_MODULES then (PORT_EINVAL, mi)
      else (PORT_SUCCESS, mi\<lparr>haskey := (haskey mi)[unat n := False],
                             keys := (keys mi)[unat n := replicate ECDH_KEY_LENGTH 0]\<rparr>))"

section \<open>State\<close>

datatype init_state = RequestIsolation | Declare | KeyExchange | FinishExchange | Done | CheckKeys

datatype api_cb =
    CbDeclare | CbGetState
  | CbStorageScan | CbStorageWrite | CbStorageRead
  | CbProcessing | CbNetworking
  | CbEnergyQuery | CbEnergyReport | CbEnergyReset
  | CbTimelocation | CbWatchdog

datatype api_callback = SubscribeCallback | UserHandler nat

record api_handler =
  h_api_type :: byte
  h_callback :: api_callback

datatype energy_callback = EnergySyncCallback | UserEnergyCallback nat

record services =
  storage_ready :: bool
  storage_result :: bool
  callback_record :: bool
  record_mem :: bytes
  callback_data :: bool
  data_mem :: bytes
  callback_length :: bool
  length_mem :: nat
  processing_ready :: bool
  networking_ready :: bool
  networking_result :: bool
  networking_subscribe_cb :: "nat option"
  delivered :: "(nat \<times> bytes \<times> bytes) list"
  energy_query_ready :: bool
  energy_query_result :: int
  energy_cb :: "energy_callback option"
  energy_cb_data :: bool
  energy_mem :: bytes
  energy_calls :: "(nat \<times> int) list"
  energy_report_received :: bool
  energy_report_result :: int
  energy_reset_received :: bool
  energy_reset_result :: int
  timelocation_query_answered :: bool
  timelocation_query_result :: int
  watchdog_reply :: bool

record api =
  layers :: net
  module_info :: module_state
  api_handlers :: "api_handler list option"
  incoming_active_callback :: "api_cb option"
  init_state :: init_state
  request_isolation_complete :: bool
  declare_controller_complete :: bool
  get_state_complete :: bool
  is_isolated :: bool
  mod_addr_init :: byte
  svc :: services

definition services_boot :: services where
  "services_boot = \<lparr>storage_ready = False, storage_result = False, callback_record = False, record_mem = [],
     callback_data = False, data_mem = [], callback_length = False, length_mem = 0,
     processing_ready = False, networking_ready = False, networking_result = False,
     networking_subscribe_cb = None, delivered = [],
     energy_query_ready = False, energy_query_result = 0, energy_cb = None, energy_cb_data = False,
     energy_mem = [], energy_calls = [], energy_report_received = False, energy_report_result = 0,
     energy_reset_received = False, energy_reset_result = 0,
     timelocation_query_answered = False, timelocation_query_result = 0, watchdog_reply = False\<rparr>"

definition INCOMING_MESSAGE_BUFFER_LENGTH :: nat where "INCOMING_MESSAGE_BUFFER_LENGTH = 1024"

definition api_boot :: api where
  "api_boot = \<lparr>layers = net_boot\<lparr>n_prot := prot_boot\<lparr>prot_buf := replicate INCOMING_MESSAGE_BUFFER_LENGTH 0\<rparr>\<rparr>,
     module_info = module_zero, api_handlers = None, incoming_active_callback = None,
     init_state = RequestIsolation, request_isolation_complete = False,
     declare_controller_complete = False, get_state_complete = False, is_isolated = False,
     mod_addr_init = ModuleAddressController, svc = services_boot\<rparr>"

abbreviation cells :: "api \<Rightarrow> app_cells" where
  "cells s \<equiv> app_recv (n_app (layers s))"

abbreviation penv :: "api \<Rightarrow> env" where
  "penv s \<equiv> n_env (layers s)"

definition set_env :: "env \<Rightarrow> api \<Rightarrow> api" where
  "set_env e s = s\<lparr>layers := (layers s)\<lparr>n_env := e\<rparr>\<rparr>"

text \<open>\<open>incoming_message\<close> is a null pointer until the first message.\<close>

definition incoming_bytes :: "api \<Rightarrow> nat \<Rightarrow> nat \<Rightarrow> fault + bytes" where
  "incoming_bytes s off n =
     (if message (cells s) = [] then Inl NullPointer else read_at (message (cells s)) off n)"

section \<open>Sending\<close>

definition signpost_api_start_new_async_recv :: "api \<Rightarrow> api" where
  "signpost_api_start_new_async_recv s = s\<lparr>layers :=
     snd (net_recv_async ApiRecvCallback (signpost_api_addr_to_key (module_info s))
            (prot_buf (n_prot (layers s))) (layers s))\<rparr>"

definition signpost_api_send ::
  "mbedtls \<Rightarrow> byte \<Rightarrow> byte \<Rightarrow> byte \<Rightarrow> byte \<Rightarrow> nat \<Rightarrow> bytes \<Rightarrow> api \<Rightarrow> fault + int \<times> api" where
  "signpost_api_send m dest frame api mt len msg s =
     andthen (net_send m dest (signpost_api_addr_to_key (module_info s)) frame api mt len msg (layers s))
       (\<lambda>(rc, n). Inr (rc, signpost_api_start_new_async_recv (s\<lparr>layers := n\<rparr>)))"

text \<open>An \<open>int\<close> as the four bytes in memory.\<close>

definition int_bytes :: "int \<Rightarrow> bytes" where
  "int_bytes k = le32 (word_of_int k)"

definition signpost_api_error_reply ::
  "mbedtls \<Rightarrow> byte \<Rightarrow> byte \<Rightarrow> byte \<Rightarrow> int \<Rightarrow> api \<Rightarrow> fault + int \<times> api" where
  "signpost_api_error_reply m dest api mt error_code s =
     signpost_api_send m dest ErrorFrame api mt 4 (int_bytes error_code) s"

text \<open>
  The repeating reply: the body runs once before \<open>tries\<close> is looked at, and each failure takes
  one try (the counter is unsigned, so a start value of 0 wraps).
\<close>

lemma unat_pred_less: "0 < (w :: u32) \<Longrightarrow> unat (w - 1) < unat w"
  by (simp add: unat_minus_one word_gt_0 unat_gt_0)

lemma unat_pred_less2: "0 < (w :: u32) - 1 \<Longrightarrow> unat (w - 2) < unat (w - 1)"
  using unat_pred_less [of "w - 1"] by (simp add: diff_diff_eq)

function signpost_api_error_reply_repeating ::
  "mbedtls \<Rightarrow> byte \<Rightarrow> byte \<Rightarrow> byte \<Rightarrow> int \<Rightarrow> u32 \<Rightarrow> api \<Rightarrow> fault + api" where
  "signpost_api_error_reply_repeating m dest api mt error_code tries s =
     andthen (signpost_api_error_reply m dest api mt error_code s) (\<lambda>(rc, s1).
       if rc < 0
       then let s2 = set_env (port_signpost_delay_ms 1000 (penv s1)) s1
            in if tries - 1 > 0
               then signpost_api_error_reply_repeating m dest api mt error_code (tries - 1) s2
               else Inr s2
       else Inr s1)"
  by pat_completeness auto
termination
  by (relation "measure (\<lambda>(m, dest, api, mt, error_code, tries, s). unat (tries - 1))")
    (auto intro: unat_pred_less2)

declare signpost_api_error_reply_repeating.simps [simp del]

section \<open>Callbacks of the services\<close>

text \<open>Initialisation.\<close>

definition InitializationDeclare :: byte where "InitializationDeclare = 0"
definition InitializationKeyExchange :: byte where "InitializationKeyExchange = 1"
definition InitializationGetMods :: byte where "InitializationGetMods = 2"
definition InitializationRevoke :: byte where "InitializationRevoke = 3"
definition InitializationGetState :: byte where "InitializationGetState = 4"

definition signpost_initialization_declare_callback :: "int \<Rightarrow> api \<Rightarrow> api" where
  "signpost_initialization_declare_callback len_or_rc s =
     (let s1 = s\<lparr>declare_controller_complete := True\<rparr>
      in if len_or_rc < PORT_SUCCESS then s1
         else if api_type (cells s) \<noteq> InitializationApiType \<or> message_type (cells s) \<noteq> InitializationDeclare then s1
         else s1\<lparr>init_state := Done\<rparr>)"

definition signpost_initialization_get_state_callback :: "api \<Rightarrow> api" where
  "signpost_initialization_get_state_callback s = s\<lparr>get_state_complete := True\<rparr>"

definition signpost_initialization_isolation_callback :: "api \<Rightarrow> api" where
  "signpost_initialization_isolation_callback s =
     (let s1 = s\<lparr>is_isolated := True\<rparr>
      in if init_state s1 \<noteq> RequestIsolation then s1
         else s1\<lparr>init_state := Declare, request_isolation_complete := True\<rparr>)"

definition signpost_initialization_lost_isolation_callback :: "api \<Rightarrow> api" where
  "signpost_initialization_lost_isolation_callback s =
     (let s1 = s\<lparr>is_isolated := False\<rparr>
      in if init_state s1 \<noteq> Done then s1\<lparr>init_state := RequestIsolation\<rparr> else s1)"

text \<open>Storage. The size of a \<open>Storage_Record_t\<close>: a name of 33 bytes, padded to 36, and two words.\<close>

definition STORAGE_LOG_LEN :: nat where "STORAGE_LOG_LEN = 32"
definition STORAGE_RECORD_LEN :: nat where "STORAGE_RECORD_LEN = 44"

definition upd_svc :: "(services \<Rightarrow> services) \<Rightarrow> api \<Rightarrow> api" where
  "upd_svc f s = s\<lparr>svc := f (svc s)\<rparr>"

definition signpost_storage_scan_callback :: "int \<Rightarrow> api \<Rightarrow> fault + api" where
  "signpost_storage_scan_callback len_or_rc s =
     (let v = svc s;
          ready = (\<lambda>v'. s\<lparr>svc := v'\<lparr>storage_ready := True\<rparr>\<rparr>)
      in if len_or_rc < PORT_SUCCESS then Inr (ready (v\<lparr>storage_result := len_or_rc \<noteq> 0\<rparr>))
         else if \<not> callback_length v then Inl NullPointer
         else if nat len_or_rc > (length_mem v * STORAGE_RECORD_LEN) mod 2 ^ 32
         then Inr (ready (v\<lparr>storage_result := True\<rparr>))
         else if callback_record v
         then andthen (incoming_bytes s 0 (nat len_or_rc)) (\<lambda>xs.
              andthen (memcpy_at (record_mem v) 0 xs) (\<lambda>mem.
              Inr (ready (v\<lparr>length_mem := nat len_or_rc div STORAGE_RECORD_LEN, record_mem := mem,
                            callback_record := False, callback_length := False, storage_result := False\<rparr>))))
         else Inr (ready (v\<lparr>callback_record := False, callback_length := False, storage_result := False\<rparr>)))"

definition signpost_storage_write_callback :: "int \<Rightarrow> api \<Rightarrow> fault + api" where
  "signpost_storage_write_callback len_or_rc s =
     (let v = svc s;
          ready = (\<lambda>v'. s\<lparr>svc := v'\<lparr>storage_ready := True\<rparr>\<rparr>)
      in if len_or_rc < PORT_SUCCESS then Inr (ready (v\<lparr>storage_result := len_or_rc \<noteq> 0\<rparr>))
         else if nat len_or_rc \<noteq> STORAGE_RECORD_LEN then Inr (ready (v\<lparr>storage_result := True\<rparr>))
         else if callback_record v
         then andthen (incoming_bytes s 0 (nat len_or_rc)) (\<lambda>xs.
              andthen (memcpy_at (record_mem v) 0 xs) (\<lambda>mem.
              Inr (ready (v\<lparr>record_mem := mem, callback_record := False, storage_result := False\<rparr>))))
         else Inr (ready (v\<lparr>storage_result := False\<rparr>)))"

definition signpost_storage_read_callback :: "int \<Rightarrow> api \<Rightarrow> fault + api" where
  "signpost_storage_read_callback len_or_rc s =
     (let v = svc s;
          ready = (\<lambda>v'. s\<lparr>svc := v'\<lparr>storage_ready := True\<rparr>\<rparr>)
      in if len_or_rc < PORT_SUCCESS then Inr (ready (v\<lparr>storage_result := len_or_rc \<noteq> 0\<rparr>))
         else if \<not> callback_length v then Inr (ready (v\<lparr>storage_result := True\<rparr>))
         else if nat len_or_rc > length_mem v then Inr (ready (v\<lparr>storage_result := True\<rparr>))
         else if callback_data v
         then andthen (incoming_bytes s 0 (length_mem v)) (\<lambda>xs.
              andthen (memcpy_at (data_mem v) 0 xs) (\<lambda>mem.
              Inr (ready (v\<lparr>data_mem := mem, callback_data := False, callback_length := False,
                            storage_result := False\<rparr>))))
         else Inr (ready (v\<lparr>callback_length := False, storage_result := False\<rparr>)))"

text \<open>Processing, networking, time and location, watchdog.\<close>

definition signpost_processing_callback :: "api \<Rightarrow> api" where
  "signpost_processing_callback = upd_svc (\<lambda>v. v\<lparr>processing_ready := True\<rparr>)"

definition signpost_networking_callback :: "int \<Rightarrow> api \<Rightarrow> api" where
  "signpost_networking_callback result = upd_svc (\<lambda>v. v\<lparr>networking_ready := True, networking_result := result \<noteq> 0\<rparr>)"

definition timelocation_callback :: "int \<Rightarrow> api \<Rightarrow> api" where
  "timelocation_callback result =
     upd_svc (\<lambda>v. v\<lparr>timelocation_query_answered := True, timelocation_query_result := result\<rparr>)"

definition signpost_watchdog_cb :: "api \<Rightarrow> api" where
  "signpost_watchdog_cb = upd_svc (\<lambda>v. v\<lparr>watchdog_reply := True\<rparr>)"

text \<open>Energy. A \<open>signpost_energy_information_t\<close> has 14 bytes on the wire.\<close>

definition ENERGY_INFORMATION_LEN :: nat where "ENERGY_INFORMATION_LEN = 14"

definition energy_query_sync_callback :: "int \<Rightarrow> api \<Rightarrow> api" where
  "energy_query_sync_callback result =
     upd_svc (\<lambda>v. v\<lparr>energy_query_ready := True, energy_query_result := result\<rparr>)"

definition signpost_energy_report_callback :: "int \<Rightarrow> api \<Rightarrow> api" where
  "signpost_energy_report_callback result =
     upd_svc (\<lambda>v. v\<lparr>energy_report_result := result, energy_report_received := True\<rparr>)"

definition signpost_energy_reset_callback :: "int \<Rightarrow> api \<Rightarrow> api" where
  "signpost_energy_reset_callback result =
     upd_svc (\<lambda>v. v\<lparr>energy_reset_result := result, energy_reset_received := True\<rparr>)"

definition energy_query_async_callback :: "int \<Rightarrow> api \<Rightarrow> fault + api" where
  "energy_query_async_callback len_or_rc s =
     andthen
       (if len_or_rc \<noteq> int ENERGY_INFORMATION_LEN then Inr s
        else if energy_cb_data (svc s)
        then andthen (incoming_bytes s 0 (nat len_or_rc)) (\<lambda>xs.
             andthen (memcpy_at (energy_mem (svc s)) 0 xs) (\<lambda>mem.
             Inr (upd_svc (\<lambda>v. v\<lparr>energy_mem := mem, energy_cb_data := False\<rparr>) s)))
        else Inr s)
       (\<lambda>s1. case energy_cb (svc s1) of
            None \<Rightarrow> Inr s1
          | Some cb \<Rightarrow>
              let s2 = upd_svc (\<lambda>v. v\<lparr>energy_cb := None\<rparr>) s1
              in (case cb of
                    EnergySyncCallback \<Rightarrow> Inr (energy_query_sync_callback len_or_rc s2)
                  | UserEnergyCallback k \<Rightarrow>
                      Inr (upd_svc (\<lambda>v. v\<lparr>energy_calls := energy_calls v @ [(k, len_or_rc)]\<rparr>) s2)))"

definition run_active_callback :: "api_cb \<Rightarrow> int \<Rightarrow> api \<Rightarrow> fault + api" where
  "run_active_callback cb rc s = (case cb of
       CbDeclare \<Rightarrow> Inr (signpost_initialization_declare_callback rc s)
     | CbGetState \<Rightarrow> Inr (signpost_initialization_get_state_callback s)
     | CbStorageScan \<Rightarrow> signpost_storage_scan_callback rc s
     | CbStorageWrite \<Rightarrow> signpost_storage_write_callback rc s
     | CbStorageRead \<Rightarrow> signpost_storage_read_callback rc s
     | CbProcessing \<Rightarrow> Inr (signpost_processing_callback s)
     | CbNetworking \<Rightarrow> Inr (signpost_networking_callback rc s)
     | CbEnergyQuery \<Rightarrow> energy_query_async_callback rc s
     | CbEnergyReport \<Rightarrow> Inr (signpost_energy_report_callback rc s)
     | CbEnergyReset \<Rightarrow> Inr (signpost_energy_reset_callback rc s)
     | CbTimelocation \<Rightarrow> Inr (timelocation_callback rc s)
     | CbWatchdog \<Rightarrow> Inr (signpost_watchdog_cb s))"

section \<open>Dispatch\<close>

definition NetworkingPublishMessage :: byte where "NetworkingPublishMessage = 0"
definition NetworkingSubscribeMessage :: byte where "NetworkingSubscribeMessage = 1"

text \<open>
  The handler behind \<open>signpost_networking_subscribe\<close> hands the application a topic of at most 28
  bytes (in a zeroed buffer of 33) and the data. The application's callback only
  sees them: what it is given is appended to \<open>delivered\<close>.
\<close>

definition internal_subscribe_callback ::
  "byte \<Rightarrow> byte \<Rightarrow> byte \<Rightarrow> nat \<Rightarrow> bytes \<Rightarrow> api \<Rightarrow> fault + api" where
  "internal_subscribe_callback frame api mt len msg s =
     (case networking_subscribe_cb (svc s) of
        None \<Rightarrow> Inr s
      | Some cb \<Rightarrow>
          if api = NetworkingApiType \<and> frame = NotificationFrame \<and> mt = NetworkingSubscribeMessage
          then andthen (read_at msg 0 1) (\<lambda>t.
               let tlen = unat (hd t)
               in if tlen > 28 \<or> len < tlen + 2 then Inr s
                  else andthen (read_at msg 1 tlen) (\<lambda>topic.
                       andthen (read_at msg (tlen + 1) 1) (\<lambda>d.
                       let dlen = unat (hd d)
                       in if len < tlen + dlen + 2 then Inr s
                          else andthen (read_at msg (tlen + 2) dlen) (\<lambda>data.
                               Inr (upd_svc (\<lambda>v. v\<lparr>delivered := delivered v @
                                 [(cb, overwrite (replicate (NAME_LEN * 2 + 1) 0) 0 topic, data)]\<rparr>) s)))))
          else Inr s)"

type_synonym user = "nat \<Rightarrow> byte \<Rightarrow> byte \<Rightarrow> byte \<Rightarrow> byte \<Rightarrow> nat \<Rightarrow> bytes \<Rightarrow> api \<Rightarrow> fault + api"

definition run_handler :: "user \<Rightarrow> api_callback \<Rightarrow> api \<Rightarrow> fault + api" where
  "run_handler H cb s =
     (let c = cells s; src = async_src_address (n_io (layers s))
      in case cb of
           SubscribeCallback \<Rightarrow>
             internal_subscribe_callback (frame_type c) (api_type c) (message_type c) (message_length c) (message c) s
         | UserHandler k \<Rightarrow>
             H k src (frame_type c) (api_type c) (message_type c) (message_length c) (message c) s)"

text \<open>
  \<open>signpost_api_recv_callback\<close> without its last act, which every path ends with: a new
  asynchronous receive. The first handler of the message's API runs; a reply goes to the
  active callback, which is cleared first.
\<close>

definition dispatch_message :: "user \<Rightarrow> int \<Rightarrow> api \<Rightarrow> fault + api" where
  "dispatch_message H len_or_rc s =
     (let ft = frame_type (cells s)
      in if len_or_rc < 0 then Inr s
         else if ft = NotificationFrame \<or> ft = CommandFrame
         then (case api_handlers s of
                 None \<Rightarrow> Inl NullPointer
               | Some hs \<Rightarrow>
                   (case List.find (\<lambda>h. h_api_type h = api_type (cells s)) hs of
                      Some h \<Rightarrow> run_handler H (h_callback h) s
                    | None \<Rightarrow> Inr s))
         else if ft = ResponseFrame \<or> ft = ErrorFrame
         then (case incoming_active_callback s of
                 Some cb \<Rightarrow> run_active_callback cb len_or_rc (s\<lparr>incoming_active_callback := None\<rparr>)
               | None \<Rightarrow> Inr s)
         else Inr s)"

definition signpost_api_recv_callback :: "user \<Rightarrow> int \<Rightarrow> api \<Rightarrow> fault + api" where
  "signpost_api_recv_callback H len_or_rc s =
     andthen (dispatch_message H len_or_rc s) (\<lambda>s'. Inr (signpost_api_start_new_async_recv s'))"

section \<open>Events and waiting\<close>

datatype api_event = Burst "io_event list" | ModInFalling | ModInRising | Timeout

text \<open>
  The key of a datagram is looked up when it arrives, in the table as it is then.
\<close>

definition sync_keys :: "api \<Rightarrow> net" where
  "sync_keys s = (layers s)\<lparr>n_prot := (n_prot (layers s))\<lparr>prot_addr_to_key :=
     map_option (\<lambda>_. signpost_api_addr_to_key (module_info s)) (prot_addr_to_key (n_prot (layers s)))\<rparr>\<rparr>"

lemma wait_for_packet_suffix:
  "wait_for_packet evs s = Some (s', evs') \<Longrightarrow> suffix evs' evs"
  by (induction evs s rule: wait_for_packet.induct) (auto split: if_splits intro: suffix_ConsI)

lemma get_message_loop_suffix:
  "get_message_loop evs s r = Inr (r', s', evs') \<Longrightarrow> suffix evs' evs"
proof (induction evs s r arbitrary: r' s' evs' rule: get_message_loop.induct)
  case (1 evs s r)
  obtain s1 evs1 where w: "wait_for_packet evs s = Some (s1, evs1)"
    using "1.prems" by (subst (asm) get_message_loop.simps) (auto split: option.splits)
  have l: "suffix evs1 evs"
    using wait_for_packet_suffix [OF w] .
  let ?s2 = "s1\<lparr>newpkt_new := False\<rparr>"
  obtain r1 d where p: "rx_packet (packet_of_bytes (packet_buf ?s2)) (newpkt_len ?s2) r = Inr (r1, d)"
    using "1.prems" w by (subst (asm) get_message_loop.simps) (auto simp: Let_def andthen_Inr_iff)
  show ?case
  proof (cases d)
    case True
    then show ?thesis using "1.prems" w p l by (subst (asm) get_message_loop.simps) (auto simp: Let_def)
  next
    case False
    then have "get_message_loop evs1 ?s2 r1 = Inr (r', s', evs')"
      using "1.prems" w p by (subst (asm) get_message_loop.simps) (auto simp: Let_def)
    with "1.IH" [OF w refl refl p refl False] l show ?thesis by (meson suffix_order.trans)
  qed
qed

lemma get_message_suffix:
  "get_message evs data e a s = Inr (r, cb, s', evs') \<Longrightarrow> suffix evs' evs"
  by (auto simp: get_message_def andthen_Inr_iff dest: get_message_loop_suffix)

lemma net_receive_suffix:
  assumes "net_receive m ev evs n = Inr (c, n', evs')"
  shows "suffix evs' evs"
proof -
  from assms [unfolded net_receive_def] obtain t where
    t: "signbus_io_slave_write_callback ev evs (n_io n) = Inr t" and rest: "(case t of (cb, s', evs') \<Rightarrow>
       case cb of
         Some (ProtocolAsyncCallback, len) \<Rightarrow>
           andthen (protocol_async_callback m (to_int32 len) (n_prot n) s' (n_env n)) (\<lambda>((pcb, rc), ps', e').
             case pcb of
               AppLayerCallback \<Rightarrow>
                 andthen (app_layer_callback rc (n_app n) (prot_buf ps')) (\<lambda>(call, a').
                 Inr (Some call, n\<lparr>n_io := s', n_prot := ps', n_app := a', n_env := e'\<rparr>, evs'))
             | OtherProtCallback _ \<Rightarrow> Inr (None, n\<lparr>n_io := s', n_prot := ps', n_env := e'\<rparr>, evs'))
       | _ \<Rightarrow> Inr (None, n\<lparr>n_io := s'\<rparr>, evs')) = Inr (c, n', evs')"
    by (rule andthen_InrE)
  obtain cb s' evs1 where "t = (cb, s', evs1)" by (cases t) auto
  with t rest have io: "signbus_io_slave_write_callback ev evs (n_io n) = Inr (cb, s', evs1)" and "evs' = evs1"
    by (auto split: option.splits io_callback.splits prot_callback.splits elim!: andthen_InrE)
  moreover have "suffix evs1 evs"
    using io by (auto simp: signbus_io_slave_write_callback_def Let_def andthen_Inr_iff
        split: io_event.splits if_splits dest: get_message_suffix)
  ultimately show ?thesis by simp
qed

text \<open>The packets of a burst, message after message.\<close>

function bus_burst :: "user \<Rightarrow> mbedtls \<Rightarrow> io_event list \<Rightarrow> api \<Rightarrow> fault + api" where
  "bus_burst H m [] s = Inr s"
| "bus_burst H m (ev # evs) s =
     andthen (net_receive m ev evs (sync_keys s)) (\<lambda>(call, n, evs').
       let s1 = s\<lparr>layers := n\<rparr>
       in andthen (case call of
                     Some (ApiRecvCallback, rc) \<Rightarrow> signpost_api_recv_callback H rc s1
                   | _ \<Rightarrow> Inr s1)
                  (\<lambda>s2. bus_burst H m evs' s2))"
  by pat_completeness auto
termination
  by (relation "measure (\<lambda>(H, m, evs, s). length evs)") (auto dest!: net_receive_suffix suffix_length_le)

fun api_step :: "user \<Rightarrow> mbedtls \<Rightarrow> api_event \<Rightarrow> api \<Rightarrow> fault + api" where
  "api_step H m (Burst evs) s = bus_burst H m evs s"
| "api_step H m ModInFalling s = Inr (signpost_initialization_isolation_callback s)"
| "api_step H m ModInRising s = Inr (signpost_initialization_lost_isolation_callback s)"
| "api_step H m Timeout s = Inr s"

text \<open>
  \<open>port_signpost_wait_for\<close> waits for ever, \<open>port_signpost_wait_for_with_timeout\<close> until its timer
  fires; the timer also fires when nothing else happens any more.
\<close>

fun port_signpost_wait_for ::
  "user \<Rightarrow> mbedtls \<Rightarrow> (api \<Rightarrow> bool) \<Rightarrow> api_event list \<Rightarrow> api \<Rightarrow> fault + api \<times> api_event list" where
  "port_signpost_wait_for H m flag [] s = (if flag s then Inr (s, []) else Inl Blocked)"
| "port_signpost_wait_for H m flag (ev # evs) s =
     (if flag s then Inr (s, ev # evs)
      else andthen (api_step H m ev s) (\<lambda>s'. port_signpost_wait_for H m flag evs s'))"

fun port_signpost_wait_for_with_timeout ::
  "user \<Rightarrow> mbedtls \<Rightarrow> (api \<Rightarrow> bool) \<Rightarrow> api_event list \<Rightarrow> api \<Rightarrow> fault + int \<times> api \<times> api_event list" where
  "port_signpost_wait_for_with_timeout H m flag [] s =
     Inr (if flag s then PORT_SUCCESS else PORT_FAIL, s, [])"
| "port_signpost_wait_for_with_timeout H m flag (ev # evs) s =
     (if flag s then Inr (PORT_SUCCESS, s, ev # evs)
      else if ev = Timeout then Inr (PORT_FAIL, s, evs)
      else andthen (api_step H m ev s) (\<lambda>s'. port_signpost_wait_for_with_timeout H m flag evs s'))"

end
