(* ===== verification/Signpost_Services.thy ===== *)
theory Signpost_Services
  imports Signpost_Api Crc16
begin

text \<open>
  The service APIs of \<open>signpost_api.c\<close>: storage, processing, networking, energy, time and location,
  watchdog. A call that waits takes the list of coming events and returns the rest; its result is
  the C return value, with the caller's objects in the fields of \<open>services\<close> that stand for them.
  Memory from \<open>malloc\<close> starts as zeros here; no property depends on it.
\<close>

definition int_of_bool :: "bool \<Rightarrow> int" where
  "int_of_bool b = (if b then 1 else 0)"

abbreviation set_active :: "api_cb option \<Rightarrow> api \<Rightarrow> api" where
  "set_active cb s \<equiv> s\<lparr>incoming_active_callback := cb\<rparr>"

definition api_malloc :: "api \<Rightarrow> bool \<times> api" where
  "api_malloc s = (let (ok, e) = env_malloc (penv s) in (ok, set_env e s))"

section \<open>Storage\<close>

definition StorageWriteMessage :: byte where "StorageWriteMessage = 0"
definition StorageReadMessage :: byte where "StorageReadMessage = 1"
definition StorageDeleteMessage :: byte where "StorageDeleteMessage = 2"
definition StorageScanMessage :: byte where "StorageScanMessage = 3"

text \<open>The fields of a \<open>Storage_Record_t\<close> in memory.\<close>

definition rec_offset :: "bytes \<Rightarrow> nat" where "rec_offset rec = unat (of_le32 (drop 36 rec))"
definition rec_length :: "bytes \<Rightarrow> nat" where "rec_length rec = unat (of_le32 (drop 40 rec))"

definition signpost_storage_scan ::
  "user \<Rightarrow> mbedtls \<Rightarrow> bytes \<Rightarrow> nat \<Rightarrow> api_event list \<Rightarrow> api \<Rightarrow> fault + int \<times> api \<times> api_event list" where
  "signpost_storage_scan H m record_list list_len evs s =
     (let s0 = upd_svc (\<lambda>v. v\<lparr>storage_ready := False, storage_result := False, callback_record := True,
                 record_mem := record_list, callback_length := True, length_mem := list_len\<rparr>) s
      in if incoming_active_callback s0 \<noteq> None then Inr (PORT_EBUSY, s0, evs)
         else andthen (signpost_api_send m ModuleAddressStorage CommandFrame StorageApiType StorageScanMessage 4
                  (le32 (word_of_nat list_len)) (set_active (Some CbStorageScan) s0)) (\<lambda>(err, s1).
              let failed = (\<lambda>s. set_active None (upd_svc (\<lambda>v. v\<lparr>storage_ready := True\<rparr>) s))
              in if err < PORT_SUCCESS then Inr (err, failed s1, evs)
                 else andthen (port_signpost_wait_for_with_timeout H m (\<lambda>s. storage_ready (svc s)) evs s1)
                   (\<lambda>(_, s2, evs').
                     if err \<noteq> 0 then Inr (err, failed s2, evs')
                     else Inr (int_of_bool (storage_result (svc s2)), s2, evs'))))"

definition signpost_storage_write ::
  "mbedtls \<Rightarrow> bytes \<Rightarrow> nat \<Rightarrow> bytes \<Rightarrow> api \<Rightarrow> fault + int \<times> api" where
  "signpost_storage_write m data len rec s =
     (let s0 = upd_svc (\<lambda>v. v\<lparr>storage_ready := False, storage_result := False, callback_record := True,
                 record_mem := rec\<rparr>) s
      in if incoming_active_callback s0 \<noteq> None then Inr (PORT_EBUSY, s0)
         else
           let (ok, s1) = api_malloc (set_active (Some CbStorageWrite) s0);
               logname_len = strnlen rec STORAGE_LOG_LEN;
               marshal_len = logname_len + len + 1
           in if \<not> ok then Inl NullPointer
              else andthen (read_at rec 0 (logname_len + 1)) (\<lambda>name.
                   andthen (memcpy_at (replicate marshal_len 0) 0 name) (\<lambda>b1.
                   andthen (memcpy_at b1 logname_len [0]) (\<lambda>b2.
                   andthen (read_at data 0 len) (\<lambda>d.
                   andthen (memcpy_at b2 (logname_len + 1) d) (\<lambda>marshal.
                   andthen (signpost_api_send m ModuleAddressStorage CommandFrame StorageApiType
                              StorageWriteMessage marshal_len marshal s1) (\<lambda>(err, s2).
                   if err < PORT_SUCCESS
                   then Inr (err, set_active None (upd_svc (\<lambda>v. v\<lparr>storage_ready := True\<rparr>) s2))
                   else Inr (int_of_bool (storage_result (svc s2)), s2))))))))"

definition signpost_storage_read ::
  "user \<Rightarrow> mbedtls \<Rightarrow> bytes \<Rightarrow> nat \<Rightarrow> bytes \<Rightarrow> api_event list \<Rightarrow> api \<Rightarrow> fault + int \<times> api \<times> api_event list" where
  "signpost_storage_read H m data len rec evs s =
     (let s0 = upd_svc (\<lambda>v. v\<lparr>storage_ready := False, storage_result := False, callback_record := True,
                 record_mem := rec, callback_data := True, data_mem := data,
                 callback_length := True, length_mem := len\<rparr>) s
      in if incoming_active_callback s0 \<noteq> None then Inr (PORT_EBUSY, s0, evs)
         else
           let room = size_sub (rec_length rec) (rec_offset rec);
               len' = (if len > room then room else len);
               (ok, s1) = api_malloc (set_active (Some CbStorageRead) (upd_svc (\<lambda>v. v\<lparr>length_mem := len'\<rparr>) s0));
               logname_len = strnlen rec STORAGE_LOG_LEN;
               marshal_len = logname_len + 4 + 4 + 2
           in if \<not> ok then Inl NullPointer
              else andthen (read_at rec 0 logname_len) (\<lambda>name.
                   andthen (memcpy_at (replicate marshal_len 0) 0 name) (\<lambda>b1.
                   andthen (memcpy_at b1 (logname_len + 1) (le32 (word_of_nat (rec_offset rec)))) (\<lambda>b2.
                   andthen (memcpy_at b2 (logname_len + 1 + 4 + 1) (le32 (word_of_nat len'))) (\<lambda>marshal.
                   andthen (signpost_api_send m ModuleAddressStorage CommandFrame StorageApiType
                              StorageReadMessage marshal_len marshal s1) (\<lambda>(err, s2).
                   let failed = (\<lambda>s. set_active None (upd_svc (\<lambda>v. v\<lparr>storage_ready := True\<rparr>) s))
                   in if err < PORT_SUCCESS then Inr (err, failed s2, evs)
                      else andthen (port_signpost_wait_for_with_timeout H m (\<lambda>s. storage_ready (svc s)) evs s2)
                        (\<lambda>(err2, s3, evs').
                          if err2 \<noteq> 0 then Inr (err2, failed s3, evs')
                          else Inr (int_of_bool (storage_result (svc s3)), s3, evs'))))))))"

definition signpost_storage_delete :: "mbedtls \<Rightarrow> bytes \<Rightarrow> api \<Rightarrow> fault + int \<times> api" where
  "signpost_storage_delete m rec s =
     (let s0 = upd_svc (\<lambda>v. v\<lparr>storage_ready := False, storage_result := False, callback_record := True,
                 record_mem := rec\<rparr>) s
      in if incoming_active_callback s0 \<noteq> None then Inr (PORT_EBUSY, s0)
         else andthen (signpost_api_send m ModuleAddressStorage CommandFrame StorageApiType StorageDeleteMessage
                  (strnlen rec STORAGE_LOG_LEN) rec (set_active (Some CbStorageWrite) s0)) (\<lambda>(err, s1).
              if err < PORT_SUCCESS
              then Inr (err, set_active None (upd_svc (\<lambda>v. v\<lparr>storage_ready := True\<rparr>) s1))
              else Inr (int_of_bool (storage_result (svc s1)), s1)))"

definition signpost_storage_scan_reply :: "mbedtls \<Rightarrow> byte \<Rightarrow> bytes \<Rightarrow> nat \<Rightarrow> api \<Rightarrow> fault + int \<times> api" where
  "signpost_storage_scan_reply m dest list list_len =
     signpost_api_send m dest ResponseFrame StorageApiType StorageScanMessage
       ((list_len * STORAGE_RECORD_LEN) mod 2 ^ 32) list"

definition signpost_storage_write_reply :: "mbedtls \<Rightarrow> byte \<Rightarrow> bytes \<Rightarrow> api \<Rightarrow> fault + int \<times> api" where
  "signpost_storage_write_reply m dest rec =
     signpost_api_send m dest ResponseFrame StorageApiType StorageWriteMessage STORAGE_RECORD_LEN rec"

definition signpost_storage_read_reply :: "mbedtls \<Rightarrow> byte \<Rightarrow> bytes \<Rightarrow> nat \<Rightarrow> api \<Rightarrow> fault + int \<times> api" where
  "signpost_storage_read_reply m dest data len =
     signpost_api_send m dest ResponseFrame StorageApiType StorageWriteMessage len data"

definition signpost_storage_delete_reply :: "mbedtls \<Rightarrow> byte \<Rightarrow> bytes \<Rightarrow> api \<Rightarrow> fault + int \<times> api" where
  "signpost_storage_delete_reply m dest rec =
     signpost_api_send m dest ResponseFrame StorageApiType StorageDeleteMessage STORAGE_RECORD_LEN rec"

section \<open>Processing\<close>

definition ProcessingInitMessage :: byte where "ProcessingInitMessage = 0"
definition ProcessingOneWayMessage :: byte where "ProcessingOneWayMessage = 1"
definition ProcessingTwoWayMessage :: byte where "ProcessingTwoWayMessage = 2"
definition ProcessingSuccess :: int where "ProcessingSuccess = 0"
definition ProcessingSizeError :: int where "ProcessingSizeError = 2"
definition ProcessingCRCError :: int where "ProcessingCRCError = 3"

text \<open>
  The four bytes in front of a payload. The high bytes are computed with \<open>>\<close>, so each is
  the truth value of a comparison.
\<close>

definition processing_header :: "u16 \<Rightarrow> u16 \<Rightarrow> bytes" where
  "processing_header sz crc =
     [ucast (sz AND 0xff), if (sz AND 0xff00) > 8 then 1 else 0,
      ucast (crc AND 0xff), if (crc AND 0xff00) > 8 then 1 else 0]"

definition processing_message :: "bytes \<Rightarrow> bytes" where
  "processing_message xs = processing_header (word_of_nat (length xs)) (CRC16_Calc xs 0xFFFF) @ xs"

definition signpost_processing_init ::
  "user \<Rightarrow> mbedtls \<Rightarrow> bytes \<Rightarrow> api_event list \<Rightarrow> api \<Rightarrow> fault + int \<times> api \<times> api_event list" where
  "signpost_processing_init H m path evs s =
     (let sz = to_uint16 (length (cstr path));
          s0 = set_active (Some CbProcessing) (upd_svc (\<lambda>v. v\<lparr>processing_ready := False\<rparr>) s)
      in andthen (signpost_api_send m ModuleAddressStorage CommandFrame ProcessingApiType ProcessingInitMessage
             (sz + 4) (processing_message (take sz (cstr path))) s0) (\<lambda>(rc, s1).
         if rc < 0 then Inr (rc, s1, evs)
         else andthen (port_signpost_wait_for H m (\<lambda>s. processing_ready (svc s)) evs s1) (\<lambda>(s2, evs').
              if message_length (cells s2) \<ge> 5
              then andthen (incoming_bytes s2 4 1) (\<lambda>b. Inr (int (unat (hd b)), s2, evs'))
              else Inr (1, s2, evs'))))"

definition signpost_processing_oneway_send ::
  "user \<Rightarrow> mbedtls \<Rightarrow> bytes \<Rightarrow> api_event list \<Rightarrow> api \<Rightarrow> fault + int \<times> api \<times> api_event list" where
  "signpost_processing_oneway_send H m buf evs s =
     andthen (signpost_api_send m ModuleAddressStorage CommandFrame ProcessingApiType ProcessingOneWayMessage
         (length buf + 2) (processing_message buf) (set_active (Some CbProcessing) s)) (\<lambda>(rc, s1).
     if rc < 0 then Inr (rc, s1, evs)
     else andthen (port_signpost_wait_for H m (\<lambda>s. processing_ready (svc s)) evs
                     (upd_svc (\<lambda>v. v\<lparr>processing_ready := False\<rparr>) s1)) (\<lambda>(s2, evs').
          andthen (incoming_bytes s2 0 1) (\<lambda>b. Inr (int (unat (hd b)), s2, evs'))))"

definition signpost_processing_twoway_send :: "mbedtls \<Rightarrow> bytes \<Rightarrow> api \<Rightarrow> fault + int \<times> api" where
  "signpost_processing_twoway_send m buf s =
     andthen (signpost_api_send m ModuleAddressStorage CommandFrame ProcessingApiType ProcessingTwoWayMessage
         (length buf + 4) (processing_message buf) (set_active (Some CbProcessing) s)) (\<lambda>(rc, s1).
     if rc < 0 then Inr (rc, s1)
     else Inr (ProcessingSuccess, upd_svc (\<lambda>v. v\<lparr>processing_ready := False\<rparr>) s1))"

text \<open>The check of a reply, and the copy to the caller's buffer; the result has buffer and length.\<close>

definition processing_reply_payload :: "bytes \<Rightarrow> nat \<Rightarrow> bytes \<Rightarrow> fault + int \<times> bytes \<times> nat" where
  "processing_reply_payload msg msg_len buf =
     andthen (read_at msg 0 4) (\<lambda>hdr.
     let sz = unat (of_le16 hdr); crc = of_le16 (drop 2 hdr)
     in if sz \<noteq> size_sub msg_len 4 then Inr (ProcessingSizeError, buf, 0)
        else andthen (read_at msg 4 sz) (\<lambda>xs.
             if crc \<noteq> CRC16_Calc xs 0xFFFF then Inr (ProcessingCRCError, buf, 0)
             else andthen (memcpy_at buf 0 xs) (\<lambda>buf'. Inr (ProcessingSuccess, buf', sz))))"

definition signpost_processing_twoway_receive ::
  "user \<Rightarrow> mbedtls \<Rightarrow> bytes \<Rightarrow> api_event list \<Rightarrow> api \<Rightarrow> fault + (int \<times> bytes \<times> nat) \<times> api \<times> api_event list" where
  "signpost_processing_twoway_receive H m buf evs s =
     andthen (port_signpost_wait_for H m (\<lambda>s. processing_ready (svc s)) evs s) (\<lambda>(s1, evs').
     if message (cells s1) = [] then Inl NullPointer
     else andthen (processing_reply_payload (message (cells s1)) (message_length (cells s1)) buf) (\<lambda>r.
          Inr (r, s1, evs')))"

definition signpost_processing_reply :: "mbedtls \<Rightarrow> byte \<Rightarrow> byte \<Rightarrow> bytes \<Rightarrow> nat \<Rightarrow> api \<Rightarrow> fault + int \<times> api" where
  "signpost_processing_reply m src mt response len =
     signpost_api_send m src ResponseFrame ProcessingApiType mt len response"

section \<open>Networking\<close>

text \<open>
  The buffer of a publish: the length of the full topic, the module's name, a slash when neither
  side has one, the topic, the length of the data and the data, each at the offset the code
  writes it to.
\<close>

definition publish_slash :: "bytes \<Rightarrow> bytes \<Rightarrow> nat \<Rightarrow> fault + nat" where
  "publish_slash name topic nlen =
     andthen (read_at topic 0 1) (\<lambda>t.
       if hd t = 0x2F then Inr 0
       else if nlen = 0 then Inl OutOfBounds
       else andthen (read_at name (nlen - 1) 1) (\<lambda>c. Inr (if hd c = 0x2F then 0 else 1)))"

definition publish_buffer :: "bytes \<Rightarrow> bytes \<Rightarrow> bytes \<Rightarrow> nat \<Rightarrow> nat \<Rightarrow> nat \<Rightarrow> nat \<Rightarrow> bytes \<Rightarrow> fault + bytes" where
  "publish_buffer name topic data data_len slen nlen slash buf =
     andthen (memcpy_at buf 0 [word_of_nat (slen + nlen + slash)]) (\<lambda>b0.
     andthen (memcpy_at b0 1 (take nlen name)) (\<lambda>b1.
     andthen (if slash = 1 then memcpy_at b1 (nlen + 1) [0x2F] else Inr b1) (\<lambda>b2.
     andthen (memcpy_at b2 (1 + nlen + 1) (take slen topic)) (\<lambda>b3.
     andthen (memcpy_at b3 (slen + nlen + slash + 1) [word_of_nat data_len]) (\<lambda>b4.
     andthen (read_at data 0 data_len) (\<lambda>d.
     memcpy_at b4 (1 + slen + 1 + nlen + slash) d))))))"

definition signpost_networking_publish ::
  "user \<Rightarrow> mbedtls \<Rightarrow> bytes \<Rightarrow> bytes \<Rightarrow> byte \<Rightarrow> api_event list \<Rightarrow> api \<Rightarrow> fault + int \<times> api \<times> api_event list" where
  "signpost_networking_publish H m topic data data_len evs s =
     (let slen = (if strnlen topic 14 > 14 then 14 else strnlen topic 14);
          name = self_name (module_info s);
          nlen = strnlen name NAME_LEN
      in andthen (publish_slash name topic nlen) (\<lambda>slash.
         let len = nlen + slash + slen + unat data_len + 2;
             (ok, s1) = api_malloc s
         in if \<not> ok then Inr (PORT_ENOMEM, s1, evs)
            else andthen (publish_buffer name topic data (unat data_len) slen nlen slash (replicate len 0)) (\<lambda>buf.
                 andthen (signpost_api_send m ModuleAddressRadio CommandFrame NetworkingApiType
                            NetworkingPublishMessage len buf
                            (set_active (Some CbNetworking) (upd_svc (\<lambda>v. v\<lparr>networking_ready := False\<rparr>) s1))) (\<lambda>(rc, s2).
                 if rc < PORT_SUCCESS then Inr (rc, set_active None s2, evs)
                 else andthen (port_signpost_wait_for_with_timeout H m (\<lambda>s. networking_ready (svc s)) evs s2)
                   (\<lambda>(rc2, s3, evs').
                     if rc2 < PORT_SUCCESS then Inr (rc2, set_active None s3, evs')
                     else if message_length (cells s3) \<ge> 4
                     then andthen (incoming_bytes s3 0 4) (\<lambda>b. Inr (sint (of_le32 b), s3, evs'))
                     else Inr (PORT_FAIL, s3, evs'))))))"

definition signpost_networking_subscribe :: "nat \<Rightarrow> api \<Rightarrow> fault + int \<times> api" where
  "signpost_networking_subscribe cb s =
     (let s0 = upd_svc (\<lambda>v. v\<lparr>networking_subscribe_cb := Some cb\<rparr>) s
      in case api_handlers s0 of
           None \<Rightarrow> Inl NullPointer
         | Some hs \<Rightarrow>
             if \<exists>h\<in>set hs. h_api_type h = NetworkingApiType then Inr (PORT_EINVAL, s0)
             else let (ok, s1) = api_malloc s0
                  in if \<not> ok then Inr (PORT_ENOMEM, s1)
                     else Inr (PORT_SUCCESS, s1\<lparr>api_handlers :=
                       Some (\<lparr>h_api_type = NetworkingApiType, h_callback = SubscribeCallback\<rparr> # hs)\<rparr>))"

definition signpost_networking_publish_reply :: "mbedtls \<Rightarrow> byte \<Rightarrow> int \<Rightarrow> api \<Rightarrow> fault + int \<times> api" where
  "signpost_networking_publish_reply m src return_code =
     signpost_api_send m src ResponseFrame NetworkingApiType NetworkingPublishMessage 4 (int_bytes return_code)"

definition subscribe_message :: "bytes \<Rightarrow> bytes \<Rightarrow> bytes" where
  "subscribe_message topic data = [word_of_nat (length topic)] @ topic @ [word_of_nat (length data)] @ data"

definition signpost_networking_subscribe_send ::
  "mbedtls \<Rightarrow> byte \<Rightarrow> bytes \<Rightarrow> bytes \<Rightarrow> byte \<Rightarrow> api \<Rightarrow> fault + int \<times> api" where
  "signpost_networking_subscribe_send m dest topic data data_len s =
     (let tlen = strnlen topic 28;
          (ok, s1) = api_malloc s
      in if \<not> ok then Inr (PORT_ENOMEM, s1)
         else andthen (read_at data 0 (unat data_len)) (\<lambda>d.
              signpost_api_send m dest NotificationFrame NetworkingApiType NetworkingSubscribeMessage
                (2 + tlen + unat data_len) (subscribe_message (take tlen topic) d) s1))"

section \<open>Energy\<close>

definition EnergyQueryMessage :: byte where "EnergyQueryMessage = 0"
definition EnergyResetMessage :: byte where "EnergyResetMessage = 1"
definition EnergyReportModuleConsumptionMessage :: byte where "EnergyReportModuleConsumptionMessage = 2"
definition EnergyDutyCycleMessage :: byte where "EnergyDutyCycleMessage = 3"

definition signpost_energy_query_async ::
  "mbedtls \<Rightarrow> bytes \<Rightarrow> energy_callback \<Rightarrow> api \<Rightarrow> fault + int \<times> api" where
  "signpost_energy_query_async m energy cb s =
     (if incoming_active_callback s \<noteq> None then Inr (PORT_EBUSY, s)
      else if energy_cb (svc s) \<noteq> None then Inr (PORT_EBUSY, s)
      else
        let s0 = set_active (Some CbEnergyQuery)
                   (upd_svc (\<lambda>v. v\<lparr>energy_cb_data := True, energy_mem := energy, energy_cb := Some cb\<rparr>) s)
        in andthen (signpost_api_send m ModuleAddressController CommandFrame EnergyApiType EnergyQueryMessage 0 [] s0)
             (\<lambda>(rc, s1).
               if rc < 0
               then Inr (rc, set_active None (upd_svc (\<lambda>v. v\<lparr>energy_cb_data := False, energy_cb := None\<rparr>) s1))
               else Inr (PORT_SUCCESS, s1)))"

definition signpost_energy_query ::
  "user \<Rightarrow> mbedtls \<Rightarrow> bytes \<Rightarrow> api_event list \<Rightarrow> api \<Rightarrow> fault + int \<times> api \<times> api_event list" where
  "signpost_energy_query H m energy evs s =
     andthen (signpost_energy_query_async m energy EnergySyncCallback
                (upd_svc (\<lambda>v. v\<lparr>energy_query_ready := False\<rparr>) s)) (\<lambda>(rc, s1).
       if rc \<noteq> 0 then Inr (rc, s1, evs)
       else andthen (port_signpost_wait_for_with_timeout H m (\<lambda>s. energy_query_ready (svc s)) evs s1)
         (\<lambda>(ret, s2, evs').
           if ret < 0 then Inr (PORT_FAIL, set_active None s2, evs')
           else Inr (energy_query_result (svc s2), s2, evs')))"

definition signpost_energy_duty_cycle :: "mbedtls \<Rightarrow> u32 \<Rightarrow> api \<Rightarrow> fault + int \<times> api" where
  "signpost_energy_duty_cycle m time_ms =
     signpost_api_send m ModuleAddressController NotificationFrame EnergyApiType EnergyDutyCycleMessage 4 (le32 time_ms)"

text \<open>The sizes of an energy report are \<open>uint8_t\<close>: six bytes per module and a count.\<close>

definition signpost_energy_report ::
  "user \<Rightarrow> mbedtls \<Rightarrow> byte \<Rightarrow> bytes \<Rightarrow> api_event list \<Rightarrow> api \<Rightarrow> fault + int \<times> api \<times> api_event list" where
  "signpost_energy_report H m num_reports reports evs s =
     (let reports_size = to_uint8 (unat num_reports * 6);
          report_buf_size = to_uint8 (reports_size + 1);
          (ok, s0) = api_malloc s
      in if \<not> ok then Inr (PORT_ENOMEM, s0, evs)
         else andthen (memcpy_at (replicate report_buf_size 0) 0 [num_reports]) (\<lambda>b1.
              andthen (read_at reports 0 reports_size) (\<lambda>r.
              andthen (memcpy_at b1 1 r) (\<lambda>buf.
              andthen (signpost_api_send m ModuleAddressController CommandFrame EnergyApiType
                         EnergyReportModuleConsumptionMessage report_buf_size buf s0) (\<lambda>(rc, s1).
              if rc < 0 then Inr (rc, s1, evs)
              else andthen (port_signpost_wait_for_with_timeout H m (\<lambda>s. energy_report_received (svc s)) evs
                      (set_active (Some CbEnergyReport) (upd_svc (\<lambda>v. v\<lparr>energy_report_received := False\<rparr>) s1)))
                (\<lambda>(rc2, s2, evs').
                  if rc2 < 0 then Inr (PORT_FAIL, set_active None s2, evs')
                  else if energy_report_result (svc s2) < 0 then Inr (PORT_FAIL, s2, evs')
                  else andthen (incoming_bytes s2 0 1) (\<lambda>b. Inr (int (unat (hd b)), s2, evs'))))))))"

definition signpost_energy_reset ::
  "user \<Rightarrow> mbedtls \<Rightarrow> api_event list \<Rightarrow> api \<Rightarrow> fault + int \<times> api \<times> api_event list" where
  "signpost_energy_reset H m evs s =
     andthen (signpost_api_send m ModuleAddressController CommandFrame EnergyApiType EnergyResetMessage 0 [] s)
       (\<lambda>(rc, s1).
         if rc < 0 then Inr (rc, s1, evs)
         else andthen (port_signpost_wait_for_with_timeout H m (\<lambda>s. energy_reset_received (svc s)) evs
                 (set_active (Some CbEnergyReset) (upd_svc (\<lambda>v. v\<lparr>energy_reset_received := False\<rparr>) s1)))
           (\<lambda>(rc2, s2, evs').
             if rc2 < 0 then Inr (PORT_FAIL, set_active None s2, evs')
             else if energy_reset_result (svc s2) < 0 then Inr (PORT_FAIL, s2, evs')
             else andthen (incoming_bytes s2 0 1) (\<lambda>b. Inr (int (unat (hd b)), s2, evs'))))"

definition signpost_energy_query_reply :: "mbedtls \<Rightarrow> byte \<Rightarrow> bytes \<Rightarrow> api \<Rightarrow> fault + int \<times> api" where
  "signpost_energy_query_reply m dest info =
     signpost_api_send m dest ResponseFrame EnergyApiType EnergyQueryMessage ENERGY_INFORMATION_LEN info"

definition signpost_energy_report_reply :: "mbedtls \<Rightarrow> byte \<Rightarrow> int \<Rightarrow> api \<Rightarrow> fault + int \<times> api" where
  "signpost_energy_report_reply m dest return_code =
     signpost_api_send m dest ResponseFrame EnergyApiType EnergyReportModuleConsumptionMessage 4 (int_bytes return_code)"

definition signpost_energy_reset_reply :: "mbedtls \<Rightarrow> byte \<Rightarrow> int \<Rightarrow> api \<Rightarrow> fault + int \<times> api" where
  "signpost_energy_reset_reply m dest return_code =
     signpost_api_send m dest ResponseFrame EnergyApiType EnergyResetMessage 4 (int_bytes return_code)"

section \<open>Time and location\<close>

definition TimeLocationGetTimeMessage :: byte where "TimeLocationGetTimeMessage = 0"
definition TimeLocationGetLocationMessage :: byte where "TimeLocationGetLocationMessage = 1"
definition TIME_LEN :: nat where "TIME_LEN = 8"
definition LOCATION_LEN :: nat where "LOCATION_LEN = 9"

definition signpost_timelocation_sync ::
  "user \<Rightarrow> mbedtls \<Rightarrow> byte \<Rightarrow> api_event list \<Rightarrow> api \<Rightarrow> fault + int \<times> api \<times> api_event list" where
  "signpost_timelocation_sync H m mt evs s =
     (let s0 = upd_svc (\<lambda>v. v\<lparr>timelocation_query_answered := False\<rparr>) s
      in if incoming_active_callback s0 \<noteq> None then Inr (PORT_EBUSY, s0, evs)
         else andthen (signpost_api_send m ModuleAddressController CommandFrame TimeLocationApiType mt 0 []
                  (set_active (Some CbTimelocation) s0)) (\<lambda>(rc, s1).
              if rc < 0 then Inr (rc, set_active None s1, evs)
              else andthen (port_signpost_wait_for_with_timeout H m (\<lambda>s. timelocation_query_answered (svc s)) evs s1)
                (\<lambda>(rc2, s2, evs').
                  if rc2 < 0 then Inr (rc2, set_active None s2, evs')
                  else if message_type (cells s2) \<noteq> mt then Inr (PORT_FAIL, s2, evs')
                  else Inr (timelocation_query_result (svc s2), s2, evs'))))"

record tm =
  tm_year :: int
  tm_mon :: int
  tm_mday :: int
  tm_hour :: int
  tm_min :: int
  tm_sec :: int

definition tm_of_message :: "bytes \<Rightarrow> tm" where
  "tm_of_message msg = \<lparr>tm_year = int (unat (of_le16 msg)) - 1900, tm_mon = int (unat (msg ! 2)) - 1,
     tm_mday = int (unat (msg ! 3)), tm_hour = int (unat (msg ! 4)), tm_min = int (unat (msg ! 5)),
     tm_sec = int (unat (msg ! 6))\<rparr>"

text \<open>
  The result has the value of the caller's \<open>time_t\<close>, if it was written; \<open>mktime\<close> is the C
  library's conversion.
\<close>

definition signpost_timelocation_get_time ::
  "(tm \<Rightarrow> int) \<Rightarrow> user \<Rightarrow> mbedtls \<Rightarrow> bool \<Rightarrow> api_event list \<Rightarrow> api
     \<Rightarrow> fault + (int \<times> int option) \<times> api \<times> api_event list" where
  "signpost_timelocation_get_time mktime H m time_is_null evs s =
     (if time_is_null then Inr ((PORT_EINVAL, None), s, evs)
      else andthen (signpost_timelocation_sync H m TimeLocationGetTimeMessage evs s) (\<lambda>(rc, s1, evs').
           if rc < 0 then Inr ((rc, None), s1, evs')
           else if message_length (cells s1) \<noteq> TIME_LEN then Inr ((PORT_FAIL, None), s1, evs')
           else andthen (incoming_bytes s1 0 TIME_LEN) (\<lambda>msg.
                let sats = unat (msg ! 7)
                in Inr ((if sats < 3 then PORT_ENOSAT else int sats, Some (mktime (tm_of_message msg))), s1, evs'))))"

definition signpost_timelocation_get_location ::
  "user \<Rightarrow> mbedtls \<Rightarrow> bytes option \<Rightarrow> api_event list \<Rightarrow> api
     \<Rightarrow> fault + (int \<times> bytes option) \<times> api \<times> api_event list" where
  "signpost_timelocation_get_location H m location evs s =
     (case location of
        None \<Rightarrow> Inr ((PORT_EINVAL, None), s, evs)
      | Some loc \<Rightarrow>
          andthen (signpost_timelocation_sync H m TimeLocationGetLocationMessage evs s) (\<lambda>(rc, s1, evs').
          if rc < 0 then Inr ((rc, Some loc), s1, evs')
          else if message_length (cells s1) \<noteq> LOCATION_LEN then Inr ((PORT_FAIL, Some loc), s1, evs')
          else andthen (incoming_bytes s1 0 LOCATION_LEN) (\<lambda>msg.
               andthen (memcpy_at loc 0 msg) (\<lambda>loc'. Inr ((rc, Some loc'), s1, evs')))))"

definition signpost_timelocation_get_time_reply :: "mbedtls \<Rightarrow> byte \<Rightarrow> bytes \<Rightarrow> api \<Rightarrow> fault + int \<times> api" where
  "signpost_timelocation_get_time_reply m dest time =
     signpost_api_send m dest ResponseFrame TimeLocationApiType TimeLocationGetTimeMessage TIME_LEN time"

definition signpost_timelocation_get_location_reply :: "mbedtls \<Rightarrow> byte \<Rightarrow> bytes \<Rightarrow> api \<Rightarrow> fault + int \<times> api" where
  "signpost_timelocation_get_location_reply m dest loc =
     signpost_api_send m dest ResponseFrame TimeLocationApiType TimeLocationGetLocationMessage LOCATION_LEN loc"

section \<open>Watchdog\<close>

definition WatchdogStartMessage :: byte where "WatchdogStartMessage = 0"
definition WatchdogTickleMessage :: byte where "WatchdogTickleMessage = 1"
definition WatchdogResponseMessage :: byte where "WatchdogResponseMessage = 2"

definition watchdog_call ::
  "byte \<Rightarrow> user \<Rightarrow> mbedtls \<Rightarrow> api_event list \<Rightarrow> api \<Rightarrow> fault + int \<times> api \<times> api_event list" where
  "watchdog_call mt H m evs s =
     andthen (signpost_api_send m ModuleAddressController CommandFrame WatchdogApiType mt 0 []
                (upd_svc (\<lambda>v. v\<lparr>watchdog_reply := False\<rparr>) s)) (\<lambda>(rc, s1).
       if rc < 0 then Inr (rc, s1, evs)
       else andthen (port_signpost_wait_for H m (\<lambda>s. watchdog_reply (svc s)) evs (set_active (Some CbWatchdog) s1))
              (\<lambda>(s2, evs'). Inr (1, s2, evs')))"

definition signpost_watchdog_start ::
  "user \<Rightarrow> mbedtls \<Rightarrow> api_event list \<Rightarrow> api \<Rightarrow> fault + int \<times> api \<times> api_event list" where
  "signpost_watchdog_start = watchdog_call WatchdogStartMessage"

definition signpost_watchdog_tickle ::
  "user \<Rightarrow> mbedtls \<Rightarrow> api_event list \<Rightarrow> api \<Rightarrow> fault + int \<times> api \<times> api_event list" where
  "signpost_watchdog_tickle = watchdog_call WatchdogTickleMessage"

definition signpost_watchdog_reply :: "mbedtls \<Rightarrow> byte \<Rightarrow> api \<Rightarrow> fault + int \<times> api" where
  "signpost_watchdog_reply m dest =
     signpost_api_send m dest ResponseFrame WatchdogApiType WatchdogResponseMessage 0 []"

end
