(* ===== verification/Signpost_Init.thy ===== *)
theory Signpost_Init
  imports Signpost_Api
begin

text \<open>
  The initialisation API of \<open>signpost_api.c\<close>: the module asks the controller for isolation, declares
  itself and gets its address. \<open>init_pass\<close> is one pass of the loop of
  \<open>signpost_initialization_initialize_loop\<close>; the loop itself may run for ever, so it is a
  \<open>partial_function\<close> whose value is \<open>None\<close> then. Interrupts and packets are taken where the code waits
  for a flag. The elliptic-curve calls of mbedTLS are the parameter \<open>ec\<close>.
\<close>

section \<open>The module table on the wire\<close>

definition MODULE_STATE_LEN :: nat where "MODULE_STATE_LEN = 440"

definition module_bytes :: "module_state \<Rightarrow> bytes" where
  "module_bytes mi = le32 (magic mi) @ [self_mod_num mi, i2c_address mi] @ self_name mi @ concat (names mi)
     @ i2c_address_mods mi @ concat (map le16 (nonces mi)) @ map (\<lambda>b. if b then 1 else 0) (haskey mi)
     @ concat (keys mi) @ [0, 0]"

text \<open>\<open>chunks k n xs\<close>: the first \<open>n\<close> pieces of \<open>k\<close> bytes.\<close>

fun chunks :: "nat \<Rightarrow> nat \<Rightarrow> bytes \<Rightarrow> bytes list" where
  "chunks k 0 xs = []"
| "chunks k (Suc n) xs = take k xs # chunks k n (drop k xs)"

definition module_of_bytes :: "bytes \<Rightarrow> module_state" where
  "module_of_bytes bs = \<lparr>magic = of_le32 bs, self_mod_num = bs ! 4, i2c_address = bs ! 5,
     self_name = take NAME_LEN (drop 6 bs),
     names = chunks NAME_LEN NUM_MODULES (drop 22 bs),
     i2c_address_mods = take NUM_MODULES (drop 150 bs),
     nonces = map of_le16 (chunks 2 NUM_MODULES (drop 158 bs)),
     haskey = map (\<lambda>b. b \<noteq> 0) (take NUM_MODULES (drop 174 bs)),
     keys = chunks ECDH_KEY_LENGTH NUM_MODULES (drop 182 bs)\<rparr>"

section \<open>Helpers\<close>

definition api_pin :: "pin_op \<Rightarrow> api \<Rightarrow> int \<times> api" where
  "api_pin op s = (let (rc, e) = port_pin op (penv s) in (rc, set_env e s))"

definition api_delay :: "nat \<Rightarrow> api \<Rightarrow> api" where
  "api_delay ms s = set_env (port_signpost_delay_ms ms (penv s)) s"

definition upd_module :: "(module_state \<Rightarrow> module_state) \<Rightarrow> api \<Rightarrow> api" where
  "upd_module f s = s\<lparr>module_info := f (module_info s)\<rparr>"

definition signpost_initialization_request_isolation :: "api \<Rightarrow> int \<times> api" where
  "signpost_initialization_request_isolation s =
     (let (rc, s1) = api_pin ModOutClear s
      in if rc \<noteq> PORT_SUCCESS then (rc, s1)
         else let (rc2, s2) = api_pin LedOn s1
              in if rc2 \<noteq> PORT_SUCCESS then (rc2, s2) else (PORT_SUCCESS, s2))"

definition signpost_initialization_declare_controller :: "mbedtls \<Rightarrow> api \<Rightarrow> fault + int \<times> api" where
  "signpost_initialization_declare_controller m s =
     (if incoming_active_callback s \<noteq> None \<and> incoming_active_callback s \<noteq> Some CbDeclare
      then Inr (PORT_EBUSY, s)
      else andthen (signpost_api_send m ModuleAddressController CommandFrame InitializationApiType
                InitializationDeclare (strnlen (self_name (module_info s)) NAME_LEN) (self_name (module_info s))
                (s\<lparr>incoming_active_callback := Some CbDeclare\<rparr>)) (\<lambda>(rc, s1).
           Inr (if rc \<ge> PORT_SUCCESS then PORT_SUCCESS else PORT_FAIL, s1)))"

definition register_module :: "byte \<Rightarrow> nat \<Rightarrow> bytes \<Rightarrow> module_state \<Rightarrow> module_state" where
  "register_module new_address n name mi = mi\<lparr>
     i2c_address_mods := (i2c_address_mods mi)[n := new_address],
     names := (names mi)[n := overwrite (replicate NAME_LEN 0) 0 (take (strnlen name NAME_LEN) name)],
     haskey := (haskey mi)[n := False]\<rparr>"

definition signpost_initialization_declare_respond ::
  "mbedtls \<Rightarrow> byte \<Rightarrow> byte \<Rightarrow> byte \<Rightarrow> bytes \<Rightarrow> api \<Rightarrow> fault + int \<times> api" where
  "signpost_initialization_declare_respond m source_address new_address module_number name s =
     (if unat module_number \<ge> NUM_MODULES then Inl OutOfBounds
      else signpost_api_send m source_address ResponseFrame InitializationApiType InitializationDeclare 1
             [new_address] (upd_module (register_module new_address (unat module_number) name) s))"

record ecdh_lib =
  ecp_group_load :: int
  ecdh_read_params :: "bytes \<Rightarrow> int"
  ecdh_make_public :: "bytes \<Rightarrow> nat \<Rightarrow> int \<times> bytes"
  ecdh_calc_secret :: "bytes \<Rightarrow> nat \<Rightarrow> int \<times> bytes"

definition ECDH_BUF_LEN :: nat where "ECDH_BUF_LEN = 72"

text \<open>
  The module number is the \<open>uint8_t\<close> of the look-up's result. The secret is written to the key slot
  before the answer is sent, the slot is marked as valid after it.
\<close>

definition signpost_initialization_key_exchange_respond ::
  "ecdh_lib \<Rightarrow> mbedtls \<Rightarrow> byte \<Rightarrow> bytes \<Rightarrow> api \<Rightarrow> fault + int \<times> api" where
  "signpost_initialization_key_exchange_respond ec m source_address params s =
     (let module_number = unat (word_of_int (signpost_api_addr_to_mod_num (module_info s) source_address) :: byte);
          k = drbg_count (penv s)
      in if ecp_group_load ec < PORT_SUCCESS then Inr (ecp_group_load ec, s)
         else if ecdh_read_params ec params < PORT_SUCCESS then Inr (ecdh_read_params ec params, s)
         else let (ret, pub) = ecdh_make_public ec params k
         in if ret < PORT_SUCCESS then Inr (ret, s)
         else if module_number = 0xff then Inr (PORT_FAIL, s)
         else let (ret2, secret) = ecdh_calc_secret ec params k
         in if ret2 < PORT_SUCCESS then Inr (ret2, s)
         else andthen (memcpy_at (keys (module_info s) ! module_number) 0 secret) (\<lambda>key.
              let s1 = upd_module (\<lambda>mi. mi\<lparr>keys := (keys mi)[module_number := key]\<rparr>) s
              in andthen (signpost_api_send m source_address ResponseFrame InitializationApiType
                            InitializationKeyExchange (length pub) pub s1) (\<lambda>(rc, s2).
                 Inr (rc, upd_module (\<lambda>mi. mi\<lparr>haskey := (haskey mi)[module_number := True]\<rparr>) s2))))"

text \<open>The table of the controller, with the own address and name kept.\<close>

definition signpost_initialization_get_module_state ::
  "user \<Rightarrow> mbedtls \<Rightarrow> api_event list \<Rightarrow> api \<Rightarrow> fault + int \<times> api \<times> api_event list" where
  "signpost_initialization_get_module_state H m evs s =
     andthen (signpost_api_send m ModuleAddressController CommandFrame InitializationApiType
                InitializationGetState 0 []
                (s\<lparr>incoming_active_callback := Some CbGetState, get_state_complete := False\<rparr>)) (\<lambda>(_, s1).
     andthen (port_signpost_wait_for_with_timeout H m get_state_complete evs s1) (\<lambda>(ret, s2, evs').
       if ret < PORT_SUCCESS then Inr (PORT_FAIL, s2, evs')
       else andthen (incoming_bytes s2 0 MODULE_STATE_LEN) (\<lambda>bs.
            Inr (PORT_SUCCESS, upd_module (\<lambda>mi. (module_of_bytes bs)\<lparr>i2c_address := i2c_address mi,
                   self_name := strncpy_bytes (strncpy_bytes (self_name mi) NAME_LEN) NAME_LEN\<rparr>) s2, evs'))))"

definition signpost_initialization_get_module_state_reply :: "mbedtls \<Rightarrow> byte \<Rightarrow> api \<Rightarrow> fault + int \<times> api" where
  "signpost_initialization_get_module_state_reply m address s =
     signpost_api_send m address ResponseFrame InitializationApiType InitializationGetState MODULE_STATE_LEN
       (module_bytes (module_info s)) s"

definition cleared_table :: "module_state \<Rightarrow> module_state" where
  "cleared_table mi = mi\<lparr>haskey := replicate NUM_MODULES False,
     keys := replicate NUM_MODULES (replicate ECDH_KEY_LENGTH 0),
     i2c_address_mods := (replicate NUM_MODULES 0xff)[3 := ModuleAddressController, 4 := ModuleAddressStorage],
     magic := MOD_STATE_MAGIC\<rparr>"

definition signpost_initialization_common :: "mbedtls \<Rightarrow> byte \<Rightarrow> api \<Rightarrow> int \<times> api" where
  "signpost_initialization_common m address s =
     (let (io, e) = signbus_io_init address (n_io (layers s)) (penv s);
          (rc, e') = signpost_entropy_init m e;
          s1 = s\<lparr>layers := (layers s)\<lparr>n_io := io, n_env := e'\<rparr>\<rparr>
      in if rc < 0 then (rc, s1)
         else (PORT_SUCCESS,
               upd_module cleared_table (s1\<lparr>layers := (layers s1)\<lparr>n_prot :=
                 signbus_protocol_setup_async (Some (replicate INCOMING_MESSAGE_BUFFER_LENGTH 0))
                   (n_prot (layers s1))\<rparr>\<rparr>)))"

definition controller_name :: bytes where
  "controller_name = map (\<lambda>c. word_of_nat (of_char c)) ''signpost/control''"

definition signpost_initialization_controller_module_init ::
  "mbedtls \<Rightarrow> api_handler list \<Rightarrow> api \<Rightarrow> int \<times> api" where
  "signpost_initialization_controller_module_init m handlers s =
     (let (rc, s1) = signpost_initialization_common m ModuleAddressController s
      in if rc < 0 then (rc, s1)
         else (PORT_SUCCESS, signpost_api_start_new_async_recv
                (upd_module (\<lambda>mi. mi\<lparr>i2c_address := ModuleAddressController,
                                     self_name := strncpy_bytes controller_name NAME_LEN\<rparr>)
                   (s1\<lparr>api_handlers := Some handlers\<rparr>))))"

section \<open>The initialisation loop\<close>

definition back_off :: "api \<Rightarrow> api" where
  "back_off s = (api_delay 3000 (snd (api_pin ModOutSet s)))\<lparr>init_state := RequestIsolation\<rparr>"

definition request_pass ::
  "user \<Rightarrow> mbedtls \<Rightarrow> api_event list \<Rightarrow> api \<Rightarrow> fault + int option \<times> api \<times> api_event list" where
  "request_pass H m evs s =
     (let (rc, s1) = signpost_initialization_request_isolation (s\<lparr>request_isolation_complete := False\<rparr>)
      in if rc \<noteq> PORT_SUCCESS then Inr (None, s1, evs)
         else andthen (port_signpost_wait_for_with_timeout H m request_isolation_complete evs s1)
           (\<lambda>(rc2, s2, evs'). Inr (None, if rc2 = PORT_FAIL then back_off s2 else s2, evs')))"

definition declare_pass ::
  "user \<Rightarrow> mbedtls \<Rightarrow> api_event list \<Rightarrow> api \<Rightarrow> fault + int option \<times> api \<times> api_event list" where
  "declare_pass H m evs s =
     (let s1 = api_delay 50 s;
          (level, s2) = (if is_isolated s1 then (0, s1) else api_pin ModInRead s1)
      in if \<not> is_isolated s1 \<and> level \<noteq> 0 then Inr (None, s2\<lparr>init_state := RequestIsolation\<rparr>, evs)
         else andthen (signpost_initialization_declare_controller m
                         (api_delay 500 (s2\<lparr>declare_controller_complete := False\<rparr>))) (\<lambda>(rc, s3).
              if rc \<noteq> PORT_SUCCESS
              then Inr (None, (back_off s3)\<lparr>incoming_active_callback := None\<rparr>, evs)
              else andthen (port_signpost_wait_for_with_timeout H m declare_controller_complete evs s3)
                (\<lambda>(rc2, s4, evs').
                  if rc2 \<noteq> PORT_SUCCESS
                  then Inr (None, (back_off s4)\<lparr>incoming_active_callback := None\<rparr>, evs')
                  else andthen (incoming_bytes s4 0 1) (\<lambda>b.
                       let new_address = hd b
                       in Inr (None,
                            if i2c_address (module_info s4) \<noteq> new_address
                            then snd (signpost_initialization_common m new_address
                                        (upd_module (\<lambda>mi. mi\<lparr>i2c_address := new_address\<rparr>) s4))
                            else s4, evs')))))"

definition init_pass ::
  "user \<Rightarrow> mbedtls \<Rightarrow> api_event list \<Rightarrow> api \<Rightarrow> fault + int option \<times> api \<times> api_event list" where
  "init_pass H m evs s = (case init_state s of
       RequestIsolation \<Rightarrow> request_pass H m evs s
     | Declare \<Rightarrow> declare_pass H m evs s
     | Done \<Rightarrow> Inr (Some PORT_SUCCESS, snd (api_pin LedOff (snd (api_pin ModOutSet s))), evs)
     | _ \<Rightarrow> Inr (None, s, evs))"

partial_function (option) signpost_initialization_initialize_loop ::
  "user \<Rightarrow> mbedtls \<Rightarrow> api_event list \<Rightarrow> api \<Rightarrow> (fault + int \<times> api \<times> api_event list) option" where
  "signpost_initialization_initialize_loop H m evs s =
     (case init_pass H m evs s of
        Inl f \<Rightarrow> Some (Inl f)
      | Inr (Some rc, s', evs') \<Rightarrow> Some (Inr (rc, s', evs'))
      | Inr (None, s', evs') \<Rightarrow> signpost_initialization_initialize_loop H m evs' s')"

section \<open>Starting a module\<close>

definition write_self_name :: "bytes \<Rightarrow> bytes \<Rightarrow> nat \<Rightarrow> nat \<Rightarrow> bytes \<Rightarrow> fault + bytes" where
  "write_self_name org_name module_name org_len mod_len buf =
     andthen (memcpy_at buf 0 (take org_len org_name)) (\<lambda>b1.
     andthen (memcpy_at b1 org_len [0x2F]) (\<lambda>b2.
     memcpy_at b2 (org_len + 1) (take mod_len module_name)))"

definition start_module ::
  "user \<Rightarrow> mbedtls \<Rightarrow> bytes \<Rightarrow> bytes \<Rightarrow> byte \<Rightarrow> api_handler list \<Rightarrow> api_event list \<Rightarrow> api
     \<Rightarrow> (fault + int \<times> api \<times> api_event list) option" where
  "start_module H m org_name module_name address handlers evs s =
     (let (rc, s1) = signpost_initialization_common m address s
      in if rc < PORT_SUCCESS then Some (Inr (rc, s1, evs))
         else
           let s2 = upd_module (\<lambda>mi. mi\<lparr>i2c_address := address\<rparr>) (s1\<lparr>api_handlers := Some handlers\<rparr>);
               org_len = strnlen org_name NAME_LEN;
               mod_len = strnlen module_name NAME_LEN
           in if org_len = 0 \<or> mod_len = 0 then Some (Inr (PORT_EINVAL, s2, evs))
              else case write_self_name org_name module_name org_len mod_len (self_name (module_info s2)) of
                Inl f \<Rightarrow> Some (Inl f)
              | Inr name \<Rightarrow>
                  let s3 = signpost_api_start_new_async_recv (upd_module (\<lambda>mi. mi\<lparr>self_name := name\<rparr>) s2);
                      s4 = snd (api_pin LedOff (snd (api_pin ModOutSet s3)));
                      (rc1, s5) = api_pin EnableRising s4
                  in if rc1 \<noteq> PORT_SUCCESS then Some (Inr (rc1, s5, evs))
                     else let (rc2, s6) = api_pin EnableFalling s5
                          in if rc2 \<noteq> PORT_SUCCESS then Some (Inr (rc2, s6, evs))
                             else signpost_initialization_initialize_loop H m evs
                                    (s6\<lparr>init_state := RequestIsolation\<rparr>))"

definition signpost_init ::
  "user \<Rightarrow> mbedtls \<Rightarrow> bytes \<Rightarrow> bytes \<Rightarrow> api_event list \<Rightarrow> api
     \<Rightarrow> (fault + int \<times> api \<times> api_event list) option" where
  "signpost_init H m org_name module_name = start_module H m org_name module_name 0 []"

definition signpost_initialization_module_init ::
  "user \<Rightarrow> mbedtls \<Rightarrow> bytes \<Rightarrow> bytes \<Rightarrow> byte \<Rightarrow> api_handler list \<Rightarrow> api_event list \<Rightarrow> api
     \<Rightarrow> (fault + int \<times> api \<times> api_event list) option" where
  "signpost_initialization_module_init = start_module"

definition signpost_initialization_initialize_with_module ::
  "user \<Rightarrow> mbedtls \<Rightarrow> byte \<Rightarrow> api_event list \<Rightarrow> api \<Rightarrow> (fault + int \<times> api \<times> api_event list) option" where
  "signpost_initialization_initialize_with_module H m module_address evs s =
     signpost_initialization_initialize_loop H m evs
       (s\<lparr>init_state := RequestIsolation, mod_addr_init := module_address\<rparr>)"

end
