(* ===== verification/Signpost_Rpc.thy ===== *)
theory Signpost_Rpc
  imports Signpost_Services Signpost_Init
begin

text \<open>
  Requests and their replies. \<open>set_up\<close> is the invariant of a node between calls, \<open>ready\<close> that of
  a node whose asynchronous receive is registered: sending a request makes a node ready, and a
  ready node that gets the frames of a reply runs the active callback on exactly that reply.
\<close>

section \<open>Invariants of a node\<close>

definition set_up :: "api \<Rightarrow> bool" where
  "set_up s \<longleftrightarrow> module_wf (module_info s) \<and> io_wf (n_io (layers s)) \<and> \<not> newpkt_new (n_io (layers s))
     \<and> length (prot_buf (n_prot (layers s))) = INCOMING_MESSAGE_BUFFER_LENGTH
     \<and> (\<exists>b. async_buf (n_prot (layers s)) = Some b \<and> length b = INCOMING_MESSAGE_BUFFER_LENGTH)"

definition ready :: "api \<Rightarrow> bool" where
  "ready s \<longleftrightarrow> set_up s
     \<and> listening ApiRecvCallback (signpost_api_addr_to_key (module_info s)) (sync_keys s)
     \<and> length (async_recv_buf (n_io (layers s))) = INCOMING_MESSAGE_BUFFER_LENGTH
     \<and> prot_buflen (n_prot (layers s)) = INCOMING_MESSAGE_BUFFER_LENGTH"

lemma set_up_svc [simp]:
  "set_up (upd_svc f s) = set_up s" "set_up (s\<lparr>svc := v\<rparr>) = set_up s"
  "set_up (s\<lparr>incoming_active_callback := cb\<rparr>) = set_up s"
  "set_up (s\<lparr>get_state_complete := b\<rparr>) = set_up s"
  "set_up (s\<lparr>declare_controller_complete := b\<rparr>) = set_up s"
  "set_up (s\<lparr>request_isolation_complete := b\<rparr>) = set_up s"
  "set_up (s\<lparr>is_isolated := b\<rparr>) = set_up s" "set_up (s\<lparr>init_state := i\<rparr>) = set_up s"
  "set_up (set_env e s) = set_up s"
  by (simp_all add: set_up_def upd_svc_def set_env_def)

lemma ready_svc [simp]:
  "ready (upd_svc f s) = ready s" "ready (s\<lparr>svc := v\<rparr>) = ready s"
  "ready (s\<lparr>incoming_active_callback := cb\<rparr>) = ready s"
  by (simp_all add: ready_def sync_keys_def set_up_def upd_svc_def)

lemma ready_set_up: "ready s \<Longrightarrow> set_up s"
  by (simp add: ready_def)

text \<open>The statics a new receive does not touch.\<close>

lemma start_recv_same [simp]:
  "module_info (signpost_api_start_new_async_recv s) = module_info s"
  "api_handlers (signpost_api_start_new_async_recv s) = api_handlers s"
  "incoming_active_callback (signpost_api_start_new_async_recv s) = incoming_active_callback s"
  "init_state (signpost_api_start_new_async_recv s) = init_state s"
  "svc (signpost_api_start_new_async_recv s) = svc s"
  "request_isolation_complete (signpost_api_start_new_async_recv s) = request_isolation_complete s"
  "declare_controller_complete (signpost_api_start_new_async_recv s) = declare_controller_complete s"
  "get_state_complete (signpost_api_start_new_async_recv s) = get_state_complete s"
  "is_isolated (signpost_api_start_new_async_recv s) = is_isolated s"
  by (simp_all add: signpost_api_start_new_async_recv_def)

lemma net_recv_async_same:
  assumes "net_recv_async cb f buf n = (rc, n')" "async_buf (n_prot n) \<noteq> None"
  shows "app_recv (n_app n') = app_recv (n_app n)" "sequence_number (n_io n') = sequence_number (n_io n)"
    "this_device_address (n_io n') = this_device_address (n_io n)"
    "async_src_address (n_io n') = async_src_address (n_io n)"
    "wr_log (n_env n') = wr_log (n_env n)" "wr_rcs (n_env n') = wr_rcs (n_env n)"
    "drbg_count (n_env n') = drbg_count (n_env n)"
    "async_buf (n_prot n') = async_buf (n_prot n)" "prot_buflen (n_prot n') = length buf"
  using assms
  by (auto simp: net_recv_async_def signbus_app_recv_async_def signbus_protocol_recv_async_def
      signbus_io_recv_async_def port_signpost_i2c_slave_listen_def Let_def split: prod.splits)

lemma start_recv_ready:
  assumes "set_up s"
  shows "ready (signpost_api_start_new_async_recv s)"
proof -
  obtain b where b: "async_buf (n_prot (layers s)) = Some b" "length b = INCOMING_MESSAGE_BUFFER_LENGTH"
    using assms by (auto simp: set_up_def)
  have b16: "length b < 2 ^ 16" using b(2) by (simp add: INCOMING_MESSAGE_BUFFER_LENGTH_def)
  let ?f = "signpost_api_addr_to_key (module_info s)"
  obtain rc n' where n: "net_recv_async ApiRecvCallback ?f (prot_buf (n_prot (layers s))) (layers s) = (rc, n')"
    by (cases "net_recv_async ApiRecvCallback ?f (prot_buf (n_prot (layers s))) (layers s)") auto
  have wf: "io_wf (n_io (layers s))" using assms by (simp add: set_up_def)
  note l = net_recv_async_listening [OF b(1) b16 wf n]
  have same: "async_buf (n_prot n') = Some b" "prot_buflen (n_prot n') = length (prot_buf (n_prot (layers s)))"
    using net_recv_async_same(8,9) [OF n] b(1) by auto
  have "sync_keys (s\<lparr>layers := n'\<rparr>) = n'"
    using l(1) by (cases n'; cases "n_prot n'") (auto simp: sync_keys_def listening_def)
  then show ?thesis
    using assms l same b(2) n
    by (simp add: ready_def set_up_def signpost_api_start_new_async_recv_def listening_def sync_keys_def)
qed

section \<open>Requests\<close>

lemma signbus_io_send_same:
  "signbus_io_send dest enc data s e = (rc, s', e') \<Longrightarrow> s' = s\<lparr>sequence_number := sequence_number s + 1\<rparr>"
  by (auto simp: signbus_io_send_def Let_def split: prod.splits)

lemma net_send_same:
  assumes "net_send m dest f fr ap mt len msg n = Inr (rc, n')"
  shows "\<exists>q e. n' = n\<lparr>n_io := (n_io n)\<lparr>sequence_number := q\<rparr>, n_env := e\<rparr>"
proof -
  obtain xs t where t: "signbus_protocol_send m dest (Some f) ([fr, ap, mt] @ xs) (n_io n) (n_env n) = Inr t"
    and n': "(\<lambda>(rc, s', e'). Inr (rc, n\<lparr>n_io := s', n_env := e'\<rparr>)) t = (Inr (rc, n') :: fault + int \<times> net)"
    using assms by (auto simp: net_send_def signbus_app_send_def andthen_Inr_iff)
  obtain rc1 s1 e1 where t1: "t = (rc1, s1, e1)" by (cases t) auto
  have "s1 = n_io n \<or> s1 = (n_io n)\<lparr>sequence_number := sequence_number (n_io n) + 1\<rparr>"
    using t unfolding t1 signbus_protocol_send_def
    by (auto simp: Let_def split: if_splits elim!: andthen_InrE dest: signbus_io_send_same)
  moreover have "n_io n = (n_io n)\<lparr>sequence_number := sequence_number (n_io n)\<rparr>" by simp
  ultimately obtain q where "s1 = (n_io n)\<lparr>sequence_number := q\<rparr>" by metis
  moreover have "n' = n\<lparr>n_io := s1, n_env := e1\<rparr>" using n' t1 by simp
  ultimately show ?thesis by blast
qed

lemma set_up_layers:
  assumes "set_up s" "n = (layers s)\<lparr>n_io := (n_io (layers s))\<lparr>sequence_number := q\<rparr>, n_env := e\<rparr>"
  shows "set_up (s\<lparr>layers := n\<rparr>)"
  using assms by (simp add: set_up_def)

text \<open>Sending makes a node ready, whatever the send's result, and changes no other static.\<close>

lemma api_send_ready:
  assumes "set_up s" "signpost_api_send m dest fr ap mt len msg s = Inr (rc, s')"
  shows "ready s'" "module_info s' = module_info s" "api_handlers s' = api_handlers s"
    "incoming_active_callback s' = incoming_active_callback s" "svc s' = svc s" "cells s' = cells s"
    "init_state s' = init_state s" "is_isolated s' = is_isolated s"
    "declare_controller_complete s' = declare_controller_complete s"
    "get_state_complete s' = get_state_complete s"
proof -
  obtain n where n: "net_send m dest (signpost_api_addr_to_key (module_info s)) fr ap mt len msg (layers s) = Inr (rc, n)"
    and s': "s' = signpost_api_start_new_async_recv (s\<lparr>layers := n\<rparr>)"
    using assms(2) by (auto simp: signpost_api_send_def andthen_Inr_iff)
  obtain q e where q: "n = (layers s)\<lparr>n_io := (n_io (layers s))\<lparr>sequence_number := q\<rparr>, n_env := e\<rparr>"
    using net_send_same [OF n] by blast
  show "ready s'" unfolding s' by (rule start_recv_ready, rule set_up_layers [OF assms(1) q])
  show "module_info s' = module_info s" "api_handlers s' = api_handlers s"
    "incoming_active_callback s' = incoming_active_callback s" "svc s' = svc s"
    "init_state s' = init_state s" "is_isolated s' = is_isolated s"
    "declare_controller_complete s' = declare_controller_complete s"
    "get_state_complete s' = get_state_complete s"
    by (simp_all add: s')
  have "async_buf (n_prot n) \<noteq> None" using assms(1) q by (auto simp: set_up_def)
  then have "app_recv (n_app (snd (net_recv_async ApiRecvCallback f b n))) = app_recv (n_app n)" for f b
    using net_recv_async_same(1) by (metis prod.collapse)
  then show "cells s' = cells s"
    by (simp add: s' signpost_api_start_new_async_recv_def q)
qed

text \<open>On a bus that takes the frames, the request succeeds and is on the bus.\<close>

lemma api_send_ok:
  assumes "mbedtls_ok m" "wr_rcs (penv s) = []" "length xs < 2 ^ 16 - 64" "set_up s"
  shows "\<exists>s'. signpost_api_send m dest fr ap mt (length xs) xs s
      = Inr (int (length (sent_wire m dest (signpost_api_addr_to_key (module_info s)) (fr, ap, mt, xs) (layers s))), s')
    \<and> wr_log (penv s') = wr_log (penv s) @ map (Pair dest)
        (sent_frames m dest (signpost_api_addr_to_key (module_info s)) (fr, ap, mt, xs) (layers s))
    \<and> wr_rcs (penv s') = []"
proof -
  let ?f = "signpost_api_addr_to_key (module_info s)"
  obtain n where n: "net_send m dest ?f fr ap mt (length xs) xs (layers s)
      = Inr (int (length (sent_wire m dest ?f (fr, ap, mt, xs) (layers s))), n)"
    and log: "wr_log (n_env n) = wr_log (penv s) @ map (Pair dest) (sent_frames m dest ?f (fr, ap, mt, xs) (layers s))"
    and rcs: "wr_rcs (n_env n) = []"
    using assms(1-3) by (auto simp: net_send_write_all write_all_ok Let_def)
  have "async_buf (n_prot n) \<noteq> None"
    using net_send_same [OF n] assms(4) by (auto simp: set_up_def)
  then have "wr_log (n_env (snd (net_recv_async ApiRecvCallback f b n))) = wr_log (n_env n)"
    "wr_rcs (n_env (snd (net_recv_async ApiRecvCallback f b n))) = wr_rcs (n_env n)" for f b
    using net_recv_async_same(5,6) by (metis prod.collapse)+
  then show ?thesis
    using n log rcs by (simp add: signpost_api_send_def signpost_api_start_new_async_recv_def)
qed

lemma sent_frames_nonempty:
  assumes "mbedtls_ok m"
  shows "sent_frames m dest f x l \<noteq> []"
proof -
  have "0 < length (sent_wire m dest f x l)" using assms by (cases x) simp
  then have "247 \<le> length (sent_wire m dest f x l) + 246" by linarith
  then have "0 < length (sent_frames m dest f x l)"
    by (simp add: sent_frames_def length_io_frames div_greater_zero_iff del: length_greater_0_conv)
  then show ?thesis by simp
qed

lemma api_send_fail:
  assumes "mbedtls_ok m" "length xs < 2 ^ 16 - 64" "wr_rcs (penv s) = rc # later" "rc < 0"
  shows "\<exists>s'. signpost_api_send m dest fr ap mt (length xs) xs s = Inr (rc, s')"
proof -
  let ?f = "signpost_api_addr_to_key (module_info s)"
  have "0 < length (sent_frames m dest ?f (fr, ap, mt, xs) (layers s))"
    using sent_frames_nonempty [OF assms(1)] by blast
  then have "write_all dest (sent_frames m dest ?f (fr, ap, mt, xs) (layers s)) n (seal_env (?f dest) (penv s))
      = (rc, (seal_env (?f dest) (penv s))\<lparr>wr_rcs := later, wr_log := wr_log (seal_env (?f dest) (penv s)) @
          map (Pair dest) (take 0 (sent_frames m dest ?f (fr, ap, mt, xs) (layers s)))\<rparr>)" for n
    using write_all_fail [of "seal_env (?f dest) (penv s)" "[]" rc later] assms(3,4) by simp
  then show ?thesis
    by (simp add: signpost_api_send_def net_send_write_all [OF assms(1,2)] Let_def)
qed

section \<open>Replies\<close>

text \<open>A reply as it comes over the bus: the frames of one sealed message of the node \<open>src\<close>.\<close>

definition reply_burst ::
  "mbedtls \<Rightarrow> module_state \<Rightarrow> byte \<Rightarrow> u16 \<Rightarrow> bool \<Rightarrow> bytes \<Rightarrow> byte \<times> byte \<times> byte \<times> bytes \<Rightarrow> io_event list" where
  "reply_burst m mi src sq enc iv x = map SlaveWrite (io_frames src sq enc
     (seal m (recv_key (Some (signpost_api_addr_to_key mi)) enc src) iv (app_payload x)))"

text \<open>
  A burst that brings a message: its frames in order, between the first and the last of them any bus errors and
  packets of other messages (\<open>foreign\<close>).
\<close>

definition brings ::
  "mbedtls \<Rightarrow> module_state \<Rightarrow> byte \<Rightarrow> u16 \<Rightarrow> bool \<Rightarrow> bytes \<Rightarrow> byte \<times> byte \<times> byte \<times> bytes \<Rightarrow> io_event list \<Rightarrow> bool" where
  "brings m mi src sq enc iv x b \<longleftrightarrow>
     (let fs = reply_burst m mi src sq enc iv x
      in \<exists>evs. b = hd fs # evs \<and> filter (\<lambda>ev. \<not> foreign src sq ev) evs = tl fs \<and> (evs \<noteq> [] \<longrightarrow> \<not> foreign src sq (last evs)))"

lemma reply_burst_Cons:
  assumes "mbedtls_ok m"
  defines "fs \<equiv> \<lambda>mi src sq enc iv x. io_frames src sq enc (seal m (recv_key (Some (signpost_api_addr_to_key mi)) enc src) iv (app_payload x))"
  shows "reply_burst m mi src sq enc iv x = SlaveWrite (hd (fs mi src sq enc iv x)) # map SlaveWrite (tl (fs mi src sq enc iv x))"
proof -
  have "seal m (recv_key (Some (signpost_api_addr_to_key mi)) enc src) iv (app_payload x) \<noteq> []" using assms(1) by simp
  from io_frames_Cons [OF this, of src sq enc] show ?thesis
    unfolding reply_burst_def fs_def list.map(2) [symmetric] by simp
qed

lemma reply_burst_brings:
  assumes "mbedtls_ok m"
  shows "brings m mi src sq enc iv x (reply_burst m mi src sq enc iv x)"
proof -
  let ?w = "seal m (recv_key (Some (signpost_api_addr_to_key mi)) enc src) iv (app_payload x)"
  let ?tl = "map SlaveWrite (tl (io_frames src sq enc ?w))"
  have fl: "filter (\<lambda>ev. \<not> foreign src sq ev) ?tl = ?tl" by (rule io_frames_tl_not_foreign)
  then have "\<forall>ev\<in>set ?tl. \<not> foreign src sq ev" by (metis (mono_tags, lifting) filter_id_conv)
  then have "?tl \<noteq> [] \<longrightarrow> \<not> foreign src sq (last ?tl)" using last_in_set by blast
  then show ?thesis using fl unfolding brings_def reply_burst_Cons [OF assms] by (simp only: Let_def list.sel) blast
qed

definition received :: "byte \<Rightarrow> byte \<times> byte \<times> byte \<times> bytes \<Rightarrow> api \<Rightarrow> bool" where
  "received src x s \<longleftrightarrow> (case x of (fr, ap, mt, xs) \<Rightarrow>
     frame_type (cells s) = fr \<and> api_type (cells s) = ap \<and> message_type (cells s) = mt
     \<and> message_length (cells s) = length xs \<and> take (length xs) (message (cells s)) = xs
     \<and> length (message (cells s)) = INCOMING_MESSAGE_BUFFER_LENGTH - 3
     \<and> async_src_address (n_io (layers s)) = src)"

lemma incoming_bytes_received:
  assumes "received src (fr, ap, mt, xs) s" "off + n \<le> length xs"
  shows "incoming_bytes s off n = Inr (take n (drop off xs))"
proof -
  have eq: "take (length xs) (message (cells s)) = xs"
    using assms(1) by (simp add: received_def)
  have "length xs \<le> length (message (cells s))"
    using arg_cong [OF eq, of length] by simp
  moreover have "take n (drop off (message (cells s))) = take n (drop off xs)"
  proof -
    have "take (off + n) (message (cells s)) = take (off + n) (take (length xs) (message (cells s)))"
      using assms(2) by simp
    also have "\<dots> = take (off + n) xs" by (simp only: eq)
    finally show ?thesis by (simp add: take_drop add.commute)
  qed
  moreover have "message (cells s) \<noteq> []"
    using assms(1) by (auto simp: received_def INCOMING_MESSAGE_BUFFER_LENGTH_def)
  ultimately show ?thesis
    using assms(2) by (simp add: incoming_bytes_def read_at_Inr)
qed

lemma andthen_Inr_right [simp]: "andthen m Inr = m"
  by (cases m) simp_all

lemma sync_keys_same [simp]:
  "n_io (sync_keys s) = n_io (layers s)" "n_env (sync_keys s) = penv s" "n_app (sync_keys s) = n_app (layers s)"
  "prot_buf (n_prot (sync_keys s)) = prot_buf (n_prot (layers s))"
  "prot_buflen (n_prot (sync_keys s)) = prot_buflen (n_prot (layers s))"
  by (simp_all add: sync_keys_def)

text \<open>The longest message that fits the buffers of the API with its digest and IV.\<close>

definition MAX_REPLY :: nat where "MAX_REPLY = INCOMING_MESSAGE_BUFFER_LENGTH - 51"

lemma bus_burst_carried:
  assumes m: "mbedtls_ok m" "length iv = MBEDTLS_MAX_IV_LENGTH" and s: "ready s" and len: "length xs \<le> MAX_REPLY"
    and b: "brings m (module_info s) src sq enc iv (fr, ap, mt, xs) b"
  shows "\<exists>n. bus_burst H m b s = signpost_api_recv_callback H (int (length xs)) (s\<lparr>layers := n\<rparr>)
    \<and> received src (fr, ap, mt, xs) (s\<lparr>layers := n\<rparr>) \<and> set_up (s\<lparr>layers := n\<rparr>) \<and> n_env n = penv s"
proof -
  let ?f = "signpost_api_addr_to_key (module_info s)"
  let ?w = "seal m (recv_key (Some ?f) enc src) iv (app_payload (fr, ap, mt, xs))"
  let ?fs = "io_frames src sq enc ?w"
  obtain evs where evs: "b = SlaveWrite (hd ?fs) # evs" "filter (\<lambda>ev. \<not> foreign src sq ev) evs = map SlaveWrite (tl ?fs) @ []"
    "evs \<noteq> [] \<longrightarrow> \<not> foreign src sq (last evs)"
    using b unfolding brings_def Let_def reply_burst_Cons [OF m(1)] by auto
  have r: "listening ApiRecvCallback ?f (sync_keys s)" "\<not> newpkt_new (n_io (sync_keys s))"
    "length (async_recv_buf (n_io (sync_keys s))) = INCOMING_MESSAGE_BUFFER_LENGTH"
    "prot_buflen (n_prot (sync_keys s)) = INCOMING_MESSAGE_BUFFER_LENGTH"
    "length (prot_buf (n_prot (layers s))) = INCOMING_MESSAGE_BUFFER_LENGTH"
    using s by (simp_all add: ready_def set_up_def)
  have "length ?w \<le> 16 + (3 + length xs) + 32"
    using m by (simp add: length_seal app_payload_def protocol_lens)
  then have fit: "length ?w \<le> length (async_recv_buf (n_io (sync_keys s)))" "3 + length xs \<le> prot_buflen (n_prot (sync_keys s))"
    using len r(3,4) by (simp_all add: MAX_REPLY_def INCOMING_MESSAGE_BUFFER_LENGTH_def)
  from net_receive_message [OF m(1,2) refl r(1,2) fit evs(2)] obtain n evs' where
    n: "net_receive m (SlaveWrite (hd ?fs)) evs (sync_keys s)
        = Inr (Some (ApiRecvCallback, int (length xs)), n, evs')"
    and cells: "frame_type (app_recv (n_app n)) = fr" "api_type (app_recv (n_app n)) = ap"
      "message_type (app_recv (n_app n)) = mt" "message_length (app_recv (n_app n)) = length xs"
      "take (length xs) (message (app_recv (n_app n))) = xs" "async_src_address (n_io n) = src"
      "length (message (app_recv (n_app n))) = length (prot_buf (n_prot (layers s))) - 3"
    and wf: "\<not> newpkt_new (n_io n)" "io_wf (n_io n)" "n_env n = penv s"
      "length (prot_buf (n_prot n)) = length (prot_buf (n_prot (layers s)))"
      "\<exists>b. async_buf (n_prot n) = Some b \<and> length b = length (async_recv_buf (n_io (layers s)))"
    and left: "filter (\<lambda>ev. \<not> foreign src sq ev) evs' = []"
    by auto
  have e: "evs' = []"
  proof (rule ccontr)
    assume ne: "evs' \<noteq> []"
    have "suffix evs' evs" by (rule net_receive_suffix [OF n])
    then obtain zs where "evs = zs @ evs'" by (auto simp: suffix_def)
    then have "\<not> foreign src sq (last evs')" using evs(3) ne by auto
    then show False using left last_in_set [OF ne] by (auto simp: filter_empty_conv)
  qed
  have "bus_burst H m b s = signpost_api_recv_callback H (int (length xs)) (s\<lparr>layers := n\<rparr>)"
    unfolding evs(1) bus_burst.simps(2) n e
    by (simp only: andthen.simps(2) prod.case option.case app_callback.case Let_def)
      (cases "signpost_api_recv_callback H (int (length xs)) (s\<lparr>layers := n\<rparr>)"; simp)
  moreover have "received src (fr, ap, mt, xs) (s\<lparr>layers := n\<rparr>)"
    using cells r(5) by (simp add: received_def)
  moreover have "set_up (s\<lparr>layers := n\<rparr>)"
    using wf s r(3,5) by (simp add: set_up_def ready_def)
  ultimately show ?thesis using wf(3) by blast
qed

lemma received_start_recv:
  assumes "set_up s"
  shows "received src x (signpost_api_start_new_async_recv s) = received src x s"
proof -
  obtain rc n' where n: "net_recv_async ApiRecvCallback (signpost_api_addr_to_key (module_info s))
      (prot_buf (n_prot (layers s))) (layers s) = (rc, n')"
    by (cases "net_recv_async ApiRecvCallback (signpost_api_addr_to_key (module_info s))
      (prot_buf (n_prot (layers s))) (layers s)") auto
  have "async_buf (n_prot (layers s)) \<noteq> None" using assms by (auto simp: set_up_def)
  from net_recv_async_same(1,4) [OF n this] show ?thesis
    by (simp add: received_def signpost_api_start_new_async_recv_def n split: prod.splits)
qed

text \<open>A reply or an error goes to the active callback, once.\<close>

lemma carried_runs_callback:
  assumes "mbedtls_ok m" "length iv = MBEDTLS_MAX_IV_LENGTH" "ready s" "length xs \<le> MAX_REPLY"
    and "fr = ResponseFrame \<or> fr = ErrorFrame" "incoming_active_callback s = Some cb"
    and "brings m (module_info s) src sq enc iv (fr, ap, mt, xs) b"
  shows "\<exists>n. api_step H m (Burst b) s
      = andthen (run_active_callback cb (int (length xs)) (s\<lparr>layers := n, incoming_active_callback := None\<rparr>))
          (\<lambda>s'. Inr (signpost_api_start_new_async_recv s'))
    \<and> received src (fr, ap, mt, xs) (s\<lparr>layers := n, incoming_active_callback := None\<rparr>)
    \<and> set_up (s\<lparr>layers := n, incoming_active_callback := None\<rparr>) \<and> n_env n = penv s"
proof -
  obtain n where n: "bus_burst H m b s
      = signpost_api_recv_callback H (int (length xs)) (s\<lparr>layers := n\<rparr>)"
    "received src (fr, ap, mt, xs) (s\<lparr>layers := n\<rparr>)" "set_up (s\<lparr>layers := n\<rparr>)" "n_env n = penv s"
    using bus_burst_carried [OF assms(1-4,7)] by blast
  have ft: "frame_type (app_recv (n_app n)) = fr" using n(2) by (simp add: received_def)
  have "signpost_api_recv_callback H (int (length xs)) (s\<lparr>layers := n\<rparr>)
      = andthen (run_active_callback cb (int (length xs)) (s\<lparr>layers := n, incoming_active_callback := None\<rparr>))
          (\<lambda>s'. Inr (signpost_api_start_new_async_recv s'))"
    using assms(5,6) ft by (auto simp: signpost_api_recv_callback_def dispatch_message_def frame_types Let_def)
  moreover have "received src (fr, ap, mt, xs) (s\<lparr>layers := n, incoming_active_callback := None\<rparr>)"
    using n(2) by (simp add: received_def)
  moreover have "set_up (s\<lparr>layers := n, incoming_active_callback := None\<rparr>)"
    using n(3) by (simp add: set_up_def)
  ultimately show ?thesis using n(1,4) by auto
qed

lemma reply_runs_callback:
  assumes "mbedtls_ok m" "length iv = MBEDTLS_MAX_IV_LENGTH" "ready s" "length xs \<le> MAX_REPLY"
    and "fr = ResponseFrame \<or> fr = ErrorFrame" "incoming_active_callback s = Some cb"
  shows "\<exists>n. api_step H m (Burst (reply_burst m (module_info s) src sq enc iv (fr, ap, mt, xs))) s
      = andthen (run_active_callback cb (int (length xs)) (s\<lparr>layers := n, incoming_active_callback := None\<rparr>))
          (\<lambda>s'. Inr (signpost_api_start_new_async_recv s'))
    \<and> received src (fr, ap, mt, xs) (s\<lparr>layers := n, incoming_active_callback := None\<rparr>)
    \<and> set_up (s\<lparr>layers := n, incoming_active_callback := None\<rparr>) \<and> n_env n = penv s"
  using carried_runs_callback [OF assms reply_burst_brings [OF assms(1)]] .

section \<open>Other traffic\<close>

text \<open>
  What else can happen on the bus and on the module's line while a node waits for a reply: its isolation begins or ends, the bus reports an
  error, or a message comes that is neither a response nor an error.
\<close>

definition other_traffic :: "mbedtls \<Rightarrow> module_state \<Rightarrow> api_event \<Rightarrow> bool" where
  "other_traffic m mi ev \<longleftrightarrow> (case ev of
       ModInFalling \<Rightarrow> True
     | ModInRising \<Rightarrow> True
     | Timeout \<Rightarrow> False
     | Burst b \<Rightarrow> (\<exists>rc. b = [SlaveError rc]) \<or>
         (\<exists>src sq enc iv fr ap mt xs. length iv = MBEDTLS_MAX_IV_LENGTH \<and> length xs \<le> MAX_REPLY \<and>
            fr \<noteq> ResponseFrame \<and> fr \<noteq> ErrorFrame \<and> brings m mi src sq enc iv (fr, ap, mt, xs) b))"

text \<open>Handlers of the application that return, keep the node set up, and leave the pending request alone.\<close>

definition polite :: "(services \<Rightarrow> bool) \<Rightarrow> user \<Rightarrow> bool" where
  "polite flag H \<longleftrightarrow> (\<forall>k src fr ap mt len msg s. set_up s \<longrightarrow> (\<exists>s'. H k src fr ap mt len msg s = Inr s' \<and> set_up s' \<and>
     module_info s' = module_info s \<and> api_handlers s' = api_handlers s \<and>
     incoming_active_callback s' = incoming_active_callback s \<and> flag (svc s') = flag (svc s)))"

text \<open>What a node that waits for a reply keeps.\<close>

definition still_waiting :: "(services \<Rightarrow> bool) \<Rightarrow> api \<Rightarrow> api \<Rightarrow> bool" where
  "still_waiting flag s s' \<longleftrightarrow> module_info s' = module_info s \<and> api_handlers s' = api_handlers s \<and>
     incoming_active_callback s' = incoming_active_callback s \<and> flag (svc s') = flag (svc s)"

lemma still_waiting_layers: "still_waiting flag s (s\<lparr>layers := n\<rparr>)"
  by (simp add: still_waiting_def)

lemma still_waiting_trans: "still_waiting flag s s1 \<Longrightarrow> still_waiting flag s1 s2 \<Longrightarrow> still_waiting flag s s2"
  by (simp add: still_waiting_def)

lemma subscribe_delivers:
  assumes "length msg = INCOMING_MESSAGE_BUFFER_LENGTH - 3"
  shows "\<exists>d. internal_subscribe_callback fr ap mt len msg s = Inr (upd_svc (\<lambda>v. v\<lparr>delivered := d\<rparr>) s)"
proof -
  define kept where "kept r \<longleftrightarrow> (\<exists>d. r = (Inr (upd_svc (\<lambda>v. v\<lparr>delivered := d\<rparr>) s) :: fault + api))" for r
  have "s = upd_svc (\<lambda>v. v\<lparr>delivered := delivered (svc s)\<rparr>) s" by (simp add: upd_svc_def)
  then have same: "kept (Inr s)" unfolding kept_def by metis
  have "upd_svc (\<lambda>v. v\<lparr>delivered := f v\<rparr>) s = upd_svc (\<lambda>v. v\<lparr>delivered := f (svc s)\<rparr>) s" for f by (simp add: upd_svc_def)
  then have posted: "kept (Inr (upd_svc (\<lambda>v. v\<lparr>delivered := f v\<rparr>) s))" for f unfolding kept_def by metis
  have rd: "read_at msg off n = Inr (take n (drop off msg))" if "off + n \<le> 1000" for off n
    using that assms by (intro read_at_Inr) (simp add: INCOMING_MESSAGE_BUFFER_LENGTH_def)
  have byte: "unat (b :: byte) < 256" for b using unsigned_less [of b] by simp
  have "kept (internal_subscribe_callback fr ap mt len msg s)"
  proof (cases "networking_subscribe_cb (svc s)")
    case None
    then show ?thesis using same by (simp add: internal_subscribe_callback_def)
  next
    case (Some cb)
    define tlen where "tlen = unat (hd (take 1 msg))"
    define dlen where "dlen = unat (hd (take 1 (drop (tlen + 1) msg)))"
    have small: "dlen < 256" unfolding dlen_def by (rule byte)
    have zero: "read_at msg 0 1 = Inr (take 1 msg)" using rd [of 0 1] by simp
    have "kept (if tlen > 28 \<or> len < tlen + 2 then Inr s else andthen (read_at msg 1 tlen) (\<lambda>topic.
        andthen (read_at msg (tlen + 1) 1) (\<lambda>d. let dlen = unat (hd d) in if len < tlen + dlen + 2 then Inr s
          else andthen (read_at msg (tlen + 2) dlen) (\<lambda>data. Inr (upd_svc (\<lambda>v. v\<lparr>delivered := delivered v @
             [(cb, overwrite (replicate (NAME_LEN * 2 + 1) 0) 0 topic, data)]\<rparr>) s)))))"
    proof (cases "tlen > 28 \<or> len < tlen + 2")
      case True
      then show ?thesis using same by simp
    next
      case False
      then have r: "read_at msg 1 tlen = Inr (take tlen (drop 1 msg))"
        "read_at msg (tlen + 1) 1 = Inr (take 1 (drop (tlen + 1) msg))"
        "read_at msg (tlen + 2) dlen = Inr (take dlen (drop (tlen + 2) msg))"
        using small by (simp_all add: rd)
      show ?thesis using False same posted by (simp only: r andthen.simps Let_def dlen_def [symmetric] simp_thms if_False) simp
    qed
    moreover have "kept r \<Longrightarrow> kept (if C then r else Inr s)" for C r using same by simp
    ultimately show ?thesis
      unfolding internal_subscribe_callback_def Some option.case zero andthen.simps Let_def tlen_def [symmetric] by blast
  qed
  then show ?thesis unfolding kept_def .
qed

lemma handled_message:
  assumes "mbedtls_ok m" "length iv = MBEDTLS_MAX_IV_LENGTH" "ready s" "length xs \<le> MAX_REPLY"
    and "fr \<noteq> ResponseFrame" "fr \<noteq> ErrorFrame" "brings m (module_info s) src sq enc iv (fr, ap, mt, xs) b"
    and "polite flag H" "api_handlers s \<noteq> None" "\<And>v d. flag (v\<lparr>delivered := d\<rparr>) = flag v"
  shows "\<exists>s'. api_step H m (Burst b) s = Inr s' \<and> ready s' \<and> still_waiting flag s s'"
proof -
  obtain n where n: "bus_burst H m b s = signpost_api_recv_callback H (int (length xs)) (s\<lparr>layers := n\<rparr>)"
    "received src (fr, ap, mt, xs) (s\<lparr>layers := n\<rparr>)" "set_up (s\<lparr>layers := n\<rparr>)"
    using bus_burst_carried [OF assms(1-4,7)] by blast
  let ?s = "s\<lparr>layers := n\<rparr>"
  have keep: "\<exists>s'. run_handler H cb ?s = Inr s' \<and> set_up s' \<and> still_waiting flag ?s s'" for cb
  proof (cases cb)
    case SubscribeCallback
    have "length (message (cells ?s)) = INCOMING_MESSAGE_BUFFER_LENGTH - 3" using n(2) by (simp add: received_def)
    from subscribe_delivers [OF this] obtain d where "run_handler H cb ?s = Inr (upd_svc (\<lambda>v. v\<lparr>delivered := d\<rparr>) ?s)"
      unfolding run_handler_def Let_def SubscribeCallback api_callback.case by blast
    then show ?thesis using n(3) assms(10) by (auto simp: still_waiting_def upd_svc_def set_up_def)
  next
    case (UserHandler k)
    have "\<exists>s'. H k src fr ap mt len msg ?s = Inr s' \<and> set_up s' \<and> module_info s' = module_info ?s \<and>
        api_handlers s' = api_handlers ?s \<and> incoming_active_callback s' = incoming_active_callback ?s \<and>
        flag (svc s') = flag (svc ?s)" for src fr ap mt len msg
      using assms(8) n(3) unfolding polite_def by blast
    then show ?thesis unfolding UserHandler run_handler_def Let_def still_waiting_def api_callback.case by blast
  qed
  have "\<exists>s'. dispatch_message H (int (length xs)) ?s = Inr s' \<and> set_up s' \<and> still_waiting flag ?s s'"
    using keep n(3) assms(5,6,9) still_waiting_layers [of flag ?s n] n(2)
    by (auto simp: dispatch_message_def Let_def received_def split: option.splits)
  then obtain s' where s': "dispatch_message H (int (length xs)) ?s = Inr s'" "set_up s'" "still_waiting flag ?s s'" by blast
  have "api_step H m (Burst b) s = Inr (signpost_api_start_new_async_recv s')"
    using n(1) s'(1) by (simp add: signpost_api_recv_callback_def)
  then show ?thesis
    using start_recv_ready [OF s'(2)] still_waiting_trans [OF still_waiting_layers s'(3)] by (simp add: still_waiting_def)
qed

lemma bus_error:
  assumes "ready s"
  shows "\<exists>s'. api_step H m (Burst [SlaveError rc]) s = Inr s' \<and> ready s' \<and> still_waiting flag s s'"
proof -
  have "net_receive m (SlaveError rc) [] (sync_keys s) = Inr (None, sync_keys s, [])"
    by (simp add: net_receive_def signbus_io_slave_write_callback_def)
  then have "api_step H m (Burst [SlaveError rc]) s = Inr (s\<lparr>layers := sync_keys s\<rparr>)" by simp
  moreover have "sync_keys (s\<lparr>layers := sync_keys s\<rparr>) = sync_keys s"
    by (cases "prot_addr_to_key (n_prot (layers s))") (simp_all add: sync_keys_def)
  then have "ready (s\<lparr>layers := sync_keys s\<rparr>)"
    using assms by (simp add: ready_def set_up_def) (simp add: sync_keys_def)
  ultimately show ?thesis using still_waiting_layers by blast
qed

lemma traffic_step:
  assumes "mbedtls_ok m" "ready s" "other_traffic m (module_info s) ev"
    and "polite flag H" "api_handlers s \<noteq> None" "\<And>v d. flag (v\<lparr>delivered := d\<rparr>) = flag v"
  shows "\<exists>s'. api_step H m ev s = Inr s' \<and> ready s' \<and> still_waiting flag s s'"
proof (cases ev)
  case (Burst b)
  then show ?thesis
    using assms(3) bus_error [OF assms(2)] handled_message [OF assms(1) _ assms(2) _ _ _ _ assms(4-6)]
    unfolding other_traffic_def by auto
next
  case ModInFalling
  then show ?thesis using assms(2)
    by (auto simp: signpost_initialization_isolation_callback_def Let_def still_waiting_def ready_def set_up_def sync_keys_def)
next
  case ModInRising
  then show ?thesis using assms(2)
    by (auto simp: signpost_initialization_lost_isolation_callback_def Let_def still_waiting_def ready_def set_up_def sync_keys_def)
qed (use assms(3) in \<open>simp add: other_traffic_def\<close>)

text \<open>A wait that goes through other traffic.\<close>

lemma wait_through_traffic:
  assumes "mbedtls_ok m" "ready s" "\<forall>ev\<in>set pre. other_traffic m (module_info s) ev"
    and "polite flag H" "api_handlers s \<noteq> None" "\<And>v d. flag (v\<lparr>delivered := d\<rparr>) = flag v" "\<not> flag (svc s)"
  shows "\<exists>s'. port_signpost_wait_for_with_timeout H m (\<lambda>s. flag (svc s)) (pre @ evs) s =
      port_signpost_wait_for_with_timeout H m (\<lambda>s. flag (svc s)) evs s' \<and> ready s' \<and> still_waiting flag s s'"
  using assms(2,3,5,7)
proof (induction pre arbitrary: s)
  case Nil
  then show ?case by (intro exI [of _ s]) (simp add: still_waiting_def)
next
  case (Cons ev pre)
  obtain s1 where s1: "api_step H m ev s = Inr s1" "ready s1" "still_waiting flag s s1"
    using traffic_step [OF assms(1) Cons.prems(1) _ assms(4) Cons.prems(3) assms(6)] Cons.prems(2) by auto
  have "ev \<noteq> Timeout" using Cons.prems(2) by (auto simp: other_traffic_def)
  moreover obtain s' where "port_signpost_wait_for_with_timeout H m (\<lambda>s. flag (svc s)) (pre @ evs) s1 =
      port_signpost_wait_for_with_timeout H m (\<lambda>s. flag (svc s)) evs s'" "ready s'" "still_waiting flag s1 s'"
    using Cons.IH [OF s1(2)] Cons.prems(2-4) s1(3) by (auto simp: still_waiting_def)
  ultimately show ?case
    using s1(1) Cons.prems(4) still_waiting_trans [OF s1(3)] by (intro exI [of _ s']) simp
qed

section \<open>Services that only note the reply\<close>

lemma wait_timeout_event:
  "\<not> flag s \<Longrightarrow> ev \<noteq> Timeout \<Longrightarrow> api_step H m ev s = Inr s' \<Longrightarrow> flag s' \<Longrightarrow>
   port_signpost_wait_for_with_timeout H m flag (ev # evs) s = Inr (PORT_SUCCESS, s', evs)"
  by (cases evs) simp_all

lemma wait_event:
  "\<not> flag s \<Longrightarrow> api_step H m ev s = Inr s' \<Longrightarrow> flag s' \<Longrightarrow>
   port_signpost_wait_for H m flag (ev # evs) s = Inr (s', evs)"
  by (cases evs) simp_all

text \<open>
  Six of the callbacks only record the result and set the flag their service waits for. Their
  contract is the locale; the services' operations rest on its facts.
\<close>

locale rpc_service =
  fixes cb :: api_cb and flag :: "services \<Rightarrow> bool" and note_result :: "int \<Rightarrow> services \<Rightarrow> services"
  assumes callback: "run_active_callback cb rc s = Inr (upd_svc (note_result rc) s)"
    and flag_set: "flag (note_result rc v)"
    and flag_kept: "flag (v\<lparr>delivered := d\<rparr>) = flag v"
begin

lemma reply_step:
  assumes "mbedtls_ok m" "length iv = MBEDTLS_MAX_IV_LENGTH" "ready s" "length xs \<le> MAX_REPLY"
    and "fr = ResponseFrame \<or> fr = ErrorFrame" "incoming_active_callback s = Some cb"
    and "brings m (module_info s) src sq enc iv (fr, ap, mt, xs) b"
  shows "\<exists>s'. api_step H m (Burst b) s = Inr s'
    \<and> received src (fr, ap, mt, xs) s' \<and> ready s' \<and> svc s' = note_result (int (length xs)) (svc s)
    \<and> incoming_active_callback s' = None \<and> module_info s' = module_info s"
proof -
  obtain n where n: "api_step H m (Burst b) s
      = andthen (run_active_callback cb (int (length xs)) (s\<lparr>layers := n, incoming_active_callback := None\<rparr>))
          (\<lambda>s'. Inr (signpost_api_start_new_async_recv s'))"
    "received src (fr, ap, mt, xs) (s\<lparr>layers := n, incoming_active_callback := None\<rparr>)"
    "set_up (s\<lparr>layers := n, incoming_active_callback := None\<rparr>)"
    using carried_runs_callback [OF assms] by blast
  let ?s = "upd_svc (note_result (int (length xs))) (s\<lparr>layers := n, incoming_active_callback := None\<rparr>)"
  have su: "set_up ?s" using n(3) by (simp add: set_up_def upd_svc_def)
  have "received src (fr, ap, mt, xs) ?s" using n(2) by (simp add: received_def upd_svc_def)
  then have "received src (fr, ap, mt, xs) (signpost_api_start_new_async_recv ?s)"
    using received_start_recv [OF su] by blast
  then show ?thesis
    using n(1) start_recv_ready [OF su] callback by (simp add: upd_svc_def)
qed

lemma wait_reply:
  assumes "mbedtls_ok m" "length iv = MBEDTLS_MAX_IV_LENGTH" "ready s" "length xs \<le> MAX_REPLY"
    and "fr = ResponseFrame \<or> fr = ErrorFrame" "incoming_active_callback s = Some cb"
    and "brings m (module_info s) src sq enc iv (fr, ap, mt, xs) b" "\<not> flag (svc s)"
  shows "\<exists>s'. port_signpost_wait_for H m (\<lambda>s. flag (svc s)) (Burst b # evs) s = Inr (s', evs)
    \<and> received src (fr, ap, mt, xs) s' \<and> ready s' \<and> svc s' = note_result (int (length xs)) (svc s)
    \<and> incoming_active_callback s' = None \<and> module_info s' = module_info s"
  using reply_step [OF assms(1-7), of H] assms(8) flag_set by (metis (mono_tags, lifting) wait_event)

text \<open>The reply is found behind any other traffic.\<close>

lemma wait_timeout_reply:
  assumes "mbedtls_ok m" "length iv = MBEDTLS_MAX_IV_LENGTH" "ready s" "length xs \<le> MAX_REPLY"
    and "fr = ResponseFrame \<or> fr = ErrorFrame" "incoming_active_callback s = Some cb"
    and "brings m (module_info s) src sq enc iv (fr, ap, mt, xs) b" "\<not> flag (svc s)"
    and "\<forall>ev\<in>set pre. other_traffic m (module_info s) ev" "polite flag H" "api_handlers s \<noteq> None"
  shows "\<exists>s'. port_signpost_wait_for_with_timeout H m (\<lambda>s. flag (svc s)) (pre @ Burst b # evs) s = Inr (PORT_SUCCESS, s', evs)
    \<and> received src (fr, ap, mt, xs) s' \<and> ready s' \<and> (\<exists>v. svc s' = note_result (int (length xs)) v)
    \<and> incoming_active_callback s' = None \<and> module_info s' = module_info s"
proof -
  obtain s1 where s1: "port_signpost_wait_for_with_timeout H m (\<lambda>s. flag (svc s)) (pre @ Burst b # evs) s =
      port_signpost_wait_for_with_timeout H m (\<lambda>s. flag (svc s)) (Burst b # evs) s1" "ready s1" "still_waiting flag s s1"
    using wait_through_traffic [OF assms(1,3,9,10,11) flag_kept assms(8)] by blast
  have same: "module_info s1 = module_info s" "incoming_active_callback s1 = Some cb" "\<not> flag (svc s1)"
    using s1(3) assms(6,8) by (simp_all add: still_waiting_def)
  obtain s2 where s2: "api_step H m (Burst b) s1 = Inr s2" "received src (fr, ap, mt, xs) s2" "ready s2"
    "svc s2 = note_result (int (length xs)) (svc s1)" "incoming_active_callback s2 = None" "module_info s2 = module_info s1"
    using reply_step [OF assms(1,2) s1(2) assms(4,5) same(2)] assms(7) same(1) by metis
  have "port_signpost_wait_for_with_timeout H m (\<lambda>s. flag (svc s)) (Burst b # evs) s1 = Inr (PORT_SUCCESS, s2, evs)"
    by (rule wait_timeout_event [of "\<lambda>s. flag (svc s)", OF same(3) _ s2(1)]) (simp_all add: s2(4) flag_set)
  then show ?thesis using s1(1) s2 same(1) by auto
qed

end

interpretation timelocation: rpc_service CbTimelocation timelocation_query_answered
    "\<lambda>rc v. v\<lparr>timelocation_query_answered := True, timelocation_query_result := rc\<rparr>"
  by unfold_locales (simp_all add: run_active_callback_def timelocation_callback_def)

interpretation networking: rpc_service CbNetworking networking_ready
    "\<lambda>rc v. v\<lparr>networking_ready := True, networking_result := rc \<noteq> 0\<rparr>"
  by unfold_locales (simp_all add: run_active_callback_def signpost_networking_callback_def)

interpretation energy_report: rpc_service CbEnergyReport energy_report_received
    "\<lambda>rc v. v\<lparr>energy_report_result := rc, energy_report_received := True\<rparr>"
  by unfold_locales (simp_all add: run_active_callback_def signpost_energy_report_callback_def)

interpretation energy_reset: rpc_service CbEnergyReset energy_reset_received
    "\<lambda>rc v. v\<lparr>energy_reset_result := rc, energy_reset_received := True\<rparr>"
  by unfold_locales (simp_all add: run_active_callback_def signpost_energy_reset_callback_def)

interpretation processing: rpc_service CbProcessing processing_ready "\<lambda>rc v. v\<lparr>processing_ready := True\<rparr>"
  by unfold_locales (simp_all add: run_active_callback_def signpost_processing_callback_def)

interpretation watchdog: rpc_service CbWatchdog watchdog_reply "\<lambda>rc v. v\<lparr>watchdog_reply := True\<rparr>"
  by unfold_locales (simp_all add: run_active_callback_def signpost_watchdog_cb_def)

section \<open>Requests that are answered\<close>

definition bus_clear :: "mbedtls \<Rightarrow> api \<Rightarrow> bool" where
  "bus_clear m s \<longleftrightarrow> mbedtls_ok m \<and> set_up s \<and> wr_rcs (penv s) = []"

lemma set_env_svc [simp]: "penv (upd_svc f s) = penv s" "incoming_active_callback (upd_svc f s) = incoming_active_callback s"
  "module_info (upd_svc f s) = module_info s" "svc (upd_svc f s) = f (svc s)" "layers (upd_svc f s) = layers s"
  "api_handlers (upd_svc f s) = api_handlers s"
  by (simp_all add: upd_svc_def)

lemma bus_clear_svc [simp]:
  "bus_clear m (upd_svc f s) = bus_clear m s" "bus_clear m (s\<lparr>incoming_active_callback := cb\<rparr>) = bus_clear m s"
  by (simp_all add: bus_clear_def)

lemma request_sent:
  assumes "bus_clear m s" "length xs < 2 ^ 16 - 64"
  obtains k s1 where "signpost_api_send m dest fr ap mt (length xs) xs s = Inr (int k, s1)" "0 < k"
    "ready s1" "module_info s1 = module_info s" "incoming_active_callback s1 = incoming_active_callback s"
    "svc s1 = svc s" "bus_clear m s1"
    "wr_log (penv s1) = wr_log (penv s) @ map (Pair dest)
        (sent_frames m dest (signpost_api_addr_to_key (module_info s)) (fr, ap, mt, xs) (layers s))"
proof -
  have c: "mbedtls_ok m" "set_up s" "wr_rcs (penv s) = []" using assms(1) by (simp_all add: bus_clear_def)
  let ?w = "sent_wire m dest (signpost_api_addr_to_key (module_info s)) (fr, ap, mt, xs) (layers s)"
  from api_send_ok [OF c(1,3) assms(2) c(2), of dest fr ap mt] obtain s1 where
    s1: "signpost_api_send m dest fr ap mt (length xs) xs s = Inr (int (length ?w), s1)"
    "wr_log (penv s1) = wr_log (penv s) @ map (Pair dest)
        (sent_frames m dest (signpost_api_addr_to_key (module_info s)) (fr, ap, mt, xs) (layers s))"
    "wr_rcs (penv s1) = []" by blast
  note r = api_send_ready [OF c(2) s1(1)]
  have "0 < length ?w" using c(1) by simp
  moreover have "bus_clear m s1" using c(1) s1(3) r(1) by (simp add: bus_clear_def ready_set_up)
  ultimately show ?thesis using that [OF s1(1)] r s1(2) by blast
qed

lemma timelocation_sync_reply:
  assumes "bus_clear m s" "length iv = MBEDTLS_MAX_IV_LENGTH" "incoming_active_callback s = None"
    and "length xs \<le> MAX_REPLY" "fr = ResponseFrame \<or> fr = ErrorFrame"
    and "brings m (module_info s) src sq enc iv (fr, ap, mt', xs) b"
    and "\<forall>ev\<in>set pre. other_traffic m (module_info s) ev" "polite timelocation_query_answered H" "api_handlers s \<noteq> None"
  shows "\<exists>s'. signpost_timelocation_sync H m mt (pre @ Burst b # evs) s
        = Inr (if mt' = mt then int (length xs) else PORT_FAIL, s', evs)
    \<and> received src (fr, ap, mt', xs) s' \<and> ready s' \<and> incoming_active_callback s' = None"
proof -
  let ?s0 = "set_active (Some CbTimelocation) (upd_svc (\<lambda>v. v\<lparr>timelocation_query_answered := False\<rparr>) s)"
  have c: "bus_clear m ?s0" "mbedtls_ok m" using assms(1) by (simp_all add: bus_clear_def)
  obtain k s1 where s1: "signpost_api_send m ModuleAddressController CommandFrame TimeLocationApiType mt (length ([] :: bytes)) []
        ?s0 = Inr (int k, s1)" "ready s1" "module_info s1 = module_info s"
    "incoming_active_callback s1 = Some CbTimelocation" "\<not> timelocation_query_answered (svc s1)"
    by (rule request_sent [OF c(1), of "[]" ModuleAddressController CommandFrame TimeLocationApiType mt]) auto
  have "set_up ?s0" using c(1) by (simp add: bus_clear_def)
  from api_send_ready(3) [OF this s1(1)] have "api_handlers s1 \<noteq> None" using assms(9) by simp
  from timelocation.wait_timeout_reply [OF c(2) assms(2) s1(2) assms(4,5) s1(4) _ s1(5) _ assms(8) this] assms(6,7)
  obtain s2 v where s2: "port_signpost_wait_for_with_timeout H m (\<lambda>s. timelocation_query_answered (svc s)) (pre @ Burst b # evs) s1
      = Inr (PORT_SUCCESS, s2, evs)"
    "received src (fr, ap, mt', xs) s2" "ready s2" "timelocation_query_result (svc s2) = int (length xs)"
    "incoming_active_callback s2 = None"
    unfolding s1(3) by fastforce
  have "message_type (cells s2) = mt'" using s2(2) by (simp add: received_def)
  then show ?thesis
    using assms(3) s1(1) s2 by (auto simp: signpost_timelocation_sync_def Let_def PORT_SUCCESS_def)
qed

section \<open>Properties\<close>

text \<open>C14: a time request, made with no other request pending on a bus whose sends succeed, whose first reply is an eight-byte time message gives the number of
  satellites (or \<open>PORT_ENOSAT\<close> below three), writes the time of the message, and leaves no
  callback registered, so that the next request is accepted. Before the reply, isolations of the module may begin and end, the bus may report
  errors, and notifications and commands may arrive, for handlers that return and leave the request alone; between the
  packets of the reply (and of each of those messages) there may be bus errors and packets of other messages.\<close>

theorem get_time_gives_reply:
  assumes "bus_clear m s" "length iv = MBEDTLS_MAX_IV_LENGTH" "incoming_active_callback s = None" "length msg = TIME_LEN"
    and "brings m (module_info s) src sq enc iv (ResponseFrame, TimeLocationApiType, TimeLocationGetTimeMessage, msg) b"
    and "\<forall>ev\<in>set pre. other_traffic m (module_info s) ev" "polite timelocation_query_answered H" "api_handlers s \<noteq> None"
  shows "\<exists>s'. signpost_timelocation_get_time mktime H m False (pre @ Burst b # evs) s
    = Inr ((if unat (msg ! 7) < 3 then PORT_ENOSAT else int (unat (msg ! 7)), Some (mktime (tm_of_message msg))), s', evs)
    \<and> ready s' \<and> incoming_active_callback s' = None"
proof -
  have len: "length msg \<le> MAX_REPLY"
    using assms(4) by (simp add: TIME_LEN_def MAX_REPLY_def INCOMING_MESSAGE_BUFFER_LENGTH_def)
  from timelocation_sync_reply [OF assms(1-3) len disjI1 [OF refl] assms(5-8), of TimeLocationGetTimeMessage evs] obtain s' where
    s': "signpost_timelocation_sync H m TimeLocationGetTimeMessage (pre @ Burst b # evs) s = Inr (int (length msg), s', evs)"
    "received src (ResponseFrame, TimeLocationApiType, TimeLocationGetTimeMessage, msg) s'" "ready s'"
    "incoming_active_callback s' = None" by auto
  have "message_length (cells s') = TIME_LEN" using s'(2) assms(4) by (simp add: received_def)
  moreover have "incoming_bytes s' 0 TIME_LEN = Inr msg"
    using incoming_bytes_received [OF s'(2), of 0 TIME_LEN] assms(4) by simp
  ultimately show ?thesis
    using s' assms(4) by (simp add: signpost_timelocation_get_time_def Let_def TIME_LEN_def)
qed

text \<open>A node that has been set up, for the witnesses.\<close>

definition toy_node :: api where
  "toy_node = snd (signpost_initialization_common toy_tls 0x31 api_boot)"

lemma toy_tls_seeds [simp]: "entropy_add_source toy_tls = 0" "ctr_drbg_seed toy_tls = 0"
  by (simp_all add: toy_tls_def)

lemma toy_node_clear: "bus_clear toy_tls toy_node" "incoming_active_callback toy_node = None"
  by (simp_all add: toy_node_def bus_clear_def toy_tls_ok signpost_initialization_common_def signbus_io_init_def
      signpost_entropy_init_def port_pin_def api_boot_def net_boot_def clean_env_def PORT_SUCCESS_def
      upd_module_def set_up_def module_wf_def cleared_table_def module_zero_def io_wf_def io_boot_def
      prot_boot_def signbus_protocol_setup_async_def NUM_MODULES_def)

lemma toy_node_free: "energy_cb (svc toy_node) = None"
  by (simp add: toy_node_def signpost_initialization_common_def signbus_io_init_def signpost_entropy_init_def
      port_pin_def api_boot_def net_boot_def clean_env_def PORT_SUCCESS_def upd_module_def services_boot_def)

lemma toy_node_memory: "malloc_rcs (penv toy_node) = []"
  by (simp add: toy_node_def signpost_initialization_common_def signbus_io_init_def signpost_entropy_init_def
      port_pin_def api_boot_def net_boot_def clean_env_def PORT_SUCCESS_def upd_module_def)

text \<open>The reply comes after the start of an isolation, a bus error and a notification to nobody.\<close>

theorem get_time_gives_reply_witness:
  "\<exists>s'. signpost_timelocation_get_time tm_year (\<lambda>_ _ _ _ _ _ _ s. Inr s) toy_tls False
      ([ModInFalling, Burst [SlaveError (-1)],
        Burst (reply_burst toy_tls (module_info toy_node) 0x22 4 False (replicate 16 0) (NotificationFrame, NetworkingApiType, 1, [7]))] @
       [Burst (reply_burst toy_tls (module_info toy_node) 0x20 9 False (replicate 16 0)
        (ResponseFrame, TimeLocationApiType, TimeLocationGetTimeMessage, [0xE1, 0x07, 6, 1, 12, 30, 59, 5]))])
      (toy_node\<lparr>api_handlers := Some []\<rparr>)
    = Inr ((5, Some 117), s', [])"
proof -
  let ?s = "toy_node\<lparr>api_handlers := Some []\<rparr>"
  let ?x = "(ResponseFrame, TimeLocationApiType, TimeLocationGetTimeMessage, [0xE1, 0x07, 6, 1, 12, 30, 59, 5])"
  let ?note = "Burst (reply_burst toy_tls (module_info toy_node) 0x22 4 False (replicate 16 0) (NotificationFrame, NetworkingApiType, 1, [7]))"
  have s: "bus_clear toy_tls ?s" "incoming_active_callback ?s = None"
    using toy_node_clear by (simp_all add: bus_clear_def set_up_def)
  have iv: "length (replicate 16 0 :: bytes) = MBEDTLS_MAX_IV_LENGTH" by (simp add: MBEDTLS_MAX_IV_LENGTH_def)
  have reply: "brings toy_tls (module_info ?s) 0x20 9 False (replicate 16 0) ?x (reply_burst toy_tls (module_info toy_node) 0x20 9 False (replicate 16 0) ?x)"
    using reply_burst_brings [OF toy_tls_ok, of "module_info toy_node" "0x20" 9 False "replicate 16 0" ?x] by simp
  have "other_traffic toy_tls (module_info ?s) ?note"
    unfolding other_traffic_def api_event.case
    by (intro disjI2, rule exI [of _ "0x22"], rule exI [of _ 4], rule exI [of _ False], rule exI [of _ "replicate 16 0"],
        rule exI [of _ NotificationFrame], rule exI [of _ NetworkingApiType], rule exI [of _ 1], rule exI [of _ "[7]"])
      (use iv reply_burst_brings [OF toy_tls_ok, of "module_info toy_node" "0x22" 4 False "replicate 16 0" "(NotificationFrame, NetworkingApiType, 1, [7])"]
        in \<open>simp add: frame_types MAX_REPLY_def INCOMING_MESSAGE_BUFFER_LENGTH_def\<close>)
  then have pre: "\<forall>ev\<in>set [ModInFalling, Burst [SlaveError (-1)], ?note]. other_traffic toy_tls (module_info ?s) ev"
    by (simp add: other_traffic_def)
  have "polite timelocation_query_answered (\<lambda>_ _ _ _ _ _ _ s. Inr s)" by (simp add: polite_def)
  from get_time_gives_reply [OF s(1) iv s(2) _ reply pre this, of tm_year "[]"] show ?thesis
    by (auto simp: TIME_LEN_def tm_of_message_def of_le16_def)
qed

text \<open>An energy query that is answered with a 14-byte report fills the caller's structure with
  it and returns 14; both callbacks are free again.\<close>

theorem energy_query_gives_reply:
  assumes "bus_clear m s" "length iv = MBEDTLS_MAX_IV_LENGTH" "incoming_active_callback s = None"
    and "energy_cb (svc s) = None" "length msg = ENERGY_INFORMATION_LEN" "length energy = ENERGY_INFORMATION_LEN"
  shows "\<exists>s'. signpost_energy_query H m energy
      (Burst (reply_burst m (module_info s) src sq enc iv (ResponseFrame, EnergyApiType, EnergyQueryMessage, msg)) # evs) s
      = Inr (14, s', evs)
    \<and> energy_mem (svc s') = msg \<and> ready s' \<and> incoming_active_callback s' = None \<and> energy_cb (svc s') = None"
proof -
  let ?s0 = "set_active (Some CbEnergyQuery) (upd_svc (\<lambda>v. v\<lparr>energy_cb_data := True, energy_mem := energy,
      energy_cb := Some EnergySyncCallback\<rparr>) (upd_svc (\<lambda>v. v\<lparr>energy_query_ready := False\<rparr>) s))"
  have c: "bus_clear m ?s0" "mbedtls_ok m" using assms(1) by (simp_all add: bus_clear_def)
  obtain k s1 where s1: "signpost_api_send m ModuleAddressController CommandFrame EnergyApiType EnergyQueryMessage
        (length ([] :: bytes)) [] ?s0 = Inr (int k, s1)" "ready s1" "module_info s1 = module_info s"
    "incoming_active_callback s1 = Some CbEnergyQuery" "svc s1 = svc ?s0"
    by (rule request_sent [OF c(1), of "[]" ModuleAddressController CommandFrame EnergyApiType EnergyQueryMessage]) auto
  have len: "length msg \<le> MAX_REPLY"
    using assms(5) by (simp add: ENERGY_INFORMATION_LEN_def MAX_REPLY_def INCOMING_MESSAGE_BUFFER_LENGTH_def)
  let ?ev = "Burst (reply_burst m (module_info s) src sq enc iv (ResponseFrame, EnergyApiType, EnergyQueryMessage, msg))"
  from reply_runs_callback [OF c(2) assms(2) s1(2) len disjI1 [OF refl] s1(4), of H src sq enc EnergyApiType EnergyQueryMessage]
  obtain n where n: "api_step H m ?ev s1 = andthen (run_active_callback CbEnergyQuery (int (length msg))
        (s1\<lparr>layers := n, incoming_active_callback := None\<rparr>)) (\<lambda>s'. Inr (signpost_api_start_new_async_recv s'))"
    and rec: "received src (ResponseFrame, EnergyApiType, EnergyQueryMessage, msg) (s1\<lparr>layers := n, incoming_active_callback := None\<rparr>)"
    and su: "set_up (s1\<lparr>layers := n, incoming_active_callback := None\<rparr>)"
    unfolding s1(3) by blast
  let ?s2 = "s1\<lparr>layers := n, incoming_active_callback := None\<rparr>"
  define v where "v = (svc s1)\<lparr>energy_mem := msg, energy_cb_data := False, energy_cb := None,
      energy_query_ready := True, energy_query_result := 14\<rparr>"
  have "incoming_bytes ?s2 0 14 = Inr msg"
    using incoming_bytes_received [OF rec, of 0 14] assms(5) by (simp add: ENERGY_INFORMATION_LEN_def)
  then have run: "run_active_callback CbEnergyQuery (int (length msg)) ?s2 = Inr (?s2\<lparr>svc := v\<rparr>)"
    using assms(5,6) s1(5)
    by (simp add: run_active_callback_def energy_query_async_callback_def ENERGY_INFORMATION_LEN_def memcpy_at_def
        overwrite_0 energy_query_sync_callback_def upd_svc_def v_def)
  let ?s3 = "signpost_api_start_new_async_recv (?s2\<lparr>svc := v\<rparr>)"
  have step: "api_step H m ?ev s1 = Inr ?s3" using n run by simp
  have "ready ?s3" by (rule start_recv_ready) (use su in simp)
  moreover have "port_signpost_wait_for_with_timeout H m (\<lambda>s. energy_query_ready (svc s)) (?ev # evs) s1
      = Inr (PORT_SUCCESS, ?s3, evs)"
    by (rule wait_timeout_event [OF _ _ step]) (simp_all add: s1(5) v_def)
  ultimately show ?thesis
    using assms(3,4) s1(1)
    by (auto simp: signpost_energy_query_def signpost_energy_query_async_def PORT_SUCCESS_def v_def)
qed

theorem energy_query_gives_reply_witness:
  "\<exists>s'. signpost_energy_query (\<lambda>_ _ _ _ _ _ _ s. Inr s) toy_tls (replicate 14 0)
      [Burst (reply_burst toy_tls (module_info toy_node) 0x20 9 False (replicate 16 0)
        (ResponseFrame, EnergyApiType, EnergyQueryMessage, replicate 14 7))] toy_node = Inr (14, s', [])
    \<and> energy_mem (svc s') = replicate 14 7"
proof -
  from energy_query_gives_reply [OF toy_node_clear(1) _ toy_node_clear(2) toy_node_free, of "replicate 16 0" "replicate 14 7"
      "replicate 14 0" "\<lambda>_ _ _ _ _ _ _ s. Inr s" "0x20" 9 False "[]"]
  show ?thesis by (auto simp: MBEDTLS_MAX_IV_LENGTH_def ENERGY_INFORMATION_LEN_def)
qed

text \<open>An energy query that could not be sent leaves nothing behind: the two registrations it
  made are taken back, so that a later query is not refused.\<close>

theorem failed_energy_query_leaves_no_callback:
  assumes "set_up s" "incoming_active_callback s = None" "energy_cb (svc s) = None"
    and "signpost_energy_query_async m energy cb s = Inr (rc, s')" "rc \<noteq> PORT_SUCCESS"
  shows "incoming_active_callback s' = None \<and> energy_cb (svc s') = None \<and> \<not> energy_cb_data (svc s')"
  using assms(2-5) by (auto simp: signpost_energy_query_async_def Let_def andthen_Inr_iff split: if_splits)

theorem failed_energy_query_leaves_no_callback_witness:
  "\<exists>rc s'. signpost_energy_query_async toy_tls (replicate 14 0) EnergySyncCallback
       (set_env ((penv toy_node)\<lparr>wr_rcs := [-100]\<rparr>) toy_node) = Inr (rc, s')
     \<and> rc = -100 \<and> incoming_active_callback s' = None \<and> energy_cb (svc s') = None"
proof -
  let ?s = "set_env ((penv toy_node)\<lparr>wr_rcs := [-100]\<rparr>) toy_node"
  let ?reg = "set_active (Some CbEnergyQuery) (upd_svc (\<lambda>v. v\<lparr>energy_cb_data := True, energy_mem := replicate 14 0,
      energy_cb := Some EnergySyncCallback\<rparr>) ?s)"
  have su: "set_up ?s" "incoming_active_callback ?s = None" "energy_cb (svc ?s) = None"
  proof -
    show "set_up ?s" using toy_node_clear(1) by (simp add: bus_clear_def)
    show "incoming_active_callback ?s = None" using toy_node_clear(2) by (simp add: set_env_def)
    show "energy_cb (svc ?s) = None" using toy_node_free by (simp add: set_env_def)
  qed
  obtain s1 where "signpost_api_send toy_tls ModuleAddressController CommandFrame EnergyApiType EnergyQueryMessage
      (length ([] :: bytes)) [] ?reg = Inr (-100, s1)"
    using api_send_fail [OF toy_tls_ok, of "[]" ?reg "-100" "[]" ModuleAddressController CommandFrame EnergyApiType EnergyQueryMessage]
    by (auto simp: set_env_def)
  then obtain s' where r: "signpost_energy_query_async toy_tls (replicate 14 0) EnergySyncCallback ?s = Inr (-100, s')"
    using su by (simp add: signpost_energy_query_async_def Let_def)
  from failed_energy_query_leaves_no_callback [OF su r] r show ?thesis by (auto simp: PORT_SUCCESS_def)
qed

text \<open>A scan of the storage that was sent never returns \<open>PORT_SUCCESS\<close>: the test after the wait
  looks at the result of the send, which is the number of bytes on the bus.\<close>

theorem storage_scan_never_succeeds:
  assumes "bus_clear m s" "incoming_active_callback s = None"
    and "signpost_storage_scan H m recs n evs s = Inr (rc, s', evs')"
  shows "0 < rc \<and> incoming_active_callback s' = None"
proof -
  let ?s0 = "set_active (Some CbStorageScan) (upd_svc (\<lambda>v. v\<lparr>storage_ready := False, storage_result := False,
      callback_record := True, record_mem := recs, callback_length := True, length_mem := n\<rparr>) s)"
  have c: "bus_clear m ?s0" using assms(1) by simp
  obtain k s1 where "signpost_api_send m ModuleAddressStorage CommandFrame StorageApiType StorageScanMessage
        (length (le32 (word_of_nat n))) (le32 (word_of_nat n)) ?s0 = Inr (int k, s1)" "0 < k"
    by (rule request_sent [OF c, of "le32 (word_of_nat n)" ModuleAddressStorage CommandFrame StorageApiType StorageScanMessage]) auto
  then show ?thesis
    using assms(2,3) by (auto simp: signpost_storage_scan_def Let_def PORT_SUCCESS_def andthen_Inr_iff split: prod.splits if_splits)
qed

theorem storage_scan_never_succeeds_witness:
  "\<exists>rc s' evs'. signpost_storage_scan (\<lambda>_ _ _ _ _ _ _ s. Inr s) toy_tls (replicate 44 0) 1 [Timeout] toy_node = Inr (rc, s', evs')
     \<and> 0 < rc \<and> incoming_active_callback s' = None"
proof -
  let ?s0 = "set_active (Some CbStorageScan) (upd_svc (\<lambda>v. v\<lparr>storage_ready := False, storage_result := False,
      callback_record := True, record_mem := replicate 44 0, callback_length := True, length_mem := 1\<rparr>) toy_node)"
  have c: "bus_clear toy_tls ?s0" using toy_node_clear by simp
  obtain k s1 where "signpost_api_send toy_tls ModuleAddressStorage CommandFrame StorageApiType StorageScanMessage
        (length (le32 1)) (le32 1) ?s0 = Inr (int k, s1)" "\<not> storage_ready (svc s1)" "0 < k"
    by (rule request_sent [OF c, of "le32 1" ModuleAddressStorage CommandFrame StorageApiType StorageScanMessage]) auto
  then obtain rc s' evs' where r: "signpost_storage_scan (\<lambda>_ _ _ _ _ _ _ s. Inr s) toy_tls (replicate 44 0) 1 [Timeout] toy_node
      = Inr (rc, s', evs')"
    using toy_node_clear(2) by (simp add: signpost_storage_scan_def Let_def PORT_SUCCESS_def)
  from storage_scan_never_succeeds [OF toy_node_clear r] r show ?thesis by blast
qed

end
