(* ===== verification/Signpost_Boot.thy ===== *)
theory Signpost_Boot
  imports Signpost_Rpc
begin

text \<open>
  The initialisation of a module: what one pass of the loop can do, that the loop ends only when the
  controller has answered, and the module table a module gets from the controller.
\<close>

section \<open>Waiting without a message\<close>

fun is_message :: "api_event \<Rightarrow> bool" where
  "is_message (Burst evs) = True"
| "is_message ev = False"

abbreviation quiet :: "api_event list \<Rightarrow> bool" where
  "quiet evs \<equiv> list_all (\<lambda>ev. \<not> is_message ev) evs"

text \<open>The statics an interrupt can change.\<close>

definition same_but_isolation :: "api \<Rightarrow> api \<Rightarrow> bool" where
  "same_but_isolation s s' \<longleftrightarrow> (init_state s \<noteq> Done \<longrightarrow> init_state s' \<noteq> Done)
     \<and> (\<exists>i b r. s' = s\<lparr>init_state := i, is_isolated := b, request_isolation_complete := r\<rparr>)"

lemma same_but_isolation_refl [simp]: "same_but_isolation s s"
proof -
  have "s = s\<lparr>init_state := init_state s, is_isolated := is_isolated s,
      request_isolation_complete := request_isolation_complete s\<rparr>" by simp
  then show ?thesis unfolding same_but_isolation_def by blast
qed

lemma same_but_isolation_trans:
  assumes "same_but_isolation s1 s2" "same_but_isolation s2 s3"
  shows "same_but_isolation s1 s3"
proof -
  obtain i b r i' b' r' where "s2 = s1\<lparr>init_state := i, is_isolated := b, request_isolation_complete := r\<rparr>"
    "s3 = s2\<lparr>init_state := i', is_isolated := b', request_isolation_complete := r'\<rparr>"
    using assms unfolding same_but_isolation_def by blast
  then have "s3 = s1\<lparr>init_state := i', is_isolated := b', request_isolation_complete := r'\<rparr>" by simp
  then show ?thesis using assms unfolding same_but_isolation_def by blast
qed

lemma interrupt_step:
  assumes "\<not> is_message ev"
  shows "\<exists>s'. api_step H m ev s = Inr s' \<and> same_but_isolation s s'"
proof (cases ev)
  case ModInFalling
  have "same_but_isolation s (signpost_initialization_isolation_callback s)"
    unfolding same_but_isolation_def
  proof
    show "init_state s \<noteq> Done \<longrightarrow> init_state (signpost_initialization_isolation_callback s) \<noteq> Done"
      by (simp add: signpost_initialization_isolation_callback_def Let_def)
    have "signpost_initialization_isolation_callback s = s\<lparr>init_state := (if init_state s = RequestIsolation then Declare else init_state s),
        is_isolated := True, request_isolation_complete := (init_state s = RequestIsolation \<or> request_isolation_complete s)\<rparr>"
      by (simp add: signpost_initialization_isolation_callback_def)
    then show "\<exists>i b r. signpost_initialization_isolation_callback s
        = s\<lparr>init_state := i, is_isolated := b, request_isolation_complete := r\<rparr>" by blast
  qed
  then show ?thesis by (simp add: ModInFalling)
next
  case ModInRising
  have "same_but_isolation s (signpost_initialization_lost_isolation_callback s)"
    unfolding same_but_isolation_def
  proof
    show "init_state s \<noteq> Done \<longrightarrow> init_state (signpost_initialization_lost_isolation_callback s) \<noteq> Done"
      by (simp add: signpost_initialization_lost_isolation_callback_def Let_def)
    have "signpost_initialization_lost_isolation_callback s = s\<lparr>init_state := (if init_state s \<noteq> Done then RequestIsolation else Done),
        is_isolated := False, request_isolation_complete := request_isolation_complete s\<rparr>"
      by (simp add: signpost_initialization_lost_isolation_callback_def)
    then show "\<exists>i b r. signpost_initialization_lost_isolation_callback s
        = s\<lparr>init_state := i, is_isolated := b, request_isolation_complete := r\<rparr>" by blast
  qed
  then show ?thesis by (simp add: ModInRising)
qed (use assms in simp_all)

lemma wait_quiet:
  "quiet evs \<Longrightarrow> \<exists>rc s' evs'. port_signpost_wait_for_with_timeout H m flag evs s = Inr (rc, s', evs')
     \<and> same_but_isolation s s' \<and> quiet evs' \<and> (rc = PORT_SUCCESS \<longleftrightarrow> flag s')"
proof (induction evs arbitrary: s)
  case (Cons ev evs)
  obtain s1 where s1: "api_step H m ev s = Inr s1" "same_but_isolation s s1"
    using interrupt_step Cons.prems by (metis list.pred_inject(2))
  from Cons.IH [of s1] Cons.prems obtain rc s' evs' where
    "port_signpost_wait_for_with_timeout H m flag evs s1 = Inr (rc, s', evs')"
    "same_but_isolation s1 s'" "quiet evs'" "(rc = PORT_SUCCESS) = flag s'" by auto
  with s1 Cons.prems show ?case
    using same_but_isolation_trans [OF s1(2)] by (auto simp: PORT_SUCCESS_def PORT_FAIL_def)
qed (simp add: PORT_SUCCESS_def PORT_FAIL_def)

lemma api_send_take:
  "len \<le> length msg \<Longrightarrow> signpost_api_send m dest fr ap mt len msg s = signpost_api_send m dest fr ap mt len (take len msg) s"
  by (simp add: signpost_api_send_def net_send_def signbus_app_send_def read_at_Inr)

lemma api_send_defined:
  assumes "mbedtls_ok m" "len \<le> length msg" "len < 2 ^ 16 - 64"
  shows "\<exists>rc s'. signpost_api_send m dest fr ap mt len msg s = Inr (rc, s')"
proof -
  have "\<exists>rc n'. net_send m dest (signpost_api_addr_to_key (module_info s)) fr ap mt len (take len msg) (layers s) = Inr (rc, n')"
    using net_send_write_all [OF assms(1), of "take len msg"] assms(2,3) by (simp add: Let_def split: prod.split)
  then show ?thesis
    unfolding api_send_take [OF assms(2)] by (auto simp: signpost_api_send_def)
qed

lemma declare_controller_defined:
  assumes "mbedtls_ok m" "set_up s"
  obtains rc s' where "signpost_initialization_declare_controller m s = Inr (rc, s')" "set_up s'"
    "init_state s' = init_state s" "declare_controller_complete s' = declare_controller_complete s"
proof (cases "incoming_active_callback s \<noteq> None \<and> incoming_active_callback s \<noteq> Some CbDeclare")
  case True
  then show ?thesis using assms(2) that [of PORT_EBUSY s] by (simp add: signpost_initialization_declare_controller_def)
next
  case False
  let ?s = "s\<lparr>incoming_active_callback := Some CbDeclare\<rparr>" and ?name = "self_name (module_info s)"
  have "strnlen ?name NAME_LEN \<le> length ?name" "strnlen ?name NAME_LEN \<le> 16"
    using strnlen_le [of ?name NAME_LEN] by (simp_all add: strnlen_le_length NAME_LEN_def)
  then obtain rc s' where s': "signpost_api_send m ModuleAddressController CommandFrame InitializationApiType
      InitializationDeclare (strnlen ?name NAME_LEN) ?name ?s = Inr (rc, s')"
    using api_send_defined [OF assms(1), of "strnlen ?name NAME_LEN" ?name] by fastforce
  have "set_up ?s" using assms(2) by simp
  note r = api_send_ready [OF this s']
  have "signpost_initialization_declare_controller m s = Inr (if rc \<ge> PORT_SUCCESS then PORT_SUCCESS else PORT_FAIL, s')"
    using False s' by (auto simp: signpost_initialization_declare_controller_def)
  then show ?thesis using that ready_set_up [OF r(1)] r by simp
qed


lemma common_same [simp]:
  "init_state (snd (signpost_initialization_common m a s)) = init_state s"
  "incoming_active_callback (snd (signpost_initialization_common m a s)) = incoming_active_callback s"
  by (simp_all add: signpost_initialization_common_def upd_module_def Let_def split: prod.split)

lemma cleared_table_wf: "module_wf mi \<Longrightarrow> module_wf (cleared_table mi)"
  by (auto simp: module_wf_def cleared_table_def NUM_MODULES_def)

lemma common_set_up:
  assumes "set_up s"
  shows "set_up (snd (signpost_initialization_common m a s))"
proof -
  obtain rc e where e: "signpost_entropy_init m (snd (port_pin (InitI2c a) (penv s))) = (rc, e)" by fastforce
  let ?s1 = "s\<lparr>layers := (layers s)\<lparr>n_io := (n_io (layers s))\<lparr>this_device_address := a\<rparr>, n_env := e\<rparr>\<rparr>"
  have s1: "set_up ?s1"
    using assms by (simp add: set_up_def)
  have "set_up (upd_module cleared_table (s1\<lparr>layers := (layers s1)\<lparr>n_prot :=
      signbus_protocol_setup_async (Some (replicate INCOMING_MESSAGE_BUFFER_LENGTH 0)) (n_prot (layers s1))\<rparr>\<rparr>))"
    if "set_up s1" for s1
    using that cleared_table_wf by (simp add: set_up_def upd_module_def signbus_protocol_setup_async_def)
  from this [OF s1] s1 show ?thesis
    by (simp add: signpost_initialization_common_def signbus_io_init_def e Let_def)
qed

lemma back_off_set_up [simp]:
  "set_up (back_off s) = set_up s" "init_state (back_off s) = RequestIsolation"
  by (simp_all add: back_off_def api_delay_def api_pin_def set_env_def set_up_def split: prod.split)

lemma api_pin_same [simp]:
  "set_up (snd (api_pin op s)) = set_up s" "init_state (snd (api_pin op s)) = init_state s"
  "is_isolated (snd (api_pin op s)) = is_isolated s"
  "declare_controller_complete (snd (api_pin op s)) = declare_controller_complete s"
  "incoming_active_callback (snd (api_pin op s)) = incoming_active_callback s"
  "module_info (snd (api_pin op s)) = module_info s"
  "set_up (api_delay ms s) = set_up s" "init_state (api_delay ms s) = init_state s"
  "is_isolated (api_delay ms s) = is_isolated s"
  "declare_controller_complete (api_delay ms s) = declare_controller_complete s"
  "incoming_active_callback (api_delay ms s) = incoming_active_callback s"
  "module_info (api_delay ms s) = module_info s"
  by (simp_all add: api_pin_def api_delay_def set_env_def set_up_def split: prod.split)

lemma api_pin_log: "pin_log (penv (snd (api_pin op s))) = pin_log (penv s) @ [op]"
  by (simp add: api_pin_def port_pin_def set_env_def split: prod.split)

lemma api_pinD:
  "api_pin op s = (rc, s') \<Longrightarrow> set_up s' = set_up s \<and> init_state s' = init_state s
     \<and> incoming_active_callback s' = incoming_active_callback s \<and> module_info s' = module_info s"
  using api_pin_same(1,2,5,6) [of op s] by simp

lemma same_but_isolationD:
  assumes "same_but_isolation s s'"
  shows "set_up s' = set_up s" "declare_controller_complete s' = declare_controller_complete s"
    "module_info s' = module_info s" "incoming_active_callback s' = incoming_active_callback s"
    "init_state s \<noteq> Done \<Longrightarrow> init_state s' \<noteq> Done"
  using assms by (auto simp: same_but_isolation_def)

lemma request_isolation_same:
  assumes "signpost_initialization_request_isolation s = (rc, s')"
  shows "set_up s' = set_up s" "init_state s' = init_state s"
    "incoming_active_callback s' = incoming_active_callback s" "module_info s' = module_info s"
  using assms
  by (auto simp: signpost_initialization_request_isolation_def split: prod.splits if_splits dest!: api_pinD)

text \<open>A pass with no message among the coming events: the module goes on trying.\<close>

lemma request_pass_quiet:
  assumes "set_up s" "init_state s \<noteq> Done" "quiet evs"
  shows "\<exists>s' evs'. request_pass H m evs s = Inr (None, s', evs') \<and> set_up s' \<and> init_state s' \<noteq> Done \<and> quiet evs'"
proof -
  let ?s = "s\<lparr>request_isolation_complete := False\<rparr>"
  obtain rc s1 where s1: "signpost_initialization_request_isolation ?s = (rc, s1)" by fastforce
  note r = request_isolation_same [OF s1]
  obtain rc2 s2 evs' where w: "port_signpost_wait_for_with_timeout H m request_isolation_complete evs s1 = Inr (rc2, s2, evs')"
    "same_but_isolation s1 s2" "quiet evs'"
    using wait_quiet [OF assms(3)] by blast
  show ?thesis
    using assms r w(1,3) same_but_isolationD [OF w(2)] by (auto simp: request_pass_def s1)
qed

lemma declare_pass_quiet:
  assumes "mbedtls_ok m" "set_up s" "init_state s \<noteq> Done" "quiet evs"
  shows "\<exists>s' evs'. declare_pass H m evs s = Inr (None, s', evs') \<and> set_up s' \<and> init_state s' \<noteq> Done \<and> quiet evs'"
proof -
  let ?s1 = "api_delay 50 s"
  obtain level s2 where l: "(if is_isolated ?s1 then (0, ?s1) else api_pin ModInRead ?s1) = (level, s2)" by fastforce
  have s2: "set_up s2" "init_state s2 \<noteq> Done"
    using l assms(2,3) by (auto split: if_splits dest!: api_pinD)
  let ?s3 = "api_delay 500 (s2\<lparr>declare_controller_complete := False\<rparr>)"
  have "set_up ?s3" using s2 by simp
  then obtain rc s4 where d: "signpost_initialization_declare_controller m ?s3 = Inr (rc, s4)" "set_up s4"
    "init_state s4 = init_state ?s3" "declare_controller_complete s4 = declare_controller_complete ?s3"
    using declare_controller_defined [OF assms(1)] by metis
  obtain rc2 s5 evs' where w: "port_signpost_wait_for_with_timeout H m declare_controller_complete evs s4 = Inr (rc2, s5, evs')"
    "same_but_isolation s4 s5" "quiet evs'" "(rc2 = PORT_SUCCESS) = declare_controller_complete s5"
    using wait_quiet [OF assms(4)] by blast
  note b = same_but_isolationD [OF w(2)]
  have "rc2 \<noteq> PORT_SUCCESS" using w(4) b(2) d(4) by simp
  then show ?thesis
    using s2 d b(1) w(1,3) assms(4) unfolding declare_pass_def Let_def l by simp
qed

lemma init_pass_quiet:
  assumes "mbedtls_ok m" "set_up s" "init_state s \<noteq> Done" "quiet evs"
  shows "\<exists>s' evs'. init_pass H m evs s = Inr (None, s', evs') \<and> set_up s' \<and> init_state s' \<noteq> Done \<and> quiet evs'"
  using request_pass_quiet [OF assms(2-4)] declare_pass_quiet [OF assms] assms(2-4)
  by (cases "init_state s") (simp_all add: init_pass_def)

text \<open>Induction along the passes of the loop.\<close>

lemma init_loop_induct [consumes 1, case_names again return fault]:
  assumes "signpost_initialization_initialize_loop H m evs s = Some r"
    and again: "\<And>evs s s' evs' r. init_pass H m evs s = Inr (None, s', evs') \<Longrightarrow> P evs' s' r \<Longrightarrow> P evs s r"
    and return: "\<And>evs s s' evs' rc. init_pass H m evs s = Inr (Some rc, s', evs') \<Longrightarrow> P evs s (Inr (rc, s', evs'))"
    and fault: "\<And>evs s f. init_pass H m evs s = Inl f \<Longrightarrow> P evs s (Inl f)"
  shows "P evs s r"
proof -
  have "H' = H \<longrightarrow> m' = m \<longrightarrow> P evs s r"
    if "signpost_initialization_initialize_loop H' m' evs s = Some r" for H' m' evs s r
  proof (rule signpost_initialization_initialize_loop.raw_induct [OF _ that], intro impI)
    fix loop H' m' evs s r
    assume ih: "\<And>H' m' evs s r. loop H' m' evs s = Some r \<Longrightarrow> H' = H \<longrightarrow> m' = m \<longrightarrow> P evs s r"
      and b: "(case init_pass H' m' evs s of Inl f \<Rightarrow> Some (Inl f)
        | Inr (Some rc, s', evs') \<Rightarrow> Some (Inr (rc, s', evs')) | Inr (None, s', evs') \<Rightarrow> loop H' m' evs' s') = Some r"
      and "H' = H" "m' = m"
    then show "P evs s r"
      by (cases "init_pass H m evs s") (auto split: prod.splits option.splits intro: again return fault)
  qed
  then show ?thesis using assms(1) by blast
qed

text \<open>C23: without a message from the bus the initialisation never returns, whatever the pins, the
  interrupts and the timers do and whatever the results of the bus writes are.\<close>

theorem init_waits_for_controller:
  assumes "mbedtls_ok m" "set_up s" "init_state s \<noteq> Done" "list_all (\<lambda>ev. \<not> is_message ev) evs"
  shows "signpost_initialization_initialize_loop H m evs s = None"
proof (rule ccontr)
  assume "signpost_initialization_initialize_loop H m evs s \<noteq> None"
  then obtain r where "signpost_initialization_initialize_loop H m evs s = Some r" by blast
  then have "set_up s \<longrightarrow> init_state s \<noteq> Done \<longrightarrow> quiet evs \<longrightarrow> False"
  proof (induction rule: init_loop_induct)
    case (again evs s s' evs' r)
    then show ?case using init_pass_quiet [OF assms(1), of s evs H] by auto
  next
    case (return evs s s' evs' rc)
    then show ?case using init_pass_quiet [OF assms(1), of s evs H] by auto
  next
    case (fault evs s f)
    then show ?case using init_pass_quiet [OF assms(1), of s evs H] by auto
  qed
  then show False using assms by blast
qed

theorem init_waits_for_controller_witness:
  "signpost_initialization_initialize_loop (\<lambda>_ _ _ _ _ _ _ s. Inr s) toy_tls [Timeout, ModInFalling, Timeout] toy_node = None"
  by (rule init_waits_for_controller [OF toy_tls_ok])
    (use toy_node_clear in \<open>simp_all add: bus_clear_def toy_node_def api_boot_def\<close>)

text \<open>When the initialisation returns, it returns \<open>PORT_SUCCESS\<close> in the state \<open>Done\<close>, and its last acts
  released the isolation request and switched the LED off.\<close>

theorem init_returns_done:
  assumes "signpost_initialization_initialize_loop H m evs s = Some (Inr (rc, s', evs'))"
  shows "rc = PORT_SUCCESS \<and> init_state s' = Done \<and> (\<exists>log. pin_log (penv s') = log @ [ModOutSet, LedOff])"
proof -
  define r where "r = (Inr (rc, s', evs') :: fault + int \<times> api \<times> api_event list)"
  have "signpost_initialization_initialize_loop H m evs s = Some r" using assms by (simp add: r_def)
  then have "\<forall>rc s' evs'. r = Inr (rc, s', evs') \<longrightarrow> rc = PORT_SUCCESS \<and> init_state s' = Done
      \<and> (\<exists>log. pin_log (penv s') = log @ [ModOutSet, LedOff])"
  proof (induction rule: init_loop_induct)
    case (return evs s s1 evs1 k)
    then have "init_state s = Done" "k = PORT_SUCCESS" "s1 = snd (api_pin LedOff (snd (api_pin ModOutSet s)))"
      by (auto simp: init_pass_def request_pass_def declare_pass_def Let_def andthen_Inr_iff
          split: init_state.splits prod.splits if_splits)
    then show ?case by (simp add: api_pin_log)
  qed auto
  then show ?thesis by (simp add: r_def)
qed


theorem init_returns_done_witness:
  "\<exists>rc s' evs'. signpost_initialization_initialize_loop (\<lambda>_ _ _ _ _ _ _ s. Inr s) toy_tls [Timeout] (toy_node\<lparr>init_state := Done\<rparr>)
      = Some (Inr (rc, s', evs')) \<and> rc = PORT_SUCCESS \<and> (\<exists>log. pin_log (penv s') = log @ [ModOutSet, LedOff])"
proof -
  obtain rc s' evs' where "signpost_initialization_initialize_loop (\<lambda>_ _ _ _ _ _ _ s. Inr s) toy_tls [Timeout] (toy_node\<lparr>init_state := Done\<rparr>)
      = Some (Inr (rc, s', evs'))"
    by (simp add: signpost_initialization_initialize_loop.simps init_pass_def)
  from init_returns_done [OF this] this show ?thesis by blast
qed

section \<open>An initialisation that is answered\<close>

lemma api_pin_env [simp]:
  "wr_rcs (penv (snd (api_pin op s))) = wr_rcs (penv s)" "wr_rcs (penv (api_delay ms s)) = wr_rcs (penv s)"
  "pin_rcs (penv (api_delay ms s)) = pin_rcs (penv s)"
  by (simp_all add: api_pin_def api_delay_def port_pin_def port_signpost_delay_ms_def set_env_def split: prod.split)

lemma api_pin_ok:
  "pin_rcs (penv s) = [] \<Longrightarrow> fst (api_pin op s) = PORT_SUCCESS \<and> pin_rcs (penv (snd (api_pin op s))) = []"
  by (simp add: api_pin_def port_pin_def set_env_def)

text \<open>What a node keeps while it waits for isolation.\<close>

definition asking :: "mbedtls \<Rightarrow> module_state \<Rightarrow> api \<Rightarrow> bool" where
  "asking m mi s \<longleftrightarrow> bus_clear m s \<and> incoming_active_callback s = None \<and> module_info s = mi"

lemma asking_update [simp]:
  "asking m mi (snd (api_pin op s)) = asking m mi s" "asking m mi (api_delay ms s) = asking m mi s"
  "asking m mi (s\<lparr>request_isolation_complete := b\<rparr>) = asking m mi s"
  "asking m mi (s\<lparr>declare_controller_complete := b\<rparr>) = asking m mi s"
  "asking m mi (s\<lparr>init_state := i\<rparr>) = asking m mi s" "asking m mi (s\<lparr>is_isolated := b\<rparr>) = asking m mi s"
  by (simp_all add: asking_def bus_clear_def)

lemma request_isolation_ok:
  assumes "pin_rcs (penv s) = []"
  shows "signpost_initialization_request_isolation s = (PORT_SUCCESS, snd (api_pin LedOn (snd (api_pin ModOutClear s))))"
    "pin_rcs (penv (snd (api_pin LedOn (snd (api_pin ModOutClear s))))) = []"
  using api_pin_ok [OF assms, of ModOutClear] api_pin_ok [of "snd (api_pin ModOutClear s)" LedOn]
  by (auto simp: signpost_initialization_request_isolation_def split: prod.split)

lemma request_complete_pin [simp]:
  "request_isolation_complete (snd (api_pin op s)) = request_isolation_complete s"
  by (simp add: api_pin_def set_env_def split: prod.split)

lemma request_pass_timeout:
  assumes "asking m mi s" "init_state s = RequestIsolation" "pin_rcs (penv s) = []"
  shows "\<exists>s'. request_pass H m (Timeout # evs) s = Inr (None, s', evs)
    \<and> asking m mi s' \<and> init_state s' = RequestIsolation \<and> pin_rcs (penv s') = []"
proof -
  let ?s = "s\<lparr>request_isolation_complete := False\<rparr>"
  have p: "pin_rcs (penv ?s) = []" using assms(3) by simp
  note r = request_isolation_ok [OF p]
  show ?thesis
    using assms(1,2) r api_pin_ok [OF r(2), of ModOutSet]
    by (simp add: request_pass_def PORT_FAIL_def PORT_SUCCESS_def back_off_def)
qed

lemma request_pass_isolated:
  assumes "asking m mi s" "init_state s = RequestIsolation" "pin_rcs (penv s) = []"
  shows "\<exists>s'. request_pass H m (ModInFalling # evs) s = Inr (None, s', evs)
    \<and> asking m mi s' \<and> init_state s' = Declare \<and> is_isolated s'"
proof -
  let ?s = "s\<lparr>request_isolation_complete := False\<rparr>"
  have p: "pin_rcs (penv ?s) = []" using assms(3) by simp
  note r = request_isolation_ok [OF p]
  let ?s1 = "snd (api_pin LedOn (snd (api_pin ModOutClear ?s)))"
  let ?s2 = "signpost_initialization_isolation_callback ?s1"
  have "port_signpost_wait_for_with_timeout H m request_isolation_complete (ModInFalling # evs) ?s1 = Inr (PORT_SUCCESS, ?s2, evs)"
    by (rule wait_timeout_event) (simp_all add: signpost_initialization_isolation_callback_def assms(2))
  moreover have "asking m mi ?s2" "init_state ?s2 = Declare" "is_isolated ?s2"
    using assms(1,2) by (simp_all add: signpost_initialization_isolation_callback_def)
  ultimately show ?thesis
    using r by (simp add: request_pass_def PORT_FAIL_def PORT_SUCCESS_def)
qed

lemma common_address:
  "i2c_address (module_info (snd (signpost_initialization_common m a s))) = i2c_address (module_info s)"
  "this_device_address (n_io (layers (snd (signpost_initialization_common m a s)))) = a"
  by (simp_all add: signpost_initialization_common_def signbus_io_init_def upd_module_def cleared_table_def Let_def split: prod.split)

lemma declare_sent:
  assumes "asking m mi s"
  obtains s' where "signpost_initialization_declare_controller m s = Inr (PORT_SUCCESS, s')" "ready s'"
    "module_info s' = mi" "incoming_active_callback s' = Some CbDeclare"
    "declare_controller_complete s' = declare_controller_complete s"
proof -
  let ?s = "s\<lparr>incoming_active_callback := Some CbDeclare\<rparr>" and ?name = "self_name (module_info s)"
  let ?xs = "take (strnlen ?name NAME_LEN) ?name"
  have len: "strnlen ?name NAME_LEN \<le> length ?name" "length ?xs = strnlen ?name NAME_LEN" "length ?xs < 2 ^ 16 - 64"
    using strnlen_le [of ?name NAME_LEN] strnlen_le_length [of ?name NAME_LEN] by (auto simp: NAME_LEN_def)
  have "bus_clear m ?s" using assms by (simp add: asking_def)
  from request_sent [OF this len(3)] obtain k s1 where
    s1: "signpost_api_send m ModuleAddressController CommandFrame InitializationApiType InitializationDeclare
      (strnlen ?name NAME_LEN) ?xs ?s = Inr (int k, s1)" unfolding len(2) by metis
  have "set_up ?s" using assms by (simp add: asking_def bus_clear_def)
  note r = api_send_ready [OF this s1]
  have "signpost_initialization_declare_controller m s = Inr (PORT_SUCCESS, s1)"
    using assms s1 api_send_take [OF len(1)]
    by (simp add: signpost_initialization_declare_controller_def asking_def PORT_SUCCESS_def)
  then show ?thesis using that r assms by (simp add: asking_def)
qed

lemma declare_reply_step:
  assumes "mbedtls_ok m" "ready s" "incoming_active_callback s = Some CbDeclare" "length iv = MBEDTLS_MAX_IV_LENGTH"
  shows "\<exists>s'. api_step H m (Burst (reply_burst m (module_info s) src sq enc iv
        (ResponseFrame, InitializationApiType, InitializationDeclare, [new]))) s = Inr s'
    \<and> incoming_bytes s' 0 1 = Inr [new] \<and> init_state s' = Done \<and> declare_controller_complete s'
    \<and> incoming_active_callback s' = None \<and> set_up s' \<and> module_info s' = module_info s"
proof -
  let ?x = "(ResponseFrame, InitializationApiType, InitializationDeclare, [new])"
  have "length [new] \<le> MAX_REPLY" by (simp add: MAX_REPLY_def INCOMING_MESSAGE_BUFFER_LENGTH_def)
  from reply_runs_callback [OF assms(1,4,2) this disjI1 [OF refl] assms(3)] obtain n where
    n: "api_step H m (Burst (reply_burst m (module_info s) src sq enc iv ?x)) s
      = andthen (run_active_callback CbDeclare (int (length [new])) (s\<lparr>layers := n, incoming_active_callback := None\<rparr>))
          (\<lambda>s'. Inr (signpost_api_start_new_async_recv s'))"
    "received src ?x (s\<lparr>layers := n, incoming_active_callback := None\<rparr>)"
    "set_up (s\<lparr>layers := n, incoming_active_callback := None\<rparr>)" by blast
  let ?s = "s\<lparr>layers := n, incoming_active_callback := None, declare_controller_complete := True, init_state := Done\<rparr>"
  have "run_active_callback CbDeclare (int (length [new])) (s\<lparr>layers := n, incoming_active_callback := None\<rparr>) = Inr ?s"
    using n(2) by (simp add: run_active_callback_def signpost_initialization_declare_callback_def received_def PORT_SUCCESS_def)
  moreover have "set_up ?s" using n(3) by (simp add: set_up_def)
  moreover have "received src ?x (signpost_api_start_new_async_recv ?s)"
    using received_start_recv [OF \<open>set_up ?s\<close>] n(2) by (simp add: received_def)
  then have "incoming_bytes (signpost_api_start_new_async_recv ?s) 0 1 = Inr [new]"
    using incoming_bytes_received [of src ResponseFrame InitializationApiType InitializationDeclare "[new]" _ 0 1] by simp
  ultimately show ?thesis
    using n(1) ready_set_up [OF start_recv_ready [OF \<open>set_up ?s\<close>]] by simp
qed

lemma declare_pass_answered:
  assumes "asking m mi s" "is_isolated s" "length iv = MBEDTLS_MAX_IV_LENGTH"
  shows "\<exists>s'. declare_pass H m (Burst (reply_burst m mi src sq enc iv
        (ResponseFrame, InitializationApiType, InitializationDeclare, [new])) # evs) s = Inr (None, s', evs)
    \<and> init_state s' = Done \<and> i2c_address (module_info s') = new
    \<and> (i2c_address mi \<noteq> new \<longrightarrow> this_device_address (n_io (layers s')) = new)
    \<and> incoming_active_callback s' = None \<and> set_up s'"
proof -
  let ?s3 = "api_delay 500 ((api_delay 50 s)\<lparr>declare_controller_complete := False\<rparr>)"
  let ?ev = "Burst (reply_burst m mi src sq enc iv (ResponseFrame, InitializationApiType, InitializationDeclare, [new]))"
  have "asking m mi ?s3" and ok: "mbedtls_ok m" using assms(1) by (simp_all add: asking_def bus_clear_def)
  then obtain s4 where s4: "signpost_initialization_declare_controller m ?s3 = Inr (PORT_SUCCESS, s4)" "ready s4"
    "module_info s4 = mi" "incoming_active_callback s4 = Some CbDeclare" "\<not> declare_controller_complete s4"
    using declare_sent [of m mi ?s3] by auto
  obtain s5 where s5: "api_step H m ?ev s4 = Inr s5" "incoming_bytes s5 0 1 = Inr [new]" "init_state s5 = Done"
    "declare_controller_complete s5" "incoming_active_callback s5 = None" "set_up s5" "module_info s5 = mi"
    using declare_reply_step [OF ok s4(2,4) assms(3), of H src sq enc new] unfolding s4(3) by blast
  have w: "port_signpost_wait_for_with_timeout H m declare_controller_complete (?ev # evs) s4 = Inr (PORT_SUCCESS, s5, evs)"
    by (rule wait_timeout_event [OF s4(5) _ s5(1,4)]) simp
  define s6 where "s6 = (if i2c_address (module_info s5) \<noteq> new
      then snd (signpost_initialization_common m new (upd_module (\<lambda>mi. mi\<lparr>i2c_address := new\<rparr>) s5)) else s5)"
  have pass: "declare_pass H m (?ev # evs) s = Inr (None, s6, evs)"
    using assms(2) s4(1) w s5(2) by (simp add: declare_pass_def Let_def s6_def)
  have "set_up (upd_module (\<lambda>mi. mi\<lparr>i2c_address := new\<rparr>) s5)"
    using s5(6) by (simp add: set_up_def upd_module_def module_wf_def)
  then have "set_up s6" using common_set_up s5(6) by (simp add: s6_def)
  moreover have "init_state s6 = Done" "incoming_active_callback s6 = None" "i2c_address (module_info s6) = new"
    "i2c_address mi \<noteq> new \<longrightarrow> this_device_address (n_io (layers s6)) = new"
    using s5 by (simp_all add: s6_def common_address upd_module_def)
  ultimately show ?thesis using pass by blast
qed

text \<open>C25: after any number of requests the controller did not take up, an initialisation that is
  granted isolation and gets the answer to its declaration returns \<open>PORT_SUCCESS\<close>; the module has the
  address of the answer, in its table and on the bus, and no callback is left.\<close>

theorem init_succeeds:
  assumes "bus_clear m s" "init_state s = RequestIsolation" "incoming_active_callback s = None"
    and "pin_rcs (penv s) = []" "length iv = MBEDTLS_MAX_IV_LENGTH"
  shows "\<exists>s'. signpost_initialization_initialize_loop H m (replicate k Timeout @ ModInFalling #
        Burst (reply_burst m (module_info s) src sq enc iv
          (ResponseFrame, InitializationApiType, InitializationDeclare, [new])) # evs) s
      = Some (Inr (PORT_SUCCESS, s', evs))
    \<and> init_state s' = Done \<and> i2c_address (module_info s') = new
    \<and> (i2c_address (module_info s) \<noteq> new \<longrightarrow> this_device_address (n_io (layers s')) = new)
    \<and> incoming_active_callback s' = None \<and> set_up s'"
proof -
  define mi where "mi = module_info s"
  have ask: "asking m mi s" using assms(1,3) by (simp add: asking_def mi_def)
  have "\<exists>s'. signpost_initialization_initialize_loop H m (replicate k Timeout @ ModInFalling #
        Burst (reply_burst m mi src sq enc iv (ResponseFrame, InitializationApiType, InitializationDeclare, [new])) # evs) s
      = Some (Inr (PORT_SUCCESS, s', evs))
    \<and> init_state s' = Done \<and> i2c_address (module_info s') = new
    \<and> (i2c_address mi \<noteq> new \<longrightarrow> this_device_address (n_io (layers s')) = new)
    \<and> incoming_active_callback s' = None \<and> set_up s'"
    using ask assms(2,4)
  proof (induction k arbitrary: s)
    case 0
    let ?ev = "Burst (reply_burst m mi src sq enc iv (ResponseFrame, InitializationApiType, InitializationDeclare, [new]))"
    obtain s1 where s1: "request_pass H m (ModInFalling # ?ev # evs) s = Inr (None, s1, ?ev # evs)" "asking m mi s1"
      "init_state s1 = Declare" "is_isolated s1"
      using request_pass_isolated [OF 0] by blast
    obtain s2 where s2: "declare_pass H m (?ev # evs) s1 = Inr (None, s2, evs)" "init_state s2 = Done"
      "i2c_address (module_info s2) = new" "i2c_address mi \<noteq> new \<longrightarrow> this_device_address (n_io (layers s2)) = new"
      "incoming_active_callback s2 = None" "set_up s2"
      using declare_pass_answered [OF s1(2,4) assms(5)] by blast
    let ?s3 = "snd (api_pin LedOff (snd (api_pin ModOutSet s2)))"
    have "signpost_initialization_initialize_loop H m ([] @ ModInFalling # ?ev # evs) s = Some (Inr (PORT_SUCCESS, ?s3, evs))"
      using 0(2) s1(1,3) s2(1,2)
      by (simp add: signpost_initialization_initialize_loop.simps init_pass_def)
    moreover have "this_device_address (n_io (layers ?s3)) = this_device_address (n_io (layers s2))"
      by (simp add: api_pin_def set_env_def split: prod.split)
    ultimately show ?case using s2 by simp
  next
    case (Suc k)
    let ?evs = "replicate k Timeout @ ModInFalling # Burst (reply_burst m mi src sq enc iv
        (ResponseFrame, InitializationApiType, InitializationDeclare, [new])) # evs"
    obtain s1 where s1: "request_pass H m (Timeout # ?evs) s = Inr (None, s1, ?evs)" "asking m mi s1"
      "init_state s1 = RequestIsolation" "pin_rcs (penv s1) = []"
      using request_pass_timeout [OF Suc.prems] by blast
    have "signpost_initialization_initialize_loop H m (Timeout # ?evs) s = signpost_initialization_initialize_loop H m ?evs s1"
      using Suc.prems(2) s1(1) by (simp add: signpost_initialization_initialize_loop.simps [of H m "Timeout # ?evs"] init_pass_def)
    with Suc.IH [OF s1(2-4)] show ?case by simp
  qed
  then show ?thesis by (simp add: mi_def)
qed

theorem init_succeeds_witness:
  "\<exists>s'. signpost_initialization_initialize_loop (\<lambda>_ _ _ _ _ _ _ s. Inr s) toy_tls [Timeout, Timeout, ModInFalling,
        Burst (reply_burst toy_tls (module_info toy_node) 0x20 1 False (replicate 16 0)
          (ResponseFrame, InitializationApiType, InitializationDeclare, [0x52]))] toy_node
      = Some (Inr (PORT_SUCCESS, s', [])) \<and> i2c_address (module_info s') = 0x52"
proof -
  have "init_state toy_node = RequestIsolation" "pin_rcs (penv toy_node) = []"
    by (simp_all add: toy_node_def api_boot_def signpost_initialization_common_def signbus_io_init_def
        signpost_entropy_init_def port_pin_def net_boot_def clean_env_def PORT_SUCCESS_def upd_module_def Let_def)
  from init_succeeds [OF toy_node_clear(1) this(1) toy_node_clear(2) this(2), of "replicate 16 0"
      "\<lambda>_ _ _ _ _ _ _ s. Inr s" 2 "0x20" 1 False "0x52" "[]"]
  show ?thesis by (auto simp: MBEDTLS_MAX_IV_LENGTH_def numeral_2_eq_2)
qed


section \<open>The module table of the controller\<close>

lemma length_concat_const: "\<forall>x\<in>set xss. length x = k \<Longrightarrow> length (concat xss) = length xss * k"
  by (induction xss) auto

lemma chunks_concat: "\<forall>x\<in>set xss. length x = k \<Longrightarrow> n = length xss \<Longrightarrow> chunks k n (concat xss @ rest) = xss"
  by (induction xss arbitrary: n) auto

lemma drop_plus_append: "length xs = j \<Longrightarrow> drop (j + i) (xs @ ys) = drop i ys"
  by simp

lemma module_bytes_roundtrip:
  assumes "module_wf mi"
  shows "module_of_bytes (module_bytes mi) = mi" "length (module_bytes mi) = MODULE_STATE_LEN"
proof -
  have l: "length (self_name mi) = 16" "length (concat (names mi)) = 128" "length (i2c_address_mods mi) = 8"
    "length (concat (map le16 (nonces mi))) = 16" "length (haskey mi) = 8"
    "length (concat (keys mi)) = 256"
    using assms length_concat_const [of "names mi" 16] length_concat_const [of "keys mi" 32]
      length_concat_const [of "map le16 (nonces mi)" 2]
    by (auto simp: module_wf_def NAME_LEN_def NUM_MODULES_def ECDH_KEY_LENGTH_def le16_def)
  have c: "chunks NAME_LEN NUM_MODULES (concat (names mi) @ r) = names mi"
    "chunks 2 NUM_MODULES (concat (map le16 (nonces mi)) @ r) = map le16 (nonces mi)"
    "chunks ECDH_KEY_LENGTH NUM_MODULES (concat (keys mi) @ r) = keys mi" for r
    using assms by (auto simp: module_wf_def le16_def intro!: chunks_concat)
  have d: "drop 6 (module_bytes mi) = self_name mi @ drop 22 (module_bytes mi)"
    "drop 22 (module_bytes mi) = concat (names mi) @ drop 150 (module_bytes mi)"
    "drop 150 (module_bytes mi) = i2c_address_mods mi @ drop 158 (module_bytes mi)"
    "drop 158 (module_bytes mi) = concat (map le16 (nonces mi)) @ drop 174 (module_bytes mi)"
    "drop 174 (module_bytes mi) = map (\<lambda>b. if b then 1 else 0) (haskey mi) @ drop 182 (module_bytes mi)"
    "drop 182 (module_bytes mi) = concat (keys mi) @ [0, 0]"
    by (simp_all add: module_bytes_def l le32_def)
  have h: "map (\<lambda>b. b \<noteq> 0) (map (\<lambda>b. if b then 1 else 0 :: byte) (haskey mi)) = haskey mi"
    by (simp add: comp_def cong: if_cong)
  have n: "map of_le16 (map le16 (nonces mi)) = nonces mi" by (simp add: comp_def)
  have e4: "of_le32 (module_bytes mi) = magic mi" by (simp add: module_bytes_def)
  have e: "module_bytes mi ! 4 = self_mod_num mi" "module_bytes mi ! 5 = i2c_address mi"
    by (simp_all add: module_bytes_def le32_def)
  show "module_of_bytes (module_bytes mi) = mi"
    unfolding module_of_bytes_def e e4
    by (simp only: d(1) d(2) d(3) d(4) d(5) d(6) c) (use l h n in \<open>simp add: NAME_LEN_def NUM_MODULES_def\<close>)
  show "length (module_bytes mi) = MODULE_STATE_LEN"
    by (simp add: module_bytes_def MODULE_STATE_LEN_def l le32_def)
qed

text \<open>C26: a module that asks for the module table gets exactly the controller's table, with its own
  address and name kept; padding, key flags and multi-byte fields survive the way over the bus.\<close>

theorem module_table_arrives:
  assumes "bus_clear m s" "length iv = MBEDTLS_MAX_IV_LENGTH" "module_wf (module_info c)"
  shows "\<exists>s'. signpost_initialization_get_module_state H m (Burst (reply_burst m (module_info s) src sq enc iv
      (ResponseFrame, InitializationApiType, InitializationGetState, module_bytes (module_info c))) # evs) s
    = Inr (PORT_SUCCESS, s', evs)
    \<and> module_info s' = (module_info c)\<lparr>i2c_address := i2c_address (module_info s),
        self_name := strncpy_bytes (self_name (module_info s)) NAME_LEN\<rparr>
    \<and> incoming_active_callback s' = None"
proof -
  let ?x = "(ResponseFrame, InitializationApiType, InitializationGetState, module_bytes (module_info c))"
  let ?ev = "Burst (reply_burst m (module_info s) src sq enc iv ?x)"
  let ?s0 = "s\<lparr>incoming_active_callback := Some CbGetState, get_state_complete := False\<rparr>"
  have c: "bus_clear m ?s0" "mbedtls_ok m" "set_up ?s0" using assms(1) by (simp_all add: bus_clear_def)
  obtain k s1 where s1: "signpost_api_send m ModuleAddressController CommandFrame InitializationApiType
      InitializationGetState 0 [] ?s0 = Inr (int k, s1)"
    by (rule request_sent [OF c(1), of "[]" ModuleAddressController CommandFrame InitializationApiType InitializationGetState]) auto
  note r = api_send_ready [OF c(3) s1]
  have len: "length (module_bytes (module_info c)) \<le> MAX_REPLY"
    by (simp add: module_bytes_roundtrip(2) [OF assms(3)] MODULE_STATE_LEN_def MAX_REPLY_def INCOMING_MESSAGE_BUFFER_LENGTH_def)
  have act: "incoming_active_callback s1 = Some CbGetState" using r(4) by simp
  from reply_runs_callback [OF c(2) assms(2) r(1) len disjI1 [OF refl] act, of H src sq enc InitializationApiType InitializationGetState]
  obtain n where n: "api_step H m ?ev s1 = andthen (run_active_callback CbGetState (int (length (module_bytes (module_info c))))
        (s1\<lparr>layers := n, incoming_active_callback := None\<rparr>)) (\<lambda>s'. Inr (signpost_api_start_new_async_recv s'))"
    "received src ?x (s1\<lparr>layers := n, incoming_active_callback := None\<rparr>)"
    "set_up (s1\<lparr>layers := n, incoming_active_callback := None\<rparr>)"
    using r(2) by auto
  let ?s2 = "s1\<lparr>layers := n, incoming_active_callback := None, get_state_complete := True\<rparr>"
  let ?s3 = "signpost_api_start_new_async_recv ?s2"
  have "set_up ?s2" using n(3) by (simp add: set_up_def)
  moreover have "received src ?x ?s2" using n(2) by (simp add: received_def)
  ultimately have "received src ?x ?s3" using received_start_recv by blast
  from incoming_bytes_received [OF this, of 0 MODULE_STATE_LEN]
  have bytes: "incoming_bytes ?s3 0 MODULE_STATE_LEN = Inr (module_bytes (module_info c))"
    by (simp add: module_bytes_roundtrip(2) [OF assms(3)])
  have step: "api_step H m ?ev s1 = Inr ?s3"
    using n(1) by (simp add: run_active_callback_def signpost_initialization_get_state_callback_def)
  have "port_signpost_wait_for_with_timeout H m get_state_complete (?ev # evs) s1 = Inr (PORT_SUCCESS, ?s3, evs)"
    by (rule wait_timeout_event [OF _ _ step]) (use r(10) in simp_all)
  then show ?thesis
    using s1 r(2) bytes
    by (simp add: signpost_initialization_get_module_state_def PORT_SUCCESS_def upd_module_def
        module_bytes_roundtrip(1) [OF assms(3)] strncpy_bytes_def [of "strncpy_bytes _ _"] cstr_strncpy)
      (simp add: strncpy_bytes_def)
qed

theorem module_table_arrives_witness:
  "\<exists>s'. signpost_initialization_get_module_state (\<lambda>_ _ _ _ _ _ _ s. Inr s) toy_tls [Burst (reply_burst toy_tls (module_info toy_node)
      0x20 7 False (replicate 16 0) (ResponseFrame, InitializationApiType, InitializationGetState,
        module_bytes (module_zero\<lparr>i2c_address_mods := [1, 2, 3, 4, 5, 6, 7, 8]\<rparr>)))] toy_node = Inr (PORT_SUCCESS, s', [])
    \<and> i2c_address_mods (module_info s') = [1, 2, 3, 4, 5, 6, 7, 8]"
proof -
  let ?c = "api_boot\<lparr>module_info := module_zero\<lparr>i2c_address_mods := [1, 2, 3, 4, 5, 6, 7, 8]\<rparr>\<rparr>"
  have "module_wf (module_info ?c)" by (simp add: module_wf_def module_zero_def NUM_MODULES_def)
  from module_table_arrives [OF toy_node_clear(1) _ this, of "replicate 16 0" "\<lambda>_ _ _ _ _ _ _ s. Inr s" "0x20" 7 False "[]"]
  show ?thesis by (auto simp: MBEDTLS_MAX_IV_LENGTH_def)
qed

section \<open>The state machine of the initialisation\<close>

text \<open>What happens to a module that initialises: passes of the loop, events, and nothing else.\<close>

inductive init_steps :: "user \<Rightarrow> mbedtls \<Rightarrow> api \<Rightarrow> api \<Rightarrow> bool" for H m where
  start: "init_steps H m s (s\<lparr>init_state := RequestIsolation\<rparr>)"
| pass: "init_steps H m s0 s \<Longrightarrow> init_pass H m evs s = Inr (r, s', evs') \<Longrightarrow> init_steps H m s0 s'"
| event: "init_steps H m s0 s \<Longrightarrow> api_step H m ev s = Inr s' \<Longrightarrow> init_steps H m s0 s'"

definition handlers_keep_init :: "user \<Rightarrow> bool" where
  "handlers_keep_init H \<longleftrightarrow> (\<forall>k src fr ap mt n xs s s'. H k src fr ap mt n xs s = Inr s' \<longrightarrow> init_state s' = init_state s)"

definition entered :: "api \<Rightarrow> bool" where
  "entered s \<longleftrightarrow> init_state s \<in> {RequestIsolation, Declare, Done}"

lemma entered_same: "entered s \<Longrightarrow> init_state s' = init_state s \<Longrightarrow> entered s'"
  by (simp add: entered_def)

lemma entered_set_active [simp]: "entered (set_active cb s) = entered s"
  by (simp add: entered_def)

lemma entered_start [simp]: "entered (signpost_api_start_new_async_recv s) = entered s"
  by (simp add: entered_def)

lemma upd_svc_init [simp]: "init_state (upd_svc f s) = init_state s"
  by (simp add: upd_svc_def)

lemma energy_callback_init:
  assumes "energy_query_async_callback rc s = Inr s'"
  shows "init_state s' = init_state s"
proof -
  from assms [unfolded energy_query_async_callback_def] obtain s1 where
    "(if rc \<noteq> int ENERGY_INFORMATION_LEN then Inr s
      else if energy_cb_data (svc s)
      then andthen (incoming_bytes s 0 (nat rc)) (\<lambda>xs.
           andthen (memcpy_at (energy_mem (svc s)) 0 xs) (\<lambda>mem.
           Inr (upd_svc (\<lambda>v. v\<lparr>energy_mem := mem, energy_cb_data := False\<rparr>) s)))
      else Inr s) = Inr s1"
    and rest: "(case energy_cb (svc s1) of None \<Rightarrow> Inr s1
      | Some cb \<Rightarrow> let s2 = upd_svc (\<lambda>v. v\<lparr>energy_cb := None\<rparr>) s1
          in (case cb of EnergySyncCallback \<Rightarrow> Inr (energy_query_sync_callback rc s2)
            | UserEnergyCallback k \<Rightarrow> Inr (upd_svc (\<lambda>v. v\<lparr>energy_calls := energy_calls v @ [(k, rc)]\<rparr>) s2))) = (Inr s' :: fault + api)"
    by (rule andthen_InrE) (rule that)
  then have s1: "init_state s1 = init_state s" by (auto simp: andthen_Inr_iff split: if_splits)
  show ?thesis
    using rest s1 by (auto simp: Let_def energy_query_sync_callback_def split: option.splits energy_callback.splits)
qed

lemma run_active_callback_entered:
  "run_active_callback cb rc s = Inr s' \<Longrightarrow> entered s \<Longrightarrow> entered s'"
  by (cases cb)
    (auto simp: entered_def run_active_callback_def signpost_initialization_declare_callback_def signpost_initialization_get_state_callback_def
      signpost_storage_scan_callback_def signpost_storage_write_callback_def signpost_storage_read_callback_def
      signpost_processing_callback_def signpost_networking_callback_def 
      signpost_energy_report_callback_def signpost_energy_reset_callback_def timelocation_callback_def signpost_watchdog_cb_def Let_def andthen_Inr_iff split: if_splits dest: energy_callback_init)

lemma run_handler_entered:
  assumes "handlers_keep_init H" "run_handler H cb s = Inr s'" "entered s"
  shows "entered s'"
proof (cases cb)
  case SubscribeCallback
  then show ?thesis
    using assms(2,3) by (auto simp: entered_def run_handler_def internal_subscribe_callback_def Let_def andthen_Inr_iff
        split: if_splits option.splits)
next
  case (UserHandler k)
  then show ?thesis using assms by (auto simp: run_handler_def handlers_keep_init_def Let_def intro: entered_same)
qed

lemma recv_callback_entered:
  assumes "handlers_keep_init H" "signpost_api_recv_callback H rc s = Inr s'" "entered s"
  shows "entered s'"
proof -
  obtain s1 where "dispatch_message H rc s = Inr s1" "s' = signpost_api_start_new_async_recv s1"
    using assms(2) by (auto simp: signpost_api_recv_callback_def andthen_Inr_iff)
  moreover have "entered s1"
    using calculation(1) assms(1,3) run_handler_entered [OF assms(1)] run_active_callback_entered
    by (auto simp: dispatch_message_def Let_def split: if_splits option.splits)
  ultimately show ?thesis by simp
qed


lemma bus_burst_entered:
  "handlers_keep_init H \<Longrightarrow> bus_burst H m evs s = Inr s' \<Longrightarrow> entered s \<Longrightarrow> entered s'"
proof (induction H m evs s arbitrary: s' rule: bus_burst.induct)
  case (2 H m ev evs s)
  obtain call n evs' where n: "net_receive m ev evs (sync_keys s) = Inr (call, n, evs')"
    using "2.prems"(2) by (auto simp: andthen_Inr_iff)
  let ?s1 = "s\<lparr>layers := n\<rparr>"
  obtain s2 where s2: "(case call of Some (ApiRecvCallback, rc) \<Rightarrow> signpost_api_recv_callback H rc ?s1 | _ \<Rightarrow> Inr ?s1) = Inr s2"
    and rest: "bus_burst H m evs' s2 = Inr s'"
    using "2.prems"(2) n by (auto simp: andthen_Inr_iff Let_def)
  have "entered ?s1" using "2.prems"(3) by (simp add: entered_def)
  then have "entered s2"
    using s2 recv_callback_entered [OF "2.prems"(1)] by (auto split: option.splits app_callback.splits)
  then show ?case using "2.IH" [OF n refl refl refl s2 "2.prems"(1) rest] by simp
qed simp

lemma api_step_entered:
  "handlers_keep_init H \<Longrightarrow> api_step H m ev s = Inr s' \<Longrightarrow> entered s \<Longrightarrow> entered s'"
  using bus_burst_entered
  by (cases ev) (auto simp: entered_def signpost_initialization_isolation_callback_def signpost_initialization_lost_isolation_callback_def Let_def)

lemma wait_entered:
  "handlers_keep_init H \<Longrightarrow> port_signpost_wait_for_with_timeout H m flag evs s = Inr (rc, s', evs') \<Longrightarrow> entered s \<Longrightarrow> entered s'"
proof (induction evs arbitrary: s)
  case (Cons ev evs)
  then show ?case using api_step_entered [OF Cons.prems(1), of m ev s]
    by (auto simp: andthen_Inr_iff split: if_splits)
qed auto


lemma common_init_state: "init_state (snd (signpost_initialization_common m a s)) = init_state s"
  by (simp add: signpost_initialization_common_def upd_module_def Let_def split: prod.split)

lemma pin_init_state: "api_pin op s = (rc, s') \<Longrightarrow> init_state s' = init_state s"
  by (auto simp: api_pin_def set_env_def split: prod.splits)

lemma delay_init_state [simp]: "init_state (api_delay ms s) = init_state s"
  by (simp add: api_delay_def set_env_def)

lemma api_send_init_state:
  "signpost_api_send m dest fr ap mt len msg s = Inr (rc, s') \<Longrightarrow> init_state s' = init_state s"
  by (auto simp: signpost_api_send_def andthen_Inr_iff)

lemma back_off_entered [simp]: "entered (back_off s)"
  by (simp add: back_off_def entered_def)

lemma request_pass_entered:
  assumes "handlers_keep_init H" "request_pass H m evs s = Inr (r, s', evs')" "entered s"
  shows "entered s'"
proof -
  obtain rc s1 where s1: "signpost_initialization_request_isolation (s\<lparr>request_isolation_complete := False\<rparr>) = (rc, s1)"
    by fastforce
  then have "init_state s1 = init_state s"
    by (auto simp: signpost_initialization_request_isolation_def split: prod.splits if_splits dest!: pin_init_state)
  then have "entered s1" using assms(3) by (simp add: entered_def)
  then show ?thesis
    using assms(2) wait_entered [OF assms(1), of m request_isolation_complete evs s1]
    by (auto simp: request_pass_def s1 andthen_Inr_iff split: if_splits)
qed

lemma declare_controller_init_state:
  "signpost_initialization_declare_controller m s = Inr (rc, s') \<Longrightarrow> init_state s' = init_state s"
  by (auto simp: signpost_initialization_declare_controller_def andthen_Inr_iff split: if_splits dest!: api_send_init_state)

lemma declare_pass_entered:
  assumes "handlers_keep_init H" "declare_pass H m evs s = Inr (r, s', evs')" "entered s"
  shows "entered s'"
proof -
  let ?s1 = "api_delay 50 s"
  obtain level s2 where l: "(if is_isolated ?s1 then (0, ?s1) else api_pin ModInRead ?s1) = (level, s2)" by fastforce
  then have i2: "init_state s2 = init_state s" by (auto split: if_splits dest!: pin_init_state)
  let ?s3 = "api_delay 500 (s2\<lparr>declare_controller_complete := False\<rparr>)"
  show ?thesis
  proof (cases "\<not> is_isolated ?s1 \<and> level \<noteq> 0")
    case True
    then show ?thesis using assms(2) unfolding declare_pass_def Let_def l prod.case by (auto simp: entered_def)
  next
    case False
    obtain rc s4 where d: "signpost_initialization_declare_controller m ?s3 = Inr (rc, s4)"
      using assms(2) False unfolding declare_pass_def Let_def l prod.case by (auto simp: andthen_Inr_iff)
    have "entered s4" using declare_controller_init_state [OF d] i2 assms(3) by (simp add: entered_def)
    show ?thesis
    proof (cases "rc = PORT_SUCCESS")
      case True
      then obtain rc2 s5 evs1 where w: "port_signpost_wait_for_with_timeout H m declare_controller_complete evs s4 = Inr (rc2, s5, evs1)"
        and rest: "(if rc2 \<noteq> PORT_SUCCESS then Inr (None, set_active None (back_off s5), evs1)
          else andthen (incoming_bytes s5 0 1) (\<lambda>b. Inr (None, if i2c_address (module_info s5) \<noteq> hd b
            then snd (signpost_initialization_common m (hd b) (upd_module (\<lambda>mi. mi\<lparr>i2c_address := hd b\<rparr>) s5)) else s5, evs1)))
          = (Inr (r, s', evs') :: fault + int option \<times> api \<times> api_event list)"
        using assms(2) False d unfolding declare_pass_def Let_def l prod.case
        by (auto simp: andthen_Inr_iff split del: if_split)
      have e: "entered s5" by (rule wait_entered [OF assms(1) w \<open>entered s4\<close>])
      then have "entered (snd (signpost_initialization_common m a (upd_module f s5)))" for a f
        by (simp add: entered_def common_init_state upd_module_def)
      with e rest show ?thesis by (auto simp: andthen_Inr_iff split: if_splits)
    next
      case rc: False
      then show ?thesis using assms(2) False d unfolding declare_pass_def Let_def l prod.case by auto
    qed
  qed
qed

lemma init_pass_entered:
  assumes "handlers_keep_init H" "init_pass H m evs s = Inr (r, s', evs')" "entered s"
  shows "entered s'"
  using assms(2,3) request_pass_entered [OF assms(1)] declare_pass_entered [OF assms(1)]
    pin_init_state [of ModOutSet s] pin_init_state [of LedOff "snd (api_pin ModOutSet s)"]
  by (auto simp: init_pass_def entered_def split: init_state.splits prod.splits)

text \<open>Passes of the loop, interrupts and messages in any order never enter the states \<open>KeyExchange\<close>,
  \<open>FinishExchange\<close> and \<open>CheckKeys\<close>, for which the loop has no case: it never spins without waiting.\<close>

theorem init_states_entered:
  assumes "handlers_keep_init H" "init_steps H m s0 s"
  shows "init_state s \<in> {RequestIsolation, Declare, Done}"
proof -
  from assms(2) have "entered s"
    by induction (auto simp: entered_def [of "_\<lparr>init_state := RequestIsolation\<rparr>"]
      intro: init_pass_entered [OF assms(1)] api_step_entered [OF assms(1)])
  then show ?thesis by (simp add: entered_def)
qed

theorem init_states_entered_witness:
  "init_state (signpost_initialization_isolation_callback (toy_node\<lparr>init_state := RequestIsolation\<rparr>))
     \<in> {RequestIsolation, Declare, Done}"
proof (rule init_states_entered [of "\<lambda>_ _ _ _ _ _ _ s. Inr s" toy_tls toy_node])
  show "handlers_keep_init (\<lambda>_ _ _ _ _ _ _ s. Inr s)" by (simp add: handlers_keep_init_def)
  show "init_steps (\<lambda>_ _ _ _ _ _ _ s. Inr s) toy_tls toy_node
      (signpost_initialization_isolation_callback (toy_node\<lparr>init_state := RequestIsolation\<rparr>))"
    by (rule init_steps.event [OF init_steps.start, of _ _ ModInFalling]) simp
qed

section \<open>Key exchange\<close>

lemma find_upt_Some:
  "List.find P [0..<n] = Some i \<longleftrightarrow> i < n \<and> P i \<and> (\<forall>j<i. \<not> P j)"
proof
  assume "List.find P [0..<n] = Some i"
  then obtain k where "k < n" "P ([0..<n] ! k)" "i = [0..<n] ! k" "\<forall>j<k. \<not> P ([0..<n] ! j)"
    by (auto simp only: find_Some_iff length_upt diff_zero)
  then show "i < n \<and> P i \<and> (\<forall>j<i. \<not> P j)" by simp
next
  assume *: "i < n \<and> P i \<and> (\<forall>j<i. \<not> P j)"
  show "List.find P [0..<n] = Some i"
    unfolding find_Some_iff by (rule exI [of _ i]) (use * in simp)
qed

text \<open>C28: a key exchange with a registered module, in which the elliptic-curve calls succeed, sends the
  public point and installs the secret: from then on the table gives it as the key of that address.\<close>

theorem key_exchange_installs_key:
  assumes "bus_clear m s" "signpost_api_addr_to_mod_num (module_info s) src = int i"
    and "0 \<le> ecp_group_load ec" "0 \<le> ecdh_read_params ec params"
    and "ecdh_make_public ec params (drbg_count (penv s)) = (0, pub)" "length pub \<le> ECDH_BUF_LEN"
    and "ecdh_calc_secret ec params (drbg_count (penv s)) = (0, secret)" "length secret = ECDH_KEY_LENGTH"
  shows "\<exists>rc s'. signpost_initialization_key_exchange_respond ec m src params s = Inr (rc, s') \<and> 0 < rc
    \<and> signpost_api_addr_to_key (module_info s') src = Some secret \<and> module_wf (module_info s')"
proof -
  let ?mi = "module_info s"
  have wf: "module_wf ?mi" using assms(1) by (simp add: bus_clear_def set_up_def)
  have i: "i < NUM_MODULES" "src = i2c_address_mods ?mi ! i" "\<forall>j<i. src \<noteq> i2c_address_mods ?mi ! j"
    using assms(2) by (auto simp: signpost_api_addr_to_mod_num_def PORT_FAIL_def find_upt_Some split: option.splits)
  have ub: "unat (word_of_int (int i) :: byte) = i" using i(1) by (simp add: NUM_MODULES_def unat_of_nat)
  let ?s1 = "upd_module (\<lambda>mi. mi\<lparr>keys := (keys mi)[i := secret]\<rparr>) s"
  have "length (keys ?mi ! i) = ECDH_KEY_LENGTH" using wf i(1) by (simp add: module_wf_def)
  then have mem: "memcpy_at (keys ?mi ! i) 0 secret = Inr secret"
    using assms(8) by (simp add: memcpy_at_def overwrite_0)
  have wf1: "module_wf (module_info ?s1)"
    using wf assms(8) by (auto simp: module_wf_def upd_module_def dest: set_update_subset_insert [THEN subsetD])
  then have c1: "bus_clear m ?s1" "set_up ?s1"
    using assms(1) by (simp_all add: bus_clear_def set_up_def upd_module_def)
  have len: "length pub < 2 ^ 16 - 64" using assms(6) by (simp add: ECDH_BUF_LEN_def)
  obtain k s2 where s2: "signpost_api_send m src ResponseFrame InitializationApiType InitializationKeyExchange (length pub) pub ?s1
      = Inr (int k, s2)" "0 < k" "module_info s2 = module_info ?s1"
    by (rule request_sent [OF c1(1) len])
  let ?s3 = "upd_module (\<lambda>mi. mi\<lparr>haskey := (haskey mi)[i := True]\<rparr>) s2"
  have "i \<noteq> 255" using i(1) by (simp add: NUM_MODULES_def)
  then have "signpost_initialization_key_exchange_respond ec m src params s = Inr (int k, ?s3)"
    using assms(2-5,7) ub mem s2(1)
    by (simp add: signpost_initialization_key_exchange_respond_def Let_def PORT_SUCCESS_def)
  moreover have "module_info ?s3 = ?mi\<lparr>keys := (keys ?mi)[i := secret], haskey := (haskey ?mi)[i := True]\<rparr>"
    using s2(3) by (simp add: upd_module_def)
  moreover have "List.find (\<lambda>j. src = i2c_address_mods ?mi ! j \<and> (haskey ?mi)[i := True] ! j) [0..<NUM_MODULES] = Some i"
    using i wf by (auto simp: find_upt_Some module_wf_def)
  ultimately show ?thesis
    using s2(2) i(1) wf wf1 by (auto simp: signpost_api_addr_to_key_def module_wf_def upd_module_def)
qed

definition toy_ecdh :: ecdh_lib where
  "toy_ecdh = \<lparr>ecp_group_load = 0, ecdh_read_params = \<lambda>_. 0, ecdh_make_public = \<lambda>_ _. (0, [4, 1, 2]),
     ecdh_calc_secret = \<lambda>ps _. (0, replicate 32 (hd ps))\<rparr>"

theorem key_exchange_installs_key_witness:
  "\<exists>rc s'. signpost_initialization_key_exchange_respond toy_ecdh toy_tls 0x21 [9] toy_node = Inr (rc, s')
     \<and> signpost_api_addr_to_key (module_info s') 0x21 = Some (replicate 32 9)"
proof -
  have "i2c_address_mods (module_info toy_node) = [0xff, 0xff, 0xff, 0x20, 0x21, 0xff, 0xff, 0xff]"
    by (simp add: toy_node_def signpost_initialization_common_def signbus_io_init_def signpost_entropy_init_def port_pin_def
        api_boot_def net_boot_def clean_env_def PORT_SUCCESS_def upd_module_def cleared_table_def NUM_MODULES_def
        ModuleAddressController_def ModuleAddressStorage_def Let_def numeral_nat)
  then have "signpost_api_addr_to_mod_num (module_info toy_node) 0x21 = int 4"
    by (simp add: signpost_api_addr_to_mod_num_def NUM_MODULES_def upt_rec)
  from key_exchange_installs_key [OF toy_node_clear(1) this, of toy_ecdh "[9]" "[4, 1, 2]" "replicate 32 9"]
  show ?thesis by (auto simp: toy_ecdh_def ECDH_BUF_LEN_def ECDH_KEY_LENGTH_def)
qed

end
