(* ===== verification/Signpost_Formats.thy ===== *)
theory Signpost_Formats
  imports Signpost_Services
begin

section \<open>Wire formats\<close>

text \<open>Filling a zeroed buffer from the front.\<close>

lemma memcpy_fill:
  "off = length xs \<Longrightarrow> k = length ys + k' \<Longrightarrow>
   memcpy_at (xs @ replicate k z) off ys = Inr ((xs @ ys) @ replicate k' z)"
  by (simp add: memcpy_at_def overwrite_def)

lemma memcpy_replace:
  "off = length xs \<Longrightarrow> length ys = length zs \<Longrightarrow> memcpy_at (xs @ zs @ ws) off ys = Inr (xs @ ys @ ws)"
  by (simp add: memcpy_at_def overwrite_def)

text \<open>When the module's name does not end in a slash and the topic does not start with one, a
  publish sends the length of the full topic, name, slash, topic, the length of the data and the data.\<close>

theorem publish_buffer_with_slash:
  assumes "nlen \<le> length name" "slen \<le> length topic" "dl \<le> length data"
  shows "publish_buffer name topic data dl slen nlen 1 (replicate (nlen + 1 + slen + dl + 2) 0)
    = Inr ([word_of_nat (slen + nlen + 1)] @ take nlen name @ [0x2F] @ take slen topic @ [word_of_nat dl] @ take dl data)"
proof -
  define p n t d :: bytes where "p = [word_of_nat (slen + nlen + 1)]" and "n = take nlen name"
    and "t = take slen topic" and "d = [word_of_nat dl]"
  have len: "length p = 1" "length n = nlen" "length t = slen" "length d = 1" "length (take dl data) = dl"
    using assms by (simp_all add: p_def n_def t_def d_def)
  have 0: "memcpy_at (replicate (nlen + 1 + slen + dl + 2) 0) 0 p = Inr (p @ replicate (nlen + 1 + slen + dl + 1) 0)"
    by (rule memcpy_fill [where xs = "[]", unfolded append_Nil]) (simp_all add: len)
  have 1: "memcpy_at (p @ replicate (nlen + 1 + slen + dl + 1) 0) 1 n = Inr ((p @ n) @ replicate (1 + slen + dl + 1) 0)"
    by (rule memcpy_fill) (simp_all add: len)
  have 2: "memcpy_at ((p @ n) @ replicate (1 + slen + dl + 1) 0) (nlen + 1) [0x2F]
      = Inr (((p @ n) @ [0x2F]) @ replicate (slen + dl + 1) 0)"
    by (rule memcpy_fill) (simp_all add: len)
  have 3: "memcpy_at (((p @ n) @ [0x2F]) @ replicate (slen + dl + 1) 0) (1 + nlen + 1) t
      = Inr ((((p @ n) @ [0x2F]) @ t) @ replicate (dl + 1) 0)"
    by (rule memcpy_fill) (simp_all add: len)
  have 4: "memcpy_at ((((p @ n) @ [0x2F]) @ t) @ replicate (dl + 1) 0) (slen + nlen + 1 + 1) d
      = Inr (((((p @ n) @ [0x2F]) @ t) @ d) @ replicate dl 0)"
    by (rule memcpy_fill) (simp_all add: len)
  have 5: "memcpy_at (((((p @ n) @ [0x2F]) @ t) @ d) @ replicate dl 0) (1 + slen + 1 + nlen + 1) (take dl data)
      = Inr ((((((p @ n) @ [0x2F]) @ t) @ d) @ take dl data) @ replicate 0 0)"
    by (rule memcpy_fill) (simp_all add: len assms)
  show ?thesis
    unfolding publish_buffer_def p_def [symmetric] n_def [symmetric] t_def [symmetric] d_def [symmetric]
    unfolding 0 1 2 3 4 andthen.simps if_True simp_thms read_at_Inr [of 0 dl data, simplified, OF assms(3)] 5 by simp
qed

theorem publish_buffer_with_slash_witness:
  "publish_buffer [0x61, 0x62, 0] [0x63, 0x64] [1, 2, 3] 3 2 2 1 (replicate 10 0)
    = Inr [5, 0x61, 0x62, 0x2F, 0x63, 0x64, 3, 1, 2, 3]"
  using publish_buffer_with_slash [of 2 "[0x61, 0x62, 0]" 2 "[0x63, 0x64]" 3 "[1, 2, 3]"] by simp

text \<open>Without the extra slash the topic is written one byte too far: the byte after the name is
  never written, and the length of the data overwrites the last byte of the topic.\<close>

theorem publish_buffer_without_slash:
  assumes "nlen \<le> length name" "Suc slen \<le> length topic" "dl \<le> length data"
  shows "publish_buffer name topic data dl (Suc slen) nlen 0 (replicate (nlen + Suc slen + dl + 2) z)
    = Inr ([word_of_nat (Suc slen + nlen)] @ take nlen name @ [z] @ take slen topic @ [word_of_nat dl] @ take dl data)"
proof -
  define p n t u d :: bytes where "p = [word_of_nat (Suc slen + nlen + 0)]" and "n = take nlen name"
    and "t = take slen topic" and "u = [topic ! slen]" and "d = [word_of_nat dl]"
  have len: "length p = 1" "length n = nlen" "length t = slen" "length u = 1" "length d = 1" "length (take dl data) = dl"
    using assms by (simp_all add: p_def n_def t_def u_def d_def)
  have tu: "take (Suc slen) topic = t @ u"
    using assms(2) by (simp add: t_def u_def take_Suc_conv_app_nth)
  have 0: "memcpy_at (replicate (nlen + Suc slen + dl + 2) z) 0 p = Inr (p @ replicate (nlen + Suc slen + dl + 1) z)"
    by (rule memcpy_fill [where xs = "[]", unfolded append_Nil]) (simp_all add: len)
  have 1: "memcpy_at (p @ replicate (nlen + Suc slen + dl + 1) z) 1 n = Inr ((p @ n) @ replicate (Suc slen + dl + 1) z)"
    by (rule memcpy_fill) (simp_all add: len)
  have "(p @ n) @ replicate (Suc slen + dl + 1) z = (((p @ n) @ [z]) @ replicate (slen + 1 + dl) z)"
    by simp
  moreover have "memcpy_at (((p @ n) @ [z]) @ replicate (slen + 1 + dl) z) (1 + nlen + 1) (t @ u)
      = Inr ((((p @ n) @ [z]) @ (t @ u)) @ replicate dl z)"
    by (rule memcpy_fill) (simp_all add: len)
  ultimately have 3: "memcpy_at ((p @ n) @ replicate (Suc slen + dl + 1) z) (1 + nlen + 1) (t @ u)
      = Inr ((p @ n @ [z] @ t) @ u @ replicate dl z)" by simp
  have 4: "memcpy_at ((p @ n @ [z] @ t) @ u @ replicate dl z) (Suc slen + nlen + 0 + 1) d
      = Inr ((p @ n @ [z] @ t) @ d @ replicate dl z)"
    by (rule memcpy_replace) (simp_all add: len)
  have 5: "memcpy_at ((p @ n @ [z] @ t) @ d @ replicate dl z) (1 + Suc slen + 1 + nlen + 0) (take dl data)
      = Inr (((p @ n @ [z] @ t @ d) @ take dl data) @ replicate 0 z)"
    using memcpy_fill [of "1 + Suc slen + 1 + nlen + 0" "p @ n @ [z] @ t @ d" dl "take dl data" 0 z] len assms by simp
  have pe: "[word_of_nat (Suc slen + nlen)] = p" by (simp add: p_def)
  show ?thesis
    unfolding publish_buffer_def pe p_def [symmetric] n_def [symmetric] t_def [symmetric] d_def [symmetric] tu
    using 0 1 3 4 5 assms(3) by (simp add: read_at_Inr)
qed

theorem publish_buffer_without_slash_witness:
  "publish_buffer [0x61, 0x62, 0] [0x2F, 0x64] [1, 2, 3] 3 2 2 0 (replicate 9 0)
    = Inr [4, 0x61, 0x62, 0, 0x2F, 3, 1, 2, 3]"
  using publish_buffer_without_slash [of 2 "[0x61, 0x62, 0]" 1 "[0x2F, 0x64]" 3 "[1, 2, 3]" 0] by (simp add: numeral_eq_Suc)

text \<open>What \<open>signpost_networking_subscribe_send\<close> packs, the subscriber's handler unpacks: the
  application gets the topic, as a string in the zeroed buffer, and the data.\<close>

theorem subscribe_message_is_delivered:
  assumes "networking_subscribe_cb (svc s) = Some cb" "length topic \<le> 28" "length data < 256"
  shows "internal_subscribe_callback NotificationFrame NetworkingApiType NetworkingSubscribeMessage
      (length (subscribe_message topic data)) (subscribe_message topic data @ rest) s
    = Inr (upd_svc (\<lambda>v. v\<lparr>delivered := delivered v @ [(cb, topic @ replicate (33 - length topic) 0, data)]\<rparr>) s)"
proof -
  let ?msg = "subscribe_message topic data @ rest"
  have t: "unat (word_of_nat (length topic) :: byte) = length topic" "unat (word_of_nat (length data) :: byte) = length data"
    using assms(2,3) by (simp_all add: unat_of_nat)
  have r: "read_at ?msg 0 1 = Inr [word_of_nat (length topic)]" "read_at ?msg 1 (length topic) = Inr topic"
    "read_at ?msg (length topic + 1) 1 = Inr [word_of_nat (length data)]"
    "read_at ?msg (length topic + 2) (length data) = Inr data"
    by (simp_all add: read_at_def subscribe_message_def)
  have "overwrite (replicate (NAME_LEN * 2 + 1) 0) 0 topic = topic @ replicate (33 - length topic) 0"
    by (simp add: overwrite_0 NAME_LEN_def)
  moreover have "length (subscribe_message topic data) = length topic + length data + 2"
    by (simp add: subscribe_message_def)
  ultimately show ?thesis
    unfolding internal_subscribe_callback_def r assms(1)
    using assms(2) t r(2-) by simp
qed

theorem subscribe_message_is_delivered_witness:
  "internal_subscribe_callback NotificationFrame NetworkingApiType NetworkingSubscribeMessage
      (length (subscribe_message [0x61, 0x62] [1, 2, 3])) (subscribe_message [0x61, 0x62] [1, 2, 3] @ [0xFF]) (upd_svc (\<lambda>v. v\<lparr>networking_subscribe_cb := Some 4\<rparr>) api_boot)
    = Inr (upd_svc (\<lambda>v. v\<lparr>delivered := delivered v @ [(4, [0x61, 0x62] @ replicate 31 0, [1, 2, 3])]\<rparr>)
        (upd_svc (\<lambda>v. v\<lparr>networking_subscribe_cb := Some 4\<rparr>) api_boot))"
  using subscribe_message_is_delivered [of "upd_svc (\<lambda>v. v\<lparr>networking_subscribe_cb := Some 4\<rparr>) api_boot" 4
      "[0x61, 0x62]" "[1, 2, 3]" "[0xFF]"] by (simp add: upd_svc_def subscribe_message_def)

text \<open>The subscriber's handler never reads outside the message, whatever lengths it claims.\<close>

theorem subscribe_callback_in_bounds:
  assumes "msg \<noteq> []" "len \<le> length msg"
  shows "\<exists>s'. internal_subscribe_callback frame ap mt len msg s = Inr s'"
proof -
  have "read_at msg 0 1 = Inr [hd msg]"
    using assms(1) by (cases msg) (simp_all add: read_at_def)
  moreover have "read_at msg 1 n = Inr (take n (drop 1 msg))" "read_at msg (n + 1) 1 = Inr (take 1 (drop (n + 1) msg))"
    if "n + 2 \<le> len" for n
    using that assms(2) by (simp_all add: read_at_Inr)
  moreover have "read_at msg (n + 2) k = Inr (take k (drop (n + 2) msg))" if "n + k + 2 \<le> len" for n k
    using that assms(2) by (simp add: read_at_Inr)
  ultimately show ?thesis
    by (auto simp: internal_subscribe_callback_def Let_def not_le not_less split: option.split)
qed

theorem subscribe_callback_in_bounds_witness:
  "\<exists>s'. internal_subscribe_callback NotificationFrame NetworkingApiType NetworkingSubscribeMessage 3 [28, 200, 7]
     (upd_svc (\<lambda>v. v\<lparr>networking_subscribe_cb := Some 4\<rparr>) api_boot) = Inr s'"
  by (rule subscribe_callback_in_bounds) simp_all

lemma high_byte:
  fixes w :: u16
  shows "w AND 0xff00 = push_bit 8 (drop_bit 8 w)" "unat (w AND 0xff00) = 256 * (unat w div 256)"
    "(w AND 0xff00 > 8) = (256 \<le> unat w)"
proof -
  have m: "(0xff00 :: u16) = push_bit 8 (mask 8)" by (simp add: mask_eq_exp_minus_1)
  show eq: "w AND 0xff00 = push_bit 8 (drop_bit 8 w)"
    unfolding m by (rule bit_word_eqI) (auto simp: bit_simps)
  show u: "unat (w AND 0xff00) = 256 * (unat w div 256)"
    using unat_u16_less [of w]
    by (simp only: eq unsigned_push_bit_eq unsigned_drop_bit_eq)
      (simp add: push_bit_eq_mult drop_bit_eq_div take_bit_eq_mod mult.commute)
  show "(w AND 0xff00 > 8) = (256 \<le> unat w)"
  proof -
    have "8 < 256 * (n div 256) \<longleftrightarrow> 256 \<le> n" for n :: nat
      using div_le_mono [of 256 n 256] by (cases "256 \<le> n") simp_all
    then show ?thesis by (simp only: word_less_nat_alt u) simp
  qed
qed

lemma header_word: "of_le16 [ucast (w AND 0xff), if (w AND 0xff00) > 8 then 1 else 0] = (w :: u16) \<longleftrightarrow> unat w < 512"
proof -
  let ?h = "if 256 \<le> unat w then 1 else 0 :: u16"
  have m: "(0xff :: u16) = mask 8" by (simp add: mask_eq_exp_minus_1)
  have "of_le16 [ucast (w AND 0xff), if (w AND 0xff00) > 8 then 1 else 0] = (w AND mask 8) OR push_bit 8 ?h"
    unfolding of_le16_def high_byte(3) m
    by (rule bit_word_eqI) (auto simp: bit_simps split: if_splits)
  moreover have "((w AND mask 8) OR push_bit 8 ?h = w) \<longleftrightarrow> ?h = drop_bit 8 w"
  proof
    assume "(w AND mask 8) OR push_bit 8 ?h = w"
    then have "drop_bit 8 ((w AND mask 8) OR push_bit 8 ?h) = drop_bit 8 w" by simp
    moreover have "drop_bit 8 ((w AND mask 8) OR push_bit 8 ?h) = ?h"
      by (rule bit_word_eqI) (auto simp: bit_simps)
    ultimately show "?h = drop_bit 8 w" by simp
  next
    assume h: "?h = drop_bit 8 w"
    show "(w AND mask 8) OR push_bit 8 ?h = w"
    proof (unfold h, rule bit_word_eqI)
      fix n assume "n < LENGTH(16)"
      then show "bit ((w AND mask 8) OR push_bit 8 (drop_bit 8 w)) n = bit w n"
        by (cases "n < 8") (auto simp: bit_simps)
    qed
  qed
  moreover have "?h = drop_bit 8 w \<longleftrightarrow> unat w < 512"
  proof -
    have "unat (drop_bit 8 w) = unat w div 256"
      by (simp only: unsigned_drop_bit_eq) (use unat_u16_less [of w] in \<open>simp add: drop_bit_eq_div take_bit_eq_mod\<close>)
    moreover have "unat ?h = (if 256 \<le> unat w then 1 else 0)" by simp
    moreover have "(if 256 \<le> n then 1 else 0) = n div 256 \<longleftrightarrow> n < 512" for n :: nat
      using div_nat_eqI [of 256 1 n] div_le_mono [of 512 n 256]
      by (cases "n < 256"; cases "n < 512") simp_all
    ultimately show ?thesis by (simp only: word_unat_eq_iff)
  qed
  ultimately show ?thesis by simp
qed

text \<open>The receiver of a processing message checks the two header fields as 16-bit numbers, but
  the sender puts the truth value of a comparison in their high bytes: a message passes the check
  only when both its size and its CRC are below 512.\<close>

theorem processing_message_check:
  assumes "length xs < 2 ^ 16" "length xs \<le> length buf"
  shows "(\<exists>buf'. processing_reply_payload (processing_message xs @ rest) (length xs + 4) buf
      = Inr (ProcessingSuccess, buf', length xs))
    \<longleftrightarrow> length xs < 512 \<and> unat (CRC16_Calc xs 0xFFFF) < 512"
proof -
  let ?sz = "word_of_nat (length xs) :: u16" and ?crc = "CRC16_Calc xs 0xFFFF"
  let ?hdr = "processing_header ?sz ?crc"
  have sz: "unat ?sz = length xs" using assms(1) by (simp add: unat_of_nat)
  have hdr: "read_at (processing_message xs @ rest) 0 4 = Inr ?hdr"
    by (simp add: read_at_def processing_message_def processing_header_def)
  have pay: "read_at (processing_message xs @ rest) 4 (length xs) = Inr xs"
    by (simp add: read_at_def processing_message_def processing_header_def)
  have a: "of_le16 ?hdr = of_le16 [ucast (?sz AND 0xff), if (?sz AND 0xff00) > 8 then 1 else 0]"
    "of_le16 (drop 2 ?hdr) = of_le16 [ucast (?crc AND 0xff), if (?crc AND 0xff00) > 8 then 1 else 0]"
    by (simp_all add: processing_header_def of_le16_def)
  have sub: "size_sub (length xs + 4) 4 = length xs" using assms(1) by (simp add: size_sub_le)
  have 1: "unat (of_le16 ?hdr) = length xs \<longleftrightarrow> length xs < 512"
    using header_word [of ?sz] sz unfolding a by (metis word_unat_eq_iff)
  have 2: "of_le16 (drop 2 ?hdr) = ?crc \<longleftrightarrow> unat ?crc < 512"
    unfolding a by (rule header_word)
  have mem: "memcpy_at buf 0 xs = Inr (overwrite buf 0 xs)"
    using assms(2) by (simp add: memcpy_at_def)
  show ?thesis
  proof (cases "length xs < 512")
    case False
    with 1 have "unat (of_le16 ?hdr) \<noteq> length xs" by simp
    then show ?thesis
      using False by (simp add: processing_reply_payload_def hdr sub Let_def ProcessingSuccess_def ProcessingSizeError_def)
  next
    case True
    with 1 have l: "unat (of_le16 ?hdr) = length xs" by simp
    show ?thesis
      using True 2 by (simp add: processing_reply_payload_def hdr sub Let_def l pay mem ProcessingSuccess_def ProcessingCRCError_def)
  qed
qed

theorem processing_message_check_witness:
  "\<not> (\<exists>buf'. processing_reply_payload (processing_message [1, 2, 3] @ []) (length [1, 2, 3 :: byte] + 4) [0, 0, 0]
      = Inr (ProcessingSuccess, buf', length [1, 2, 3 :: byte]))"
proof -
  have "\<not> unat (CRC16_Calc [1, 2, 3] 0xFFFF) < 512" by code_simp
  then show ?thesis
    using processing_message_check [of "[1, 2, 3]" "[0, 0, 0]" "[]"] by simp
qed

end
