(* ===== verification/Energy_Monitors.thy ===== *)
theory Energy_Monitors
  imports Signpost_Port
begin

text \<open>
  The board of the controller below its energy accounting: the three I2C selectors
  (\<open>libsignpost-tock/i2c_selector.c\<close>) and the coulomb counters behind them
  (\<open>libsignpost-tock/signpost_energy_monitors.c\<close>).

  The kernel is the environment: \<open>tock_rcs\<close> are the results its system calls will give (success past
  the end), \<open>upcalls\<close> the values of its coming callbacks, \<open>sys_log\<close> the calls made. The drivers of the
  counter chips are not part of the repository: \<open>charges\<close>, \<open>currents\<close>, \<open>voltages\<close> and \<open>socs\<close> are the
  values they will read, and \<open>chips\<close> their conversions. The kernel's alarm is a counter of ticks:
  \<open>alarms\<close> are its coming readings, and \<open>ms_of_ticks\<close> is the floating-point expression
  \<open>(uint32_t)((x*1.0/alarm_freq)*1000)\<close> for the frequency of the board.
\<close>

section \<open>The board\<close>

datatype ltc_model = LTC2941 | LTC2943

datatype board_call =
    Subscribe u32 | SelCommand u32 nat u32
  | LtcConfigure ltc_model u16 | LtcGetCharge | LtcGetCurrent | LtcGetVoltage | LtcResetCharge

record chips =
  convert_uah :: "int \<Rightarrow> int \<Rightarrow> u16 \<Rightarrow> ltc_model \<Rightarrow> int"
  convert_ua :: "int \<Rightarrow> int \<Rightarrow> int"
  convert_mv :: "int \<Rightarrow> u16"
  capacity_uwh :: "u16 \<Rightarrow> int"
  percentage_mp :: "u16 \<Rightarrow> int"
  battery_ua :: "int \<Rightarrow> int"
  battery_mv :: "u16 \<Rightarrow> u16"
  enodevice :: int
  ms_of_ticks :: "u32 \<Rightarrow> u32"

record board =
  tock_rcs :: "int list"
  upcalls :: "int list"
  sys_log :: "board_call list"
  sel_fired :: bool
  sel_value :: int
  charges :: "int list"
  currents :: "int list"
  voltages :: "int list"
  socs :: "(int \<times> u16 \<times> u16 \<times> u16) list"
  volt_currents :: "(u16 \<times> int) list"
  alarms :: "u32 list"
  ltc_model :: ltc_model
  prescaler :: u16

definition call :: "board_call \<Rightarrow> board \<Rightarrow> board" where
  "call c b = b\<lparr>sys_log := sys_log b @ [c]\<rparr>"

definition syscall :: "board_call \<Rightarrow> board \<Rightarrow> int \<times> board" where
  "syscall c b = (let (rc, rcs) = pop 0 (tock_rcs b) in (rc, call c (b\<lparr>tock_rcs := rcs\<rparr>)))"

definition alarm_read :: "board \<Rightarrow> u32 \<times> board" where
  "alarm_read b = (let (t, rest) = pop 0 (alarms b) in (t, b\<lparr>alarms := rest\<rparr>))"

section \<open>Selectors\<close>

definition DRIVER_NUM_I2C_SELECTOR_0 :: u32 where "DRIVER_NUM_I2C_SELECTOR_0 = 0x00080002"
definition DRIVER_NUM_I2C_SELECTOR_1 :: u32 where "DRIVER_NUM_I2C_SELECTOR_1 = 0x00081002"
definition DRIVER_NUM_I2C_SELECTOR_2 :: u32 where "DRIVER_NUM_I2C_SELECTOR_2 = 0x00082002"

text \<open>The four operations choose the driver by the selector's number.\<close>

definition selector_call :: "chips \<Rightarrow> nat \<Rightarrow> (u32 \<Rightarrow> board_call) \<Rightarrow> board \<Rightarrow> int \<times> board" where
  "selector_call ch n c b =
     (if n = 0 then syscall (c DRIVER_NUM_I2C_SELECTOR_0) b
      else if n = 1 then syscall (c DRIVER_NUM_I2C_SELECTOR_1) b
      else if n = 2 then syscall (c DRIVER_NUM_I2C_SELECTOR_2) b
      else (enodevice ch, b))"

definition i2c_selector_cb :: "int \<Rightarrow> board \<Rightarrow> board" where
  "i2c_selector_cb value b = b\<lparr>sel_value := value, sel_fired := True\<rparr>"

definition i2c_selector_set_callback :: "chips \<Rightarrow> nat \<Rightarrow> board \<Rightarrow> int \<times> board" where
  "i2c_selector_set_callback ch n = selector_call ch n Subscribe"

definition i2c_selector_select_channels :: "chips \<Rightarrow> nat \<Rightarrow> u32 \<Rightarrow> board \<Rightarrow> int \<times> board" where
  "i2c_selector_select_channels ch n channels = selector_call ch n (\<lambda>d. SelCommand d 1 (channels AND 0xF))"

definition i2c_selector_disable_all_channels :: "chips \<Rightarrow> nat \<Rightarrow> board \<Rightarrow> int \<times> board" where
  "i2c_selector_disable_all_channels ch n = selector_call ch n (\<lambda>d. SelCommand d 2 0)"

definition i2c_selector_read_interrupts :: "chips \<Rightarrow> nat \<Rightarrow> board \<Rightarrow> int \<times> board" where
  "i2c_selector_read_interrupts ch n = selector_call ch n (\<lambda>d. SelCommand d 3 0)"

definition i2c_selector_read_selected :: "chips \<Rightarrow> nat \<Rightarrow> board \<Rightarrow> int \<times> board" where
  "i2c_selector_read_selected ch n = selector_call ch n (\<lambda>d. SelCommand d 3 0)"

text \<open>\<open>yield_for\<close> waits for a callback unless the flag is set.\<close>

definition yield_for_fired :: "board \<Rightarrow> fault + board" where
  "yield_for_fired b =
     (if sel_fired b then Inr b
      else case upcalls b of
             [] \<Rightarrow> Inl Blocked
           | v # vs \<Rightarrow> Inr (i2c_selector_cb v (b\<lparr>upcalls := vs\<rparr>)))"

text \<open>
  The synchronous operations first subscribe to the three selectors, then command one after the
  other; the value of each answer is kept. The result is an error code and the values so far.
\<close>

fun subscribe_selectors :: "chips \<Rightarrow> nat list \<Rightarrow> board \<Rightarrow> int \<times> board" where
  "subscribe_selectors ch [] b = (0, b)"
| "subscribe_selectors ch (n # ns) b =
     (let (err, b') = i2c_selector_set_callback ch n b
      in if err < 0 then (err, b') else subscribe_selectors ch ns b')"

fun command_selectors ::
  "(nat \<Rightarrow> board \<Rightarrow> int \<times> board) \<Rightarrow> nat list \<Rightarrow> board \<Rightarrow> fault + (int \<times> int list) \<times> board" where
  "command_selectors op [] b = Inr ((0, []), b)"
| "command_selectors op (n # ns) b =
     (let (err, b1) = op n (b\<lparr>sel_fired := False\<rparr>)
      in if err < 0 then Inr ((err, []), b1)
         else andthen (yield_for_fired b1) (\<lambda>b2.
              andthen (command_selectors op ns b2) (\<lambda>((err', vs), b3). Inr ((err', sel_value b2 # vs), b3))))"

definition selectors_sync ::
  "chips \<Rightarrow> (nat \<Rightarrow> board \<Rightarrow> int \<times> board) \<Rightarrow> board \<Rightarrow> fault + (int \<times> int list) \<times> board" where
  "selectors_sync ch op b =
     (let (err, b1) = subscribe_selectors ch [0, 1, 2] (b\<lparr>sel_fired := False\<rparr>)
      in if err < 0 then Inr ((err, []), b1) else command_selectors op [0, 1, 2] b1)"

definition i2c_selector_select_channels_sync :: "chips \<Rightarrow> u32 \<Rightarrow> board \<Rightarrow> fault + int \<times> board" where
  "i2c_selector_select_channels_sync ch channels b =
     andthen (selectors_sync ch (\<lambda>n. i2c_selector_select_channels ch n (drop_bit (4 * n) channels)) b)
       (\<lambda>((err, _), b'). Inr (err, b'))"

definition i2c_selector_disable_all_channels_sync :: "chips \<Rightarrow> board \<Rightarrow> fault + int \<times> board" where
  "i2c_selector_disable_all_channels_sync ch b =
     andthen (selectors_sync ch (i2c_selector_disable_all_channels ch) b) (\<lambda>((err, _), b'). Inr (err, b'))"

definition combined_value :: "int \<times> int list \<Rightarrow> int" where
  "combined_value r =
     (case r of
        (err, [v0, v1, v2]) \<Rightarrow> v0 OR push_bit 4 v1 OR push_bit 8 v2
      | (err, _) \<Rightarrow> err)"

definition i2c_selector_read_interrupts_sync :: "chips \<Rightarrow> board \<Rightarrow> fault + int \<times> board" where
  "i2c_selector_read_interrupts_sync ch b =
     andthen (selectors_sync ch (i2c_selector_read_interrupts ch) b) (\<lambda>(r, b'). Inr (combined_value r, b'))"

definition i2c_selector_read_selected_sync :: "chips \<Rightarrow> board \<Rightarrow> fault + int \<times> board" where
  "i2c_selector_read_selected_sync ch b =
     andthen (selectors_sync ch (i2c_selector_read_selected ch) b) (\<lambda>(r, b'). Inr (combined_value r, b'))"

section \<open>Coulomb counters\<close>

definition module_num_to_selector_mask :: "u32 list" where
  "module_num_to_selector_mask = [0x4, 0x8, 0x10, 0, 0, 0x20, 0x40, 0x80]"

definition POWER_MODULE_PRESCALER_LTC2941 :: u16 where "POWER_MODULE_PRESCALER_LTC2941 = 32"
definition POWER_MODULE_PRESCALER_LTC2943 :: u16 where "POWER_MODULE_PRESCALER_LTC2943 = 64"
definition POWER_MODULE_RSENSE_MOHM :: int where "POWER_MODULE_RSENSE_MOHM = 17"
definition POWER_MODULE_SOLAR_RSENSE_MOHM :: int where "POWER_MODULE_SOLAR_RSENSE_MOHM = 50"

text \<open>Most callers drop the error code of the selection.\<close>

definition select_mask :: "chips \<Rightarrow> u32 \<Rightarrow> board \<Rightarrow> fault + board" where
  "select_mask ch sel_mask b = andthen (i2c_selector_select_channels_sync ch sel_mask b) (\<lambda>(_, b'). Inr b')"

fun configure_ltcs :: "chips \<Rightarrow> ltc_model \<Rightarrow> u16 \<Rightarrow> nat list \<Rightarrow> board \<Rightarrow> fault + board" where
  "configure_ltcs ch m p [] b = Inr b"
| "configure_ltcs ch m p (i # is) b =
     andthen (select_mask ch (push_bit i 1) b) (\<lambda>b1. configure_ltcs ch m p is (call (LtcConfigure m p) b1))"

definition signpost_energy_init_ltc2941 :: "chips \<Rightarrow> board \<Rightarrow> fault + board" where
  "signpost_energy_init_ltc2941 ch b =
     andthen (configure_ltcs ch LTC2941 POWER_MODULE_PRESCALER_LTC2941 [0..<8] b) (\<lambda>b1.
     select_mask ch 0xFF (b1\<lparr>ltc_model := LTC2941, prescaler := POWER_MODULE_PRESCALER_LTC2941\<rparr>))"

definition signpost_energy_init_ltc2943 :: "chips \<Rightarrow> board \<Rightarrow> fault + board" where
  "signpost_energy_init_ltc2943 ch b =
     andthen (configure_ltcs ch LTC2943 POWER_MODULE_PRESCALER_LTC2943 [0..<9] b) (\<lambda>b1.
     select_mask ch 0x1FF (b1\<lparr>ltc_model := LTC2943, prescaler := POWER_MODULE_PRESCALER_LTC2943\<rparr>))"

definition get_ltc_energy_uah :: "chips \<Rightarrow> u32 \<Rightarrow> int \<Rightarrow> board \<Rightarrow> fault + int \<times> board" where
  "get_ltc_energy_uah ch selector_mask rsense b =
     andthen (select_mask ch selector_mask b) (\<lambda>b1.
       let (charge, rest) = pop 0 (charges b1)
       in Inr (convert_uah ch charge rsense (prescaler b1) (ltc_model b1), call LtcGetCharge (b1\<lparr>charges := rest\<rparr>)))"

definition get_ltc_current_ua :: "chips \<Rightarrow> u32 \<Rightarrow> int \<Rightarrow> board \<Rightarrow> fault + int \<times> board" where
  "get_ltc_current_ua ch selector_mask rsense b =
     andthen (select_mask ch selector_mask b) (\<lambda>b1.
       let (current, rest) = pop 0 (currents b1)
       in Inr (convert_ua ch current rsense, call LtcGetCurrent (b1\<lparr>currents := rest\<rparr>)))"

definition reset_ltc_energy :: "chips \<Rightarrow> u32 \<Rightarrow> board \<Rightarrow> fault + board" where
  "reset_ltc_energy ch selector_mask b =
     andthen (select_mask ch selector_mask b) (\<lambda>b1. Inr (call LtcResetCharge b1))"

definition module_mask :: "int \<Rightarrow> fault + u32" where
  "module_mask n =
     (if 0 \<le> n \<and> n < 8 then Inr (module_num_to_selector_mask ! nat n) else Inl OutOfBounds)"

definition signpost_energy_reset_controller_energy :: "chips \<Rightarrow> board \<Rightarrow> fault + board" where
  "signpost_energy_reset_controller_energy ch = reset_ltc_energy ch 0x1"

definition signpost_energy_reset_solar_energy :: "chips \<Rightarrow> board \<Rightarrow> fault + board" where
  "signpost_energy_reset_solar_energy ch = reset_ltc_energy ch 0x100"

definition signpost_energy_reset_linux_energy :: "chips \<Rightarrow> board \<Rightarrow> fault + board" where
  "signpost_energy_reset_linux_energy ch = reset_ltc_energy ch 0x2"

definition signpost_energy_reset_module_energy :: "chips \<Rightarrow> int \<Rightarrow> board \<Rightarrow> fault + board" where
  "signpost_energy_reset_module_energy ch module_num b =
     (if module_num \<noteq> 3 \<and> module_num \<noteq> 4
      then andthen (module_mask module_num) (\<lambda>sel_mask. reset_ltc_energy ch sel_mask b)
      else Inr b)"

fun reset_modules :: "chips \<Rightarrow> nat list \<Rightarrow> board \<Rightarrow> fault + board" where
  "reset_modules ch [] b = Inr b"
| "reset_modules ch (i # is) b =
     andthen (signpost_energy_reset_module_energy ch (int i) b) (reset_modules ch is)"

definition signpost_energy_reset_all_energy :: "chips \<Rightarrow> board \<Rightarrow> fault + board" where
  "signpost_energy_reset_all_energy ch b =
     andthen (signpost_energy_reset_controller_energy ch b) (\<lambda>b1.
     andthen (signpost_energy_reset_solar_energy ch b1) (\<lambda>b2.
     andthen (signpost_energy_reset_linux_energy ch b2) (\<lambda>b3.
     reset_modules ch [0..<8] b3)))"

text \<open>
  Energies are \<open>uint32_t\<close>. The product with the controller's voltage of 3.3 is computed in double
  precision and truncated; for the non-negative 32-bit charges it is the integer quotient.
\<close>

definition scaled_energy :: "(int \<Rightarrow> int) \<Rightarrow> fault + int \<times> board \<Rightarrow> fault + u32 \<times> board" where
  "scaled_energy f r = andthen r (\<lambda>(uah, b). Inr (word_of_int (f uah), b))"

definition signpost_energy_get_controller_energy_uwh :: "chips \<Rightarrow> board \<Rightarrow> fault + u32 \<times> board" where
  "signpost_energy_get_controller_energy_uwh ch b =
     scaled_energy (\<lambda>uah. 33 * uah div 10) (get_ltc_energy_uah ch 0x1 POWER_MODULE_RSENSE_MOHM b)"

definition signpost_energy_get_linux_energy_uwh :: "chips \<Rightarrow> board \<Rightarrow> fault + u32 \<times> board" where
  "signpost_energy_get_linux_energy_uwh ch b =
     scaled_energy (\<lambda>uah. uah * 5) (get_ltc_energy_uah ch 0x2 POWER_MODULE_RSENSE_MOHM b)"

definition signpost_energy_get_solar_energy_uwh :: "chips \<Rightarrow> board \<Rightarrow> fault + u32 \<times> board" where
  "signpost_energy_get_solar_energy_uwh ch b =
     scaled_energy (\<lambda>uah. uah * 17) (get_ltc_energy_uah ch 0x100 POWER_MODULE_SOLAR_RSENSE_MOHM b)"

definition signpost_energy_get_module_energy_uwh :: "chips \<Rightarrow> int \<Rightarrow> board \<Rightarrow> fault + u32 \<times> board" where
  "signpost_energy_get_module_energy_uwh ch module_num b =
     andthen (module_mask module_num) (\<lambda>sel_mask.
     scaled_energy (\<lambda>uah. uah * 5) (get_ltc_energy_uah ch sel_mask POWER_MODULE_RSENSE_MOHM b))"

definition scaled_current :: "fault + int \<times> board \<Rightarrow> fault + u32 \<times> board" where
  "scaled_current r = andthen r (\<lambda>(ua, b). Inr (word_of_int ua, b))"

definition signpost_energy_get_controller_current_ua :: "chips \<Rightarrow> board \<Rightarrow> fault + u32 \<times> board" where
  "signpost_energy_get_controller_current_ua ch b = scaled_current (get_ltc_current_ua ch 0x1 POWER_MODULE_RSENSE_MOHM b)"

definition signpost_energy_get_linux_current_ua :: "chips \<Rightarrow> board \<Rightarrow> fault + u32 \<times> board" where
  "signpost_energy_get_linux_current_ua ch b = scaled_current (get_ltc_current_ua ch 0x2 POWER_MODULE_RSENSE_MOHM b)"

definition signpost_energy_get_module_current_ua :: "chips \<Rightarrow> int \<Rightarrow> board \<Rightarrow> fault + u32 \<times> board" where
  "signpost_energy_get_module_current_ua ch module_num b =
     andthen (module_mask module_num) (\<lambda>sel_mask.
     scaled_current (get_ltc_current_ua ch sel_mask POWER_MODULE_RSENSE_MOHM b))"

definition signpost_energy_get_solar_current_ua :: "chips \<Rightarrow> board \<Rightarrow> fault + u32 \<times> board" where
  "signpost_energy_get_solar_current_ua ch b = scaled_current (get_ltc_current_ua ch 0x100 POWER_MODULE_SOLAR_RSENSE_MOHM b)"

definition signpost_energy_get_battery_current_ua :: "chips \<Rightarrow> board \<Rightarrow> int \<times> board" where
  "signpost_energy_get_battery_current_ua ch b =
     (let ((_, current), rest) = pop (0, 0) (volt_currents b) in (battery_ua ch current, b\<lparr>volt_currents := rest\<rparr>))"

definition signpost_energy_get_battery_voltage_mv :: "chips \<Rightarrow> board \<Rightarrow> u16 \<times> board" where
  "signpost_energy_get_battery_voltage_mv ch b =
     (let ((voltage, _), rest) = pop (0, 0) (volt_currents b) in (battery_mv ch voltage, b\<lparr>volt_currents := rest\<rparr>))"

definition signpost_energy_get_solar_voltage_mv :: "chips \<Rightarrow> board \<Rightarrow> fault + u16 \<times> board" where
  "signpost_energy_get_solar_voltage_mv ch b =
     andthen (select_mask ch 0x100 b) (\<lambda>b1.
       let (voltage, rest) = pop 0 (voltages b1)
       in Inr (convert_mv ch voltage, call LtcGetVoltage (b1\<lparr>voltages := rest\<rparr>)))"

text \<open>The battery's fuel gauge; a negative result is its error code.\<close>

definition read_soc :: "(u16 \<Rightarrow> u16 \<Rightarrow> u16 \<Rightarrow> int) \<Rightarrow> board \<Rightarrow> int \<times> board" where
  "read_soc f b =
     (let ((rc, percent, charge, full), rest) = pop (0, 0, 0, 0) (socs b)
      in (if rc < 0 then rc else f percent charge full, b\<lparr>socs := rest\<rparr>))"

definition signpost_energy_get_battery_capacity_uwh :: "chips \<Rightarrow> board \<Rightarrow> int \<times> board" where
  "signpost_energy_get_battery_capacity_uwh ch = read_soc (\<lambda>percent charge full. capacity_uwh ch full)"

definition signpost_energy_get_battery_percent_mp :: "chips \<Rightarrow> board \<Rightarrow> int \<times> board" where
  "signpost_energy_get_battery_percent_mp ch = read_soc (\<lambda>percent charge full. percentage_mp ch percent)"

definition signpost_energy_get_battery_energy_uwh :: "chips \<Rightarrow> board \<Rightarrow> int \<times> board" where
  "signpost_energy_get_battery_energy_uwh ch = read_soc (\<lambda>percent charge full. capacity_uwh ch charge)"

end
