(* ===== verification/Energy_Policy.thy ===== *)
theory Energy_Policy
  imports Energy_Monitors Signpost_Api
begin

text \<open>
  The energy accounting of the controller, \<open>libsignpost-tock/signpost_energy_policy.c\<close>: every module
  has a share of the battery's energy that its consumption is taken from and that surplus energy is
  spread over. The statics of the file are the record \<open>policy\<close>.

  \<open>int\<close> quantities are integers here; the amounts (microwatt-hours of a battery of 96 Wh) stay far below
  \<open>2 ^ 31\<close>. Times are 32-bit words and wrap. The floating-point constants are computed: the products
  \<open>8690000*11.1*0.4\<close>, \<open>8690000*11.1*0.1\<close> and \<open>4000000*11.1\<close> are exact in double precision, and so are the
  truncated products of an \<open>int\<close> with 0.4 and 0.1.
\<close>

section \<open>State\<close>

record energy_remaining =
  controller_energy_remaining :: int
  module_energy_remaining :: "int list"

record energy_used =
  controller_energy_used :: int
  linux_energy_used :: int
  module_energy_used :: "int list"

record energy_average =
  controller_energy_average :: int
  linux_energy_average :: int
  module_energy_average :: "int list"

record time_since_reset =
  controller_time_since_reset :: u32
  linux_time_since_reset :: u32
  module_time_since_reset :: "u32 list"

record reset_start_time =
  controller_energy_reset_start_time :: u32
  linux_energy_reset_start_time :: u32
  module_energy_reset_start_time :: "u32 list"

record policy =
  remaining :: energy_remaining
  used :: energy_used
  average :: energy_average
  virtual_average :: energy_average
  since_reset :: time_since_reset
  start_time :: reset_start_time
  battery_last_energy_remaining :: int
  battery_energy_remaining :: int
  last_energy_update_time :: u32
  debug_backplane :: bool

definition policy_boot :: policy where
  "policy_boot = \<lparr>remaining = \<lparr>controller_energy_remaining = 0, module_energy_remaining = replicate 8 0\<rparr>,
     used = \<lparr>controller_energy_used = 0, linux_energy_used = 0, module_energy_used = replicate 8 0\<rparr>,
     average = \<lparr>controller_energy_average = 0, linux_energy_average = 0, module_energy_average = replicate 8 0\<rparr>,
     virtual_average = \<lparr>controller_energy_average = 0, linux_energy_average = 0, module_energy_average = replicate 8 0\<rparr>,
     since_reset = \<lparr>controller_time_since_reset = 0, linux_time_since_reset = 0, module_time_since_reset = replicate 8 0\<rparr>,
     start_time = \<lparr>controller_energy_reset_start_time = 0, linux_energy_reset_start_time = 0,
       module_energy_reset_start_time = replicate 8 0\<rparr>,
     battery_last_energy_remaining = 0, battery_energy_remaining = 0, last_energy_update_time = 0,
     debug_backplane = False\<rparr>"

definition policy_wf :: "policy \<Rightarrow> bool" where
  "policy_wf p \<longleftrightarrow> length (module_energy_remaining (remaining p)) = 8 \<and> length (module_energy_used (used p)) = 8
     \<and> length (module_energy_average (average p)) = 8 \<and> length (module_energy_average (virtual_average p)) = 8
     \<and> length (module_time_since_reset (since_reset p)) = 8
     \<and> length (module_energy_reset_start_time (start_time p)) = 8"

definition MAX_CONTROLLER_ENERGY_REMAINING :: int where "MAX_CONTROLLER_ENERGY_REMAINING = 38583600"
definition MAX_MODULE_ENERGY_REMAINING :: int where "MAX_MODULE_ENERGY_REMAINING = 9645900"
definition DEBUG_BACKPLANE_BATTERY_START :: int where "DEBUG_BACKPLANE_BATTERY_START = 44400000"

text \<open>Slots 3 (the controller itself) and 4 (storage) have no counter of their own.\<close>

definition metered :: "nat \<Rightarrow> bool" where
  "metered i \<longleftrightarrow> i \<noteq> 3 \<and> i \<noteq> 4"

definition metered_slots :: "nat list" where
  "metered_slots = filter metered [0..<8]"

text \<open>\<open>(int)(x * 0.4)\<close> and \<open>(int)(x * 0.1)\<close> truncate towards zero.\<close>

definition share_controller :: "int \<Rightarrow> int" where "share_controller x = (2 * x) sdiv 5"
definition share_module :: "int \<Rightarrow> int" where "share_module x = x sdiv 10"

section \<open>Reading and resetting\<close>

definition signpost_energy_policy_get_controller_energy_remaining_uwh :: "chips \<Rightarrow> policy \<Rightarrow> board \<Rightarrow> fault + int \<times> board" where
  "signpost_energy_policy_get_controller_energy_remaining_uwh ch p b =
     andthen (signpost_energy_get_controller_energy_uwh ch b) (\<lambda>(e, b').
     Inr (sint (word_of_int (controller_energy_remaining (remaining p)) - e), b'))"

definition slot :: "'a list \<Rightarrow> int \<Rightarrow> fault + 'a" where
  "slot xs n = (if 0 \<le> n \<and> n < int (length xs) then Inr (xs ! nat n) else Inl OutOfBounds)"

definition signpost_energy_policy_get_module_energy_remaining_uwh :: "chips \<Rightarrow> int \<Rightarrow> policy \<Rightarrow> board \<Rightarrow> fault + int \<times> board" where
  "signpost_energy_policy_get_module_energy_remaining_uwh ch n p b =
     andthen (slot (module_energy_remaining (remaining p)) n) (\<lambda>r.
     andthen (signpost_energy_get_module_energy_uwh ch n b) (\<lambda>(e, b').
     Inr (sint (word_of_int r - e), b')))"

definition signpost_energy_policy_get_battery_energy_remaining_uwh :: "policy \<Rightarrow> int" where
  "signpost_energy_policy_get_battery_energy_remaining_uwh p = battery_energy_remaining p"

text \<open>The sum is unsigned; as an \<open>int\<close> it is cut at zero.\<close>

definition used_energy :: "int \<Rightarrow> u32 \<Rightarrow> int" where
  "used_energy u e = (let energy = sint (word_of_int u + e) in if energy < 0 then 0 else energy)"

definition signpost_energy_policy_get_controller_energy_used_uwh :: "chips \<Rightarrow> policy \<Rightarrow> board \<Rightarrow> fault + int \<times> board" where
  "signpost_energy_policy_get_controller_energy_used_uwh ch p b =
     andthen (signpost_energy_get_controller_energy_uwh ch b) (\<lambda>(e, b').
     Inr (used_energy (controller_energy_used (used p)) e, b'))"

definition signpost_energy_policy_get_linux_energy_used_uwh :: "chips \<Rightarrow> policy \<Rightarrow> board \<Rightarrow> fault + int \<times> board" where
  "signpost_energy_policy_get_linux_energy_used_uwh ch p b =
     andthen (signpost_energy_get_linux_energy_uwh ch b) (\<lambda>(e, b').
     Inr (used_energy (linux_energy_used (used p)) e, b'))"

definition signpost_energy_policy_get_module_energy_used_uwh :: "chips \<Rightarrow> int \<Rightarrow> policy \<Rightarrow> board \<Rightarrow> fault + int \<times> board" where
  "signpost_energy_policy_get_module_energy_used_uwh ch n p b =
     andthen (slot (module_energy_used (used p)) n) (\<lambda>u.
     andthen (signpost_energy_get_module_energy_uwh ch n b) (\<lambda>(e, b').
     Inr (used_energy u e, b')))"

definition signpost_energy_policy_get_controller_energy_average_uw :: "policy \<Rightarrow> int" where
  "signpost_energy_policy_get_controller_energy_average_uw p = controller_energy_average (average p)"

definition signpost_energy_policy_get_linux_energy_average_uw :: "policy \<Rightarrow> int" where
  "signpost_energy_policy_get_linux_energy_average_uw p = linux_energy_average (average p)"

definition signpost_energy_policy_get_module_energy_average_uw :: "int \<Rightarrow> policy \<Rightarrow> fault + int" where
  "signpost_energy_policy_get_module_energy_average_uw n p = slot (module_energy_average (average p)) n"

text \<open>
  A reset sets the used energy to the negative reading of the counter, which is not reset yet.
\<close>

definition signpost_energy_policy_reset_controller_energy_used :: "chips \<Rightarrow> policy \<Rightarrow> board \<Rightarrow> fault + policy \<times> board" where
  "signpost_energy_policy_reset_controller_energy_used ch p b =
     andthen (signpost_energy_get_controller_energy_uwh ch b) (\<lambda>(e, b1).
     let (t, b2) = alarm_read b1
     in Inr (p\<lparr>used := (used p)\<lparr>controller_energy_used := - sint e\<rparr>,
               since_reset := (since_reset p)\<lparr>controller_time_since_reset := 0\<rparr>,
               start_time := (start_time p)\<lparr>controller_energy_reset_start_time := t\<rparr>\<rparr>, b2))"

definition signpost_energy_policy_reset_linux_energy_used :: "chips \<Rightarrow> policy \<Rightarrow> board \<Rightarrow> fault + policy \<times> board" where
  "signpost_energy_policy_reset_linux_energy_used ch p b =
     andthen (signpost_energy_get_linux_energy_uwh ch b) (\<lambda>(e, b1).
     let (t, b2) = alarm_read b1
     in Inr (p\<lparr>used := (used p)\<lparr>linux_energy_used := - sint e\<rparr>,
               since_reset := (since_reset p)\<lparr>linux_time_since_reset := 0\<rparr>,
               start_time := (start_time p)\<lparr>linux_energy_reset_start_time := t\<rparr>\<rparr>, b2))"

definition signpost_energy_policy_reset_module_energy_used :: "chips \<Rightarrow> int \<Rightarrow> policy \<Rightarrow> board \<Rightarrow> fault + policy \<times> board" where
  "signpost_energy_policy_reset_module_energy_used ch n p b =
     andthen (signpost_energy_get_module_energy_uwh ch n b) (\<lambda>(e, b1).
     let (t, b2) = alarm_read b1
     in Inr (p\<lparr>used := (used p)\<lparr>module_energy_used := (module_energy_used (used p))[nat n := - sint e]\<rparr>,
               since_reset := (since_reset p)\<lparr>module_time_since_reset := (module_time_since_reset (since_reset p))[nat n := 0]\<rparr>,
               start_time := (start_time p)\<lparr>module_energy_reset_start_time :=
                 (module_energy_reset_start_time (start_time p))[nat n := t]\<rparr>\<rparr>, b2))"

section \<open>Timers\<close>

text \<open>The ticks since a reading of the alarm; after a wrap of the alarm the count is one short.\<close>

definition elapsed_ticks :: "u32 \<Rightarrow> u32 \<Rightarrow> u32" where
  "elapsed_ticks since now = (if now < since then (0xFFFFFFFF - since) + now else now - since)"

definition calc_time_since_last_time_ms :: "chips \<Rightarrow> u32 \<Rightarrow> board \<Rightarrow> u32 \<times> board" where
  "calc_time_since_last_time_ms ch since b =
     (let (now, b') = alarm_read b in (ms_of_ticks ch (elapsed_ticks since now), b'))"

definition signpost_energy_policy_get_time_since_controller_reset_ms :: "chips \<Rightarrow> policy \<Rightarrow> board \<Rightarrow> u32 \<times> board" where
  "signpost_energy_policy_get_time_since_controller_reset_ms ch p b =
     (let (ms, b') = calc_time_since_last_time_ms ch (controller_energy_reset_start_time (start_time p)) b
      in (controller_time_since_reset (since_reset p) + ms, b'))"

definition signpost_energy_policy_get_time_since_linux_reset_ms :: "chips \<Rightarrow> policy \<Rightarrow> board \<Rightarrow> u32 \<times> board" where
  "signpost_energy_policy_get_time_since_linux_reset_ms ch p b =
     (let (ms, b') = calc_time_since_last_time_ms ch (linux_energy_reset_start_time (start_time p)) b
      in (linux_time_since_reset (since_reset p) + ms, b'))"

definition signpost_energy_policy_get_time_since_module_reset_ms :: "chips \<Rightarrow> int \<Rightarrow> policy \<Rightarrow> board \<Rightarrow> fault + u32 \<times> board" where
  "signpost_energy_policy_get_time_since_module_reset_ms ch n p b =
     andthen (slot (module_energy_reset_start_time (start_time p)) n) (\<lambda>st.
     andthen (slot (module_time_since_reset (since_reset p)) n) (\<lambda>t.
     let (ms, b') = calc_time_since_last_time_ms ch st b in Inr (t + ms, b')))"

fun update_module_timers :: "chips \<Rightarrow> nat list \<Rightarrow> policy \<Rightarrow> board \<Rightarrow> fault + policy \<times> board" where
  "update_module_timers ch [] p b = Inr (p, b)"
| "update_module_timers ch (i # is) p b =
     andthen (signpost_energy_policy_get_time_since_module_reset_ms ch (int i) p b) (\<lambda>(t, b1).
     let (now, b2) = alarm_read b1
     in update_module_timers ch is
          (p\<lparr>since_reset := (since_reset p)\<lparr>module_time_since_reset := (module_time_since_reset (since_reset p))[i := t]\<rparr>,
             start_time := (start_time p)\<lparr>module_energy_reset_start_time :=
               (module_energy_reset_start_time (start_time p))[i := now]\<rparr>\<rparr>) b2)"

definition signpost_energy_policy_reset_and_update_energy_timers :: "chips \<Rightarrow> policy \<Rightarrow> board \<Rightarrow> fault + policy \<times> board" where
  "signpost_energy_policy_reset_and_update_energy_timers ch p b =
     (let (t, b1) = signpost_energy_policy_get_time_since_controller_reset_ms ch p b;
          (now, b2) = alarm_read b1;
          p1 = p\<lparr>since_reset := (since_reset p)\<lparr>controller_time_since_reset := t\<rparr>,
                 start_time := (start_time p)\<lparr>controller_energy_reset_start_time := now\<rparr>\<rparr>;
          (t', b3) = signpost_energy_policy_get_time_since_linux_reset_ms ch p1 b2;
          (now', b4) = alarm_read b3;
          p2 = p1\<lparr>since_reset := (since_reset p1)\<lparr>linux_time_since_reset := t'\<rparr>,
                  start_time := (start_time p1)\<lparr>linux_energy_reset_start_time := now'\<rparr>\<rparr>
      in update_module_timers ch [0..<8] p2 b4)"

section \<open>Initialisation\<close>

fun reset_modules_used :: "chips \<Rightarrow> nat list \<Rightarrow> policy \<Rightarrow> board \<Rightarrow> fault + policy \<times> board" where
  "reset_modules_used ch [] p b = Inr (p, b)"
| "reset_modules_used ch (i # is) p b =
     andthen (signpost_energy_policy_reset_module_energy_used ch (int i) p b) (\<lambda>(p', b').
     reset_modules_used ch is p' b')"

definition initial_remaining :: "int \<Rightarrow> energy_remaining \<Rightarrow> energy_remaining" where
  "initial_remaining battery r = r\<lparr>controller_energy_remaining := share_controller battery,
     module_energy_remaining := map (\<lambda>i. if metered i then share_module battery else module_energy_remaining r ! i) [0..<8]\<rparr>"

definition no_average :: energy_average where
  "no_average = \<lparr>controller_energy_average = 0, linux_energy_average = 0, module_energy_average = replicate 8 0\<rparr>"

text \<open>
  Null arguments are \<open>None\<close>. A negative battery reading means a debug backplane: the saved values are
  ignored then.
\<close>

definition signpost_energy_policy_init ::
  "chips \<Rightarrow> energy_remaining option \<Rightarrow> energy_used option \<Rightarrow> time_since_reset option \<Rightarrow> policy \<Rightarrow> board
     \<Rightarrow> fault + policy \<times> board" where
  "signpost_energy_policy_init ch rem us ti p b =
     (let (battery, b1) = signpost_energy_get_battery_energy_uwh ch b;
          debug = battery < 0;
          saved_rem = (if debug then None else rem);
          saved_us = (if debug then None else us);
          saved_ti = (if debug then None else ti);
          bat = (if debug then DEBUG_BACKPLANE_BATTERY_START else battery);
          p1 = p\<lparr>battery_energy_remaining := bat, debug_backplane := debug,
                 remaining := (case saved_rem of None \<Rightarrow> initial_remaining bat (remaining p) | Some r \<Rightarrow> r)\<rparr>
      in andthen
           (case (saved_us, saved_ti) of
              (Some u, Some t) \<Rightarrow> Inr (p1\<lparr>used := u, since_reset := t\<rparr>, b1)
            | _ \<Rightarrow>
                andthen (signpost_energy_policy_reset_controller_energy_used ch p1 b1) (\<lambda>(p2, b2).
                andthen (signpost_energy_policy_reset_linux_energy_used ch p2 b2) (\<lambda>(p3, b3).
                reset_modules_used ch metered_slots p3 b3)))
           (\<lambda>(p4, b4).
             andthen (signpost_energy_init_ltc2943 ch b4) (\<lambda>b5.
             andthen (signpost_energy_reset_all_energy ch b5) (\<lambda>b6.
             let (now, b7) = alarm_read b6
             in Inr (p4\<lparr>average := no_average, virtual_average := no_average,
                        battery_last_energy_remaining := bat, last_energy_update_time := now\<rparr>, b7)))))"

section \<open>Surplus\<close>

text \<open>
  One pass over the modules that can still take energy: each gets the share, what exceeds its
  capacity is spilled, and a full module takes no further part. The result has the remaining
  energies, the eligible modules, the spill and the number of modules that are not full.
\<close>

fun spill_pass :: "int \<Rightarrow> nat list \<Rightarrow> int list \<times> (nat \<Rightarrow> bool) \<times> int \<times> nat \<Rightarrow> int list \<times> (nat \<Rightarrow> bool) \<times> int \<times> nat" where
  "spill_pass share [] st = st"
| "spill_pass share (i # is) (rem, elig, spill, count) =
     (if \<not> metered i \<or> \<not> elig i then spill_pass share is (rem, elig, spill, count)
      else if rem ! i + share > MAX_MODULE_ENERGY_REMAINING
      then spill_pass share is (rem[i := MAX_MODULE_ENERGY_REMAINING], elig(i := False),
             spill + (rem ! i + share - MAX_MODULE_ENERGY_REMAINING), count)
      else spill_pass share is (rem[i := rem ! i + share], elig(i := True), spill, count + 1))"

text \<open>The facts that bound the loop: it ends as soon as no module spills, or none is left.\<close>

abbreviation takers :: "(nat \<Rightarrow> bool) \<Rightarrow> nat set" where
  "takers elig \<equiv> {i \<in> {..<8}. metered i \<and> elig i}"

lemma spill_pass_elig:
  "spill_pass share is (rem, elig, spill, count) = (rem', elig', spill', count') \<Longrightarrow>
   (\<forall>i. elig' i \<longrightarrow> elig i) \<and> (spill' = spill \<and> elig' = elig \<or> (\<exists>i\<in>set is. metered i \<and> elig i \<and> \<not> elig' i))"
proof (induction share "is" "(rem, elig, spill, count)" arbitrary: rem elig spill count rule: spill_pass.induct)
  case (2 share i "is" rem elig spill count)
  show ?case
  proof (cases "metered i \<and> elig i")
    case True
    then have e: "elig(i := True) = elig" using True by (auto simp: fun_eq_iff)
    show ?thesis
    proof (cases "rem ! i + share > MAX_MODULE_ENERGY_REMAINING")
      case over: True
      have "spill_pass share is (rem[i := MAX_MODULE_ENERGY_REMAINING], elig(i := False),
          spill + (rem ! i + share - MAX_MODULE_ENERGY_REMAINING), count) = (rem', elig', spill', count')"
        using 2(4) True over by simp
      from 2(2) [OF _ over this] True have *: "\<forall>j. elig' j \<longrightarrow> (elig(i := False)) j" by blast
      then have "\<not> elig' i" using fun_upd_same [of elig i False] by blast
      moreover have "\<forall>j. elig' j \<longrightarrow> elig j" using * by (auto simp: fun_upd_def split: if_splits)
      ultimately show ?thesis using True by auto
    next
      case False
      with 2(3) 2(4) True e show ?thesis by auto
    qed
  next
    case False
    with 2(1) 2(4) show ?thesis by auto
  qed
qed auto

function spill_loop :: "int \<Rightarrow> int \<Rightarrow> int list \<Rightarrow> (nat \<Rightarrow> bool) \<Rightarrow> int \<times> int list" where
  "spill_loop share ctl rem elig =
     (if share > 0
      then let (rem', elig', spill, count) = spill_pass share [0..<8] (rem, elig, 0, 0)
           in if count = 0 then (ctl + spill, rem')
              else spill_loop (spill div int count) ctl rem' elig'
      else (ctl, rem))"
  by pat_completeness auto
termination
proof (relation "measure (\<lambda>(share, ctl, rem, elig). if share > 0 then Suc (card (takers elig)) else 0)", goal_cases)
  case 1
  then show ?case by simp
next
  case (2 share ctl rem elig t rem' u elig' v spill count)
  then have p: "spill_pass share [0..<8] (rem, elig, 0, 0) = (rem', elig', spill, count)" by simp
  note f = spill_pass_elig [OF p]
  have sub: "takers elig' \<subseteq> takers elig" using f by auto
  show ?case
  proof (cases "spill div int count > 0")
    case True
    then have "spill \<noteq> 0" by auto
    then obtain i where "i < 8" "metered i" "elig i" "\<not> elig' i" using f by auto
    then have "takers elig' \<subset> takers elig" using sub by auto
    then have "card (takers elig') < card (takers elig)" by (rule psubset_card_mono [rotated]) simp
    then show ?thesis using True 2(1) by simp
  qed (use 2(1) in simp)
qed

declare spill_loop.simps [simp del]

definition distribute_surplus :: "int \<Rightarrow> energy_remaining \<Rightarrow> energy_remaining" where
  "distribute_surplus surplus r =
     (let ctl = controller_energy_remaining r + share_controller surplus;
          over = ctl > MAX_CONTROLLER_ENERGY_REMAINING;
          share = share_module surplus + (if over then (ctl - MAX_CONTROLLER_ENERGY_REMAINING) sdiv 6 else 0);
          (ctl', rem) = spill_loop share (if over then MAX_CONTROLLER_ENERGY_REMAINING else ctl)
                          (module_energy_remaining r) (\<lambda>_. True)
      in \<lparr>controller_energy_remaining = ctl', module_energy_remaining = rem\<rparr>)"

section \<open>The update\<close>

definition averaged :: "int \<Rightarrow> int \<Rightarrow> int \<Rightarrow> fault + int" where
  "averaged virt energy period =
     (if period = 0 then Inl DivisionByZero else Inr ((virt + energy) * (3600 sdiv period)))"

text \<open>Counter, average and virtual average of one module after the other.\<close>

fun read_modules :: "chips \<Rightarrow> int \<Rightarrow> nat list \<Rightarrow> int list \<Rightarrow> policy \<Rightarrow> board \<Rightarrow> fault + int list \<times> policy \<times> board" where
  "read_modules ch period [] energies p b = Inr (energies, p, b)"
| "read_modules ch period (i # is) energies p b =
     andthen (signpost_energy_get_module_energy_uwh ch (int i) b) (\<lambda>(e, b1).
     andthen (averaged (module_energy_average (virtual_average p) ! i) (sint e) period) (\<lambda>a.
     read_modules ch period is (energies[i := sint e])
       (p\<lparr>average := (average p)\<lparr>module_energy_average := (module_energy_average (average p))[i := a]\<rparr>,
          virtual_average := (virtual_average p)\<lparr>module_energy_average :=
            (module_energy_average (virtual_average p))[i := 0]\<rparr>\<rparr>) b1))"

definition read_counters :: "chips \<Rightarrow> int \<Rightarrow> policy \<Rightarrow> board \<Rightarrow> fault + (int \<times> int \<times> int list) \<times> policy \<times> board" where
  "read_counters ch period p b =
     andthen (signpost_energy_get_linux_energy_uwh ch b) (\<lambda>(l, b1).
     andthen (averaged (linux_energy_average (virtual_average p)) (sint l) period) (\<lambda>la.
     let p1 = p\<lparr>average := (average p)\<lparr>linux_energy_average := la\<rparr>,
                virtual_average := (virtual_average p)\<lparr>linux_energy_average := 0\<rparr>\<rparr>
     in andthen (signpost_energy_get_controller_energy_uwh ch b1) (\<lambda>(c, b2).
        andthen (averaged (controller_energy_average (virtual_average p1)) (sint c) period) (\<lambda>ca.
        let p2 = p1\<lparr>average := (average p1)\<lparr>controller_energy_average := ca\<rparr>,
                    virtual_average := (virtual_average p1)\<lparr>controller_energy_average := 0\<rparr>\<rparr>
        in andthen (read_modules ch period metered_slots (replicate 8 0) p2 b2) (\<lambda>(ms, p3, b3).
           Inr ((sint l, sint c, ms), p3, b3))))))"

text \<open>The slots without a counter keep their values.\<close>

definition charge_used :: "int \<Rightarrow> int \<Rightarrow> int list \<Rightarrow> energy_used \<Rightarrow> energy_used" where
  "charge_used l c ms u = \<lparr>controller_energy_used = controller_energy_used u + c,
     linux_energy_used = linux_energy_used u + l,
     module_energy_used = map (\<lambda>i. if metered i then module_energy_used u ! i + ms ! i else module_energy_used u ! i) [0..<8]\<rparr>"

definition charge_remaining :: "int \<Rightarrow> int \<Rightarrow> int list \<Rightarrow> energy_remaining \<Rightarrow> energy_remaining" where
  "charge_remaining l c ms r = \<lparr>controller_energy_remaining = controller_energy_remaining r - c - l,
     module_energy_remaining =
       map (\<lambda>i. if metered i then module_energy_remaining r ! i - ms ! i else module_energy_remaining r ! i) [0..<8]\<rparr>"

definition settle_battery :: "int \<Rightarrow> int \<Rightarrow> energy_remaining \<Rightarrow> energy_remaining" where
  "settle_battery battery_used drawn r =
     (if battery_used < drawn then distribute_surplus (drawn - battery_used) r
      else r\<lparr>controller_energy_remaining := controller_energy_remaining r - (battery_used - drawn)\<rparr>)"

definition signpost_energy_policy_update_energy :: "chips \<Rightarrow> policy \<Rightarrow> board \<Rightarrow> fault + policy \<times> board" where
  "signpost_energy_policy_update_energy ch p b =
     (let (ms, b1) = calc_time_since_last_time_ms ch (last_energy_update_time p) b;
          period = sint ms sdiv 1000;
          (now, b2) = alarm_read b1
      in andthen (read_counters ch period (p\<lparr>last_energy_update_time := now\<rparr>) b2) (\<lambda>((l, c, ms), p1, b3).
         let total_energy = l + c + sum_list (map ((!) ms) metered_slots);
             (bat, b4) = signpost_energy_get_battery_energy_uwh ch b3;
             battery = (if bat < 0 then battery_last_energy_remaining p1 - total_energy else bat)
         in andthen (signpost_energy_reset_all_energy ch b4) (\<lambda>b5.
            andthen (signpost_energy_policy_reset_and_update_energy_timers ch
                (p1\<lparr>battery_energy_remaining := battery, used := charge_used l c ms (used p1),
                    remaining := charge_remaining l c ms (remaining p1)\<rparr>) b5) (\<lambda>(p2, b6).
            let battery_used = battery_last_energy_remaining p2 - battery
            in Inr (p2\<lparr>battery_last_energy_remaining := battery,
                       remaining := settle_battery battery_used total_energy (remaining p2)\<rparr>, b6)))))"

section \<open>Reports\<close>

text \<open>
  A report moves energy from the module it names to the module that sent it. Each entry has an
  application id, which is a module's address, and an energy.
\<close>

definition move_energy :: "nat \<Rightarrow> int \<Rightarrow> policy \<Rightarrow> policy" where
  "move_energy n e p = p\<lparr>
     remaining := (remaining p)\<lparr>module_energy_remaining :=
       (module_energy_remaining (remaining p))[n := module_energy_remaining (remaining p) ! n - e]\<rparr>,
     used := (used p)\<lparr>module_energy_used := (module_energy_used (used p))[n := module_energy_used (used p) ! n + e]\<rparr>,
     virtual_average := (virtual_average p)\<lparr>module_energy_average :=
       (module_energy_average (virtual_average p))[n := module_energy_average (virtual_average p) ! n + e]\<rparr>\<rparr>"

definition move_controller_energy :: "int \<Rightarrow> policy \<Rightarrow> policy" where
  "move_controller_energy e p = p\<lparr>
     remaining := (remaining p)\<lparr>controller_energy_remaining := controller_energy_remaining (remaining p) - e\<rparr>,
     used := (used p)\<lparr>controller_energy_used := controller_energy_used (used p) + e\<rparr>,
     virtual_average := (virtual_average p)\<lparr>controller_energy_average := controller_energy_average (virtual_average p) + e\<rparr>\<rparr>"

fun signpost_energy_policy_update_energy_from_report ::
  "module_state \<Rightarrow> byte \<Rightarrow> (u16 \<times> u32) list \<Rightarrow> policy \<Rightarrow> fault + policy" where
  "signpost_energy_policy_update_energy_from_report mi src [] p = Inr p"
| "signpost_energy_policy_update_energy_from_report mi src ((application_id, energy_used_uWh) # reports) p =
     (let mod_num = unat (word_of_int (signpost_api_appid_to_mod_num mi application_id) :: byte);
          e = int (unat energy_used_uWh)
      in if energy_used_uWh > 100000 then signpost_energy_policy_update_energy_from_report mi src reports p
         else if mod_num \<ge> 8 \<or> unat src \<ge> 8 then Inl OutOfBounds
         else signpost_energy_policy_update_energy_from_report mi src reports
                (move_energy (unat src) (- e)
                   (if mod_num = 3 then move_controller_energy e p else move_energy mod_num e p)))"

definition signpost_energy_policy_copy_internal_state ::
  "policy \<Rightarrow> energy_remaining \<times> energy_used \<times> time_since_reset" where
  "signpost_energy_policy_copy_internal_state p = (remaining p, used p, since_reset p)"

end
