(* ===== verification/Energy_Accounting.thy ===== *)
theory Energy_Accounting
  imports Energy_Policy
begin

text \<open>
  Properties of the energy accounting: distributing a surplus neither creates energy nor fills a
  module beyond its capacity, an update keeps the sum of the shares in step with the battery, and a
  report only moves energy between shares.
\<close>

section \<open>Distributing a surplus\<close>

abbreviation n_takers :: "nat list \<Rightarrow> (nat \<Rightarrow> bool) \<Rightarrow> nat" where
  "n_takers is elig \<equiv> length (filter (\<lambda>i. metered i \<and> elig i) is)"

lemma sum_list_update_int:
  "i < length xs \<Longrightarrow> sum_list (xs[i := x]) = sum_list xs + x - (xs ! i :: int)"
  by (induction xs arbitrary: i) (auto split: nat.split)

lemma n_takers_upd: "i \<notin> set is \<Longrightarrow> n_takers is (elig(i := b)) = n_takers is elig"
  by (rule arg_cong [where f = length], rule filter_cong) auto

text \<open>What one pass does: energy is shared or spilled, never lost, and only eligible modules change.\<close>

definition pass_ok :: "int \<Rightarrow> nat list \<Rightarrow> int list \<times> (nat \<Rightarrow> bool) \<times> int \<times> nat \<Rightarrow> int list \<times> (nat \<Rightarrow> bool) \<times> int \<times> nat \<Rightarrow> bool" where
  "pass_ok share is st st' \<longleftrightarrow> (case (st, st') of ((rem, elig, spill, count), (rem', elig', spill', count')) \<Rightarrow>
     length rem' = length rem
     \<and> sum_list rem' + spill' = sum_list rem + spill + share * int (n_takers is elig)
     \<and> count' = count + n_takers is elig'
     \<and> (\<forall>i. i \<notin> set is \<longrightarrow> elig' i = elig i) \<and> (\<forall>i. elig' i \<longrightarrow> elig i) \<and> spill \<le> spill'
     \<and> (\<forall>i. i \<notin> set is \<or> \<not> metered i \<longrightarrow> rem' ! i = rem ! i)
     \<and> (\<forall>i<length rem. rem ! i \<le> MAX_MODULE_ENERGY_REMAINING \<longrightarrow>
          rem ! i \<le> rem' ! i \<and> rem' ! i \<le> MAX_MODULE_ENERGY_REMAINING))"

lemma spill_pass_ok:
  "distinct is \<Longrightarrow> \<forall>i\<in>set is. i < length rem \<Longrightarrow> 0 < share \<Longrightarrow>
   pass_ok share is (rem, elig, spill, count) (spill_pass share is (rem, elig, spill, count))"
proof (induction "is" arbitrary: rem elig spill count)
  case Nil
  then show ?case by (simp add: pass_ok_def)
next
  case (Cons j js)
  have j: "j \<notin> set js" "j < length rem" "distinct js" "\<forall>i\<in>set js. i < length rem" using Cons.prems by auto
  obtain rem' elig' spill' count' where r: "spill_pass share (j # js) (rem, elig, spill, count) = (rem', elig', spill', count')"
    by (metis prod_cases4)
  consider "\<not> metered j \<or> \<not> elig j" | "metered j \<and> elig j" "rem ! j + share > MAX_MODULE_ENERGY_REMAINING"
    | "metered j \<and> elig j" "\<not> rem ! j + share > MAX_MODULE_ENERGY_REMAINING" by blast
  then show ?case
  proof cases
    case 1
    have "pass_ok share js (rem, elig, spill, count) (rem', elig', spill', count')"
      using Cons.IH [OF j(3,4) Cons.prems(3)] r 1 by (metis (full_types) spill_pass.simps(2))
    then show ?thesis unfolding r using 1 j(1) by (auto simp: pass_ok_def)
  next
    case 2
    let ?rem = "rem[j := MAX_MODULE_ENERGY_REMAINING]" and ?elig = "elig(j := False)"
      and ?spill = "spill + (rem ! j + share - MAX_MODULE_ENERGY_REMAINING)"
    have p: "spill_pass share js (?rem, ?elig, ?spill, count) = (rem', elig', spill', count')" using r 2 by simp
    have "pass_ok share js (?rem, ?elig, ?spill, count) (spill_pass share js (?rem, ?elig, ?spill, count))"
      by (rule Cons.IH) (use j(3,4) Cons.prems(3) in simp_all)
    note ok = this [unfolded p pass_ok_def prod.case n_takers_upd [OF j(1), of elig False]]
    moreover have "\<not> elig' j" "rem' ! j = MAX_MODULE_ENERGY_REMAINING"
      using ok j(1,2) by auto
    ultimately show ?thesis
      unfolding r using 2 j(1,2) Cons.prems(3)
      by (auto simp: pass_ok_def sum_list_update_int nth_list_update algebra_simps split: if_splits)
  next
    case 3
    then have e: "elig(j := True) = elig" by (auto simp: fun_eq_iff)
    let ?rem = "rem[j := rem ! j + share]"
    have "pass_ok share js (?rem, elig, spill, count + 1) (rem', elig', spill', count')"
      using Cons.IH [of ?rem elig spill "count + 1"] j(3,4) Cons.prems(3) r 3 e by simp
    moreover have "elig' j" "rem' ! j = rem ! j + share"
      using calculation 3 j(1,2) by (auto simp: pass_ok_def)
    ultimately show ?thesis
      unfolding r using 3 j(1,2) Cons.prems(3)
      by (auto simp: pass_ok_def sum_list_update_int nth_list_update algebra_simps split: if_splits)
  qed
qed


text \<open>
  The loop: what it adds to the shares is the surplus, up to the remainders of the divisions. With
  \<open>n\<close> takers at most \<open>n - 2\<close>, \<open>n - 3\<close>, ... units are lost.
\<close>

fun rounding_loss :: "nat \<Rightarrow> nat" where
  "rounding_loss 0 = 0"
| "rounding_loss (Suc n) = rounding_loss n + (n - 1)"

lemma rounding_loss_mono: "m \<le> n \<Longrightarrow> rounding_loss m \<le> rounding_loss n"
  by (induction n) (auto simp: le_Suc_eq)

abbreviation all_slots :: "nat list" where
  "all_slots \<equiv> [0..<8]"

lemma n_takers_le: "(\<And>i. elig' i \<Longrightarrow> elig i) \<Longrightarrow> n_takers is elig' \<le> n_takers is elig"
  by (induction "is") auto

lemma n_takers_less:
  "(\<And>i. elig' i \<Longrightarrow> elig i) \<Longrightarrow> j \<in> set is \<Longrightarrow> metered j \<Longrightarrow> elig j \<Longrightarrow> \<not> elig' j \<Longrightarrow> n_takers is elig' < n_takers is elig"
proof (induction "is")
  case (Cons i "is")
  then show ?case using n_takers_le [of elig' elig "is"] by (cases "i = j") (auto simp: less_Suc_eq_le)
qed simp

lemma spill_loop_conserves:
  "length rem = 8 \<Longrightarrow> spill_loop share ctl rem elig = (ctl', rem') \<Longrightarrow>
   length rem' = 8
   \<and> ctl' + sum_list rem' \<le> ctl + sum_list rem + int (n_takers all_slots elig) * max 0 share
   \<and> ctl + sum_list rem + int (n_takers all_slots elig) * max 0 share \<le> ctl' + sum_list rem' + int (rounding_loss (n_takers all_slots elig))
   \<and> ctl \<le> ctl'"
proof (induction share ctl rem elig arbitrary: ctl' rem' rule: spill_loop.induct)
  case (1 share ctl rem elig)
  show ?case
  proof (cases "share > 0")
    case False
    then show ?thesis using 1(2,3) by (simp add: spill_loop.simps [of share])
  next
    case pos: True
    obtain rem1 elig1 spill count where p: "spill_pass share all_slots (rem, elig, 0, 0) = (rem1, elig1, spill, count)"
      by (metis prod_cases4)
    have "pass_ok share all_slots (rem, elig, 0, 0) (spill_pass share all_slots (rem, elig, 0, 0))"
      by (rule spill_pass_ok) (use 1(2) pos in auto)
    then have ok: "length rem1 = 8" "sum_list rem1 + spill = sum_list rem + share * int (n_takers all_slots elig)"
      "count = n_takers all_slots elig1" "\<And>i. elig1 i \<Longrightarrow> elig i" "0 \<le> spill"
      using 1(2) unfolding p by (simp_all add: pass_ok_def)
    have unfold: "spill_loop share ctl rem elig = (if count = 0 then (ctl + spill, rem1) else spill_loop (spill div int count) ctl rem1 elig1)"
      using pos p by (simp add: spill_loop.simps [of share])
    show ?thesis
    proof (cases "count = 0")
      case True
      then show ?thesis using 1(3) ok pos unfold by (auto simp: algebra_simps)
    next
      case False
      let ?n = "n_takers all_slots elig" and ?share = "spill div int count"
      have IH: "length rem' = 8 \<and> ctl' + sum_list rem' \<le> ctl + sum_list rem1 + int count * max 0 ?share
          \<and> ctl + sum_list rem1 + int count * max 0 ?share \<le> ctl' + sum_list rem' + int (rounding_loss count) \<and> ctl \<le> ctl'"
        unfolding ok(3) using 1(1) [OF pos p [symmetric] refl refl refl False ok(1)] 1(3) unfold False ok(3) by simp
      have nn: "max 0 ?share = ?share" using ok(5) False by (simp add: pos_imp_zdiv_nonneg_iff)
      have d: "int count * ?share = spill - spill mod int count" by (simp add: minus_mod_eq_mult_div)
      have loss: "spill mod int count + int (rounding_loss count) \<le> int (rounding_loss ?n)"
      proof (cases "spill = 0")
        case True
        then show ?thesis using rounding_loss_mono [OF n_takers_le [of elig1 elig all_slots, OF ok(4)]] ok(3) by simp
      next
        case spilt: False
        have "elig1 \<noteq> elig" using spill_pass_elig [OF p] spilt by auto
        then obtain j where "j \<in> set all_slots" "metered j" "elig j" "\<not> elig1 j"
          using spill_pass_elig [OF p] spilt by auto
        from n_takers_less [of elig1 elig, OF ok(4) this] have "Suc count \<le> ?n" using ok(3) by simp
        then have "rounding_loss (Suc count) \<le> rounding_loss ?n" by (rule rounding_loss_mono)
        moreover have "spill mod int count \<le> int (count - 1)"
          using pos_mod_bound [of "int count" spill] False by simp
        ultimately show ?thesis by simp
      qed
      have "0 \<le> spill mod int count" using False by simp
      then show ?thesis using IH nn d loss ok(2,5) pos by (auto simp: algebra_simps)
    qed
  qed
qed


lemma spill_loop_caps:
  "length rem = 8 \<Longrightarrow> spill_loop share ctl rem elig = (ctl', rem') \<Longrightarrow> i < 8 \<Longrightarrow>
   (\<not> metered i \<longrightarrow> rem' ! i = rem ! i)
   \<and> (rem ! i \<le> MAX_MODULE_ENERGY_REMAINING \<longrightarrow> rem ! i \<le> rem' ! i \<and> rem' ! i \<le> MAX_MODULE_ENERGY_REMAINING)"
proof (induction share ctl rem elig arbitrary: ctl' rem' rule: spill_loop.induct)
  case (1 share ctl rem elig)
  show ?case
  proof (cases "share > 0")
    case False
    then show ?thesis using 1(3) by (simp add: spill_loop.simps [of share])
  next
    case pos: True
    obtain rem1 elig1 spill count where p: "spill_pass share all_slots (rem, elig, 0, 0) = (rem1, elig1, spill, count)"
      by (metis prod_cases4)
    have "pass_ok share all_slots (rem, elig, 0, 0) (spill_pass share all_slots (rem, elig, 0, 0))"
      by (rule spill_pass_ok) (use 1(2) pos in auto)
    then have ok: "length rem1 = 8" "\<not> metered i \<Longrightarrow> rem1 ! i = rem ! i"
      "rem ! i \<le> MAX_MODULE_ENERGY_REMAINING \<Longrightarrow> rem ! i \<le> rem1 ! i \<and> rem1 ! i \<le> MAX_MODULE_ENERGY_REMAINING"
      using 1(2,4) unfolding p by (auto simp: pass_ok_def)
    show ?thesis
    proof (cases "count = 0")
      case True
      then have "rem' = rem1" using 1(3) pos p by (simp add: spill_loop.simps [of share])
      then show ?thesis using ok by blast
    next
      case False
      then have "spill_loop (spill div int count) ctl rem1 elig1 = (ctl', rem')"
        using 1(3) pos p by (simp add: spill_loop.simps [of share])
      from 1(1) [OF pos p [symmetric] refl refl refl False ok(1) this 1(4)] ok show ?thesis by fastforce
    qed
  qed
qed

text \<open>The energy in all shares together.\<close>

definition total_remaining :: "energy_remaining \<Rightarrow> int" where
  "total_remaining r = controller_energy_remaining r + sum_list (module_energy_remaining r)"

lemma n_takers_all: "n_takers all_slots (\<lambda>_. True) = 6"
  by (simp add: metered_def upt_rec)

lemma distribute_conserves:
  assumes "length (module_energy_remaining r) = 8" "0 \<le> surplus"
  shows "total_remaining (distribute_surplus surplus r) \<le> total_remaining r + surplus"
    "total_remaining r + surplus \<le> total_remaining (distribute_surplus surplus r) + 21"
    "length (module_energy_remaining (distribute_surplus surplus r)) = 8"
proof -
  let ?ctl = "controller_energy_remaining r + share_controller surplus"
  define ex where "ex = (if ?ctl > MAX_CONTROLLER_ENERGY_REMAINING then ?ctl - MAX_CONTROLLER_ENERGY_REMAINING else 0)"
  let ?share = "share_module surplus + ex div 6"
  have ex: "0 \<le> ex" by (simp add: ex_def)
  obtain ctl' rem' where l: "spill_loop ?share (?ctl - ex) (module_energy_remaining r) (\<lambda>_. True) = (ctl', rem')" by fastforce
  have d: "distribute_surplus surplus r = \<lparr>controller_energy_remaining = ctl', module_energy_remaining = rem'\<rparr>"
    using l by (simp add: distribute_surplus_def Let_def sdiv_nonneg ex_def split: if_splits)
  have c: "share_controller surplus = 2 * surplus div 5" "share_module surplus = surplus div 10"
    using assms(2) by (simp_all add: share_controller_def share_module_def sdiv_nonneg)
  have s: "0 \<le> ?share" using assms(2) ex by (simp add: c pos_imp_zdiv_nonneg_iff)
  have loss: "rounding_loss 6 = 10" by (simp add: numeral_eq_Suc)
  note k = spill_loop_conserves [OF assms(1) l, unfolded n_takers_all loss]
  have "5 * (2 * surplus div 5) \<le> 2 * surplus" "2 * surplus \<le> 5 * (2 * surplus div 5) + 4"
    "10 * (surplus div 10) \<le> surplus" "surplus \<le> 10 * (surplus div 10) + 9"
    "6 * (ex div 6) \<le> ex" "ex \<le> 6 * (ex div 6) + 5" by presburger+
  with k s show "total_remaining (distribute_surplus surplus r) \<le> total_remaining r + surplus"
    "total_remaining r + surplus \<le> total_remaining (distribute_surplus surplus r) + 21"
    unfolding c d total_remaining_def by simp_all
  show "length (module_energy_remaining (distribute_surplus surplus r)) = 8" using k d by simp
qed


section \<open>An update\<close>

text \<open>The fields reading the counters and moving the timers leave alone.\<close>

definition same_shares :: "policy \<Rightarrow> policy \<Rightarrow> bool" where
  "same_shares p p' \<longleftrightarrow> remaining p' = remaining p \<and> used p' = used p
     \<and> battery_last_energy_remaining p' = battery_last_energy_remaining p
     \<and> battery_energy_remaining p' = battery_energy_remaining p"

lemma read_modules_same:
  "read_modules ch period is energies p b = Inr (ms, p', b') \<Longrightarrow> same_shares p p' \<and> length ms = length energies"
proof (induction ch period "is" energies p b rule: read_modules.induct)
  case (2 ch period i "is" energies p b)
  then show ?case by (fastforce simp: andthen_Inr_iff same_shares_def)
qed (simp add: same_shares_def)

lemma read_counters_same:
  assumes "read_counters ch period p b = Inr ((l, c, ms), p', b')"
  shows "same_shares p p' \<and> length ms = 8"
  using assms by (auto simp: read_counters_def andthen_Inr_iff Let_def same_shares_def dest!: read_modules_same)

lemma update_module_timers_same:
  "update_module_timers ch is p b = Inr (p', b') \<Longrightarrow> same_shares p p'"
proof (induction ch "is" p b rule: update_module_timers.induct)
  case (2 ch i "is" p b)
  obtain t b1 where t: "signpost_energy_policy_get_time_since_module_reset_ms ch (int i) p b = Inr (t, b1)"
    using "2.prems" by (auto simp: andthen_Inr_iff)
  obtain now b2 where n: "alarm_read b1 = (now, b2)" by fastforce
  from "2.IH" [OF t refl n [symmetric] refl] "2.prems" t n show ?case by (simp add: same_shares_def)
qed (simp add: same_shares_def)

lemma timers_same:
  "signpost_energy_policy_reset_and_update_energy_timers ch p b = Inr (p', b') \<Longrightarrow> same_shares p p'"
  by (auto simp: signpost_energy_policy_reset_and_update_energy_timers_def Let_def same_shares_def
      split: prod.splits dest!: update_module_timers_same)

lemma sum_8: "length (xs :: int list) = 8 \<Longrightarrow> sum_list xs = sum_list (map ((!) xs) [0..<8])"
  by (metis map_nth)

lemma charge_total:
  assumes "length (module_energy_remaining r) = 8"
  shows "total_remaining (charge_remaining l c ms r) = total_remaining r - (l + c + sum_list (map ((!) ms) metered_slots))"
    "length (module_energy_remaining (charge_remaining l c ms r)) = 8"
  using sum_8 [OF assms]
  by (simp_all add: total_remaining_def charge_remaining_def metered_slots_def metered_def upt_rec)

lemma settle_total:
  assumes "length (module_energy_remaining r) = 8"
  shows "total_remaining (settle_battery dropped drawn r) \<le> total_remaining r + (drawn - dropped)"
    "total_remaining r + (drawn - dropped) \<le> total_remaining (settle_battery dropped drawn r) + 21"
  using distribute_conserves [OF assms, of "drawn - dropped"]
  by (auto simp: settle_battery_def total_remaining_def)

section \<open>When an update returns\<close>

text \<open>A board on which the next \<open>n\<close> selections are answered.\<close>

definition answers :: "nat \<Rightarrow> board \<Rightarrow> bool" where
  "answers n b \<longleftrightarrow> tock_rcs b = [] \<and> 3 * n \<le> length (upcalls b)"

lemma syscall_ok: "tock_rcs b = [] \<Longrightarrow> syscall c b = (0, call c b)"
  by (cases b) (simp add: syscall_def)

lemma selector_call_ok:
  "tock_rcs b = [] \<Longrightarrow> n < 3 \<Longrightarrow> \<exists>c'. selector_call ch n c b = (0, call c' b)"
  by (auto simp: selector_call_def syscall_ok)

lemma subscribe_ok:
  "tock_rcs b = [] \<Longrightarrow> \<forall>n\<in>set ns. n < 3 \<Longrightarrow>
   \<exists>log. subscribe_selectors ch ns b = (0, b\<lparr>sys_log := sys_log b @ log\<rparr>)"
proof (induction ns arbitrary: b)
  case Nil
  have "b = b\<lparr>sys_log := sys_log b @ []\<rparr>" by simp
  then show ?case unfolding subscribe_selectors.simps by metis
next
  case (Cons n ns)
  obtain c where c: "i2c_selector_set_callback ch n b = (0, call c b)"
    using selector_call_ok [OF Cons.prems(1)] Cons.prems(2) unfolding i2c_selector_set_callback_def by fastforce
  obtain log where "subscribe_selectors ch ns (call c b) = (0, (call c b)\<lparr>sys_log := sys_log (call c b) @ log\<rparr>)"
    using Cons.IH [of "call c b"] Cons.prems by (auto simp: call_def)
  then show ?case using c by (auto simp: call_def)
qed

lemma command_ok:
  assumes "\<And>n b. tock_rcs b = [] \<Longrightarrow> n < 3 \<Longrightarrow> \<exists>c. op n b = (0, call c b)"
  shows "tock_rcs b = [] \<Longrightarrow> \<forall>n\<in>set ns. n < 3 \<Longrightarrow> length ns \<le> length (upcalls b) \<Longrightarrow>
   \<exists>vs b'. command_selectors op ns b = Inr ((0, vs), b') \<and> tock_rcs b' = [] \<and> upcalls b' = drop (length ns) (upcalls b)
     \<and> alarms b' = alarms b \<and> vs = take (length ns) (upcalls b)"
proof (induction ns arbitrary: b)
  case (Cons n ns)
  obtain c where c: "op n (b\<lparr>sel_fired := False\<rparr>) = (0, call c (b\<lparr>sel_fired := False\<rparr>))"
    using assms [of "b\<lparr>sel_fired := False\<rparr>" n] Cons.prems by auto
  obtain v us where u: "upcalls b = v # us" using Cons.prems(3) by (cases "upcalls b") auto
  let ?b = "i2c_selector_cb v ((call c (b\<lparr>sel_fired := False\<rparr>))\<lparr>upcalls := us\<rparr>)"
  have y: "yield_for_fired (call c (b\<lparr>sel_fired := False\<rparr>)) = Inr ?b"
    by (simp add: yield_for_fired_def call_def u)
  obtain vs b' where "command_selectors op ns ?b = Inr ((0, vs), b')" "tock_rcs b' = []" "upcalls b' = drop (length ns) us"
    "alarms b' = alarms b" "vs = take (length ns) us"
    using Cons.IH [of ?b] Cons.prems u by (auto simp: i2c_selector_cb_def call_def)
  then show ?case using c y u by (simp add: i2c_selector_cb_def)
qed simp

lemma select_mask_ok:
  assumes "answers (Suc n) b"
  shows "\<exists>b'. select_mask ch m b = Inr b' \<and> answers n b' \<and> alarms b' = alarms b"
proof -
  define sel :: "nat list" where sel: "sel = [0, 1, 2]"
  let ?op = "\<lambda>n. i2c_selector_select_channels ch n (drop_bit (4 * n) m)"
  let ?b = "b\<lparr>sel_fired := False\<rparr>"
  have three: "\<forall>n\<in>set sel. n < 3" "length sel = 3" by (simp_all add: sel)
  obtain log where l: "subscribe_selectors ch sel ?b = (0, ?b\<lparr>sys_log := sys_log ?b @ log\<rparr>)"
    using subscribe_ok [of ?b sel] assms three by (auto simp: answers_def)
  let ?c = "?b\<lparr>sys_log := sys_log ?b @ log\<rparr>"
  have op: "\<exists>c. ?op n b = (0, call c b)" if "tock_rcs b = []" "n < 3" for n b
    using selector_call_ok [OF that] unfolding i2c_selector_select_channels_def by blast
  have "tock_rcs ?c = []" "length sel \<le> length (upcalls ?c)" using assms three by (auto simp: answers_def)
  from command_ok [of ?op, OF op this(1) three(1) this(2)]
  obtain vs b' where b': "command_selectors ?op sel ?c = Inr ((0, vs), b')"
    "tock_rcs b' = []" "upcalls b' = drop 3 (upcalls b)" "alarms b' = alarms b"
    using three by auto
  have "i2c_selector_select_channels_sync ch m b = Inr (0, b')"
    using l b'(1) unfolding i2c_selector_select_channels_sync_def selectors_sync_def sel [symmetric] by simp
  moreover have "3 * n \<le> length (drop 3 (upcalls b))"
  proof -
    have "3 * Suc n \<le> length (upcalls b)" using assms by (simp only: answers_def)
    then show ?thesis using diff_le_mono [of "3 * Suc n" "length (upcalls b)" 3] by simp
  qed
  ultimately show ?thesis using b' assms by (simp add: select_mask_def answers_def)
qed

lemma ltc_energy_ok:
  assumes "answers (Suc n) b"
  shows "\<exists>e b'. get_ltc_energy_uah ch m r b = Inr (e, b') \<and> answers n b' \<and> alarms b' = alarms b"
  using select_mask_ok [OF assms, of ch m]
  by (auto simp: get_ltc_energy_uah_def call_def answers_def split: prod.split)

lemma energy_reads_ok:
  assumes "answers (Suc n) b"
  shows "\<exists>e b'. signpost_energy_get_linux_energy_uwh ch b = Inr (e, b') \<and> answers n b'"
    "\<exists>e b'. signpost_energy_get_controller_energy_uwh ch b = Inr (e, b') \<and> answers n b'"
    "0 \<le> k \<Longrightarrow> k < 8 \<Longrightarrow> \<exists>e b'. signpost_energy_get_module_energy_uwh ch k b = Inr (e, b') \<and> answers n b'"
proof -
  have s: "\<exists>e b'. scaled_energy f (get_ltc_energy_uah ch m r b) = Inr (e, b') \<and> answers n b'" for f m r
    using ltc_energy_ok [OF assms, of ch m r] by (auto simp: scaled_energy_def)
  show "\<exists>e b'. signpost_energy_get_linux_energy_uwh ch b = Inr (e, b') \<and> answers n b'"
    unfolding signpost_energy_get_linux_energy_uwh_def by (rule s)
  show "\<exists>e b'. signpost_energy_get_controller_energy_uwh ch b = Inr (e, b') \<and> answers n b'"
    unfolding signpost_energy_get_controller_energy_uwh_def by (rule s)
  show "\<exists>e b'. signpost_energy_get_module_energy_uwh ch k b = Inr (e, b') \<and> answers n b'" if "0 \<le> k" "k < 8"
    unfolding signpost_energy_get_module_energy_uwh_def using that s by (simp add: module_mask_def)
qed

lemma reset_ltc_ok:
  assumes "answers (Suc n) b"
  shows "\<exists>b'. reset_ltc_energy ch m b = Inr b' \<and> answers n b'"
  using select_mask_ok [OF assms, of ch m] by (auto simp: reset_ltc_energy_def call_def answers_def)

lemma reset_modules_ok:
  "answers (length (filter metered is) + n) b \<Longrightarrow> \<forall>i\<in>set is. i < 8 \<Longrightarrow>
   \<exists>b'. reset_modules ch is b = Inr b' \<and> answers n b'"
proof (induction "is" arbitrary: b)
  case (Cons i "is")
  show ?case
  proof (cases "metered i")
    case True
    obtain b1 where b1: "reset_ltc_energy ch (module_num_to_selector_mask ! i) b = Inr b1"
        "answers (length (filter metered is) + n) b1"
      using reset_ltc_ok [of "length (filter metered is) + n" b ch] Cons.prems True by auto
    have "signpost_energy_reset_module_energy ch (int i) b = Inr b1"
      using b1 True Cons.prems(2) by (auto simp: signpost_energy_reset_module_energy_def module_mask_def metered_def)
    with b1 show ?thesis using Cons.IH Cons.prems(2) by simp
  next
    case False
    then have "signpost_energy_reset_module_energy ch (int i) b = Inr b"
      by (auto simp: signpost_energy_reset_module_energy_def metered_def)
    then show ?thesis using Cons.IH Cons.prems False by simp
  qed
qed simp

lemma reset_all_ok:
  assumes "answers (9 + n) b"
  shows "\<exists>b'. signpost_energy_reset_all_energy ch b = Inr b' \<and> answers n b'"
proof -
  have n: "9 + n = Suc (Suc (Suc (6 + n)))" by simp
  obtain b1 where 1: "signpost_energy_reset_controller_energy ch b = Inr b1" "answers (Suc (Suc (6 + n))) b1"
    using reset_ltc_ok [OF assms [unfolded n]] unfolding signpost_energy_reset_controller_energy_def by blast
  obtain b2 where 2: "signpost_energy_reset_solar_energy ch b1 = Inr b2" "answers (Suc (6 + n)) b2"
    using reset_ltc_ok [OF 1(2)] unfolding signpost_energy_reset_solar_energy_def by blast
  obtain b3 where 3: "signpost_energy_reset_linux_energy ch b2 = Inr b3" "answers (6 + n) b3"
    using reset_ltc_ok [OF 2(2)] unfolding signpost_energy_reset_linux_energy_def by blast
  have "length (filter metered [0..<8]) = 6" by (simp add: metered_def upt_rec)
  then obtain b4 where "reset_modules ch [0..<8] b3 = Inr b4" "answers n b4"
    using reset_modules_ok [of "[0..<8]" n b3 ch] 3(2) by auto
  then show ?thesis using 1(1) 2(1) 3(1) by (simp add: signpost_energy_reset_all_energy_def)
qed

lemma read_modules_ok:
  "answers (length is + n) b \<Longrightarrow> \<forall>i\<in>set is. i < 8 \<Longrightarrow> period \<noteq> 0 \<Longrightarrow>
   \<exists>ms p' b'. read_modules ch period is energies p b = Inr (ms, p', b') \<and> answers n b'"
proof (induction "is" arbitrary: energies p b)
  case (Cons i "is")
  obtain e b1 where "signpost_energy_get_module_energy_uwh ch (int i) b = Inr (e, b1)" "answers (length is + n) b1"
    using energy_reads_ok(3) [of "length is + n" b "int i" ch] Cons.prems by auto
  then show ?case using Cons.IH Cons.prems by (simp add: averaged_def)
qed simp

lemma read_counters_ok:
  assumes "answers (8 + n) b" "period \<noteq> 0"
  shows "\<exists>l c ms p' b'. read_counters ch period p b = Inr ((l, c, ms), p', b') \<and> answers n b'"
proof -
  have n: "8 + n = Suc (Suc (6 + n))" by simp
  obtain l b1 where 1: "signpost_energy_get_linux_energy_uwh ch b = Inr (l, b1)" "answers (Suc (6 + n)) b1"
    using energy_reads_ok(1) [OF assms(1) [unfolded n]] by blast
  obtain c b2 where 2: "signpost_energy_get_controller_energy_uwh ch b1 = Inr (c, b2)" "answers (6 + n) b2"
    using energy_reads_ok(2) [OF 1(2)] by blast
  have "length metered_slots = 6" "\<forall>i\<in>set metered_slots. i < 8" by (simp_all add: metered_slots_def metered_def upt_rec)
  then have rm: "\<exists>ms p' b'. read_modules ch period metered_slots (replicate 8 0) p1 b2 = Inr (ms, p', b') \<and> answers n b'" for p1
    using read_modules_ok [of metered_slots n b2 period] 2(2) assms(2) by simp
  have av: "averaged v e period = Inr ((v + e) * (3600 sdiv period))" for v e
    using assms(2) by (simp add: averaged_def)
  let ?p1 = "p\<lparr>average := (average p)\<lparr>linux_energy_average := (linux_energy_average (virtual_average p) + sint l) * (3600 sdiv period)\<rparr>,
    virtual_average := (virtual_average p)\<lparr>linux_energy_average := 0\<rparr>\<rparr>"
  let ?p2 = "?p1\<lparr>average := (average ?p1)\<lparr>controller_energy_average := (controller_energy_average (virtual_average ?p1) + sint c) * (3600 sdiv period)\<rparr>,
    virtual_average := (virtual_average ?p1)\<lparr>controller_energy_average := 0\<rparr>\<rparr>"
  obtain ms p' b' where 3: "read_modules ch period metered_slots (replicate 8 0) ?p2 b2 = Inr (ms, p', b')" "answers n b'"
    using rm by blast
  have "read_counters ch period p b = Inr ((sint l, sint c, ms), p', b')"
    unfolding read_counters_def Let_def 1(1) andthen.simps prod.case av 2(1) 3(1) ..
  then show ?thesis using 3(2) by blast
qed

lemma update_module_timers_ok:
  "\<forall>i\<in>set is. i < 8 \<Longrightarrow> policy_wf p \<Longrightarrow> \<exists>p' b'. update_module_timers ch is p b = Inr (p', b')"
proof (induction "is" arbitrary: p b)
  case (Cons i "is")
  have i: "i < 8" "length (module_time_since_reset (since_reset p)) = 8"
    "length (module_energy_reset_start_time (start_time p)) = 8" using Cons.prems by (simp_all add: policy_wf_def)
  obtain ms b0 where "calc_time_since_last_time_ms ch (module_energy_reset_start_time (start_time p) ! i) b = (ms, b0)"
    by fastforce
  then obtain t b1 where t: "signpost_energy_policy_get_time_since_module_reset_ms ch (int i) p b = Inr (t, b1)"
    using i by (auto simp: signpost_energy_policy_get_time_since_module_reset_ms_def slot_def)
  obtain now b2 where n: "alarm_read b1 = (now, b2)" by fastforce
  show ?case using Cons t n by (simp add: policy_wf_def)
qed simp

lemma timers_ok:
  assumes "policy_wf p"
  shows "\<exists>p' b'. signpost_energy_policy_reset_and_update_energy_timers ch p b = Inr (p', b')"
proof -
  obtain t b1 where 1: "signpost_energy_policy_get_time_since_controller_reset_ms ch p b = (t, b1)" by fastforce
  obtain now b2 where 2: "alarm_read b1 = (now, b2)" by fastforce
  let ?p = "p\<lparr>since_reset := (since_reset p)\<lparr>controller_time_since_reset := t\<rparr>,
    start_time := (start_time p)\<lparr>controller_energy_reset_start_time := now\<rparr>\<rparr>"
  obtain t' b3 where 3: "signpost_energy_policy_get_time_since_linux_reset_ms ch ?p b2 = (t', b3)" by fastforce
  obtain now' b4 where 4: "alarm_read b3 = (now', b4)" by fastforce
  show ?thesis
    unfolding signpost_energy_policy_reset_and_update_energy_timers_def Let_def 1 2 3 4 prod.case
  proof (rule update_module_timers_ok)
    show "\<forall>i\<in>set [0..<8]. i < (8 :: nat)" by simp
  qed (use assms in \<open>simp add: policy_wf_def\<close>)
qed

text \<open>The selections are the only thing an update waits for, and the period is its only divisor.\<close>

definition update_period :: "chips \<Rightarrow> policy \<Rightarrow> board \<Rightarrow> int" where
  "update_period ch p b = sint (fst (calc_time_since_last_time_ms ch (last_energy_update_time p) b)) sdiv 1000"

lemma calc_time_keeps_answers:
  "calc_time_since_last_time_ms ch t b = (ms, b1) \<Longrightarrow> answers n b \<Longrightarrow> answers n b1"
  by (auto simp: calc_time_since_last_time_ms_def alarm_read_def answers_def split: prod.splits)

lemma alarm_read_keeps_answers: "alarm_read b = (now, b1) \<Longrightarrow> answers n b \<Longrightarrow> answers n b1"
  by (auto simp: alarm_read_def answers_def split: prod.splits)

lemma battery_read_keeps_answers:
  "signpost_energy_get_battery_energy_uwh ch b = (e, b1) \<Longrightarrow> answers n b \<Longrightarrow> answers n b1"
  by (auto simp: signpost_energy_get_battery_energy_uwh_def read_soc_def answers_def Let_def split: prod.splits)

lemma read_counters_wf:
  assumes "read_counters ch period p b = Inr (r, p', b')" "policy_wf p"
  shows "policy_wf p'"
proof -
  have m: "read_modules ch period is energies p b = Inr (ms, p', b') \<Longrightarrow> policy_wf p \<Longrightarrow> policy_wf p'"
    for "is" energies p b ms p' b'
  proof (induction ch period "is" energies p b rule: read_modules.induct)
    case (2 ch period i "is" energies p b)
    then show ?case by (fastforce simp: andthen_Inr_iff policy_wf_def)
  qed simp
  show ?thesis using assms by (auto simp: read_counters_def andthen_Inr_iff Let_def policy_wf_def dest!: m)
qed

lemma update_module_timers_keep_answers:
  "update_module_timers ch is p b = Inr (p', b') \<Longrightarrow> answers n b \<Longrightarrow> answers n b'"
proof (induction ch "is" p b rule: update_module_timers.induct)
  case (2 ch i "is" p b)
  obtain t b1 where t: "signpost_energy_policy_get_time_since_module_reset_ms ch (int i) p b = Inr (t, b1)"
    using "2.prems" by (auto simp: andthen_Inr_iff)
  obtain ms b0 where "calc_time_since_last_time_ms ch (module_energy_reset_start_time (start_time p) ! i) b = (ms, b0)" by fastforce
  then have b1: "answers n b1"
    using t "2.prems"(2) by (auto simp: signpost_energy_policy_get_time_since_module_reset_ms_def slot_def
        split: if_splits dest: calc_time_keeps_answers)
  obtain now b2 where n: "alarm_read b1 = (now, b2)" by fastforce
  from "2.IH" [OF t refl n [symmetric] refl] "2.prems" t n alarm_read_keeps_answers [OF n b1] show ?case by simp
qed simp

lemma timers_keep_answers:
  assumes "signpost_energy_policy_reset_and_update_energy_timers ch p b = Inr (p', b')" "answers n b"
  shows "answers n b'"
proof -
  obtain t b1 where 1: "signpost_energy_policy_get_time_since_controller_reset_ms ch p b = (t, b1)" by fastforce
  obtain now b2 where 2: "alarm_read b1 = (now, b2)" by fastforce
  let ?p = "p\<lparr>since_reset := (since_reset p)\<lparr>controller_time_since_reset := t\<rparr>,
    start_time := (start_time p)\<lparr>controller_energy_reset_start_time := now\<rparr>\<rparr>"
  obtain t' b3 where 3: "signpost_energy_policy_get_time_since_linux_reset_ms ch ?p b2 = (t', b3)" by fastforce
  obtain now' b4 where 4: "alarm_read b3 = (now', b4)" by fastforce
  have "answers n b1"
    using 1 assms(2) by (auto simp: signpost_energy_policy_get_time_since_controller_reset_ms_def
        split: prod.splits dest: calc_time_keeps_answers)
  then have "answers n b2" by (rule alarm_read_keeps_answers [OF 2])
  then have "answers n b3"
    using 3 by (auto simp: signpost_energy_policy_get_time_since_linux_reset_ms_def split: prod.splits dest: calc_time_keeps_answers)
  then have "answers n b4" by (rule alarm_read_keeps_answers [OF 4])
  then show ?thesis
    using assms(1) unfolding signpost_energy_policy_reset_and_update_energy_timers_def Let_def 1 2 3 4 prod.case
    by (rule update_module_timers_keep_answers [rotated])
qed

lemma settle_length:
  assumes "length (module_energy_remaining r) = 8"
  shows "length (module_energy_remaining (settle_battery dropped drawn r)) = 8"
  using distribute_conserves(3) [OF assms, of "drawn - dropped"] assms by (simp add: settle_battery_def)

lemma update_result:
  assumes "policy_wf p" "answers (17 + n) b"
  shows "if update_period ch p b = 0 then signpost_energy_policy_update_energy ch p b = Inl DivisionByZero
    else (\<exists>p' b'. signpost_energy_policy_update_energy ch p b = Inr (p', b') \<and> answers n b'
            \<and> length (module_energy_remaining (remaining p')) = 8)"
proof -
  obtain ms1 b1 where b1: "calc_time_since_last_time_ms ch (last_energy_update_time p) b = (ms1, b1)" by fastforce
  obtain now b2 where b2: "alarm_read b1 = (now, b2)" by fastforce
  let ?period = "sint ms1 sdiv 1000" and ?p = "p\<lparr>last_energy_update_time := now\<rparr>"
  have a: "answers (8 + (9 + n)) b2"
    using alarm_read_keeps_answers [OF b2 calc_time_keeps_answers [OF b1 assms(2)]] by simp
  have per: "update_period ch p b = ?period" by (simp add: update_period_def b1)
  show ?thesis
  proof (cases "?period = 0")
    case True
    have "8 + (9 + n) = Suc (16 + n)" by simp
    then obtain l b3 where "signpost_energy_get_linux_energy_uwh ch b2 = Inr (l, b3)"
      using energy_reads_ok(1) [of "16 + n" b2 ch] a by auto
    then have "read_counters ch ?period ?p b2 = Inl DivisionByZero" using True by (simp add: read_counters_def averaged_def)
    then show ?thesis using True unfolding per by (simp add: signpost_energy_policy_update_energy_def b1 b2)
  next
    case False
    obtain l c ms p1 b3 where r: "read_counters ch ?period ?p b2 = Inr ((l, c, ms), p1, b3)" "answers (9 + n) b3"
      using read_counters_ok [OF a False] by blast
    obtain bat b4 where b4: "signpost_energy_get_battery_energy_uwh ch b3 = (bat, b4)" by fastforce
    have "answers (9 + n) b4" using battery_read_keeps_answers [OF b4 r(2)] by simp
    then obtain b5 where b5: "signpost_energy_reset_all_energy ch b4 = Inr b5" "answers n b5" using reset_all_ok by blast
    have wf: "policy_wf p1" using read_counters_wf [OF r(1)] assms(1) by (simp add: policy_wf_def)
    have t: "\<exists>p2 b6. signpost_energy_policy_reset_and_update_energy_timers ch
        (p1\<lparr>battery_energy_remaining := e, used := charge_used l c ms u, remaining := charge_remaining l c ms q\<rparr>) b5 = Inr (p2, b6)" for e u q
      by (rule timers_ok) (use wf in \<open>simp add: policy_wf_def charge_used_def charge_remaining_def\<close>)
    obtain p2 b6 where t': "signpost_energy_policy_reset_and_update_energy_timers ch
        (p1\<lparr>battery_energy_remaining := if bat < 0 then battery_last_energy_remaining p1 - (l + c + sum_list (map ((!) ms) metered_slots)) else bat,
            used := charge_used l c ms (used p1), remaining := charge_remaining l c ms (remaining p1)\<rparr>) b5 = Inr (p2, b6)"
      using t by blast
    have "length (module_energy_remaining (remaining p1)) = 8" using wf by (simp add: policy_wf_def)
    then have len: "length (module_energy_remaining (remaining p2)) = 8"
      using timers_same [OF t'] charge_total(2) by (simp add: same_shares_def)
    have "answers n b6" by (rule timers_keep_answers [OF t' b5(2)])
    then show ?thesis
      unfolding per signpost_energy_policy_update_energy_def Let_def b1 b2 prod.case r(1) andthen.simps b4 b5(1) t'
      using False settle_length [OF len] by simp
  qed
qed

text \<open>C29: giving out a surplus never takes energy from a module, never fills a module beyond its capacity
  and does not touch the two all_slots that have no counter.\<close>

theorem surplus_respects_capacity:
  assumes "length (module_energy_remaining r) = 8" "i < 8" "module_energy_remaining r ! i \<le> MAX_MODULE_ENERGY_REMAINING"
  shows "module_energy_remaining r ! i \<le> module_energy_remaining (distribute_surplus surplus r) ! i
    \<and> module_energy_remaining (distribute_surplus surplus r) ! i \<le> MAX_MODULE_ENERGY_REMAINING
    \<and> (i = 3 \<or> i = 4 \<longrightarrow> module_energy_remaining (distribute_surplus surplus r) ! i = module_energy_remaining r ! i)"
proof -
  have "\<exists>share ctl. module_energy_remaining (distribute_surplus surplus r)
      = snd (spill_loop share ctl (module_energy_remaining r) (\<lambda>_. True))"
    unfolding distribute_surplus_def Let_def case_prod_unfold by (rule exI, rule exI) (rule energy_remaining.select_convs)
  then obtain share ctl ctl' rem' where l: "spill_loop share ctl (module_energy_remaining r) (\<lambda>_. True) = (ctl', rem')"
    and "module_energy_remaining (distribute_surplus surplus r) = rem'"
    by (metis prod.collapse)
  with spill_loop_caps [OF assms(1) l assms(2)] assms(3) show ?thesis by (auto simp: metered_def)
qed

theorem surplus_respects_capacity_witness:
  "module_energy_remaining (distribute_surplus 1000000
      \<lparr>controller_energy_remaining = 38500000, module_energy_remaining = [9645000, 100, -5, 0, 0, 9645900, 9600000, 7]\<rparr>) ! 0
    \<le> MAX_MODULE_ENERGY_REMAINING"
  using surplus_respects_capacity [of "\<lparr>controller_energy_remaining = 38500000,
      module_energy_remaining = [9645000, 100, -5, 0, 0, 9645900, 9600000, 7]\<rparr>" 0 1000000]
  by (simp add: MAX_MODULE_ENERGY_REMAINING_def)

text \<open>C30: an update keeps the shares in step with the battery: the sum of all shares changes by what the
  battery's energy changed, up to 21 microwatt-hours that the divisions lose; nothing is created.\<close>

theorem shares_follow_battery:
  assumes "policy_wf p" "signpost_energy_policy_update_energy ch p b = Inr (p', b')"
  shows "total_remaining (remaining p') \<le> total_remaining (remaining p) + (battery_energy_remaining p' - battery_last_energy_remaining p)
    \<and> total_remaining (remaining p) + (battery_energy_remaining p' - battery_last_energy_remaining p)
      \<le> total_remaining (remaining p') + 21
    \<and> battery_last_energy_remaining p' = battery_energy_remaining p'"
proof -
  obtain ms1 b1 where b1: "calc_time_since_last_time_ms ch (last_energy_update_time p) b = (ms1, b1)" by fastforce
  obtain now b2 where b2: "alarm_read b1 = (now, b2)" by fastforce
  obtain l c ms p1 b3 where r: "read_counters ch (sint ms1 sdiv 1000) (p\<lparr>last_energy_update_time := now\<rparr>) b2 = Inr ((l, c, ms), p1, b3)"
    using assms(2) by (auto simp: signpost_energy_policy_update_energy_def Let_def b1 b2 andthen_Inr_iff)
  obtain bat b4 where b4: "signpost_energy_get_battery_energy_uwh ch b3 = (bat, b4)" by fastforce
  let ?total = "l + c + sum_list (map ((!) ms) metered_slots)"
  define battery where "battery = (if bat < 0 then battery_last_energy_remaining p1 - ?total else bat)"
  let ?q = "p1\<lparr>battery_energy_remaining := battery, used := charge_used l c ms (used p1),
      remaining := charge_remaining l c ms (remaining p1)\<rparr>"
  obtain b5 p2 b6 where t: "signpost_energy_policy_reset_and_update_energy_timers ch ?q b5 = Inr (p2, b6)"
    and p': "p' = p2\<lparr>battery_last_energy_remaining := battery,
        remaining := settle_battery (battery_last_energy_remaining p2 - battery) ?total (remaining p2)\<rparr>"
    using assms(2) r by (auto simp: signpost_energy_policy_update_energy_def Let_def b1 b2 b4 battery_def andthen_Inr_iff)
  have s1: "remaining p1 = remaining p" "battery_last_energy_remaining p1 = battery_last_energy_remaining p"
    using read_counters_same [OF r] by (simp_all add: same_shares_def)
  have s2: "remaining p2 = charge_remaining l c ms (remaining p)" "battery_energy_remaining p2 = battery"
    "battery_last_energy_remaining p2 = battery_last_energy_remaining p"
    using timers_same [OF t] s1 by (simp_all add: same_shares_def)
  have len: "length (module_energy_remaining (remaining p)) = 8" using assms(1) by (simp add: policy_wf_def)
  note ch = charge_total [OF len, of l c ms]
  show ?thesis
    using settle_total [OF ch(2), where dropped = "battery_last_energy_remaining p - battery" and drawn = ?total] ch(1) s2 by (simp add: p')
qed

text \<open>A board that answers every selection, and chips whose clock counts milliseconds.\<close>

definition calm_chips :: chips where
  "calm_chips = \<lparr>convert_uah = \<lambda>charge rsense pre m. charge, convert_ua = \<lambda>current rsense. current, convert_mv = \<lambda>v. 0,
     capacity_uwh = \<lambda>c. uint c, percentage_mp = \<lambda>c. uint c, battery_ua = \<lambda>c. c, battery_mv = \<lambda>v. v,
     enodevice = -1, ms_of_ticks = \<lambda>t. t\<rparr>"

definition calm_board :: board where
  "calm_board = \<lparr>tock_rcs = [], upcalls = replicate 51 0, sys_log = [], sel_fired = False, sel_value = 0,
     charges = [], currents = [], voltages = [], socs = [], volt_currents = [], alarms = [600000],
     ltc_model = LTC2943, prescaler = 64\<rparr>"

lemma calm_answers: "answers 17 calm_board"
  by (simp add: answers_def calm_board_def)

lemma calm_period: "update_period calm_chips policy_boot calm_board = 600"
  by (simp add: update_period_def calc_time_since_last_time_ms_def alarm_read_def elapsed_ticks_def
      calm_chips_def calm_board_def policy_boot_def signed_divide_int_def sint_uint)

lemma policy_boot_wf: "policy_wf policy_boot"
  by (simp add: policy_wf_def policy_boot_def)

theorem shares_follow_battery_witness:
  "\<exists>p' b'. signpost_energy_policy_update_energy calm_chips policy_boot calm_board = Inr (p', b')
    \<and> total_remaining (remaining p') \<le> battery_energy_remaining p'"
proof -
  obtain p' b' where u: "signpost_energy_policy_update_energy calm_chips policy_boot calm_board = Inr (p', b')"
    using update_result [OF policy_boot_wf, of 0 calm_board calm_chips] calm_answers by (auto simp: calm_period)
  have "total_remaining (remaining policy_boot) = 0" "battery_last_energy_remaining policy_boot = 0"
    by (simp_all add: total_remaining_def policy_boot_def sum_list_replicate)
  with shares_follow_battery [OF policy_boot_wf u] u show ?thesis by simp
qed

text \<open>C31: an update ends on a board that answers its 17 selections, whatever the counters read, unless less
  than a second has passed since the last one: then it divides by zero.\<close>

theorem update_needs_a_second:
  assumes "policy_wf p" "answers 17 b"
  shows "if update_period ch p b = 0 then signpost_energy_policy_update_energy ch p b = Inl DivisionByZero
    else (\<exists>p' b'. signpost_energy_policy_update_energy ch p b = Inr (p', b'))"
  using update_result [of p 0 b ch] assms by auto

theorem update_needs_a_second_witness:
  "(\<exists>p' b'. signpost_energy_policy_update_energy calm_chips policy_boot calm_board = Inr (p', b'))
   \<and> signpost_energy_policy_update_energy calm_chips (policy_boot\<lparr>last_energy_update_time := 599001\<rparr>) calm_board = Inl DivisionByZero"
proof
  have wf: "policy_wf (policy_boot\<lparr>last_energy_update_time := 599001\<rparr>)"
    using policy_boot_wf by (simp add: policy_wf_def)
  have "update_period calm_chips (policy_boot\<lparr>last_energy_update_time := 599001\<rparr>) calm_board = 0"
    by (simp add: update_period_def calc_time_since_last_time_ms_def alarm_read_def elapsed_ticks_def
      calm_chips_def calm_board_def policy_boot_def signed_divide_int_def sint_uint)
  with update_needs_a_second [OF wf calm_answers, of calm_chips]
  show "signpost_energy_policy_update_energy calm_chips (policy_boot\<lparr>last_energy_update_time := 599001\<rparr>) calm_board = Inl DivisionByZero"
    by simp
  show "\<exists>p' b'. signpost_energy_policy_update_energy calm_chips policy_boot calm_board = Inr (p', b')"
    using update_needs_a_second [OF policy_boot_wf calm_answers, of calm_chips] by (simp add: calm_period)
qed

section \<open>Reports\<close>

definition total_used :: "energy_used \<Rightarrow> int" where
  "total_used u = controller_energy_used u + sum_list (module_energy_used u)"

text \<open>The slot of an entry's module; an entry is accepted when its energy is believable.\<close>

definition report_slot :: "module_state \<Rightarrow> u16 \<Rightarrow> nat" where
  "report_slot mi appid = unat (word_of_int (signpost_api_appid_to_mod_num mi appid) :: byte)"

definition believable :: "u16 \<times> u32 \<Rightarrow> bool" where
  "believable entry \<longleftrightarrow> snd entry \<le> 100000"

lemma move_energy_wf: "policy_wf p \<Longrightarrow> policy_wf (move_energy n e p)"
  by (simp add: policy_wf_def move_energy_def)

lemma move_energy_totals:
  assumes "policy_wf p" "n < 8"
  shows "total_remaining (remaining (move_energy n e p)) = total_remaining (remaining p) - e"
    "total_used (used (move_energy n e p)) = total_used (used p) + e"
  using assms by (simp_all add: policy_wf_def move_energy_def total_remaining_def total_used_def sum_list_update_int)

lemma move_controller_energy_totals:
  "total_remaining (remaining (move_controller_energy e p)) = total_remaining (remaining p) - e"
  "total_used (used (move_controller_energy e p)) = total_used (used p) + e"
  "policy_wf p \<Longrightarrow> policy_wf (move_controller_energy e p)"
  by (simp_all add: move_controller_energy_def total_remaining_def total_used_def policy_wf_def)

text \<open>One entry: what the report's recursion does with it.\<close>

lemma report_entry:
  "signpost_energy_policy_update_energy_from_report mi src (r # rs) p =
     (if \<not> believable r then signpost_energy_policy_update_energy_from_report mi src rs p
      else if report_slot mi (fst r) \<ge> 8 \<or> unat src \<ge> 8 then Inl OutOfBounds
      else signpost_energy_policy_update_energy_from_report mi src rs
             (move_energy (unat src) (- int (unat (snd r)))
               (if report_slot mi (fst r) = 3 then move_controller_energy (int (unat (snd r))) p
                else move_energy (report_slot mi (fst r)) (int (unat (snd r))) p)))"
  by (cases r) (simp add: believable_def report_slot_def Let_def not_le)

declare signpost_energy_policy_update_energy_from_report.simps(2) [simp del]

lemma report_conserves:
  "policy_wf p \<Longrightarrow> signpost_energy_policy_update_energy_from_report mi src rs p = Inr p' \<Longrightarrow>
   total_remaining (remaining p') = total_remaining (remaining p)
   \<and> total_used (used p') = total_used (used p) \<and> policy_wf p'"
proof (induction rs arbitrary: p)
  case (Cons r rs)
  show ?case
  proof (cases "believable r")
    case True
    let ?e = "int (unat (snd r))" and ?n = "report_slot mi (fst r)"
    define p1 where p1: "p1 = (if ?n = 3 then move_controller_energy ?e p else move_energy ?n ?e p)"
    have b: "?n < 8" "unat src < 8" using Cons.prems(2) True by (auto simp: report_entry split: if_splits)
    have w: "policy_wf p1" "total_remaining (remaining p1) = total_remaining (remaining p) - ?e"
      "total_used (used p1) = total_used (used p) + ?e"
      using Cons.prems(1) b(1) by (simp_all add: p1 move_energy_totals move_controller_energy_totals move_energy_wf)
    have "signpost_energy_policy_update_energy_from_report mi src rs (move_energy (unat src) (- ?e) p1) = Inr p'"
      using Cons.prems(2) True b unfolding p1 by (simp add: report_entry)
    from Cons.IH [OF move_energy_wf [OF w(1)] this] show ?thesis
      using move_energy_totals [OF w(1) b(2), of "- ?e"] w by simp
  qed (use Cons in \<open>simp add: report_entry\<close>)
qed simp

lemma report_faults:
  "policy_wf p \<Longrightarrow>
   signpost_energy_policy_update_energy_from_report mi src rs p = Inl OutOfBounds
   \<longleftrightarrow> (\<exists>r\<in>set rs. believable r \<and> (report_slot mi (fst r) \<ge> 8 \<or> unat src \<ge> 8))"
proof (induction rs arbitrary: p)
  case (Cons r rs)
  show ?case
    by (auto simp: report_entry Cons.IH Cons.prems move_energy_wf move_controller_energy_totals)
qed simp

text \<open>C32: a report only moves energy: what is charged to the module it names is credited to the module
  that sent it, so that the sum of the shares and the sum of the consumptions stay.\<close>

theorem report_moves_energy:
  assumes "policy_wf p" "signpost_energy_policy_update_energy_from_report mi src reports p = Inr p'"
  shows "total_remaining (remaining p') = total_remaining (remaining p)
    \<and> total_used (used p') = total_used (used p) \<and> policy_wf p'"
  using assms by (rule report_conserves)

text \<open>A controller that knows one module, at address 0x34 in slot 1.\<close>

definition one_module :: module_state where
  "one_module = module_zero\<lparr>i2c_address_mods := [0, 0x34, 0, 0, 0, 0, 0, 0]\<rparr>"

theorem report_moves_energy_witness:
  "\<exists>p'. signpost_energy_policy_update_energy_from_report one_module 0 [(0x34, 5000), (0x34, 200000)] policy_boot = Inr p'
    \<and> total_remaining (remaining p') = total_remaining (remaining policy_boot)
    \<and> module_energy_remaining (remaining p') = [5000, -5000, 0, 0, 0, 0, 0, 0]"
proof -
  have "report_slot one_module 0x34 = 1" by code_simp
  then have r: "signpost_energy_policy_update_energy_from_report one_module 0 [(0x34, 5000), (0x34, 200000)] policy_boot
      = Inr (move_energy 0 (- 5000) (move_energy 1 5000 policy_boot))"
    by (simp add: report_entry believable_def)
  have "module_energy_remaining (remaining policy_boot) = [0, 0, 0, 0, 0, 0, 0, 0]" by code_simp
  then have "module_energy_remaining (remaining (move_energy 0 (- 5000) (move_energy 1 5000 policy_boot))) = [5000, -5000, 0, 0, 0, 0, 0, 0]"
    by (simp add: move_energy_def)
  with report_moves_energy [OF policy_boot_wf r] r show ?thesis by blast
qed

text \<open>C33: a report makes the accounting write outside its tables exactly when it has a believable entry that names an
  unknown module, or that comes from a sender the controller does not know (either look-up gives 255, used as an
  index). A report without believable entries, and one between known modules from a known sender, is harmless.\<close>

theorem report_safe_iff_modules_known:
  assumes "policy_wf p"
  shows "signpost_energy_policy_update_energy_from_report mi src reports p = Inl OutOfBounds
    \<longleftrightarrow> (\<exists>r\<in>set reports. believable r \<and> (report_slot mi (fst r) \<ge> 8 \<or> unat src \<ge> 8))"
  using assms by (rule report_faults)

theorem report_safe_iff_modules_known_witness:
  "signpost_energy_policy_update_energy_from_report one_module 0 [(0x34, 5000), (0x35, 1)] policy_boot = Inl OutOfBounds"
proof -
  have "report_slot one_module 0x35 = 255" by code_simp
  then show ?thesis using report_safe_iff_modules_known [OF policy_boot_wf] by (simp add: believable_def)
qed

end
