(* ===== verification/Backplane.thy ===== *)
theory Backplane
  imports Signpost_Prelude
begin

text \<open>
  The backplane as the controller drives it (\<open>libsignpost-tock/controller.c\<close>, \<open>app_watchdog.c\<close>): the
  isolation lines of the seven modules and the three switches (power, I2C, USB) of each.

  The hardware is the environment. \<open>hw_log\<close> is what the controller commanded, oldest first; the state
  of a switch is what was last commanded (\<open>switches\<close>). \<open>pin_reads p\<close> are the values that the coming
  reads of pin \<open>p\<close> will give; a pin past the end of its script reads 1, the pull-up.
  An enumeration value is its number.
\<close>

section \<open>Hardware\<close>

datatype timer_cb = UpdateEnergyPolicy | CheckModuleInit | CheckWatchdogs | DutyCycle nat

datatype hw_op =
    GpioSet nat | GpioClear nat | GpioOutput nat | GpioInput nat
  | AsyncOutput nat nat | AsyncSet nat nat | AsyncClear nat nat
  | WatchdogCommand nat nat | Delay nat
  | TimerIn u32 timer_cb | TimerEvery u32 timer_cb
  | GpsInit | GpsSample

record backplane =
  hw_log :: "hw_op list"
  pin_reads :: "nat \<Rightarrow> int list"

definition hw :: "hw_op \<Rightarrow> backplane \<Rightarrow> backplane" where
  "hw op bp = bp\<lparr>hw_log := hw_log bp @ [op]\<rparr>"

definition hws :: "hw_op list \<Rightarrow> backplane \<Rightarrow> backplane" where
  "hws ops bp = bp\<lparr>hw_log := hw_log bp @ ops\<rparr>"

definition gpio_read :: "nat \<Rightarrow> backplane \<Rightarrow> int \<times> backplane" where
  "gpio_read pin bp =
     (case pin_reads bp pin of
        [] \<Rightarrow> (1, bp)
      | v # vs \<Rightarrow> (v, bp\<lparr>pin_reads := (pin_reads bp)(pin := vs)\<rparr>))"

text \<open>The last command to a switch, and the last level of an output pin.\<close>

fun switch_op :: "hw_op \<Rightarrow> (nat \<Rightarrow> nat \<Rightarrow> bool) \<Rightarrow> nat \<Rightarrow> nat \<Rightarrow> bool" where
  "switch_op (AsyncSet p i) f = f(p := (f p)(i := True))"
| "switch_op (AsyncClear p i) f = f(p := (f p)(i := False))"
| "switch_op op f = f"

definition switches :: "backplane \<Rightarrow> nat \<Rightarrow> nat \<Rightarrow> bool" where
  "switches bp = fold switch_op (hw_log bp) (\<lambda>_ _. False)"

fun level_op :: "hw_op \<Rightarrow> (nat \<Rightarrow> bool) \<Rightarrow> nat \<Rightarrow> bool" where
  "level_op (GpioSet p) f = f(p := True)"
| "level_op (GpioClear p) f = f(p := False)"
| "level_op op f = f"

definition levels :: "backplane \<Rightarrow> nat \<Rightarrow> bool" where
  "levels bp = fold level_op (hw_log bp) (\<lambda>_. False)"

lemma switches_hw [simp]: "switches (hw op bp) = switch_op op (switches bp)"
  by (simp add: switches_def hw_def)

lemma switches_hws [simp]: "switches (hws ops bp) = fold switch_op ops (switches bp)"
  by (simp add: switches_def hws_def)

lemma levels_hw [simp]: "levels (hw op bp) = level_op op (levels bp)"
  by (simp add: levels_def hw_def)

lemma levels_hws [simp]: "levels (hws ops bp) = fold level_op ops (levels bp)"
  by (simp add: levels_def hws_def)

lemma hw_log_gpio_read [simp]: "gpio_read pin bp = (v, bp') \<Longrightarrow> hw_log bp' = hw_log bp"
  by (auto simp: gpio_read_def split: list.splits)

lemma switches_gpio_read: "gpio_read pin bp = (v, bp') \<Longrightarrow> switches bp' = switches bp \<and> levels bp' = levels bp"
  by (simp add: switches_def levels_def)

section \<open>Pins and ports\<close>

definition MODULE0 :: nat where "MODULE0 = 0"
definition MODULE1 :: nat where "MODULE1 = 1"
definition MODULE2 :: nat where "MODULE2 = 2"
definition CONTROLLER :: nat where "CONTROLLER = 3"
definition STORAGE :: nat where "STORAGE = 4"
definition MODULE5 :: nat where "MODULE5 = 5"
definition MODULE6 :: nat where "MODULE6 = 6"
definition MODULE7 :: nat where "MODULE7 = 7"

definition MOD0_IN :: nat where "MOD0_IN = 0"
definition MOD1_IN :: nat where "MOD1_IN = 1"
definition MOD2_IN :: nat where "MOD2_IN = 2"
definition STORAGE_IN :: nat where "STORAGE_IN = 3"
definition MOD5_IN :: nat where "MOD5_IN = 4"
definition MOD6_IN :: nat where "MOD6_IN = 5"
definition MOD7_IN :: nat where "MOD7_IN = 6"
definition MOD0_OUT :: nat where "MOD0_OUT = 7"
definition MOD1_OUT :: nat where "MOD1_OUT = 8"
definition MOD2_OUT :: nat where "MOD2_OUT = 9"
definition STORAGE_OUT :: nat where "STORAGE_OUT = 10"
definition MOD5_OUT :: nat where "MOD5_OUT = 11"
definition MOD6_OUT :: nat where "MOD6_OUT = 12"
definition MOD7_OUT :: nat where "MOD7_OUT = 13"

definition NUM_MOD_IO :: nat where "NUM_MOD_IO = 7"
definition PIN_WATCHDOG :: nat where "PIN_WATCHDOG = 15"
definition PIN_IDX_ISOLATE_POWER :: nat where "PIN_IDX_ISOLATE_POWER = 0"
definition PIN_IDX_ISOLATE_I2C :: nat where "PIN_IDX_ISOLATE_I2C = 1"
definition PIN_IDX_ISOLATE_USB :: nat where "PIN_IDX_ISOLATE_USB = 2"

lemmas module_nums = MODULE0_def MODULE1_def MODULE2_def CONTROLLER_def STORAGE_def MODULE5_def MODULE6_def MODULE7_def
lemmas mod_pins = MOD0_IN_def MOD1_IN_def MOD2_IN_def STORAGE_IN_def MOD5_IN_def MOD6_IN_def MOD7_IN_def
  MOD0_OUT_def MOD1_OUT_def MOD2_OUT_def STORAGE_OUT_def MOD5_OUT_def MOD6_OUT_def MOD7_OUT_def
lemmas switch_nums = PIN_IDX_ISOLATE_POWER_def PIN_IDX_ISOLATE_I2C_def PIN_IDX_ISOLATE_USB_def

definition MOD_OUTS :: "nat list" where
  "MOD_OUTS = [MOD0_OUT, MOD1_OUT, MOD2_OUT, STORAGE_OUT, MOD5_OUT, MOD6_OUT, MOD7_OUT]"

definition MOD_INS :: "nat list" where
  "MOD_INS = [MOD0_IN, MOD1_IN, MOD2_IN, STORAGE_IN, MOD5_IN, MOD6_IN, MOD7_IN]"

definition module_to_async_port_num :: "nat list" where
  "module_to_async_port_num = [0, 1, 2, 0xff, 0xff, 3, 4, 5]"

definition controller_init_module_switches :: "backplane \<Rightarrow> backplane" where
  "controller_init_module_switches =
     hws (concat (map (\<lambda>i. [AsyncOutput i PIN_IDX_ISOLATE_POWER, AsyncOutput i PIN_IDX_ISOLATE_I2C,
                            AsyncOutput i PIN_IDX_ISOLATE_USB]) [0..<6]))"

definition controller_gpio_enable_all_MODINs :: "backplane \<Rightarrow> backplane" where
  "controller_gpio_enable_all_MODINs = hws (map GpioOutput MOD_INS)"

definition controller_gpio_enable_all_MODOUTs :: "backplane \<Rightarrow> backplane" where
  "controller_gpio_enable_all_MODOUTs = hws (map GpioInput MOD_OUTS)"

text \<open>The four switch statements; a pin or module without a case gives \<open>0xff\<close>. A pin is an \<open>int\<close>.\<close>

definition MODOUT_pin_to_mod_name :: "int \<Rightarrow> nat" where
  "MODOUT_pin_to_mod_name pin =
     (if pin = int MOD0_OUT then MODULE0 else if pin = int MOD1_OUT then MODULE1
      else if pin = int MOD2_OUT then MODULE2 else if pin = int STORAGE_OUT then STORAGE
      else if pin = int MOD5_OUT then MODULE5 else if pin = int MOD6_OUT then MODULE6
      else if pin = int MOD7_OUT then MODULE7 else 0xff)"

definition MODIN_pin_to_mod_name :: "int \<Rightarrow> nat" where
  "MODIN_pin_to_mod_name pin =
     (if pin = int MOD0_IN then MODULE0 else if pin = int MOD1_IN then MODULE1
      else if pin = int MOD2_IN then MODULE2 else if pin = int STORAGE_IN then STORAGE
      else if pin = int MOD5_IN then MODULE5 else if pin = int MOD6_IN then MODULE6
      else if pin = int MOD7_IN then MODULE7 else 0xff)"

definition mod_name_to_MODOUT_pin :: "nat \<Rightarrow> nat" where
  "mod_name_to_MODOUT_pin n =
     (if n = MODULE0 then MOD0_OUT else if n = MODULE1 then MOD1_OUT else if n = MODULE2 then MOD2_OUT
      else if n = STORAGE then STORAGE_OUT else if n = MODULE5 then MOD5_OUT else if n = MODULE6 then MOD6_OUT
      else if n = MODULE7 then MOD7_OUT else 0xff)"

definition mod_name_to_MODIN_pin :: "nat \<Rightarrow> nat" where
  "mod_name_to_MODIN_pin n =
     (if n = MODULE0 then MOD0_IN else if n = MODULE1 then MOD1_IN else if n = MODULE2 then MOD2_IN
      else if n = STORAGE then STORAGE_IN else if n = MODULE5 then MOD5_IN else if n = MODULE6 then MOD6_IN
      else if n = MODULE7 then MOD7_IN else 0xff)"

definition controller_gpio_set_all :: "backplane \<Rightarrow> backplane" where
  "controller_gpio_set_all = hws [GpioSet MOD0_IN, GpioSet MOD1_IN, GpioSet MOD2_IN, GpioSet STORAGE_IN,
     GpioSet MOD5_IN, GpioSet MOD6_IN, GpioSet MOD7_IN]"

text \<open>The line of the storage module is set here, too.\<close>

definition controller_gpio_clear_all :: "backplane \<Rightarrow> backplane" where
  "controller_gpio_clear_all = hws [GpioClear MOD0_IN, GpioClear MOD1_IN, GpioClear MOD2_IN, GpioSet STORAGE_IN,
     GpioClear MOD5_IN, GpioClear MOD6_IN, GpioClear MOD7_IN]"

section \<open>Switches\<close>

text \<open>A module number is the index of an array of eight; the extender ignores port \<open>0xff\<close>.\<close>

definition async_port :: "(nat \<Rightarrow> hw_op) \<Rightarrow> nat \<Rightarrow> backplane \<Rightarrow> fault + backplane" where
  "async_port op n bp =
     (if n < length module_to_async_port_num then Inr (hw (op (module_to_async_port_num ! n)) bp) else Inl OutOfBounds)"

definition controller_module_enable_power :: "nat \<Rightarrow> backplane \<Rightarrow> fault + backplane" where
  "controller_module_enable_power = async_port (\<lambda>p. AsyncSet p PIN_IDX_ISOLATE_POWER)"

definition controller_module_enable_i2c :: "nat \<Rightarrow> backplane \<Rightarrow> fault + backplane" where
  "controller_module_enable_i2c = async_port (\<lambda>p. AsyncSet p PIN_IDX_ISOLATE_I2C)"

definition controller_module_enable_usb :: "nat \<Rightarrow> backplane \<Rightarrow> fault + backplane" where
  "controller_module_enable_usb = async_port (\<lambda>p. AsyncSet p PIN_IDX_ISOLATE_USB)"

definition controller_module_disable_power :: "nat \<Rightarrow> backplane \<Rightarrow> fault + backplane" where
  "controller_module_disable_power = async_port (\<lambda>p. AsyncClear p PIN_IDX_ISOLATE_POWER)"

definition controller_module_disable_i2c :: "nat \<Rightarrow> backplane \<Rightarrow> fault + backplane" where
  "controller_module_disable_i2c = async_port (\<lambda>p. AsyncClear p PIN_IDX_ISOLATE_I2C)"

definition controller_module_disable_usb :: "nat \<Rightarrow> backplane \<Rightarrow> fault + backplane" where
  "controller_module_disable_usb = async_port (\<lambda>p. AsyncClear p PIN_IDX_ISOLATE_USB)"

definition for_all_modules :: "(nat \<Rightarrow> backplane \<Rightarrow> fault + backplane) \<Rightarrow> backplane \<Rightarrow> fault + backplane" where
  "for_all_modules f bp =
     andthen (f MODULE0 bp) (\<lambda>b1. andthen (f MODULE1 b1) (\<lambda>b2. andthen (f MODULE2 b2) (\<lambda>b3.
     andthen (f MODULE5 b3) (\<lambda>b4. andthen (f MODULE6 b4) (f MODULE7)))))"

definition controller_all_modules_enable_power :: "backplane \<Rightarrow> fault + backplane" where
  "controller_all_modules_enable_power = for_all_modules controller_module_enable_power"

definition controller_all_modules_enable_i2c :: "backplane \<Rightarrow> fault + backplane" where
  "controller_all_modules_enable_i2c = for_all_modules controller_module_enable_i2c"

definition controller_all_modules_enable_usb :: "backplane \<Rightarrow> fault + backplane" where
  "controller_all_modules_enable_usb = for_all_modules controller_module_enable_usb"

definition controller_all_modules_disable_power :: "backplane \<Rightarrow> fault + backplane" where
  "controller_all_modules_disable_power = for_all_modules controller_module_disable_power"

definition controller_all_modules_disable_i2c :: "backplane \<Rightarrow> fault + backplane" where
  "controller_all_modules_disable_i2c = for_all_modules controller_module_disable_i2c"

definition controller_all_modules_disable_usb :: "backplane \<Rightarrow> fault + backplane" where
  "controller_all_modules_disable_usb = for_all_modules controller_module_disable_usb"

section \<open>The application watchdog\<close>

definition app_watchdog_tickle_app :: "backplane \<Rightarrow> backplane" where "app_watchdog_tickle_app = hw (WatchdogCommand 0 0)"
definition app_watchdog_tickle_kernel :: "backplane \<Rightarrow> backplane" where "app_watchdog_tickle_kernel = hw (WatchdogCommand 1 0)"
definition app_watchdog_set_app_timeout :: "nat \<Rightarrow> backplane \<Rightarrow> backplane" where
  "app_watchdog_set_app_timeout timeout = hw (WatchdogCommand 2 timeout)"
definition app_watchdog_set_kernel_timeout :: "nat \<Rightarrow> backplane \<Rightarrow> backplane" where
  "app_watchdog_set_kernel_timeout timeout = hw (WatchdogCommand 3 timeout)"
definition app_watchdog_start :: "backplane \<Rightarrow> backplane" where "app_watchdog_start = hw (WatchdogCommand 4 0)"
definition app_watchdog_stop :: "backplane \<Rightarrow> backplane" where "app_watchdog_stop = hw (WatchdogCommand 5 0)"
definition app_watchdog_reset_app :: "backplane \<Rightarrow> backplane" where "app_watchdog_reset_app = hw (WatchdogCommand 6 0xDEAD)"

section \<open>What a switch call does\<close>

lemmas switch_calls = controller_module_enable_power_def controller_module_enable_i2c_def controller_module_enable_usb_def
  controller_module_disable_power_def controller_module_disable_i2c_def controller_module_disable_usb_def
  controller_all_modules_enable_power_def controller_all_modules_enable_i2c_def controller_all_modules_enable_usb_def
  controller_all_modules_disable_power_def controller_all_modules_disable_i2c_def controller_all_modules_disable_usb_def

text \<open>The port of a module; the modules with a port of their own have different ones.\<close>

abbreviation port_of :: "nat \<Rightarrow> nat" where
  "port_of n \<equiv> module_to_async_port_num ! n"

lemma length_ports [simp]: "length module_to_async_port_num = 8"
  by (simp add: module_to_async_port_num_def)

lemma async_port_ok [simp]: "n < 8 \<Longrightarrow> async_port op n bp = Inr (hw (op (port_of n)) bp)"
  by (simp add: async_port_def)

lemma less_8: "(n :: nat) < 8 \<longleftrightarrow> n = 0 \<or> n = 1 \<or> n = 2 \<or> n = 3 \<or> n = 4 \<or> n = 5 \<or> n = 6 \<or> n = 7"
  by auto

lemma less_7: "(n :: nat) < 7 \<longleftrightarrow> n = 0 \<or> n = 1 \<or> n = 2 \<or> n = 3 \<or> n = 4 \<or> n = 5 \<or> n = 6"
  by auto

definition switched :: "nat \<Rightarrow> bool" where
  "switched n \<longleftrightarrow> n \<in> {0, 1, 2, 5, 6, 7}"

lemma port_inj: "switched n \<Longrightarrow> m < 8 \<Longrightarrow> port_of m = port_of n \<longleftrightarrow> m = n"
  by (auto simp: switched_def less_8 module_to_async_port_num_def)

lemma for_all_modules_async:
  "for_all_modules (async_port op) bp = Inr (hws (map op [0, 1, 2, 3, 4, 5]) bp)"
  by (simp add: for_all_modules_def module_nums hw_def hws_def module_to_async_port_num_def)

lemma fold_clear:
  "fold switch_op (map (\<lambda>p. AsyncClear p i) ps) f p j \<longleftrightarrow> \<not> (p \<in> set ps \<and> j = i) \<and> f p j"
  by (induction ps arbitrary: f) auto

lemma fold_set:
  "fold switch_op (map (\<lambda>p. AsyncSet p i) ps) f p j \<longleftrightarrow> (p \<in> set ps \<and> j = i) \<or> f p j"
  by (induction ps arbitrary: f) auto

lemma fold_level_switch: "\<forall>op\<in>set ops. level_op op = id \<Longrightarrow> fold level_op ops f = f"
  by (induction ops arbitrary: f) auto

lemma switched_port: "switched n \<Longrightarrow> port_of n \<in> {0, 1, 2, 3, 4, 5}"
  by (auto simp: switched_def module_to_async_port_num_def)

end
