(* ===== verification/Minmea.thy ===== *)
theory Minmea
  imports Signpost_Prelude
begin

text \<open>
  The parser of GPS sentences, \<open>libsignpost-tock/minmea.c\<close>, as changed for Signpost: checksums, the check of a
  sentence, the scanner behind all sentence types, and the identification and parsing of sentences.

  A C string is the list of its characters before the terminating 0 (it has no 0 inside); a pointer into
  it is a suffix, and what it points to at the end is 0 (\<open>peek\<close>). The variadic arguments of the
  scanner are the list of values it stores. \<open>int\<close> values are kept in 32 bits where they could leave them.
\<close>

section \<open>Characters\<close>

abbreviation chr :: "char \<Rightarrow> byte" where
  "chr c \<equiv> of_char c"

definition peek :: "bytes \<Rightarrow> byte" where
  "peek s = (case s of [] \<Rightarrow> 0 | c # _ \<Rightarrow> c)"

definition hex2int :: "byte \<Rightarrow> int" where
  "hex2int c =
     (if c \<ge> 0x30 \<and> c \<le> 0x39 then uint c - 0x30
      else if c \<ge> 0x41 \<and> c \<le> 0x46 then uint c - 0x41 + 10
      else if c \<ge> 0x61 \<and> c \<le> 0x66 then uint c - 0x61 + 10
      else -1)"

definition signpost_isprint :: "byte \<Rightarrow> bool" where
  "signpost_isprint c \<longleftrightarrow> c > 0x1f \<and> c < 0x7f"

definition signpost_isdigit :: "byte \<Rightarrow> bool" where
  "signpost_isdigit c \<longleftrightarrow> c \<ge> 48 \<and> c \<le> 57"

definition minmea_isfield :: "byte \<Rightarrow> bool" where
  "minmea_isfield c \<longleftrightarrow> signpost_isprint c \<and> c \<noteq> 0x2C \<and> c \<noteq> 0x2A"

section \<open>Checks\<close>

text \<open>The loop over the bytes up to the star; \<open>P\<close> is what else a byte has to satisfy.\<close>

fun checksum_loop :: "(byte \<Rightarrow> bool) \<Rightarrow> byte \<Rightarrow> bytes \<Rightarrow> byte \<times> bytes" where
  "checksum_loop P acc [] = (acc, [])"
| "checksum_loop P acc (c # s) =
     (if c \<noteq> 0x2A \<and> P c then checksum_loop P (acc XOR c) s else (acc, c # s))"

definition minmea_checksum :: "bytes \<Rightarrow> byte" where
  "minmea_checksum sentence =
     fst (checksum_loop (\<lambda>_. True) 0 (if peek sentence = 0x24 then tl sentence else sentence))"

definition MINMEA_MAX_LENGTH :: nat where "MINMEA_MAX_LENGTH = 80"

definition line_end_ok :: "bool \<Rightarrow> bytes \<Rightarrow> bool" where
  "line_end_ok strict s \<longleftrightarrow> \<not> (strict \<and> s \<noteq> [] \<and> s \<noteq> [0x0A] \<and> s \<noteq> [0x0D, 0x0A])"

definition minmea_check :: "bytes \<Rightarrow> bool \<Rightarrow> bool" where
  "minmea_check sentence strict =
     (if length sentence > MINMEA_MAX_LENGTH + 3 then False
      else if peek sentence \<noteq> 0x24 then False
      else let (checksum, s) = checksum_loop signpost_isprint 0 (tl sentence)
           in if peek s = 0x2A
              then let upper = hex2int (peek (tl s)); lower = hex2int (peek (tl (tl s)))
                   in if upper = -1 \<or> lower = -1 then False
                      else if uint checksum \<noteq> (push_bit 4 upper OR lower) then False
                      else line_end_ok strict (tl (tl (tl s)))
              else if strict then False
              else line_end_ok strict s)"

section \<open>The scanner\<close>

datatype scan_value =
    VChar byte | VInt int | VFloat int int | VString bytes | VType bytes
  | VDate int int int | VTime int int int int

definition wrap32 :: "int \<Rightarrow> int" where
  "wrap32 x = sint (word_of_int x :: 32 word)"

definition INT_LEAST32_MAX :: int where "INT_LEAST32_MAX = 2147483647"

text \<open>\<open>next_field\<close>: the rest of the sentence and the field there, \<open>None\<close> when there is none.\<close>

fun next_field :: "bytes \<Rightarrow> bytes \<times> bytes option" where
  "next_field [] = ([], None)"
| "next_field (c # s) =
     (if minmea_isfield c then next_field s
      else if c = 0x2C then (s, Some s) else (c # s, None))"

text \<open>The number in a fractional field: sign, value and scale; \<open>None\<close> is the parse error.\<close>

fun scan_float_loop :: "int \<Rightarrow> int \<Rightarrow> int \<Rightarrow> bytes \<Rightarrow> (int \<times> int \<times> int) option" where
  "scan_float_loop sign value scale [] = Some (sign, value, scale)"
| "scan_float_loop sign value scale (c # s) =
     (if \<not> minmea_isfield c then Some (sign, value, scale)
      else if c = 0x2B \<and> sign = 0 \<and> value = -1 then scan_float_loop 1 value scale s
      else if c = 0x2D \<and> sign = 0 \<and> value = -1 then scan_float_loop (-1) value scale s
      else if signpost_isdigit c
      then let digit = uint c - 0x30;
               v = (if value = -1 then 0 else value)
           in if v > (INT_LEAST32_MAX - digit) div 10
              then if scale \<noteq> 0 then Some (sign, v, scale) else None
              else scan_float_loop sign (10 * v + digit) (if scale \<noteq> 0 then wrap32 (scale * 10) else scale) s
      else if c = 0x2E \<and> scale = 0 then scan_float_loop sign value 1 s
      else if c = 0x20
      then if sign \<noteq> 0 \<or> value \<noteq> -1 \<or> scale \<noteq> 0 then None else scan_float_loop sign value scale s
      else None)"

definition scan_float :: "bytes option \<Rightarrow> scan_value option" where
  "scan_float field =
     (case (case field of None \<Rightarrow> Some (0, -1, 0) | Some s \<Rightarrow> scan_float_loop 0 (-1) 0 s) of
        None \<Rightarrow> None
      | Some (sign, value, scale) \<Rightarrow>
          if (sign \<noteq> 0 \<or> scale \<noteq> 0) \<and> value = -1 then None
          else let (v, sc) = (if value = -1 then (0, 0) else if scale = 0 then (value, 1) else (value, scale))
               in Some (VFloat (if sign \<noteq> 0 then v * sign else v) sc))"

text \<open>\<open>strtol\<close> in base ten: blanks, a sign, digits; the result saturates. Without digits the end is the start.\<close>

definition is_blank :: "byte \<Rightarrow> bool" where
  "is_blank c \<longleftrightarrow> c = 0x20 \<or> (c \<ge> 0x09 \<and> c \<le> 0x0D)"

fun decimal :: "int \<Rightarrow> bytes \<Rightarrow> int" where
  "decimal v [] = v"
| "decimal v (c # s) = decimal (10 * v + (uint c - 0x30)) s"

definition clamp32 :: "int \<Rightarrow> int" where
  "clamp32 x = max (- (2 ^ 31)) (min (2 ^ 31 - 1) x)"

definition strtol :: "bytes \<Rightarrow> int \<times> bytes" where
  "strtol s =
     (let t = dropWhile is_blank s;
          neg = peek t = 0x2D;
          u = (if peek t = 0x2D \<or> peek t = 0x2B then tl t else t);
          ds = takeWhile signpost_isdigit u
      in if ds = [] then (0, s)
         else (clamp32 (if neg then - decimal 0 ds else decimal 0 ds), dropWhile signpost_isdigit u))"

definition scan_int :: "bytes option \<Rightarrow> scan_value option" where
  "scan_int field =
     (case field of
        None \<Rightarrow> Some (VInt 0)
      | Some s \<Rightarrow> let (value, rest) = strtol s in if minmea_isfield (peek rest) then None else Some (VInt value))"

definition scan_char :: "bytes option \<Rightarrow> scan_value option" where
  "scan_char field =
     Some (VChar (case field of None \<Rightarrow> 0 | Some s \<Rightarrow> if minmea_isfield (peek s) then peek s else 0))"

definition scan_direction :: "bytes option \<Rightarrow> scan_value option" where
  "scan_direction field =
     (case field of
        None \<Rightarrow> Some (VInt 0)
      | Some s \<Rightarrow>
          if \<not> minmea_isfield (peek s) then Some (VInt 0)
          else if peek s = 0x4E \<or> peek s = 0x45 then Some (VInt 1)
          else if peek s = 0x53 \<or> peek s = 0x57 then Some (VInt (-1))
          else None)"

definition scan_string :: "bytes option \<Rightarrow> scan_value option" where
  "scan_string field = Some (VString (case field of None \<Rightarrow> [] | Some s \<Rightarrow> takeWhile minmea_isfield s))"

text \<open>Five field characters after the dollar sign; the loop stops at the first that is none.\<close>

definition scan_type :: "bytes option \<Rightarrow> scan_value option" where
  "scan_type field =
     (case field of
        None \<Rightarrow> None
      | Some s \<Rightarrow>
          if peek s \<noteq> 0x24 then None
          else if length (takeWhile minmea_isfield (take 5 (tl s))) < 5 then None
          else Some (VType (take 5 (tl s))))"

definition six_digits :: "bytes \<Rightarrow> bool" where
  "six_digits s \<longleftrightarrow> length (takeWhile signpost_isdigit (take 6 s)) = 6"

definition two_digits :: "bytes \<Rightarrow> nat \<Rightarrow> int" where
  "two_digits s i = decimal 0 (take 2 (drop i s))"

definition scan_date :: "bytes option \<Rightarrow> scan_value option" where
  "scan_date field =
     (case field of
        None \<Rightarrow> Some (VDate (-1) (-1) (-1))
      | Some s \<Rightarrow>
          if \<not> minmea_isfield (peek s) then Some (VDate (-1) (-1) (-1))
          else if \<not> six_digits s then None
          else Some (VDate (two_digits s 0) (two_digits s 2) (two_digits s 4)))"

fun fraction_loop :: "int \<Rightarrow> int \<Rightarrow> bytes \<Rightarrow> int" where
  "fraction_loop value scale [] = value * scale"
| "fraction_loop value scale (c # s) =
     (if signpost_isdigit c \<and> scale > 1 then fraction_loop (value * 10 + (uint c - 0x30)) (scale div 10) s
      else value * scale)"

definition scan_time :: "bytes option \<Rightarrow> scan_value option" where
  "scan_time field =
     (case field of
        None \<Rightarrow> Some (VTime (-1) (-1) (-1) (-1))
      | Some s \<Rightarrow>
          if \<not> minmea_isfield (peek s) then Some (VTime (-1) (-1) (-1) (-1))
          else if \<not> six_digits s then None
          else Some (VTime (two_digits s 0) (two_digits s 2) (two_digits s 4)
                 (if peek (drop 6 s) = 0x2E then fraction_loop 0 1000000 (drop 7 s) else 0)))"

definition scan_field :: "char \<Rightarrow> bytes option \<Rightarrow> scan_value list option" where
  "scan_field type field =
     (let one = map_option (\<lambda>v. [v])
      in if type = CHR ''c'' then one (scan_char field)
         else if type = CHR ''d'' then one (scan_direction field)
         else if type = CHR ''f'' then one (scan_float field)
         else if type = CHR ''i'' then one (scan_int field)
         else if type = CHR ''s'' then one (scan_string field)
         else if type = CHR ''t'' then one (scan_type field)
         else if type = CHR ''D'' then one (scan_date field)
         else if type = CHR ''T'' then one (scan_time field)
         else if type = CHR ''_'' then Some []
         else None)"

fun scan_loop :: "string \<Rightarrow> bool \<Rightarrow> bytes option \<Rightarrow> bytes \<Rightarrow> scan_value list option" where
  "scan_loop [] optional field sentence = Some []"
| "scan_loop (type # format) optional field sentence =
     (if type = CHR '';'' then scan_loop format True field sentence
      else if field = None \<and> \<not> optional then None
      else case scan_field type field of
             None \<Rightarrow> None
           | Some vs \<Rightarrow>
               let (sentence', field') = next_field sentence
               in map_option (append vs) (scan_loop format optional field' sentence'))"

definition minmea_scan :: "bytes \<Rightarrow> string \<Rightarrow> scan_value list option" where
  "minmea_scan sentence format = scan_loop format False (Some sentence) sentence"

section \<open>Sentences\<close>

definition minmea_talker_id :: "bytes \<Rightarrow> bytes option" where
  "minmea_talker_id sentence =
     (case minmea_scan sentence ''t'' of Some [VType type] \<Rightarrow> Some (take 2 type) | _ \<Rightarrow> None)"

datatype minmea_sentence_kind =
    MINMEA_INVALID | MINMEA_UNKNOWN | MINMEA_SENTENCE_RMC | MINMEA_SENTENCE_GGA | MINMEA_SENTENCE_GSA
  | MINMEA_SENTENCE_GLL | MINMEA_SENTENCE_GST | MINMEA_SENTENCE_GSV | MINMEA_SENTENCE_VTG

definition minmea_sentence_id :: "bytes \<Rightarrow> bool \<Rightarrow> minmea_sentence_kind" where
  "minmea_sentence_id sentence strict =
     (if \<not> minmea_check sentence strict then MINMEA_INVALID
      else case minmea_scan sentence ''t'' of
             Some [VType type] \<Rightarrow>
               let kind = drop 2 type
               in if kind = chars ''RMC'' then MINMEA_SENTENCE_RMC
                  else if kind = chars ''GGA'' then MINMEA_SENTENCE_GGA
                  else if kind = chars ''GSA'' then MINMEA_SENTENCE_GSA
                  else if kind = chars ''GLL'' then MINMEA_SENTENCE_GLL
                  else if kind = chars ''GST'' then MINMEA_SENTENCE_GST
                  else if kind = chars ''GSV'' then MINMEA_SENTENCE_GSV
                  else if kind = chars ''VTG'' then MINMEA_SENTENCE_VTG
                  else MINMEA_UNKNOWN
           | _ \<Rightarrow> MINMEA_INVALID)"

text \<open>The values of a scan, by their place.\<close>

definition v_char :: "scan_value list \<Rightarrow> nat \<Rightarrow> byte" where
  "v_char vs i = (case vs ! i of VChar c \<Rightarrow> c | _ \<Rightarrow> 0)"

definition v_int :: "scan_value list \<Rightarrow> nat \<Rightarrow> int" where
  "v_int vs i = (case vs ! i of VInt k \<Rightarrow> k | _ \<Rightarrow> 0)"

definition v_float :: "scan_value list \<Rightarrow> nat \<Rightarrow> int \<times> int" where
  "v_float vs i = (case vs ! i of VFloat v s \<Rightarrow> (v, s) | _ \<Rightarrow> (0, 0))"

definition v_date :: "scan_value list \<Rightarrow> nat \<Rightarrow> int \<times> int \<times> int" where
  "v_date vs i = (case vs ! i of VDate d m y \<Rightarrow> (d, m, y) | _ \<Rightarrow> (0, 0, 0))"

definition v_time :: "scan_value list \<Rightarrow> nat \<Rightarrow> int \<times> int \<times> int \<times> int" where
  "v_time vs i = (case vs ! i of VTime h m s u \<Rightarrow> (h, m, s, u) | _ \<Rightarrow> (0, 0, 0, 0))"

definition v_type :: "scan_value list \<Rightarrow> nat \<Rightarrow> bytes" where
  "v_type vs i = (case vs ! i of VType t \<Rightarrow> t | _ \<Rightarrow> [])"

text \<open>A sentence of the kind \<open>kind\<close>, scanned by \<open>format\<close>.\<close>

definition parse_sentence :: "string \<Rightarrow> string \<Rightarrow> bytes \<Rightarrow> scan_value list option" where
  "parse_sentence kind format sentence =
     (case minmea_scan sentence format of
        None \<Rightarrow> None
      | Some vs \<Rightarrow> if drop 2 (v_type vs 0) = chars kind then Some vs else None)"

definition directed :: "int \<times> int \<Rightarrow> int \<Rightarrow> int \<times> int" where
  "directed f d = (fst f * d, snd f)"

record minmea_sentence_rmc =
  rmc_time :: "int \<times> int \<times> int \<times> int"
  rmc_valid :: bool
  rmc_latitude :: "int \<times> int"
  rmc_longitude :: "int \<times> int"
  rmc_speed :: "int \<times> int"
  rmc_course :: "int \<times> int"
  rmc_date :: "int \<times> int \<times> int"
  rmc_variation :: "int \<times> int"

definition minmea_parse_rmc :: "bytes \<Rightarrow> minmea_sentence_rmc option" where
  "minmea_parse_rmc sentence = map_option (\<lambda>vs. \<lparr>rmc_time = v_time vs 1, rmc_valid = (v_char vs 2 = 0x41),
       rmc_latitude = directed (v_float vs 3) (v_int vs 4), rmc_longitude = directed (v_float vs 5) (v_int vs 6),
       rmc_speed = v_float vs 7, rmc_course = v_float vs 8, rmc_date = v_date vs 9,
       rmc_variation = directed (v_float vs 10) (v_int vs 11)\<rparr>)
     (parse_sentence ''RMC'' ''tTcfdfdffDfd'' sentence)"

record minmea_sentence_gga =
  gga_time :: "int \<times> int \<times> int \<times> int"
  gga_latitude :: "int \<times> int"
  gga_longitude :: "int \<times> int"
  gga_fix_quality :: int
  gga_satellites_tracked :: int
  gga_hdop :: "int \<times> int"
  gga_altitude :: "int \<times> int"
  gga_altitude_units :: byte
  gga_height :: "int \<times> int"
  gga_height_units :: byte
  gga_dgps_age :: int

definition minmea_parse_gga :: "bytes \<Rightarrow> minmea_sentence_gga option" where
  "minmea_parse_gga sentence = map_option (\<lambda>vs. \<lparr>gga_time = v_time vs 1,
       gga_latitude = directed (v_float vs 2) (v_int vs 3), gga_longitude = directed (v_float vs 4) (v_int vs 5),
       gga_fix_quality = v_int vs 6, gga_satellites_tracked = v_int vs 7, gga_hdop = v_float vs 8,
       gga_altitude = v_float vs 9, gga_altitude_units = v_char vs 10, gga_height = v_float vs 11,
       gga_height_units = v_char vs 12, gga_dgps_age = v_int vs 13\<rparr>)
     (parse_sentence ''GGA'' ''tTfdfdiiffcfci_'' sentence)"

record minmea_sentence_gsa =
  gsa_mode :: byte
  gsa_fix_type :: int
  gsa_sats :: "int list"
  gsa_pdop :: "int \<times> int"
  gsa_hdop :: "int \<times> int"
  gsa_vdop :: "int \<times> int"

definition minmea_parse_gsa :: "bytes \<Rightarrow> minmea_sentence_gsa option" where
  "minmea_parse_gsa sentence = map_option (\<lambda>vs. \<lparr>gsa_mode = v_char vs 1, gsa_fix_type = v_int vs 2,
       gsa_sats = map (\<lambda>i. v_int vs (3 + i)) [0..<12],
       gsa_pdop = v_float vs 15, gsa_hdop = v_float vs 16, gsa_vdop = v_float vs 17\<rparr>)
     (parse_sentence ''GSA'' ''tciiiiiiiiiiiiifff'' sentence)"

record minmea_sentence_gll =
  gll_latitude :: "int \<times> int"
  gll_longitude :: "int \<times> int"
  gll_time :: "int \<times> int \<times> int \<times> int"
  gll_status :: byte
  gll_mode :: byte

definition minmea_parse_gll :: "bytes \<Rightarrow> minmea_sentence_gll option" where
  "minmea_parse_gll sentence = map_option (\<lambda>vs. \<lparr>gll_latitude = directed (v_float vs 1) (v_int vs 2),
       gll_longitude = directed (v_float vs 3) (v_int vs 4), gll_time = v_time vs 5, gll_status = v_char vs 6,
       gll_mode = v_char vs 7\<rparr>)
     (parse_sentence ''GLL'' ''tfdfdTc;c'' sentence)"

record minmea_sentence_gst =
  gst_time :: "int \<times> int \<times> int \<times> int"
  gst_deviations :: "(int \<times> int) list"

text \<open>The seven deviations, in the order of the frame's fields.\<close>

definition minmea_parse_gst :: "bytes \<Rightarrow> minmea_sentence_gst option" where
  "minmea_parse_gst sentence = map_option (\<lambda>vs. \<lparr>gst_time = v_time vs 1, gst_deviations = map (\<lambda>i. v_float vs (2 + i)) [0..<7]\<rparr>)
     (parse_sentence ''GST'' ''tTfffffff'' sentence)"

record minmea_sentence_gsv =
  gsv_total_msgs :: int
  gsv_msg_nr :: int
  gsv_total_sats :: int
  gsv_sats :: "(int \<times> int \<times> int \<times> int) list"

definition minmea_parse_gsv :: "bytes \<Rightarrow> minmea_sentence_gsv option" where
  "minmea_parse_gsv sentence = map_option (\<lambda>vs. \<lparr>gsv_total_msgs = v_int vs 1, gsv_msg_nr = v_int vs 2, gsv_total_sats = v_int vs 3,
       gsv_sats = map (\<lambda>k. (v_int vs (4 + 4 * k), v_int vs (5 + 4 * k), v_int vs (6 + 4 * k), v_int vs (7 + 4 * k))) [0..<4]\<rparr>)
     (parse_sentence ''GSV'' ''tiii;iiiiiiiiiiiiiiii'' sentence)"

record minmea_sentence_vtg =
  vtg_true_track_degrees :: "int \<times> int"
  vtg_magnetic_track_degrees :: "int \<times> int"
  vtg_speed_knots :: "int \<times> int"
  vtg_speed_kph :: "int \<times> int"
  vtg_faa_mode :: byte

definition minmea_parse_vtg :: "bytes \<Rightarrow> minmea_sentence_vtg option" where
  "minmea_parse_vtg sentence =
     (case parse_sentence ''VTG'' ''tfcfcfcfc;c'' sentence of
        None \<Rightarrow> None
      | Some vs \<Rightarrow>
          if v_char vs 2 \<noteq> 0x54 \<or> v_char vs 4 \<noteq> 0x4D \<or> v_char vs 6 \<noteq> 0x4E \<or> v_char vs 8 \<noteq> 0x4B then None
          else Some \<lparr>vtg_true_track_degrees = v_float vs 1, vtg_magnetic_track_degrees = v_float vs 3,
            vtg_speed_knots = v_float vs 5, vtg_speed_kph = v_float vs 7, vtg_faa_mode = v_char vs 9\<rparr>)"

end
