(* ===== verification/Gps_Receiver.thy ===== *)
theory Gps_Receiver
  imports Signpost_Port Minmea
begin

text \<open>
  The GPS receiver, \<open>libsignpost-tock/gps.c\<close>: commands to the receiver, the buffer its lines arrive in and the
  record of the last position. The statics of the file are the record \<open>gps\<close>; \<open>gps_calls\<close> are its system
  calls, whose results \<open>gps_rcs\<close> scripts. \<open>gps_receive\<close> is what the kernel does: it writes a message into the
  buffer.
\<close>

section \<open>State\<close>

record gps_data =
  g_day :: byte
  g_month :: byte
  g_year :: byte
  g_hours :: byte
  g_minutes :: byte
  g_seconds :: byte
  g_microseconds :: u32
  g_latitude :: u32
  g_longitude :: u32
  g_fix :: byte
  g_satellite_count :: byte

datatype gps_call = AllowRead | SubscribeRead | AllowWrite bytes | SubscribeWrite

record gps =
  gps_data_buffer :: bytes
  gps_position :: gps_data
  gps_callback_set :: bool
  continuous_mode :: bool
  message_sent :: bool
  gps_calls :: "gps_call list"
  gps_rcs :: "int list"

definition gps_data_boot :: gps_data where
  "gps_data_boot = \<lparr>g_day = 0, g_month = 0, g_year = 0, g_hours = 0, g_minutes = 0, g_seconds = 0, g_microseconds = 0,
     g_latitude = 0, g_longitude = 0, g_fix = 0, g_satellite_count = 0\<rparr>"

definition gps_boot :: gps where
  "gps_boot = \<lparr>gps_data_buffer = replicate 500 0, gps_position = gps_data_boot, gps_callback_set = False,
     continuous_mode = False, message_sent = False, gps_calls = [], gps_rcs = []\<rparr>"

definition gps_syscall :: "gps_call \<Rightarrow> gps \<Rightarrow> int \<times> gps" where
  "gps_syscall c g = (let (rc, rcs) = pop 0 (gps_rcs g) in (rc, g\<lparr>gps_rcs := rcs, gps_calls := gps_calls g @ [c]\<rparr>))"

definition getauto :: "gps \<Rightarrow> int \<times> gps" where
  "getauto g = (let (ret, g1) = gps_syscall AllowRead g in if ret < 0 then (ret, g1) else gps_syscall SubscribeRead g1)"

section \<open>Commands\<close>

definition GPS_NORMAL_OPERATION :: bytes where "GPS_NORMAL_OPERATION = chars ''$PMTK225,0*''"
definition GPS_ACTIVATE_GSA_RMC :: bytes where "GPS_ACTIVATE_GSA_RMC = chars ''$PMTK314,0,1,0,0,1,0,0,0,0,0,0,0,0,0,0,0,0,0,0*''"
definition GPS_DGPS_WAAS :: bytes where "GPS_DGPS_WAAS = chars ''$PMTK301,2*''"
definition GPS_SBAS_ENABLE :: bytes where "GPS_SBAS_ENABLE = chars ''$PMTK313,1*''"
definition GPS_DATUM_US :: bytes where "GPS_DATUM_US = chars ''$PMTK330,142*''"

text \<open>\<open>snprintf\<close> into 60 characters, the last of which is the terminator.\<close>

definition gps_message :: "bytes \<Rightarrow> bytes" where
  "gps_message msg = take 59 (msg @ hex2 (minmea_checksum msg) @ [0x0D, 0x0A])"

text \<open>The transmission's callback ends the wait.\<close>

definition gps_send_msg :: "bytes \<Rightarrow> gps \<Rightarrow> int \<times> gps" where
  "gps_send_msg msg g =
     (let (ret, g1) = gps_syscall (AllowWrite (gps_message msg)) (g\<lparr>message_sent := False\<rparr>)
      in if ret < 0 then (ret, g1)
         else let (ret2, g2) = gps_syscall SubscribeWrite g1
              in if ret2 < 0 then (ret2, g2) else (0, g2\<lparr>message_sent := True\<rparr>))"

definition gps_init :: "gps \<Rightarrow> gps" where
  "gps_init g = fold (\<lambda>msg g. snd (gps_send_msg msg g))
     [GPS_NORMAL_OPERATION, GPS_ACTIVATE_GSA_RMC, GPS_DGPS_WAAS, GPS_SBAS_ENABLE, GPS_DATUM_US] g"

definition gps_continuous :: "bool \<Rightarrow> gps \<Rightarrow> gps" where
  "gps_continuous callback g = snd (getauto (g\<lparr>gps_callback_set := callback, continuous_mode := True\<rparr>))"

definition gps_sample :: "bool \<Rightarrow> gps \<Rightarrow> gps" where
  "gps_sample callback g = snd (getauto (g\<lparr>gps_callback_set := callback, continuous_mode := False\<rparr>))"

section \<open>Positions\<close>

text \<open>Degrees and minutes to hundredths of ten-thousandths of a degree; the products are those of \<open>int\<close>.\<close>

definition to_decimal_degrees :: "int \<times> int \<Rightarrow> fault + int" where
  "to_decimal_degrees coor =
     (let (value, scale) = coor; unit = wrap32 (scale * 100)
      in if unit = 0 then Inl DivisionByZero
         else let degrees = sint (word_of_int (value sdiv unit) :: 16 word);
                  minutes = wrap32 (value - wrap32 (degrees * unit));
                  decimal = wrap32 (wrap32 (degrees * unit) + wrap32 ((minutes sdiv 60) * 100))
              in Inr (if scale = 100000 then decimal sdiv 10 else if scale = 1000 then wrap32 (decimal * 10) else decimal))"

definition gps_update_gsa :: "minmea_sentence_gsa \<Rightarrow> gps_data \<Rightarrow> gps_data" where
  "gps_update_gsa f d = d\<lparr>g_fix := word_of_int (gsa_fix_type f),
     g_satellite_count := word_of_nat (length (filter (\<lambda>k. k \<noteq> 0) (gsa_sats f)))\<rparr>"

definition gps_update_rmc :: "minmea_sentence_rmc \<Rightarrow> gps_data \<Rightarrow> fault + gps_data" where
  "gps_update_rmc f d =
     (let (dd, mm, yy) = rmc_date f; (h, mi, s, u) = rmc_time f
      in andthen (to_decimal_degrees (rmc_latitude f)) (\<lambda>lat.
         andthen (to_decimal_degrees (rmc_longitude f)) (\<lambda>lon.
         Inr (d\<lparr>g_day := word_of_int dd, g_month := word_of_int mm, g_year := word_of_int yy,
                g_hours := word_of_int h, g_minutes := word_of_int mi, g_seconds := word_of_int s,
                g_microseconds := word_of_int u, g_latitude := word_of_int lat, g_longitude := word_of_int lon\<rparr>))))"

definition gps_parse_data :: "bytes \<Rightarrow> gps_data \<Rightarrow> fault + bool \<times> gps_data" where
  "gps_parse_data line d =
     (case minmea_sentence_id line False of
        MINMEA_SENTENCE_GSA \<Rightarrow>
          (case minmea_parse_gsa line of
             None \<Rightarrow> Inr (False, d)
           | Some f \<Rightarrow> Inr (True, gps_update_gsa f d))
      | MINMEA_SENTENCE_RMC \<Rightarrow>
          (case minmea_parse_rmc line of
             None \<Rightarrow> Inr (False, d)
           | Some f \<Rightarrow> andthen (gps_update_rmc f d) (\<lambda>d'. Inr (True, d')))
      | _ \<Rightarrow> Inr (False, d))"

section \<open>Messages\<close>

text \<open>
  \<open>strtok\<close> over the string in the buffer: it skips line ends and cuts the string after each line by
  a 0. The result is the lines and the string's bytes afterwards.
\<close>

fun strtok_lines :: "bytes \<Rightarrow> bytes \<Rightarrow> bytes list \<times> bytes" where
  "strtok_lines line [] = (if line = [] then [] else [rev line], [])"
| "strtok_lines line (c # s) =
     (if c = 0x0A
      then let (ls, out) = strtok_lines [] s
           in if line = [] then (ls, c # out) else (rev line # ls, 0 # out)
      else let (ls, out) = strtok_lines (c # line) s in (ls, c # out))"

fun parse_lines :: "bytes list \<Rightarrow> bool \<Rightarrow> gps_data \<Rightarrow> fault + bool \<times> gps_data" where
  "parse_lines [] updated d = Inr (updated, d)"
| "parse_lines (l # ls) updated d =
     andthen (gps_parse_data l d) (\<lambda>(u, d'). parse_lines ls (updated \<or> u) d')"

text \<open>The result is whether the user's callback is called, with the position of the state.\<close>

definition gps_rx_callback :: "gps \<Rightarrow> fault + bool \<times> gps" where
  "gps_rx_callback g =
     (if 0 \<notin> set (gps_data_buffer g) then Inl OutOfBounds
      else let content = takeWhile (\<lambda>c. c \<noteq> 0) (gps_data_buffer g);
               (lines, out) = strtok_lines [] content
           in andthen (parse_lines lines False (gps_position g)) (\<lambda>(updated, d).
              let g1 = g\<lparr>gps_position := d, gps_data_buffer := overwrite (gps_data_buffer g) 0 out\<rparr>;
                  g2 = (if continuous_mode g1 \<or> \<not> updated then snd (getauto g1) else g1)
              in Inr (gps_callback_set g2 \<and> updated, g2)))"

definition gps_receive :: "bytes \<Rightarrow> gps \<Rightarrow> fault + bool \<times> gps" where
  "gps_receive data g =
     andthen (memcpy_at (gps_data_buffer g) 0 data) (\<lambda>b. gps_rx_callback (g\<lparr>gps_data_buffer := b\<rparr>))"

end
