(* ===== verification/Controller.thy ===== *)
theory Controller
  imports Backplane Energy_Policy Signpost_Init Gps_Receiver
begin

text \<open>
  The controller's program, \<open>libsignpost-tock/signpost_controller.c\<close>: it grants the modules their private
  channel one at a time, answers their energy, time and watchdog messages, cuts off modules
  that used too much energy and takes commands from the radio. The statics of the file are the record
  \<open>controller\<close>, beside those of the libraries it calls.

  \<open>delay_ms\<close> lets other callbacks run; what runs then is the parameter \<open>W\<close> of the callbacks that wait.
\<close>

section \<open>State\<close>

datatype watchdog_tickler = WATCH_APP_TICKLE | WATCH_LIB_GPS | WATCH_LIB_INIT

fun tickler_num :: "watchdog_tickler \<Rightarrow> nat" where
  "tickler_num WATCH_APP_TICKLE = 0"
| "tickler_num WATCH_LIB_GPS = 1"
| "tickler_num WATCH_LIB_INIT = 2"

definition NUM_WATCH_STATES :: nat where "NUM_WATCH_STATES = 3"

datatype isolation = ModuleEnabled | ModuleDisabledIsolation | ModuleDisabledEnergy | ModuleDisabledDutyCycle | ModuleDisabledOff

record slot_state =
  address :: byte
  initialized :: byte
  isolation_state :: isolation
  watchdog_subscribed :: byte
  watchdog_tickled :: byte
  module_init_failures :: byte

record timelocation_time =
  t_year :: u16
  t_month :: byte
  t_day :: byte
  t_hours :: byte
  t_minutes :: byte
  t_seconds :: byte
  t_satellite_count :: byte

record timelocation_location =
  l_latitude :: u32
  l_longitude :: u32
  l_satellite_count :: byte

record controller_fram =
  fram_magic :: u32
  fram_remaining :: energy_remaining
  fram_used :: energy_used
  fram_time :: time_since_reset

record controller =
  capi :: api
  cpolicy :: policy
  cboard :: board
  plane :: backplane
  watchdog_states :: "bool list"
  slots :: "slot_state list"
  mod_isolated_out :: int
  mod_isolated_in :: int
  last_mod_isolated_out :: int
  isolated_count :: u32
  isolation_timeout_seconds :: u32
  last_mod_out_state :: "byte list"
  current_time :: timelocation_time
  current_location :: timelocation_location
  fram :: controller_fram
  fram_stored :: controller_fram
  fram_rcs :: "int list"
  hard_reset :: bool
  checking_init :: bool

definition slot_boot :: slot_state where
  "slot_boot = \<lparr>address = 0, initialized = 0, isolation_state = ModuleEnabled, watchdog_subscribed = 0, watchdog_tickled = 0, module_init_failures = 0\<rparr>"

definition time_boot :: timelocation_time where
  "time_boot = \<lparr>t_year = 0, t_month = 0, t_day = 0, t_hours = 0, t_minutes = 0, t_seconds = 0, t_satellite_count = 0\<rparr>"

definition location_boot :: timelocation_location where
  "location_boot = \<lparr>l_latitude = 0, l_longitude = 0, l_satellite_count = 0\<rparr>"

definition fram_boot :: controller_fram where
  "fram_boot = \<lparr>fram_magic = 0, fram_remaining = remaining policy_boot, fram_used = used policy_boot,
     fram_time = since_reset policy_boot\<rparr>"

text \<open>The program's start on a given board, backplane and memory contents.\<close>

definition controller_boot :: "api \<Rightarrow> board \<Rightarrow> backplane \<Rightarrow> controller_fram \<Rightarrow> controller" where
  "controller_boot a b bp stored = \<lparr>capi = a, cpolicy = policy_boot, cboard = b, plane = bp,
     watchdog_states = replicate NUM_WATCH_STATES False, slots = replicate 8 slot_boot,
     mod_isolated_out = -1, mod_isolated_in = -1, last_mod_isolated_out = -1, isolated_count = 0,
     isolation_timeout_seconds = 10, last_mod_out_state = replicate NUM_MOD_IO 0,
     current_time = time_boot, current_location = location_boot, fram = fram_boot, fram_stored = stored,
     fram_rcs = [], hard_reset = False, checking_init = False\<rparr>"

text \<open>Calls into the parts.\<close>

definition on_plane :: "(backplane \<Rightarrow> backplane) \<Rightarrow> controller \<Rightarrow> controller" where
  "on_plane f s = s\<lparr>plane := f (plane s)\<rparr>"

definition try_plane :: "(backplane \<Rightarrow> fault + backplane) \<Rightarrow> controller \<Rightarrow> fault + controller" where
  "try_plane f s = andthen (f (plane s)) (\<lambda>bp. Inr (s\<lparr>plane := bp\<rparr>))"

definition pin_value :: "nat \<Rightarrow> controller \<Rightarrow> int \<times> controller" where
  "pin_value pin s = (let (v, bp) = gpio_read pin (plane s) in (v, s\<lparr>plane := bp\<rparr>))"

definition on_board :: "(board \<Rightarrow> fault + 'a \<times> board) \<Rightarrow> controller \<Rightarrow> fault + 'a \<times> controller" where
  "on_board f s = andthen (f (cboard s)) (\<lambda>(x, b). Inr (x, s\<lparr>cboard := b\<rparr>))"

definition on_policy :: "(policy \<Rightarrow> board \<Rightarrow> fault + policy \<times> board) \<Rightarrow> controller \<Rightarrow> fault + controller" where
  "on_policy f s = andthen (f (cpolicy s) (cboard s)) (\<lambda>(p, b). Inr (s\<lparr>cpolicy := p, cboard := b\<rparr>))"

definition on_api :: "(api \<Rightarrow> fault + 'a \<times> api) \<Rightarrow> controller \<Rightarrow> fault + 'a \<times> controller" where
  "on_api f s = andthen (f (capi s)) (\<lambda>(x, a). Inr (x, s\<lparr>capi := a\<rparr>))"

definition error_reply :: "mbedtls \<Rightarrow> byte \<Rightarrow> byte \<Rightarrow> byte \<Rightarrow> int \<Rightarrow> controller \<Rightarrow> fault + controller" where
  "error_reply m dest api mt code s =
     andthen (signpost_api_error_reply_repeating m dest api mt code 1 (capi s)) (\<lambda>a. Inr (s\<lparr>capi := a\<rparr>))"

definition upd_slot :: "nat \<Rightarrow> (slot_state \<Rightarrow> slot_state) \<Rightarrow> controller \<Rightarrow> fault + controller" where
  "upd_slot n f s = (if n < length (slots s) then Inr (s\<lparr>slots := (slots s)[n := f (slots s ! n)]\<rparr>) else Inl OutOfBounds)"

definition get_slot :: "nat \<Rightarrow> controller \<Rightarrow> fault + slot_state" where
  "get_slot n s = (if n < length (slots s) then Inr (slots s ! n) else Inl OutOfBounds)"

type_synonym waiting = "nat \<Rightarrow> controller \<Rightarrow> fault + controller"

definition delay_ms :: "waiting \<Rightarrow> nat \<Rightarrow> controller \<Rightarrow> fault + controller" where
  "delay_ms W ms s = W ms (on_plane (hw (Delay ms)) s)"

section \<open>The watchdogs\<close>

definition app_watchdog_combine :: "watchdog_tickler \<Rightarrow> controller \<Rightarrow> controller" where
  "app_watchdog_combine which s =
     (let st = (watchdog_states s)[tickler_num which := True]
      in if \<forall>i\<in>set [0..<NUM_WATCH_STATES]. st ! i
         then (on_plane app_watchdog_tickle_kernel s)\<lparr>watchdog_states := replicate NUM_WATCH_STATES False\<rparr>
         else s\<lparr>watchdog_states := st\<rparr>)"

definition signpost_controller_app_watchdog_tickle :: "controller \<Rightarrow> controller" where
  "signpost_controller_app_watchdog_tickle = app_watchdog_combine WATCH_APP_TICKLE"

definition signpost_controller_hardware_watchdog_tickle :: "waiting \<Rightarrow> controller \<Rightarrow> fault + controller" where
  "signpost_controller_hardware_watchdog_tickle W s =
     (if hard_reset s then Inr s
      else andthen (delay_ms W 50 (on_plane (hw (GpioClear PIN_WATCHDOG)) s)) (\<lambda>s1.
           Inr (on_plane (hw (GpioSet PIN_WATCHDOG)) s1)))"

fun check_watchdogs :: "waiting \<Rightarrow> nat list \<Rightarrow> controller \<Rightarrow> fault + controller" where
  "check_watchdogs W [] s = Inr s"
| "check_watchdogs W (j # js) s =
     (if watchdog_subscribed (slots s ! j) \<noteq> 0
      then if watchdog_tickled (slots s ! j) = 0
           then andthen (try_plane (controller_module_disable_power j) s) (\<lambda>s1.
                andthen (delay_ms W 300 s1) (\<lambda>s2.
                andthen (try_plane (controller_module_enable_power j) s2) (check_watchdogs W js)))
           else check_watchdogs W js (s\<lparr>slots := (slots s)[j := (slots s ! j)\<lparr>watchdog_tickled := 0\<rparr>]\<rparr>)
      else check_watchdogs W js s)"

definition check_watchdogs_cb :: "waiting \<Rightarrow> controller \<Rightarrow> fault + controller" where
  "check_watchdogs_cb W = check_watchdogs W [0..<8]"

section \<open>Isolation\<close>

fun enable_enabled_i2c :: "nat list \<Rightarrow> controller \<Rightarrow> fault + controller" where
  "enable_enabled_i2c [] s = Inr s"
| "enable_enabled_i2c (i # is) s =
     (if isolation_state (slots s ! i) = ModuleEnabled
      then andthen (try_plane (controller_module_enable_i2c i) s) (enable_enabled_i2c is)
      else enable_enabled_i2c is s)"

definition enable_all_enabled_i2c :: "controller \<Rightarrow> fault + controller" where
  "enable_all_enabled_i2c = enable_enabled_i2c [0..<8]"

text \<open>The module at index \<open>i\<close> of the pin tables gets the bus for itself.\<close>

definition grant_isolation :: "waiting \<Rightarrow> nat \<Rightarrow> controller \<Rightarrow> fault + controller" where
  "grant_isolation W i s =
     (let s1 = s\<lparr>mod_isolated_out := int (MOD_OUTS ! i), mod_isolated_in := int (MOD_INS ! i),
                 last_mod_isolated_out := int (MOD_OUTS ! i),
                 last_mod_out_state := (last_mod_out_state s)[i := 0], isolated_count := 0\<rparr>
      in andthen (try_plane controller_all_modules_disable_i2c s1) (\<lambda>s2.
         andthen (try_plane (controller_module_enable_i2c (MODOUT_pin_to_mod_name (mod_isolated_out s2))) s2) (\<lambda>s3.
         delay_ms W 1000 (on_plane (hw (GpioClear (nat (mod_isolated_in s3)))) s3))))"

fun scan_requests :: "waiting \<Rightarrow> nat list \<Rightarrow> controller \<Rightarrow> fault + controller" where
  "scan_requests W [] s = Inr s"
| "scan_requests W (i # is) s =
     (let (v, s1) = pin_value (MOD_OUTS ! i) s
      in if v = 0 \<and> last_mod_isolated_out s1 \<noteq> int (MOD_OUTS ! i) \<and> last_mod_out_state s1 ! i = 1
           \<and> isolation_state (slots s1 ! MODOUT_pin_to_mod_name (int (MOD_OUTS ! i))) = ModuleEnabled
         then grant_isolation W i s1
         else scan_requests W is (s1\<lparr>last_mod_isolated_out := -1\<rparr>))"

text \<open>After the end of an isolation the pin is forgotten before the failures are cleared.\<close>

definition end_isolation :: "controller \<Rightarrow> fault + controller" where
  "end_isolation s =
     enable_all_enabled_i2c (s\<lparr>mod_isolated_out := -1, mod_isolated_in := -1\<rparr>)"

definition police_isolation :: "waiting \<Rightarrow> controller \<Rightarrow> fault + controller" where
  "police_isolation W s =
     (let (v, s1) = pin_value (nat (mod_isolated_out s)) s;
          name = MODOUT_pin_to_mod_name (mod_isolated_out s1);
          s2 = on_plane (hw (GpioSet (nat (mod_isolated_in s1)))) s1
      in if v = 1
         then andthen (end_isolation s2) (\<lambda>s3.
              upd_slot (MODOUT_pin_to_mod_name (mod_isolated_out s3)) (\<lambda>sl. sl\<lparr>module_init_failures := 0\<rparr>) s3)
         else if isolated_count s1 > isolation_timeout_seconds s1
         then andthen (upd_slot name (\<lambda>sl. sl\<lparr>module_init_failures := module_init_failures sl + 1\<rparr>) s2) (\<lambda>s3.
              andthen
                (if module_init_failures (slots s3 ! name) > 4
                 then andthen (try_plane (controller_module_disable_power name) s3) (\<lambda>s4.
                      andthen (delay_ms W 1000 s4) (\<lambda>s5.
                      andthen (try_plane (controller_module_enable_power (MODOUT_pin_to_mod_name (mod_isolated_out s5))) s5) (\<lambda>s6.
                      upd_slot (MODOUT_pin_to_mod_name (mod_isolated_out s6)) (\<lambda>sl. sl\<lparr>module_init_failures := 0\<rparr>) s6)))
                 else Inr s3)
                end_isolation)
         else Inr (s1\<lparr>isolated_count := isolated_count s1 + 1\<rparr>))"

fun rearm_requests :: "nat list \<Rightarrow> controller \<Rightarrow> controller" where
  "rearm_requests [] s = s"
| "rearm_requests (i # is) s =
     (if last_mod_out_state s ! i = 0
      then let (v, s1) = pin_value (MOD_OUTS ! i) s
           in rearm_requests is (if v = 1 then s1\<lparr>last_mod_out_state := (last_mod_out_state s1)[i := 1]\<rparr> else s1)
      else rearm_requests is s)"

definition check_module_init_cb :: "waiting \<Rightarrow> controller \<Rightarrow> fault + controller" where
  "check_module_init_cb W s =
     (if checking_init s then Inr s
      else let s1 = app_watchdog_combine WATCH_LIB_INIT (s\<lparr>checking_init := True\<rparr>)
           in andthen (if mod_isolated_out s1 < 0 then scan_requests W [0..<NUM_MOD_IO] s1 else police_isolation W s1) (\<lambda>s2.
              Inr ((rearm_requests [0..<NUM_MOD_IO] s2)\<lparr>checking_init := False\<rparr>)))"

section \<open>Initialisation messages\<close>

text \<open>\<open>strncpy\<close> into an array of 17 zeros: it writes as many bytes as the message is long.\<close>

definition declared_name :: "nat \<Rightarrow> bytes \<Rightarrow> fault + bytes" where
  "declared_name len msg =
     (if length msg < len \<and> 0 \<notin> set msg then Inl OutOfBounds
      else memcpy_at (replicate 17 0) 0 (strncpy_bytes msg len))"

definition initialization_api_callback ::
  "mbedtls \<Rightarrow> byte \<Rightarrow> byte \<Rightarrow> byte \<Rightarrow> byte \<Rightarrow> nat \<Rightarrow> bytes \<Rightarrow> controller \<Rightarrow> fault + controller" where
  "initialization_api_callback m src frame api mt len msg s =
     (if api \<noteq> InitializationApiType then error_reply m src api mt PORT_EINVAL s
      else if frame = CommandFrame
      then if mt = InitializationDeclare
           then if mod_isolated_out s < 0 then Inr s
                else let req_mod_num = word_of_nat (MODOUT_pin_to_mod_name (mod_isolated_out s)) :: byte;
                         new_address = (if src = 0x00 then 0x10 + req_mod_num else src)
                     in andthen (declared_name len msg) (\<lambda>name.
                        andthen (on_api (signpost_initialization_declare_respond m src new_address req_mod_num name) s)
                          (\<lambda>(_, s1). Inr s1))
           else if mt = InitializationGetState
           then andthen (on_api (signpost_initialization_get_module_state_reply m src) s) (\<lambda>(_, s1). Inr s1)
           else Inr s
      else Inr s)"

end
