(* ===== verification/Controller_Services.thy ===== *)
theory Controller_Services
  imports Controller Signpost_Services
begin

text \<open>
  The rest of \<open>libsignpost-tock/signpost_controller.c\<close>: the energy, time and watchdog services, the energy
  policy's timer, the downlink commands and the start of the controller; and the memory behind the
  saved accounts, \<open>libsignpost-tock/fm25cl.c\<close>.
\<close>

section \<open>The saved accounts\<close>

text \<open>
  Both synchronous calls make two system calls, whose results \<open>fram_rcs\<close> scripts, and then wait for the
  driver; the transfer covers the whole buffer.
\<close>

definition two_syscalls :: "controller \<Rightarrow> int \<times> controller" where
  "two_syscalls s =
     (let (rc, rcs) = pop 0 (fram_rcs s)
      in if rc < 0 then (rc, s\<lparr>fram_rcs := rcs\<rparr>)
         else let (rc', rcs') = pop 0 rcs in (min rc' 0, s\<lparr>fram_rcs := rcs'\<rparr>))"

definition fm25cl_read_sync :: "controller \<Rightarrow> int \<times> controller" where
  "fm25cl_read_sync s = (let (rc, s1) = two_syscalls s in (rc, if rc < 0 then s1 else s1\<lparr>fram := fram_stored s1\<rparr>))"

definition fm25cl_write_sync :: "controller \<Rightarrow> int \<times> controller" where
  "fm25cl_write_sync s = (let (rc, s1) = two_syscalls s in (rc, if rc < 0 then s1 else s1\<lparr>fram_stored := fram s1\<rparr>))"

definition save_accounts :: "controller \<Rightarrow> controller" where
  "save_accounts s =
     (let (r, u, t) = signpost_energy_policy_copy_internal_state (cpolicy s)
      in snd (fm25cl_write_sync (s\<lparr>fram := (fram s)\<lparr>fram_remaining := r, fram_used := u, fram_time := t\<rparr>\<rparr>)))"

definition FRAM_MAGIC_VALUE :: u32 where "FRAM_MAGIC_VALUE = 0x49C8000B"

definition signpost_controller_initialize_energy :: "chips \<Rightarrow> controller \<Rightarrow> fault + controller" where
  "signpost_controller_initialize_energy ch s =
     (let (_, s1) = fm25cl_read_sync s;
          f = fram s1
      in if fram_magic f = FRAM_MAGIC_VALUE
         then andthen (on_policy (signpost_energy_policy_init ch (Some (fram_remaining f)) (Some (fram_used f)) (Some (fram_time f))) s1)
                (\<lambda>s2. Inr (save_accounts s2))
         else andthen (on_policy (signpost_energy_policy_init ch None None None)
                  (s1\<lparr>fram := f\<lparr>fram_magic := FRAM_MAGIC_VALUE\<rparr>\<rparr>))
                (\<lambda>s2. Inr (save_accounts s2)))"

section \<open>Energy\<close>

definition module_remaining :: "chips \<Rightarrow> int \<Rightarrow> controller \<Rightarrow> fault + int \<times> controller" where
  "module_remaining ch n s =
     on_board (signpost_energy_policy_get_module_energy_remaining_uwh ch n (cpolicy s)) s"

definition power_and_i2c_off :: "nat \<Rightarrow> controller \<Rightarrow> fault + controller" where
  "power_and_i2c_off n s =
     andthen (try_plane (controller_module_disable_power n) s) (try_plane (controller_module_disable_i2c n))"

definition power_and_i2c_on :: "nat \<Rightarrow> controller \<Rightarrow> fault + controller" where
  "power_and_i2c_on n s =
     andthen (try_plane (controller_module_enable_power n) s) (try_plane (controller_module_enable_i2c n))"

definition set_isolation :: "isolation \<Rightarrow> nat \<Rightarrow> controller \<Rightarrow> fault + controller" where
  "set_isolation st n = upd_slot n (\<lambda>sl. sl\<lparr>isolation_state := st\<rparr>)"

definition duty_cycle_timer_cb :: "chips \<Rightarrow> nat \<Rightarrow> controller \<Rightarrow> fault + controller" where
  "duty_cycle_timer_cb ch n s =
     andthen (module_remaining ch (int n) s) (\<lambda>(r, s1).
     andthen (get_slot n s1) (\<lambda>sl.
       if r > 0 \<and> isolation_state sl = ModuleDisabledDutyCycle
       then andthen (set_isolation ModuleEnabled n s1) (power_and_i2c_on n)
       else if isolation_state sl = ModuleDisabledOff then Inr s1
       else set_isolation ModuleDisabledEnergy n s1))"

text \<open>\<open>uint8_t\<close> of the look-up's result: an unknown module is 255.\<close>

definition source_slot :: "byte \<Rightarrow> controller \<Rightarrow> byte" where
  "source_slot src s = word_of_int (signpost_api_addr_to_mod_num (module_info (capi s)) src)"

definition duty_cycle_request :: "byte \<Rightarrow> bytes \<Rightarrow> controller \<Rightarrow> fault + controller" where
  "duty_cycle_request src msg s =
     andthen (read_at msg 0 4) (\<lambda>t.
     let n = unat (source_slot src s);
         (ok, a) = api_malloc (capi s);
         s1 = s\<lparr>capi := a\<rparr>
     in if \<not> ok then Inl NullPointer
        else andthen (set_isolation ModuleDisabledDutyCycle n (on_plane (hw (TimerIn (of_le32 t) (DutyCycle n))) s1))
               (power_and_i2c_off n))"

text \<open>The fields of the answer are unsigned: the limit of a module in debt is a large number.\<close>

definition energy_information :: "int \<Rightarrow> int \<Rightarrow> u32 \<Rightarrow> bytes" where
  "energy_information limit used_uWh ms =
     (let l = word_of_int limit :: u32
      in le32 (word_of_int used_uWh) @ le32 l @ le32 (word_of_int (sint ms sdiv 1000))
         @ [if l < 1000000 then 1 else 0, if l < 200000 then 1 else 0])"

definition energy_query_request :: "chips \<Rightarrow> mbedtls \<Rightarrow> byte \<Rightarrow> byte \<Rightarrow> byte \<Rightarrow> controller \<Rightarrow> fault + controller" where
  "energy_query_request ch m src api mt s =
     (let n = signpost_api_addr_to_mod_num (module_info (capi s)) src
      in andthen (module_remaining ch n s) (\<lambda>(limit, s1).
         andthen (on_board (signpost_energy_policy_get_module_energy_used_uwh ch n (cpolicy s1)) s1) (\<lambda>(us, s2).
         andthen (on_board (signpost_energy_policy_get_time_since_module_reset_ms ch n (cpolicy s2)) s2) (\<lambda>(ms, s3).
         andthen (on_api (signpost_energy_query_reply m src (energy_information limit us ms)) s3) (\<lambda>(rc, s4).
         if rc < 0 then error_reply m src api mt PORT_EI2C_WRITE s4 else Inr s4)))))"

text \<open>An entry of a report on the wire: two bytes and four.\<close>

definition report_entries :: "nat \<Rightarrow> bytes \<Rightarrow> (u16 \<times> u32) list" where
  "report_entries n bs = map (\<lambda>e. (of_le16 e, of_le32 (drop 2 e))) (chunks 6 n bs)"

definition energy_report_request :: "mbedtls \<Rightarrow> byte \<Rightarrow> bytes \<Rightarrow> controller \<Rightarrow> fault + controller" where
  "energy_report_request m src msg s =
     andthen (read_at msg 0 1) (\<lambda>b.
     let num = unat (hd b);
         (ok, a) = api_malloc (capi s);
         s1 = s\<lparr>capi := a\<rparr>
     in andthen (if ok then Inr s1
                 else andthen (on_api (signpost_energy_report_reply m src 0) s1) (\<lambda>(_, s2).
                      if num = 0 then Inr s2 else Inl NullPointer)) (\<lambda>s3.
        andthen (read_at msg 1 (6 * num)) (\<lambda>reps.
        andthen (signpost_energy_policy_update_energy_from_report (module_info (capi s3)) (source_slot src s3)
                   (report_entries num reps) (cpolicy s3)) (\<lambda>p.
        andthen (on_api (signpost_energy_report_reply m src 1) (s3\<lparr>cpolicy := p\<rparr>)) (\<lambda>(_, s4). Inr s4)))))"

definition energy_reset_request :: "chips \<Rightarrow> mbedtls \<Rightarrow> byte \<Rightarrow> controller \<Rightarrow> fault + controller" where
  "energy_reset_request ch m src s =
     andthen (on_policy (signpost_energy_policy_reset_module_energy_used ch
                (signpost_api_addr_to_mod_num (module_info (capi s)) src)) s) (\<lambda>s1.
     andthen (on_api (signpost_energy_reset_reply m src 1) s1) (\<lambda>(_, s2). Inr s2))"

definition energy_api_callback ::
  "chips \<Rightarrow> mbedtls \<Rightarrow> byte \<Rightarrow> byte \<Rightarrow> byte \<Rightarrow> byte \<Rightarrow> nat \<Rightarrow> bytes \<Rightarrow> controller \<Rightarrow> fault + controller" where
  "energy_api_callback ch m src frame api mt len msg s =
     (if api \<noteq> EnergyApiType then error_reply m src api mt PORT_EINVAL s
      else if frame = NotificationFrame
      then if mt = EnergyDutyCycleMessage then duty_cycle_request src msg s else Inr s
      else if frame = CommandFrame
      then if mt = EnergyQueryMessage then energy_query_request ch m src api mt s
           else if mt = EnergyReportModuleConsumptionMessage then energy_report_request m src msg s
           else if mt = EnergyResetMessage then energy_reset_request ch m src s
           else error_reply m src api mt PORT_ENOSUPPORT s
      else Inr s)"

text \<open>
  Every ten minutes. The message with the controller's energy reads its counter, and each module's
  energy is read twice.
\<close>

fun cut_off_modules :: "chips \<Rightarrow> nat list \<Rightarrow> controller \<Rightarrow> fault + controller" where
  "cut_off_modules ch [] s = Inr s"
| "cut_off_modules ch (i # is) s =
     (if \<not> metered i then cut_off_modules ch is s
      else andthen (module_remaining ch (int i) s) (\<lambda>(_, s1).
           andthen (module_remaining ch (int i) s1) (\<lambda>(r, s2).
           andthen
             (if r \<le> 0 then andthen (set_isolation ModuleDisabledEnergy i s2) (power_and_i2c_off i)
              else if isolation_state (slots s2 ! i) = ModuleEnabled \<or> isolation_state (slots s2 ! i) = ModuleDisabledEnergy
              then andthen (set_isolation ModuleEnabled i s2) (power_and_i2c_on i)
              else Inr s2)
             (cut_off_modules ch is))))"

definition update_energy_policy_cb :: "chips \<Rightarrow> controller \<Rightarrow> fault + controller" where
  "update_energy_policy_cb ch s =
     andthen (on_policy (signpost_energy_policy_update_energy ch) s) (\<lambda>s1.
     let s2 = save_accounts s1
     in andthen (on_board (signpost_energy_policy_get_controller_energy_remaining_uwh ch (cpolicy s2)) s2) (\<lambda>(_, s3).
        cut_off_modules ch [0..<8] s3))"

section \<open>Time, location and watchdog\<close>

definition time_bytes :: "timelocation_time \<Rightarrow> bytes" where
  "time_bytes t = le16 (t_year t) @ [t_month t, t_day t, t_hours t, t_minutes t, t_seconds t, t_satellite_count t]"

definition location_bytes :: "timelocation_location \<Rightarrow> bytes" where
  "location_bytes l = le32 (l_latitude l) @ le32 (l_longitude l) @ [l_satellite_count l]"

definition timelocation_api_callback ::
  "mbedtls \<Rightarrow> byte \<Rightarrow> byte \<Rightarrow> byte \<Rightarrow> byte \<Rightarrow> nat \<Rightarrow> bytes \<Rightarrow> controller \<Rightarrow> fault + controller" where
  "timelocation_api_callback m src frame api mt len msg s =
     (if api \<noteq> TimeLocationApiType then error_reply m src api mt PORT_EINVAL s
      else if frame = CommandFrame
      then let answer = (\<lambda>reply. andthen (on_api reply s) (\<lambda>(rc, s1).
                 if rc < 0 then error_reply m src api mt PORT_EI2C_WRITE s1 else Inr s1))
           in if mt = TimeLocationGetTimeMessage
              then answer (signpost_timelocation_get_time_reply m src (time_bytes (current_time s)))
              else if mt = TimeLocationGetLocationMessage
              then answer (signpost_timelocation_get_location_reply m src (location_bytes (current_location s)))
              else Inr s
      else Inr s)"

text \<open>The look-up's result is an array index; \<open>-1\<close> is outside.\<close>

definition watchdog_api_callback ::
  "mbedtls \<Rightarrow> byte \<Rightarrow> byte \<Rightarrow> byte \<Rightarrow> byte \<Rightarrow> nat \<Rightarrow> bytes \<Rightarrow> controller \<Rightarrow> fault + controller" where
  "watchdog_api_callback m src frame api mt len msg s =
     (let answer = (\<lambda>f. andthen (on_api (signpost_watchdog_reply m src) s) (\<lambda>(rc, s1).
            let n = signpost_api_addr_to_mod_num (module_info (capi s1)) src
            in if rc < 0 then Inr s1 else if n < 0 then Inl OutOfBounds else upd_slot (nat n) f s1))
      in if mt = WatchdogStartMessage then answer (\<lambda>sl. sl\<lparr>watchdog_subscribed := 1, watchdog_tickled := 1\<rparr>)
         else if mt = WatchdogTickleMessage then answer (\<lambda>sl. sl\<lparr>watchdog_tickled := 1\<rparr>)
         else Inr s)"

definition signpost_controller_get_gps :: "controller \<Rightarrow> timelocation_time \<times> timelocation_location" where
  "signpost_controller_get_gps s = (current_time s, current_location s)"

definition gps_callback :: "gps_data \<Rightarrow> controller \<Rightarrow> controller" where
  "gps_callback g s =
     on_plane (hw GpsSample)
       ((app_watchdog_combine WATCH_LIB_GPS s)\<lparr>
          current_time := \<lparr>t_year = ucast (g_year g) + 2000, t_month = g_month g, t_day = g_day g, t_hours = g_hours g,
            t_minutes = g_minutes g, t_seconds = g_seconds g, t_satellite_count = g_satellite_count g\<rparr>,
          current_location := \<lparr>l_latitude = g_latitude g, l_longitude = g_longitude g,
            l_satellite_count = g_satellite_count g\<rparr>\<rparr>)"

section \<open>Commands from the radio\<close>

datatype downlink_command = ON | OFF | RESET

definition on_string :: bytes where "on_string = [0x6F, 0x6E]"
definition off_string :: bytes where "off_string = [0x6F, 0x66, 0x66]"
definition reset_string :: bytes where "reset_string = [0x72, 0x65, 0x73, 0x65, 0x74]"
definition signpost_string :: bytes where "signpost_string = [0x73, 0x69, 0x67, 0x6E, 0x70, 0x6F, 0x73, 0x74]"

definition parse_downlink :: "bytes \<Rightarrow> nat \<Rightarrow> downlink_command option" where
  "parse_downlink data len =
     (if strncmp_eq on_string data len then Some ON
      else if strncmp_eq off_string data len then Some OFF
      else if strncmp_eq reset_string data len then Some RESET
      else None)"

definition run_command :: "chips \<Rightarrow> waiting \<Rightarrow> downlink_command \<Rightarrow> nat \<Rightarrow> controller \<Rightarrow> fault + controller" where
  "run_command ch W c n s = (case c of
       ON \<Rightarrow> andthen (module_remaining ch (int n) s) (\<lambda>(r, s1).
               if r > 0 then andthen (set_isolation ModuleEnabled n s1) (power_and_i2c_on n)
               else set_isolation ModuleDisabledEnergy n s1)
     | OFF \<Rightarrow> andthen (set_isolation ModuleDisabledOff n s) (power_and_i2c_off n)
     | RESET \<Rightarrow> andthen (module_remaining ch (int n) s) (\<lambda>(r, s1).
               andthen (get_slot n s1) (\<lambda>sl.
               if r > 0 \<and> isolation_state sl = ModuleEnabled
               then andthen (try_plane (controller_module_disable_power n) s1) (\<lambda>s2.
                    andthen (delay_ms W 300 s2) (try_plane (controller_module_enable_power n)))
               else Inr s1)))"

definition downlink_cb :: "chips \<Rightarrow> waiting \<Rightarrow> bytes \<Rightarrow> bytes \<Rightarrow> nat \<Rightarrow> controller \<Rightarrow> fault + controller" where
  "downlink_cb ch W topic data data_len s =
     (case parse_downlink data data_len of
        None \<Rightarrow> Inr s
      | Some c \<Rightarrow>
          if strncmp_eq signpost_string topic NAME_LEN
          then Inr (if c = RESET then s\<lparr>hard_reset := True\<rparr> else s)
          else let n = signpost_api_module_name_to_mod_num (module_info (capi s)) topic
               in if n \<ge> 0 then run_command ch W c (nat n) s else Inr s)"

section \<open>The start\<close>

definition controller_handlers :: "api_handler list" where
  "controller_handlers =
     [\<lparr>h_api_type = InitializationApiType, h_callback = UserHandler 0\<rparr>,
      \<lparr>h_api_type = EnergyApiType, h_callback = UserHandler 1\<rparr>,
      \<lparr>h_api_type = TimeLocationApiType, h_callback = UserHandler 2\<rparr>,
      \<lparr>h_api_type = WatchdogApiType, h_callback = UserHandler 3\<rparr>]"

text \<open>The initialisation is tried until it succeeds; \<open>None\<close> is a controller that tries for ever.\<close>

partial_function (option) api_init_loop :: "waiting \<Rightarrow> mbedtls \<Rightarrow> controller \<Rightarrow> (fault + controller) option" where
  "api_init_loop W m s =
     (case signpost_initialization_controller_module_init m controller_handlers (capi s) of
        (rc, a) \<Rightarrow>
          if rc < 0
          then (case delay_ms W 5000 (s\<lparr>capi := a\<rparr>) of
                  Inl f \<Rightarrow> Some (Inl f)
                | Inr s1 \<Rightarrow> api_init_loop W m s1)
          else Some (Inr (s\<lparr>capi := a\<rparr>)))"

definition start_modules :: "controller \<Rightarrow> fault + controller" where
  "start_modules s =
     andthen (try_plane controller_all_modules_enable_i2c
                (on_plane (controller_gpio_set_all \<circ> controller_gpio_enable_all_MODOUTs \<circ> controller_gpio_enable_all_MODINs) s)) (\<lambda>s1.
     andthen (try_plane controller_all_modules_disable_usb s1) (\<lambda>s2.
     andthen (try_plane controller_all_modules_enable_power (s2\<lparr>last_mod_out_state := replicate NUM_MOD_IO 1\<rparr>)) (\<lambda>s3.
     andthen (on_api (signpost_networking_subscribe 0)
                (on_plane (hws [TimerEvery 600000 UpdateEnergyPolicy, TimerEvery 300 CheckModuleInit,
                                TimerEvery 60000 CheckWatchdogs]) s3)) (\<lambda>(_, s4). Inr s4))))"

definition prepare_board :: "chips \<Rightarrow> waiting \<Rightarrow> controller \<Rightarrow> fault + controller" where
  "prepare_board ch W s =
     andthen (try_plane controller_all_modules_disable_power (on_plane controller_init_module_switches s)) (\<lambda>s1.
     andthen (try_plane controller_all_modules_disable_i2c s1) (\<lambda>s2.
     andthen (delay_ms W 3000 (on_plane (hws [GpioOutput PIN_WATCHDOG, GpioSet PIN_WATCHDOG] \<circ> app_watchdog_start
                                  \<circ> app_watchdog_set_kernel_timeout 180000) s2)) (\<lambda>s3.
     andthen (signpost_controller_initialize_energy ch s3) (\<lambda>s4.
     Inr (on_plane (hws [GpsInit, GpsSample]) s4)))))"

definition signpost_controller_init :: "chips \<Rightarrow> waiting \<Rightarrow> mbedtls \<Rightarrow> controller \<Rightarrow> (fault + controller) option" where
  "signpost_controller_init ch W m s =
     (case prepare_board ch W s of
        Inl f \<Rightarrow> Some (Inl f)
      | Inr s1 \<Rightarrow>
          (case api_init_loop W m s1 of
             None \<Rightarrow> None
           | Some (Inl f) \<Rightarrow> Some (Inl f)
           | Some (Inr s2) \<Rightarrow> Some (andthen (delay_ms W 500 s2) start_modules)))"

section \<open>Callbacks\<close>

text \<open>What can call into the program: its timers, its message handlers, the GPS and the radio.\<close>

datatype controller_event =
    Timer timer_cb
  | Message nat byte byte byte byte nat bytes
  | Gps gps_data
  | Downlink bytes bytes nat
  | AppTickle
  | HardwareTickle

definition run_timer :: "chips \<Rightarrow> waiting \<Rightarrow> timer_cb \<Rightarrow> controller \<Rightarrow> fault + controller" where
  "run_timer ch W t s = (case t of
       UpdateEnergyPolicy \<Rightarrow> update_energy_policy_cb ch s
     | CheckModuleInit \<Rightarrow> check_module_init_cb W s
     | CheckWatchdogs \<Rightarrow> check_watchdogs_cb W s
     | DutyCycle n \<Rightarrow> duty_cycle_timer_cb ch n s)"

definition run_message ::
  "chips \<Rightarrow> mbedtls \<Rightarrow> nat \<Rightarrow> byte \<Rightarrow> byte \<Rightarrow> byte \<Rightarrow> byte \<Rightarrow> nat \<Rightarrow> bytes \<Rightarrow> controller \<Rightarrow> fault + controller" where
  "run_message ch m k src frame api mt len msg s =
     (if k = 0 then initialization_api_callback m src frame api mt len msg s
      else if k = 1 then energy_api_callback ch m src frame api mt len msg s
      else if k = 2 then timelocation_api_callback m src frame api mt len msg s
      else if k = 3 then watchdog_api_callback m src frame api mt len msg s
      else Inr s)"

definition controller_event :: "chips \<Rightarrow> waiting \<Rightarrow> mbedtls \<Rightarrow> controller_event \<Rightarrow> controller \<Rightarrow> fault + controller" where
  "controller_event ch W m ev s = (case ev of
       Timer t \<Rightarrow> run_timer ch W t s
     | Message k src frame api mt len msg \<Rightarrow> run_message ch m k src frame api mt len msg s
     | Gps g \<Rightarrow> Inr (gps_callback g s)
     | Downlink topic data len \<Rightarrow> downlink_cb ch W topic data len s
     | AppTickle \<Rightarrow> Inr (signpost_controller_app_watchdog_tickle s)
     | HardwareTickle \<Rightarrow> signpost_controller_hardware_watchdog_tickle W s)"

end
