(* ===== verification/Controller_Isolation.thy ===== *)
theory Controller_Isolation
  imports Controller_Services Energy_Accounting
begin

text \<open>
  The isolation of modules: at most one has the bus, it is released or times out, and what the other
  callbacks of the controller can do to it.
\<close>

section \<open>What the other callbacks leave alone\<close>

definition frame :: "controller \<Rightarrow> int \<times> int \<times> bool \<times> u32 \<times> u32 \<times> int \<times> byte list \<times> nat" where
  "frame s = (mod_isolated_out s, mod_isolated_in s, checking_init s, isolated_count s, isolation_timeout_seconds s,
     last_mod_isolated_out s, last_mod_out_state s, length (slots s))"

named_theorems framed \<open>operations that keep the isolation's bookkeeping\<close>

lemma on_plane_frame [simp]: "frame (on_plane f s) = frame s"
  by (simp add: frame_def on_plane_def)

lemma combine_frame [simp]: "frame (app_watchdog_combine w s) = frame s"
  by (simp add: app_watchdog_combine_def Let_def frame_def on_plane_def)

lemma update_frame [simp]:
  "frame (s\<lparr>capi := a\<rparr>) = frame s" "frame (s\<lparr>cpolicy := p\<rparr>) = frame s" "frame (s\<lparr>cboard := b\<rparr>) = frame s"
  "frame (s\<lparr>plane := q\<rparr>) = frame s" "frame (s\<lparr>hard_reset := h\<rparr>) = frame s"
  by (simp_all add: frame_def)

lemma save_accounts_frame [simp]: "frame (save_accounts s) = frame s"
  by (simp add: save_accounts_def fm25cl_write_sync_def two_syscalls_def frame_def split: prod.split)

lemma try_plane_framed [framed]: "try_plane f s = Inr s' \<Longrightarrow> frame s' = frame s"
  by (auto simp: try_plane_def andthen_Inr_iff)

lemma on_board_framed [framed]: "on_board f s = Inr (x, s') \<Longrightarrow> frame s' = frame s"
  by (auto simp: on_board_def andthen_Inr_iff)

lemma module_remaining_framed [framed]: "module_remaining ch n s = Inr (x, s') \<Longrightarrow> frame s' = frame s"
  by (auto simp: module_remaining_def dest: framed)

lemma on_policy_framed [framed]: "on_policy f s = Inr s' \<Longrightarrow> frame s' = frame s"
  by (auto simp: on_policy_def andthen_Inr_iff)

lemma on_api_framed [framed]: "on_api f s = Inr (x, s') \<Longrightarrow> frame s' = frame s"
  by (auto simp: on_api_def andthen_Inr_iff)

lemma error_reply_framed [framed]: "error_reply m src api mt code s = Inr s' \<Longrightarrow> frame s' = frame s"
  by (auto simp: error_reply_def andthen_Inr_iff)

lemma upd_slot_framed [framed]: "upd_slot n f s = Inr s' \<Longrightarrow> frame s' = frame s"
  by (auto simp: upd_slot_def frame_def split: if_splits)

lemma set_isolation_framed [framed]: "set_isolation st n s = Inr s' \<Longrightarrow> frame s' = frame s"
  by (auto simp: set_isolation_def dest: framed)

lemma power_and_i2c_framed [framed]:
  "power_and_i2c_off n s = Inr s' \<Longrightarrow> frame s' = frame s" "power_and_i2c_on n s = Inr s' \<Longrightarrow> frame s' = frame s"
  by (auto simp: power_and_i2c_off_def power_and_i2c_on_def andthen_Inr_iff dest!: framed)

text \<open>A wait keeps the bookkeeping as long as the check of the modules is running.\<close>

locale waits =
  fixes W :: waiting
  assumes wait_frame: "checking_init s \<Longrightarrow> W ms s = Inr s' \<Longrightarrow> frame s' = frame s"
begin

lemma delay_framed: "checking_init s \<Longrightarrow> delay_ms W ms s = Inr s' \<Longrightarrow> frame s' = frame s"
  unfolding delay_ms_def using wait_frame [of "on_plane (hw (Delay ms)) s"] by (simp add: on_plane_def frame_def)

end

text \<open>The message handlers.\<close>

lemma initialization_api_framed [framed]:
  "initialization_api_callback m src fr api mt len msg s = Inr s' \<Longrightarrow> frame s' = frame s"
  by (auto simp: initialization_api_callback_def Let_def andthen_Inr_iff split: if_splits dest!: framed)

lemma duty_cycle_timer_framed [framed]: "duty_cycle_timer_cb ch n s = Inr s' \<Longrightarrow> frame s' = frame s"
  by (auto simp: duty_cycle_timer_cb_def andthen_Inr_iff split: if_splits dest!: framed)

lemma duty_cycle_request_framed [framed]: "duty_cycle_request src msg s = Inr s' \<Longrightarrow> frame s' = frame s"
  by (cases "api_malloc (capi s)")
    (auto simp: duty_cycle_request_def Let_def andthen_Inr_iff split: if_splits dest!: framed)

lemma energy_query_framed [framed]: "energy_query_request ch m src api mt s = Inr s' \<Longrightarrow> frame s' = frame s"
  by (auto simp: energy_query_request_def Let_def andthen_Inr_iff split: if_splits dest!: framed)

lemma energy_report_framed [framed]: "energy_report_request m src msg s = Inr s' \<Longrightarrow> frame s' = frame s"
  by (cases "api_malloc (capi s)")
    (auto simp: energy_report_request_def Let_def andthen_Inr_iff split: if_splits dest!: framed)

lemma energy_reset_framed [framed]: "energy_reset_request ch m src s = Inr s' \<Longrightarrow> frame s' = frame s"
  by (auto simp: energy_reset_request_def andthen_Inr_iff dest!: framed)

lemma energy_api_framed [framed]:
  "energy_api_callback ch m src fr api mt len msg s = Inr s' \<Longrightarrow> frame s' = frame s"
  by (auto simp: energy_api_callback_def split: if_splits dest!: framed)

lemma timelocation_api_framed [framed]:
  "timelocation_api_callback m src fr api mt len msg s = Inr s' \<Longrightarrow> frame s' = frame s"
  by (auto simp: timelocation_api_callback_def Let_def andthen_Inr_iff split: if_splits dest!: framed)

lemma watchdog_api_framed [framed]:
  "watchdog_api_callback m src fr api mt len msg s = Inr s' \<Longrightarrow> frame s' = frame s"
  by (auto simp: watchdog_api_callback_def Let_def andthen_Inr_iff split: if_splits dest!: framed)

lemma run_message_framed [framed]: "run_message ch m k src fr api mt len msg s = Inr s' \<Longrightarrow> frame s' = frame s"
  by (auto simp: run_message_def split: if_splits dest!: framed)

text \<open>The energy policy's timer and the GPS.\<close>

lemma cut_off_framed: "cut_off_modules ch is s = Inr s' \<Longrightarrow> frame s' = frame s"
proof (induction ch "is" s rule: cut_off_modules.induct)
  case (2 ch i "is" s)
  show ?case
  proof (cases "metered i")
    case True
    obtain x s1 r s2 s3 where 1: "module_remaining ch (int i) s = Inr (x, s1)" "module_remaining ch (int i) s1 = Inr (r, s2)"
      and 3: "(if r \<le> 0 then andthen (set_isolation ModuleDisabledEnergy i s2) (power_and_i2c_off i)
              else if isolation_state (slots s2 ! i) = ModuleEnabled \<or> isolation_state (slots s2 ! i) = ModuleDisabledEnergy
              then andthen (set_isolation ModuleEnabled i s2) (power_and_i2c_on i)
              else Inr s2) = Inr s3" and 4: "cut_off_modules ch is s3 = Inr s'"
      using "2.prems" True by (simp add: andthen_Inr_iff) blast
    have "frame s3 = frame s2" using 3 by (auto simp: andthen_Inr_iff split: if_splits dest!: framed)
    then show ?thesis using "2.IH"(2) [OF _ 1(1) refl 1(2) refl 3 4] True 1 by (auto dest!: framed)
  qed (use 2 in simp)
qed simp

lemma update_energy_policy_framed [framed]: "update_energy_policy_cb ch s = Inr s' \<Longrightarrow> frame s' = frame s"
  by (auto simp: update_energy_policy_cb_def Let_def andthen_Inr_iff dest!: framed cut_off_framed)

lemma gps_callback_frame [simp]: "frame (gps_callback g s) = frame s"
  by (simp add: gps_callback_def frame_def app_watchdog_combine_def Let_def on_plane_def)

context waits
begin

lemma run_command_framed: "checking_init s \<Longrightarrow> run_command ch W c n s = Inr s' \<Longrightarrow> frame s' = frame s"
proof (cases c)
  assume *: "checking_init s" "run_command ch W c n s = Inr s'"
  case RESET
  obtain r s1 sl where r: "module_remaining ch (int n) s = Inr (r, s1)" "get_slot n s1 = Inr sl"
    using *(2) RESET by (auto simp: run_command_def andthen_Inr_iff)
  have f1: "frame s1 = frame s" using r(1) by (rule framed)
  show ?thesis
  proof (cases "r > 0 \<and> isolation_state sl = ModuleEnabled")
    case True
    obtain s2 s3 where s: "try_plane (controller_module_disable_power n) s1 = Inr s2" "delay_ms W 300 s2 = Inr s3"
      "try_plane (controller_module_enable_power n) s3 = Inr s'"
      using *(2) RESET r True by (auto simp: run_command_def andthen_Inr_iff)
    have f2: "frame s2 = frame s1" using s(1) by (rule framed)
    then have "checking_init s2" using f1 *(1) by (simp add: frame_def)
    from delay_framed [OF this s(2)] f1 f2 try_plane_framed [OF s(3)] show ?thesis by simp
  qed (use * RESET r f1 in \<open>auto simp: run_command_def\<close>)
qed (auto simp: run_command_def andthen_Inr_iff split: if_splits dest!: framed)

lemma downlink_framed: "checking_init s \<Longrightarrow> downlink_cb ch W topic data len s = Inr s' \<Longrightarrow> frame s' = frame s"
  by (auto simp: downlink_cb_def Let_def split: option.splits if_splits dest: run_command_framed)

lemma check_watchdogs_framed: "checking_init s \<Longrightarrow> check_watchdogs W js s = Inr s' \<Longrightarrow> frame s' = frame s"
proof (induction js arbitrary: s)
  case (Cons j js)
  show ?case
  proof (cases "watchdog_subscribed (slots s ! j) \<noteq> 0 \<and> watchdog_tickled (slots s ! j) = 0")
    case True
    then obtain s1 s2 s3 where s: "try_plane (controller_module_disable_power j) s = Inr s1" "delay_ms W 300 s1 = Inr s2"
      "try_plane (controller_module_enable_power j) s2 = Inr s3" "check_watchdogs W js s3 = Inr s'"
      using Cons.prems(2) by (auto simp: andthen_Inr_iff)
    have f1: "frame s1 = frame s" using s(1) by (rule framed)
    have f2: "frame s2 = frame s1" by (rule delay_framed [OF _ s(2)]) (use f1 Cons.prems(1) in \<open>simp add: frame_def\<close>)
    have f3: "frame s3 = frame s2" using s(3) by (rule framed)
    show ?thesis using Cons.IH [OF _ s(4)] f1 f2 f3 Cons.prems(1) by (simp add: frame_def)
  next
    case False
    then show ?thesis
      using Cons.IH [of s] Cons.IH [of "s\<lparr>slots := (slots s)[j := (slots s ! j)\<lparr>watchdog_tickled := 0\<rparr>]\<rparr>"] Cons.prems
      by (auto simp: frame_def split: if_splits)
  qed
qed simp

text \<open>No callback touches the isolation while the check of the modules is running.\<close>

lemma event_framed: "checking_init s \<Longrightarrow> controller_event ch W m ev s = Inr s' \<Longrightarrow> frame s' = frame s"
proof (cases ev)
  case (Timer t)
  then show "checking_init s \<Longrightarrow> controller_event ch W m ev s = Inr s' \<Longrightarrow> frame s' = frame s"
    by (cases t) (auto simp: controller_event_def run_timer_def check_module_init_cb_def check_watchdogs_cb_def
        dest: framed check_watchdogs_framed)
next
  case HardwareTickle
  then show "checking_init s \<Longrightarrow> controller_event ch W m ev s = Inr s' \<Longrightarrow> frame s' = frame s"
    using delay_framed [of "on_plane (hw (GpioClear PIN_WATCHDOG)) s"]
    by (auto simp: controller_event_def signpost_controller_hardware_watchdog_tickle_def andthen_Inr_iff split: if_splits)
      (simp add: on_plane_def)
qed (auto simp: controller_event_def signpost_controller_app_watchdog_tickle_def dest: framed downlink_framed)

end

text \<open>
  What runs in a wait: nothing, or a list of callbacks one after the other, in whose own waits the list of the next level runs.
\<close>

definition no_events :: waiting where
  "no_events ms s = Inr s"

fun run_events :: "chips \<Rightarrow> mbedtls \<Rightarrow> waiting \<Rightarrow> controller_event list \<Rightarrow> controller \<Rightarrow> fault + controller" where
  "run_events ch m W [] s = Inr s"
| "run_events ch m W (ev # evs) s = andthen (controller_event ch W m ev s) (run_events ch m W evs)"

fun nested_events :: "chips \<Rightarrow> mbedtls \<Rightarrow> controller_event list list \<Rightarrow> waiting" where
  "nested_events ch m [] ms s = Inr s"
| "nested_events ch m (evs # deeper) ms s = run_events ch m (nested_events ch m deeper) evs s"

context waits
begin

lemma run_events_framed: "checking_init s \<Longrightarrow> run_events ch m W evs s = Inr s' \<Longrightarrow> frame s' = frame s"
proof (induction evs arbitrary: s)
  case (Cons ev evs)
  then obtain s1 where s1: "controller_event ch W m ev s = Inr s1" "run_events ch m W evs s1 = Inr s'"
    by (auto simp: andthen_Inr_iff)
  have "frame s1 = frame s" using event_framed [OF Cons.prems(1) s1(1)] .
  then show ?case using Cons.IH [OF _ s1(2)] Cons.prems(1) by (simp add: frame_def)
qed simp

end

lemma nested_waits: "waits (nested_events ch m evss)"
proof (induction evss)
  case (Cons evs deeper)
  show ?case by unfold_locales (auto intro: waits.run_events_framed [OF Cons])
qed (unfold_locales, simp)

interpretation quiet: waits no_events
  by unfold_locales (simp add: no_events_def)

interpretation eventful: waits "nested_events ch m evss" for ch m evss
  by (rule nested_waits)

section \<open>The lines of the bus\<close>

text \<open>Which modules the bus is switched to, and the levels of the lines that tell a module that it has it.\<close>

definition bus_lines :: "controller \<Rightarrow> (nat \<Rightarrow> bool) \<times> bool list" where
  "bus_lines s = ((\<lambda>p. switches (plane s) p PIN_IDX_ISOLATE_I2C), map (levels (plane s)) MOD_INS)"

named_theorems bus_kept \<open>operations that keep the lines of the bus\<close>

lemma bus_lines_plane: "plane s' = plane s \<Longrightarrow> bus_lines s' = bus_lines s"
  by (simp add: bus_lines_def)

lemma bus_lines_update [simp]:
  "bus_lines (s\<lparr>capi := a\<rparr>) = bus_lines s" "bus_lines (s\<lparr>cpolicy := p\<rparr>) = bus_lines s" "bus_lines (s\<lparr>cboard := b\<rparr>) = bus_lines s"
  "bus_lines (s\<lparr>slots := sl\<rparr>) = bus_lines s" "bus_lines (s\<lparr>hard_reset := h\<rparr>) = bus_lines s" "bus_lines (s\<lparr>watchdog_states := w\<rparr>) = bus_lines s"
  by (simp_all add: bus_lines_def)

lemma bus_lines_hw [simp]:
  "bus_lines (on_plane (hw (Delay ms)) s) = bus_lines s" "bus_lines (on_plane (hw (WatchdogCommand a b)) s) = bus_lines s"
  "bus_lines (on_plane (hw GpsSample) s) = bus_lines s"
  "bus_lines (on_plane (hw (GpioSet PIN_WATCHDOG)) s) = bus_lines s" "bus_lines (on_plane (hw (GpioClear PIN_WATCHDOG)) s) = bus_lines s"
  by (simp_all add: bus_lines_def on_plane_def MOD_INS_def mod_pins PIN_WATCHDOG_def)

lemma combine_bus [simp]: "bus_lines (app_watchdog_combine w s) = bus_lines s"
  by (simp add: app_watchdog_combine_def Let_def app_watchdog_tickle_kernel_def)

lemma power_bus [bus_kept]:
  "try_plane (controller_module_disable_power n) s = Inr s' \<Longrightarrow> bus_lines s' = bus_lines s"
  "try_plane (controller_module_enable_power n) s = Inr s' \<Longrightarrow> bus_lines s' = bus_lines s"
  by (auto simp: try_plane_def switch_calls async_port_def bus_lines_def switch_nums split: if_splits)

lemma on_parts_bus [bus_kept]:
  "on_board f s = Inr (x, s') \<Longrightarrow> bus_lines s' = bus_lines s" "on_policy g s = Inr s' \<Longrightarrow> bus_lines s' = bus_lines s"
  "on_api h s = Inr (y, s') \<Longrightarrow> bus_lines s' = bus_lines s" "module_remaining ch n s = Inr (r, s') \<Longrightarrow> bus_lines s' = bus_lines s"
  by (auto simp: on_board_def on_policy_def on_api_def module_remaining_def andthen_Inr_iff)

lemma error_reply_bus [bus_kept]: "error_reply m src api mt code s = Inr s' \<Longrightarrow> bus_lines s' = bus_lines s"
  by (auto simp: error_reply_def andthen_Inr_iff)

lemma upd_slot_bus [bus_kept]: "upd_slot n f s = Inr s' \<Longrightarrow> bus_lines s' = bus_lines s"
  by (auto simp: upd_slot_def split: if_splits)

text \<open>The callbacks that keep the lines: all but the update of the energy policy, the duty cycle of a module (its request and its
  timer) and the commands that switch a module on or off.\<close>

fun keeps_bus :: "controller_event \<Rightarrow> bool" where
  "keeps_bus (Timer t) \<longleftrightarrow> t = CheckModuleInit \<or> t = CheckWatchdogs"
| "keeps_bus (Message k src fr api mt len msg) \<longleftrightarrow> \<not> (k = 1 \<and> api = EnergyApiType \<and> fr = NotificationFrame \<and> mt = EnergyDutyCycleMessage)"
| "keeps_bus (Downlink topic data len) \<longleftrightarrow>
     strncmp_eq signpost_string topic NAME_LEN \<or> parse_downlink data len \<notin> {Some ON, Some OFF}"
| "keeps_bus ev \<longleftrightarrow> True"

lemma initialization_api_bus: "initialization_api_callback m src fr api mt len msg s = Inr s' \<Longrightarrow> bus_lines s' = bus_lines s"
  by (auto simp: initialization_api_callback_def Let_def andthen_Inr_iff split: if_splits dest!: bus_kept)

lemma energy_api_bus:
  assumes "energy_api_callback ch m src fr api mt len msg s = Inr s'"
    "\<not> (api = EnergyApiType \<and> fr = NotificationFrame \<and> mt = EnergyDutyCycleMessage)"
  shows "bus_lines s' = bus_lines s"
proof -
  have query: "energy_query_request ch m src api mt s = Inr s' \<Longrightarrow> bus_lines s' = bus_lines s"
    by (auto simp: energy_query_request_def Let_def andthen_Inr_iff split: if_splits dest!: bus_kept)
  have report: "energy_report_request m src msg s = Inr s' \<Longrightarrow> bus_lines s' = bus_lines s"
    by (cases "api_malloc (capi s)")
      (auto simp: energy_report_request_def Let_def andthen_Inr_iff split: if_splits dest!: bus_kept)
  have reset: "energy_reset_request ch m src s = Inr s' \<Longrightarrow> bus_lines s' = bus_lines s"
    by (auto simp: energy_reset_request_def andthen_Inr_iff dest!: bus_kept)
  show ?thesis
    using assms query report reset by (auto simp: energy_api_callback_def split: if_splits dest!: bus_kept)
qed

lemma timelocation_api_bus: "timelocation_api_callback m src fr api mt len msg s = Inr s' \<Longrightarrow> bus_lines s' = bus_lines s"
  by (auto simp: timelocation_api_callback_def Let_def andthen_Inr_iff split: if_splits dest!: bus_kept)

lemma watchdog_api_bus: "watchdog_api_callback m src fr api mt len msg s = Inr s' \<Longrightarrow> bus_lines s' = bus_lines s"
  by (auto simp: watchdog_api_callback_def Let_def andthen_Inr_iff split: if_splits dest!: bus_kept)

lemma run_message_bus:
  "run_message ch m k src fr api mt len msg s = Inr s' \<Longrightarrow> keeps_bus (Message k src fr api mt len msg) \<Longrightarrow> bus_lines s' = bus_lines s"
  by (auto simp: run_message_def split: if_splits dest: initialization_api_bus energy_api_bus timelocation_api_bus watchdog_api_bus)

lemma gps_callback_bus: "bus_lines (gps_callback g s) = bus_lines s"
proof -
  have "bus_lines (t\<lparr>current_time := a, current_location := b\<rparr>) = bus_lines t" for t a b by (simp add: bus_lines_def)
  then show ?thesis by (simp add: gps_callback_def)
qed

locale bus_waits = waits +
  assumes wait_bus: "checking_init s \<Longrightarrow> W ms s = Inr s' \<Longrightarrow> bus_lines s' = bus_lines s"
begin

lemma delay_bus: "checking_init s \<Longrightarrow> delay_ms W ms s = Inr s' \<Longrightarrow> bus_lines s' = bus_lines s"
  unfolding delay_ms_def using wait_bus [of "on_plane (hw (Delay ms)) s"] by (simp add: on_plane_def bus_lines_def)

lemma power_cycle_bus:
  assumes "checking_init s" "try_plane (controller_module_disable_power n) s = Inr s1" "delay_ms W ms s1 = Inr s2"
    "try_plane (controller_module_enable_power k) s2 = Inr s3"
  shows "bus_lines s3 = bus_lines s \<and> checking_init s3"
proof -
  have f1: "frame s1 = frame s" using assms(2) by (rule framed)
  then have c1: "checking_init s1" using assms(1) by (simp add: frame_def)
  have "frame s3 = frame s" using try_plane_framed [OF assms(4)] delay_framed [OF c1 assms(3)] f1 by simp
  then show ?thesis
    using power_bus(1) [OF assms(2)] delay_bus [OF c1 assms(3)] power_bus(2) [OF assms(4)] assms(1) by (simp add: frame_def)
qed

lemma check_watchdogs_bus: "checking_init s \<Longrightarrow> check_watchdogs W js s = Inr s' \<Longrightarrow> bus_lines s' = bus_lines s"
proof (induction js arbitrary: s)
  case (Cons j js)
  show ?case
  proof (cases "watchdog_subscribed (slots s ! j) \<noteq> 0 \<and> watchdog_tickled (slots s ! j) = 0")
    case True
    then obtain s1 s2 s3 where s: "try_plane (controller_module_disable_power j) s = Inr s1" "delay_ms W 300 s1 = Inr s2"
      "try_plane (controller_module_enable_power j) s2 = Inr s3" "check_watchdogs W js s3 = Inr s'"
      using Cons.prems(2) by (auto simp: andthen_Inr_iff)
    then show ?thesis using power_cycle_bus [OF Cons.prems(1) s(1-3)] Cons.IH [OF _ s(4)] by simp
  next
    case False
    then show ?thesis
      using Cons.IH [of s] Cons.IH [of "s\<lparr>slots := (slots s)[j := (slots s ! j)\<lparr>watchdog_tickled := 0\<rparr>]\<rparr>"] Cons.prems
      by (auto split: if_splits)
  qed
qed simp

lemma reset_bus: "checking_init s \<Longrightarrow> run_command ch W RESET n s = Inr s' \<Longrightarrow> bus_lines s' = bus_lines s"
proof -
  assume *: "checking_init s" "run_command ch W RESET n s = Inr s'"
  obtain r s1 sl where r: "module_remaining ch (int n) s = Inr (r, s1)" "get_slot n s1 = Inr sl"
    using *(2) by (auto simp: run_command_def andthen_Inr_iff)
  have b1: "bus_lines s1 = bus_lines s" "checking_init s1"
    using on_parts_bus(4) [OF r(1)] module_remaining_framed [OF r(1)] *(1) by (simp_all add: frame_def)
  show ?thesis
  proof (cases "r > 0 \<and> isolation_state sl = ModuleEnabled")
    case True
    then obtain s2 s3 where "try_plane (controller_module_disable_power n) s1 = Inr s2" "delay_ms W 300 s2 = Inr s3"
      "try_plane (controller_module_enable_power n) s3 = Inr s'"
      using *(2) r by (auto simp: run_command_def andthen_Inr_iff)
    then show ?thesis using power_cycle_bus [OF b1(2)] b1(1) by metis
  qed (use * r b1 in \<open>auto simp: run_command_def\<close>)
qed

lemma event_bus: "checking_init s \<Longrightarrow> keeps_bus ev \<Longrightarrow> controller_event ch W m ev s = Inr s' \<Longrightarrow> bus_lines s' = bus_lines s"
proof (cases ev)
  case (Timer t)
  then show "checking_init s \<Longrightarrow> keeps_bus ev \<Longrightarrow> controller_event ch W m ev s = Inr s' \<Longrightarrow> bus_lines s' = bus_lines s"
    by (auto simp: controller_event_def run_timer_def check_module_init_cb_def check_watchdogs_cb_def dest: check_watchdogs_bus)
next
  case (Downlink topic data len)
  then show "checking_init s \<Longrightarrow> keeps_bus ev \<Longrightarrow> controller_event ch W m ev s = Inr s' \<Longrightarrow> bus_lines s' = bus_lines s"
    by (cases "the (parse_downlink data len)")
      (auto simp: controller_event_def downlink_cb_def Let_def reset_bus split: option.splits if_splits)
next
  case HardwareTickle
  then show "checking_init s \<Longrightarrow> keeps_bus ev \<Longrightarrow> controller_event ch W m ev s = Inr s' \<Longrightarrow> bus_lines s' = bus_lines s"
    using delay_bus [of "on_plane (hw (GpioClear PIN_WATCHDOG)) s"]
    by (auto simp: controller_event_def signpost_controller_hardware_watchdog_tickle_def andthen_Inr_iff split: if_splits)
      (simp add: on_plane_def)
qed (auto simp: controller_event_def signpost_controller_app_watchdog_tickle_def gps_callback_bus dest: run_message_bus simp del: keeps_bus.simps(2))

lemma run_events_bus:
  "checking_init s \<Longrightarrow> \<forall>ev\<in>set evs. keeps_bus ev \<Longrightarrow> run_events ch m W evs s = Inr s' \<Longrightarrow> bus_lines s' = bus_lines s"
proof (induction evs arbitrary: s)
  case (Cons ev evs)
  then obtain s1 where s1: "controller_event ch W m ev s = Inr s1" "run_events ch m W evs s1 = Inr s'"
    by (auto simp: andthen_Inr_iff)
  then have "checking_init s1" using event_framed [OF Cons.prems(1) s1(1)] Cons.prems(1) by (simp add: frame_def)
  then show ?case using Cons.IH [OF _ _ s1(2)] event_bus [OF Cons.prems(1) _ s1(1)] Cons.prems(2) by simp
qed simp

end

lemma nested_bus_waits: "bus_waits (nested_events ch m (map (filter keeps_bus) evss))"
proof (induction evss)
  case (Cons evs deeper)
  have "bus_lines s' = bus_lines s"
    if "checking_init s" "nested_events ch m (map (filter keeps_bus) (evs # deeper)) ms s = Inr s'" for s ms s'
    by (rule bus_waits.run_events_bus [OF Cons that(1), of "filter keeps_bus evs"]) (use that(2) in simp_all)
  then show ?case by (intro bus_waits.intro nested_waits bus_waits_axioms.intro)
next
  case Nil
  show ?case by (intro bus_waits.intro nested_waits bus_waits_axioms.intro) simp
qed

interpretation kept: bus_waits "nested_events ch m (map (filter keeps_bus) evss)" for ch m evss
  by (rule nested_bus_waits)

section \<open>The bookkeeping\<close>

text \<open>Either no module is isolated, or both pins are those of one module.\<close>

definition isolation_wf :: "controller \<Rightarrow> bool" where
  "isolation_wf s \<longleftrightarrow> length (slots s) = 8 \<and> length (last_mod_out_state s) = 7
     \<and> (mod_isolated_out s = -1 \<and> mod_isolated_in s = -1
        \<or> (\<exists>i<7. mod_isolated_out s = int (MOD_OUTS ! i) \<and> mod_isolated_in s = int (MOD_INS ! i)))"

lemma isolation_wf_frame: "frame s' = frame s \<Longrightarrow> isolation_wf s' \<longleftrightarrow> isolation_wf s"
  by (simp add: frame_def isolation_wf_def)

lemma MOD_OUTS_distinct: "distinct MOD_OUTS" "length MOD_OUTS = 7"
  by (simp_all add: MOD_OUTS_def mod_pins)

lemma MOD_OUTS_inj: "i < 7 \<Longrightarrow> j < 7 \<Longrightarrow> MOD_OUTS ! i = MOD_OUTS ! j \<longleftrightarrow> i = j"
  using MOD_OUTS_distinct by (simp add: nth_eq_iff_index_eq)

lemma module_of_pin:
  "i < 7 \<Longrightarrow> MODOUT_pin_to_mod_name (int (MOD_OUTS ! i)) < 8"
  by (auto simp: less_7 MOD_OUTS_def MODOUT_pin_to_mod_name_def mod_pins module_nums)

lemma no_pin: "MODOUT_pin_to_mod_name (-1) = 255"
  by (simp add: MODOUT_pin_to_mod_name_def mod_pins)

text \<open>Reads of pins leave everything else alone.\<close>

definition reads_only :: "controller \<Rightarrow> controller \<Rightarrow> bool" where
  "reads_only s s' \<longleftrightarrow> (\<exists>p. s' = s\<lparr>plane := p\<rparr> \<and> hw_log p = hw_log (plane s))"

lemma pin_value_reads_only: "pin_value pin s = (v, s') \<Longrightarrow> reads_only s s'"
  by (auto simp: pin_value_def reads_only_def split: prod.splits)

lemma pin_value_other:
  "pin_value pin s = (v, s') \<Longrightarrow> pin \<noteq> pin' \<Longrightarrow> pin_reads (plane s') pin' = pin_reads (plane s) pin'"
  by (auto simp: pin_value_def gpio_read_def split: list.splits)

lemma rearm_only:
  "\<exists>p l. rearm_requests is s = s\<lparr>plane := p, last_mod_out_state := l\<rparr> \<and> hw_log p = hw_log (plane s)
     \<and> length l = length (last_mod_out_state s)"
proof (induction "is" arbitrary: s)
  case Nil
  have "s = s\<lparr>plane := plane s, last_mod_out_state := last_mod_out_state s\<rparr>" by simp
  then show ?case by (metis rearm_requests.simps(1))
next
  case (Cons i "is")
  show ?case
  proof (cases "last_mod_out_state s ! i = 0")
    case True
    obtain v s1 where v: "pin_value (MOD_OUTS ! i) s = (v, s1)" by fastforce
    obtain q where q: "s1 = s\<lparr>plane := q\<rparr>" "hw_log q = hw_log (plane s)"
      using pin_value_reads_only [OF v] by (auto simp: reads_only_def)
    let ?s = "if v = 1 then s1\<lparr>last_mod_out_state := (last_mod_out_state s1)[i := 1]\<rparr> else s1"
    obtain p l where "rearm_requests is ?s = ?s\<lparr>plane := p, last_mod_out_state := l\<rparr>" "hw_log p = hw_log (plane ?s)"
      "length l = length (last_mod_out_state ?s)" using Cons.IH [of ?s] by blast
    moreover have "rearm_requests (i # is) s = rearm_requests is ?s" using True v by simp
    ultimately show ?thesis using q by (intro exI [of _ p] exI [of _ l]) (auto split: if_splits)
  qed (use Cons in simp)
qed

lemma enable_enabled_i2c_run:
  "\<forall>i\<in>set is. i < 8 \<Longrightarrow> enable_enabled_i2c is s =
     Inr (on_plane (hws (map (\<lambda>i. AsyncSet (port_of i) PIN_IDX_ISOLATE_I2C)
       (filter (\<lambda>i. isolation_state (slots s ! i) = ModuleEnabled) is))) s)"
proof (induction "is" arbitrary: s)
  case Nil
  then show ?case by (simp add: on_plane_def hws_def)
next
  case (Cons i "is")
  then show ?case
    by (simp add: try_plane_def switch_calls) (simp add: on_plane_def hws_def hw_def)
qed

lemma end_isolation_run:
  "end_isolation s = Inr ((on_plane (hws (map (\<lambda>i. AsyncSet (port_of i) PIN_IDX_ISOLATE_I2C)
     (filter (\<lambda>i. isolation_state (slots s ! i) = ModuleEnabled) [0..<8]))) s)\<lparr>mod_isolated_out := -1, mod_isolated_in := -1\<rparr>)"
  unfolding end_isolation_def enable_all_enabled_i2c_def
  by (subst enable_enabled_i2c_run) (simp_all add: on_plane_def)

section \<open>One module at a time\<close>

lemma scan_cases:
  assumes "distinct is" "\<forall>i\<in>set is. i < 7"
  shows "(\<exists>p l. scan_requests W is s = Inr (s\<lparr>plane := p, last_mod_isolated_out := l\<rparr>) \<and> hw_log p = hw_log (plane s))
    \<or> (\<exists>i\<in>set is. \<exists>p l. scan_requests W is s = grant_isolation W i (s\<lparr>plane := p, last_mod_isolated_out := l\<rparr>)
         \<and> hw_log p = hw_log (plane s) \<and> fst (gpio_read (MOD_OUTS ! i) (plane s)) = 0
         \<and> isolation_state (slots s ! MODOUT_pin_to_mod_name (int (MOD_OUTS ! i))) = ModuleEnabled
         \<and> last_mod_out_state s ! i = 1)"
  using assms
proof (induction "is" arbitrary: s)
  case Nil
  have "s = s\<lparr>plane := plane s, last_mod_isolated_out := last_mod_isolated_out s\<rparr>" by simp
  then show ?case by (metis scan_requests.simps(1))
next
  case (Cons i "is")
  obtain v s1 where v: "pin_value (MOD_OUTS ! i) s = (v, s1)" by fastforce
  obtain q where q: "s1 = s\<lparr>plane := q\<rparr>" "hw_log q = hw_log (plane s)"
    using pin_value_reads_only [OF v] by (auto simp: reads_only_def)
  have v0: "fst (gpio_read (MOD_OUTS ! i) (plane s)) = v" using v by (auto simp: pin_value_def split: prod.splits)
  show ?case
  proof (cases "v = 0 \<and> last_mod_isolated_out s1 \<noteq> int (MOD_OUTS ! i) \<and> last_mod_out_state s1 ! i = 1
           \<and> isolation_state (slots s1 ! MODOUT_pin_to_mod_name (int (MOD_OUTS ! i))) = ModuleEnabled")
    case True
    then have g: "scan_requests W (i # is) s = grant_isolation W i (s\<lparr>plane := q, last_mod_isolated_out := last_mod_isolated_out s\<rparr>)"
      using v q(1) by simp
    show ?thesis
      by (intro disjI2, intro bexI [of _ i], rule exI [of _ q], rule exI [of _ "last_mod_isolated_out s"])
        (use g True v0 q in simp_all)
  next
    case False
    let ?s = "s1\<lparr>last_mod_isolated_out := -1\<rparr>"
    have r: "scan_requests W (i # is) s = scan_requests W is ?s"
      unfolding scan_requests.simps Let_def v prod.case by (rule if_not_P [OF False])
    have same: "fst (gpio_read (MOD_OUTS ! j) (plane ?s)) = fst (gpio_read (MOD_OUTS ! j) (plane s))" if "j \<in> set is" for j
    proof -
      have "i \<noteq> j" "i < 7" "j < 7" using Cons.prems that by auto
      then have "MOD_OUTS ! i \<noteq> MOD_OUTS ! j" using MOD_OUTS_inj by blast
      from pin_value_other [OF v this] show ?thesis by (simp add: gpio_read_def split: list.split)
    qed
    have IH: "(\<exists>p l. scan_requests W is ?s = Inr (?s\<lparr>plane := p, last_mod_isolated_out := l\<rparr>) \<and> hw_log p = hw_log (plane ?s))
      \<or> (\<exists>i\<in>set is. \<exists>p l. scan_requests W is ?s = grant_isolation W i (?s\<lparr>plane := p, last_mod_isolated_out := l\<rparr>)
         \<and> hw_log p = hw_log (plane ?s) \<and> fst (gpio_read (MOD_OUTS ! i) (plane ?s)) = 0
         \<and> isolation_state (slots ?s ! MODOUT_pin_to_mod_name (int (MOD_OUTS ! i))) = ModuleEnabled
         \<and> last_mod_out_state ?s ! i = 1)"
      by (rule Cons.IH) (use Cons.prems in auto)
    then show ?thesis
    proof (elim disjE exE bexE conjE)
      fix p l assume k: "scan_requests W is ?s = Inr (?s\<lparr>plane := p, last_mod_isolated_out := l\<rparr>)" "hw_log p = hw_log (plane ?s)"
      show ?thesis unfolding r by (intro disjI1, rule exI [of _ p], rule exI [of _ l]) (use q k in simp)
    next
      fix k p l assume k: "k \<in> set is" "scan_requests W is ?s = grant_isolation W k (?s\<lparr>plane := p, last_mod_isolated_out := l\<rparr>)"
        "hw_log p = hw_log (plane ?s)" "fst (gpio_read (MOD_OUTS ! k) (plane ?s)) = 0"
        "isolation_state (slots ?s ! MODOUT_pin_to_mod_name (int (MOD_OUTS ! k))) = ModuleEnabled" "last_mod_out_state ?s ! k = 1"
      show ?thesis unfolding r
        by (intro disjI2, intro bexI [of _ k], rule exI [of _ p], rule exI [of _ l]) (use q k same [OF k(1)] in simp_all)
    qed
  qed
qed

text \<open>The state in which a module has been given the bus.\<close>

definition granted :: "nat \<Rightarrow> controller \<Rightarrow> controller" where
  "granted i s = on_plane (hw (GpioClear (MOD_INS ! i)) \<circ> hw (AsyncSet (port_of (MODOUT_pin_to_mod_name (int (MOD_OUTS ! i)))) PIN_IDX_ISOLATE_I2C)
       \<circ> hws (map (\<lambda>p. AsyncClear p PIN_IDX_ISOLATE_I2C) [0, 1, 2, 3, 4, 5]))
     (s\<lparr>mod_isolated_out := int (MOD_OUTS ! i), mod_isolated_in := int (MOD_INS ! i),
        last_mod_isolated_out := int (MOD_OUTS ! i), last_mod_out_state := (last_mod_out_state s)[i := 0], isolated_count := 0\<rparr>)"

lemma grant_run: "i < 7 \<Longrightarrow> grant_isolation W i s = delay_ms W 1000 (granted i s)"
  by (simp add: grant_isolation_def Let_def try_plane_def switch_calls for_all_modules_async module_of_pin granted_def on_plane_def)

lemma granted_alone:
  assumes "i < 7" "k < 8" "switched k"
  shows "switches (plane (granted i s)) (port_of k) PIN_IDX_ISOLATE_I2C \<longleftrightarrow> k = MODOUT_pin_to_mod_name (int (MOD_OUTS ! i))"
proof -
  let ?n = "MODOUT_pin_to_mod_name (int (MOD_OUTS ! i))"
  have n: "port_of ?n = port_of k \<longleftrightarrow> ?n = k" by (rule port_inj [OF assms(3) module_of_pin [OF assms(1)]])
  have "switches (plane (granted i s)) = switch_op (AsyncSet (port_of ?n) PIN_IDX_ISOLATE_I2C)
      (fold switch_op (map (\<lambda>p. AsyncClear p PIN_IDX_ISOLATE_I2C) [0, 1, 2, 3, 4, 5]) (switches (plane s)))"
    unfolding granted_def on_plane_def by simp
  then show ?thesis
    using n switched_port [OF assms(3)] fold_clear [of PIN_IDX_ISOLATE_I2C "[0, 1, 2, 3, 4, 5]" "switches (plane s)" "port_of k" PIN_IDX_ISOLATE_I2C]
    by (simp del: fold.simps list.map) auto
qed

lemma granted_simps [simp]:
  "mod_isolated_out (granted i s) = int (MOD_OUTS ! i)" "mod_isolated_in (granted i s) = int (MOD_INS ! i)"
  "checking_init (granted i s) = checking_init s" "slots (granted i s) = slots s"
  "length (last_mod_out_state (granted i s)) = length (last_mod_out_state s)"
  "levels (plane (granted i s)) (MOD_INS ! i) = False"
  by (simp_all add: granted_def on_plane_def)

lemma switches_of_log: "hw_log p = hw_log q \<Longrightarrow> switches p = switches q \<and> levels p = levels q"
  by (simp add: switches_def levels_def)

text \<open>The state after the first lines of the check.\<close>

definition begun :: "controller \<Rightarrow> controller" where
  "begun s = app_watchdog_combine WATCH_LIB_INIT (s\<lparr>checking_init := True\<rparr>)"

lemma begun_simps [simp]:
  "checking_init (begun s)" "mod_isolated_out (begun s) = mod_isolated_out s" "mod_isolated_in (begun s) = mod_isolated_in s"
  "slots (begun s) = slots s" "last_mod_out_state (begun s) = last_mod_out_state s"
  "isolated_count (begun s) = isolated_count s" "isolation_timeout_seconds (begun s) = isolation_timeout_seconds s"
  "pin_reads (plane (begun s)) = pin_reads (plane s)"
  "switches (plane (begun s)) = switches (plane s)" "levels (plane (begun s)) = levels (plane s)"
  by (simp_all add: begun_def app_watchdog_combine_def Let_def on_plane_def app_watchdog_tickle_kernel_def)
    (simp_all add: hw_def)

lemma gpio_read_begun [simp]: "fst (gpio_read pin (plane (begun s))) = fst (gpio_read pin (plane s))"
  by (simp add: gpio_read_def split: list.split)

lemma check_run:
  "\<not> checking_init s \<Longrightarrow> check_module_init_cb W s =
     andthen (if mod_isolated_out s < 0 then scan_requests W [0..<7] (begun s) else police_isolation W (begun s)) (\<lambda>s2.
       Inr ((rearm_requests [0..<7] s2)\<lparr>checking_init := False\<rparr>))"
  unfolding check_module_init_cb_def Let_def NUM_MOD_IO_def begun_def [symmetric] by simp

lemma rearm_keeps:
  "mod_isolated_out (rearm_requests is s) = mod_isolated_out s" "mod_isolated_in (rearm_requests is s) = mod_isolated_in s"
  "slots (rearm_requests is s) = slots s" "switches (plane (rearm_requests is s)) = switches (plane s)"
  "levels (plane (rearm_requests is s)) = levels (plane s)" "isolated_count (rearm_requests is s) = isolated_count s"
  "isolation_timeout_seconds (rearm_requests is s) = isolation_timeout_seconds s"
  "length (last_mod_out_state (rearm_requests is s)) = length (last_mod_out_state s)"
  using rearm_only [of "is" s] by (auto dest: switches_of_log)

text \<open>C34: when the check of the modules grants an isolation, the module asked for it on its pin and is
  enabled, its line is pulled low, and of all modules with a bus switch it is the only one on the bus, also after the second that
  the check then waits, whichever callbacks ran in it (and in their own waits) that are not the update of the energy policy, a
  module's duty cycle or a command that switches a module on or off. Those switch the bus of modules without regard to an isolation.\<close>

theorem isolated_module_is_alone:
  assumes "isolation_wf s" "\<forall>evs\<in>set evss. \<forall>ev\<in>set evs. keeps_bus ev" "mod_isolated_out s < 0"
    "check_module_init_cb (nested_events ch m evss) s = Inr s'" "mod_isolated_out s' \<ge> 0"
  shows "\<exists>i<7. mod_isolated_out s' = int (MOD_OUTS ! i) \<and> mod_isolated_in s' = int (MOD_INS ! i)
    \<and> fst (gpio_read (MOD_OUTS ! i) (plane s)) = 0
    \<and> isolation_state (slots s ! MODOUT_pin_to_mod_name (int (MOD_OUTS ! i))) = ModuleEnabled
    \<and> \<not> levels (plane s') (MOD_INS ! i)
    \<and> (\<forall>k<8. switched k \<longrightarrow> (switches (plane s') (port_of k) PIN_IDX_ISOLATE_I2C
                              \<longleftrightarrow> k = MODOUT_pin_to_mod_name (int (MOD_OUTS ! i))))"
proof -
  let ?W = "nested_events ch m evss"
  have nc: "\<not> checking_init s" using assms(3-5) by (auto simp: check_module_init_cb_def)
  obtain s2 where s2: "scan_requests ?W [0..<7] (begun s) = Inr s2" and s': "s' = (rearm_requests [0..<7] s2)\<lparr>checking_init := False\<rparr>"
    using assms(3,4) check_run [OF nc, of ?W] by (auto simp: andthen_Inr_iff)
  have out2: "mod_isolated_out s2 \<ge> 0" using assms(5) s' by (simp add: rearm_keeps)
  from scan_cases [of "[0..<7]" ?W "begun s"] obtain i p l where i: "i < 7"
    and g: "scan_requests ?W [0..<7] (begun s) = grant_isolation ?W i ((begun s)\<lparr>plane := p, last_mod_isolated_out := l\<rparr>)"
    and req: "fst (gpio_read (MOD_OUTS ! i) (plane s)) = 0"
      "isolation_state (slots s ! MODOUT_pin_to_mod_name (int (MOD_OUTS ! i))) = ModuleEnabled"
    using out2 s2 assms(3) by auto
  let ?g = "granted i ((begun s)\<lparr>plane := p, last_mod_isolated_out := l\<rparr>)"
  have d: "delay_ms ?W 1000 ?g = Inr s2" using g s2 grant_run [OF i] by simp
  have "map (filter keeps_bus) evss = evss" using assms(2) by (intro map_idI) (simp add: filter_id_conv)
  then have k: "frame s2 = frame ?g" "bus_lines s2 = bus_lines ?g"
    using eventful.delay_framed [OF _ d] kept.delay_bus [of ?g ch m evss 1000 s2] d by simp_all
  have "length MOD_INS = 7" by (simp add: MOD_INS_def)
  then have "levels (plane s2) (MOD_INS ! i) = levels (plane ?g) (MOD_INS ! i)"
    using k(2) i unfolding bus_lines_def by (metis nth_map snd_conv)
  then have "\<not> levels (plane s') (MOD_INS ! i)" by (simp add: s' rearm_keeps)
  moreover have "switches (plane s') p PIN_IDX_ISOLATE_I2C = switches (plane ?g) p PIN_IDX_ISOLATE_I2C" for p
    using k(2) by (simp add: s' rearm_keeps bus_lines_def fun_eq_iff)
  moreover have "mod_isolated_out s' = int (MOD_OUTS ! i)" "mod_isolated_in s' = int (MOD_INS ! i)"
    using k(1) by (simp_all add: s' rearm_keeps frame_def)
  ultimately show ?thesis using i req granted_alone [OF i, of _ "(begun s)\<lparr>plane := p, last_mod_isolated_out := l\<rparr>"]
    by (intro exI [of _ i]) simp
qed

section \<open>Ends of isolations\<close>

text \<open>Waits that return and keep the bookkeeping.\<close>

definition calm :: "waiting \<Rightarrow> bool" where
  "calm W \<longleftrightarrow> (\<forall>ms s. checking_init s \<longrightarrow> (\<exists>s'. W ms s = Inr s' \<and> frame s' = frame s))"

lemma calm_no_events: "calm no_events"
  by (simp add: calm_def no_events_def)

lemma calm_delay:
  assumes "calm W" "checking_init s"
  obtains s' where "delay_ms W ms s = Inr s'" "frame s' = frame s"
proof -
  have "checking_init (on_plane (hw (Delay ms)) s)" using assms(2) by (simp add: on_plane_def)
  then obtain s' where "W ms (on_plane (hw (Delay ms)) s) = Inr s'" "frame s' = frame (on_plane (hw (Delay ms)) s)"
    using assms(1) unfolding calm_def by blast
  then show ?thesis using that [of s'] by (simp add: delay_ms_def)
qed

lemma release_out_of_bounds:
  assumes "fst (gpio_read (nat (mod_isolated_out s)) (plane s)) = 1" "length (slots s) = 8"
  shows "police_isolation W s = Inl OutOfBounds"
proof -
  obtain s1 where v: "pin_value (nat (mod_isolated_out s)) s = (1, s1)"
    using assms(1) by (cases "gpio_read (nat (mod_isolated_out s)) (plane s)") (auto simp: pin_value_def)
  obtain q where "s1 = s\<lparr>plane := q\<rparr>" using pin_value_reads_only [OF v] by (auto simp: reads_only_def)
  then show ?thesis
    using assms(2) unfolding police_isolation_def Let_def v
    by (simp add: end_isolation_run no_pin upd_slot_def on_plane_def)
qed

text \<open>The time-out: the line goes up, the failure is counted, and after five failures the module is restarted.\<close>

lemma timeout_ends:
  assumes "calm W" "checking_init s" "isolation_wf s" "mod_isolated_out s \<ge> 0"
    "pin_value (nat (mod_isolated_out s)) s = (v, s1)" "v \<noteq> 1" "isolated_count s > isolation_timeout_seconds s"
  shows "\<exists>s'. police_isolation W s = Inr s' \<and> mod_isolated_out s' = -1 \<and> isolation_wf s' \<and> checking_init s'"
proof -
  obtain q where q: "s1 = s\<lparr>plane := q\<rparr>" using pin_value_reads_only [OF assms(5)] by (auto simp: reads_only_def)
  obtain i where i: "i < 7" "mod_isolated_out s = int (MOD_OUTS ! i)" using assms(3,4) by (auto simp: isolation_wf_def)
  let ?name = "MODOUT_pin_to_mod_name (mod_isolated_out s1)"
  let ?s2 = "on_plane (hw (GpioSet (nat (mod_isolated_in s1)))) s1"
  have n: "?name < 8" "length (slots s) = 8" using module_of_pin [OF i(1)] i(2) q assms(3) by (auto simp: isolation_wf_def)
  let ?f = "\<lambda>sl. sl\<lparr>module_init_failures := module_init_failures sl + 1\<rparr>"
  obtain s3 where s3: "upd_slot ?name ?f ?s2 = Inr s3" using n q by (simp add: upd_slot_def on_plane_def)
  have f3: "frame s3 = frame s" using upd_slot_framed [OF s3] q by simp
  have "\<exists>s6. (if module_init_failures (slots s3 ! ?name) > 4
       then andthen (try_plane (controller_module_disable_power ?name) s3) (\<lambda>s4.
            andthen (delay_ms W 1000 s4) (\<lambda>s5.
            andthen (try_plane (controller_module_enable_power (MODOUT_pin_to_mod_name (mod_isolated_out s5))) s5) (\<lambda>s6.
            upd_slot (MODOUT_pin_to_mod_name (mod_isolated_out s6)) (\<lambda>sl. sl\<lparr>module_init_failures := 0\<rparr>) s6)))
       else Inr s3) = Inr s6 \<and> frame s6 = frame s"
  proof (cases "module_init_failures (slots s3 ! ?name) > 4")
    case True
    obtain s4 where s4: "try_plane (controller_module_disable_power ?name) s3 = Inr s4"
      using n by (simp add: try_plane_def switch_calls)
    have f4: "frame s4 = frame s" using try_plane_framed [OF s4] f3 by simp
    then have "checking_init s4" using assms(2) by (simp add: frame_def)
    then obtain s5 where s5: "delay_ms W 1000 s4 = Inr s5" "frame s5 = frame s4" by (rule calm_delay [OF assms(1)])
    have n5: "MODOUT_pin_to_mod_name (mod_isolated_out s5) < 8" "length (slots s5) = 8"
      using s5(2) f4 n q by (simp_all add: frame_def)
    then obtain s6 where s6: "try_plane (controller_module_enable_power (MODOUT_pin_to_mod_name (mod_isolated_out s5))) s5 = Inr s6"
      by (simp add: try_plane_def switch_calls)
    have f6: "frame s6 = frame s" using try_plane_framed [OF s6] s5(2) f4 by simp
    have n6: "MODOUT_pin_to_mod_name (mod_isolated_out s6) < length (slots s6)" using f6 n q by (simp add: frame_def)
    then obtain s7 where s7: "upd_slot (MODOUT_pin_to_mod_name (mod_isolated_out s6)) (\<lambda>sl. sl\<lparr>module_init_failures := 0\<rparr>) s6 = Inr s7"
      by (simp add: upd_slot_def)
    have "frame s7 = frame s" using upd_slot_framed [OF s7] f6 by simp
    then show ?thesis using True s4 s5 s6 s7 by simp
  qed (use f3 in simp)
  then obtain s6 where s6: "(if module_init_failures (slots s3 ! ?name) > 4
       then andthen (try_plane (controller_module_disable_power ?name) s3) (\<lambda>s4.
            andthen (delay_ms W 1000 s4) (\<lambda>s5.
            andthen (try_plane (controller_module_enable_power (MODOUT_pin_to_mod_name (mod_isolated_out s5))) s5) (\<lambda>s6.
            upd_slot (MODOUT_pin_to_mod_name (mod_isolated_out s6)) (\<lambda>sl. sl\<lparr>module_init_failures := 0\<rparr>) s6)))
       else Inr s3) = Inr s6" "frame s6 = frame s" by blast
  have cnt: "isolated_count s1 > isolation_timeout_seconds s1" using assms(7) q by simp
  have "police_isolation W s = end_isolation s6"
    unfolding police_isolation_def Let_def assms(5) prod.case if_not_P [OF assms(6)] if_P [OF cnt] s3 andthen.simps s6(1) ..
  moreover have "isolation_wf s6" using isolation_wf_frame [OF s6(2)] assms(3) by blast
  moreover have "checking_init s6" using s6(2) assms(2) by (simp add: frame_def)
  ultimately show ?thesis by (simp add: end_isolation_run isolation_wf_def on_plane_def)
qed

lemma police_result:
  assumes "calm W" "checking_init s" "isolation_wf s" "mod_isolated_out s \<ge> 0"
  shows "if fst (gpio_read (nat (mod_isolated_out s)) (plane s)) = 1 then police_isolation W s = Inl OutOfBounds
    else \<exists>s'. police_isolation W s = Inr s' \<and> isolation_wf s' \<and> checking_init s'"
proof (cases "fst (gpio_read (nat (mod_isolated_out s)) (plane s)) = 1")
  case True
  then show ?thesis using release_out_of_bounds assms(3) by (simp add: isolation_wf_def)
next
  case False
  obtain v s1 where v: "pin_value (nat (mod_isolated_out s)) s = (v, s1)" by fastforce
  have v1: "v \<noteq> 1" using v False by (cases "gpio_read (nat (mod_isolated_out s)) (plane s)") (auto simp: pin_value_def)
  obtain q where q: "s1 = s\<lparr>plane := q\<rparr>" using pin_value_reads_only [OF v] by (auto simp: reads_only_def)
  show ?thesis
  proof (cases "isolated_count s > isolation_timeout_seconds s")
    case True
    then show ?thesis using timeout_ends [OF assms v v1 True] False by auto
  next
    case nt: False
    have "\<not> isolated_count s1 > isolation_timeout_seconds s1" using nt q by simp
    then have "police_isolation W s = Inr (s1\<lparr>isolated_count := isolated_count s1 + 1\<rparr>)"
      unfolding police_isolation_def Let_def v prod.case if_not_P [OF v1] by (rule if_not_P)
    then show ?thesis using False q assms(2,3) by (simp add: isolation_wf_def)
  qed
qed

lemma scan_result:
  assumes "calm W" "checking_init s" "isolation_wf s" "mod_isolated_out s < 0"
  shows "\<exists>s'. scan_requests W [0..<7] s = Inr s' \<and> isolation_wf s' \<and> checking_init s'"
proof -
  from scan_cases [of "[0..<7]" W s] consider
    (none) p l where "scan_requests W [0..<7] s = Inr (s\<lparr>plane := p, last_mod_isolated_out := l\<rparr>)"
  | (grant) i p l where "i < 7" "scan_requests W [0..<7] s = grant_isolation W i (s\<lparr>plane := p, last_mod_isolated_out := l\<rparr>)"
    by auto
  then show ?thesis
  proof cases
    case none
    then show ?thesis using assms(2,3) by (simp add: isolation_wf_def)
  next
    case grant
    let ?g = "granted i (s\<lparr>plane := p, last_mod_isolated_out := l\<rparr>)"
    have c: "checking_init ?g" using assms(2) by simp
    obtain s2 where s2: "delay_ms W 1000 ?g = Inr s2" "frame s2 = frame ?g" by (rule calm_delay [OF assms(1) c])
    have w: "isolation_wf ?g" unfolding isolation_wf_def using assms(3) grant(1) by (auto simp: isolation_wf_def)
    have "isolation_wf s2" using isolation_wf_frame [OF s2(2)] w by blast
    moreover have "checking_init s2" using s2(2) c by (simp add: frame_def)
    ultimately show ?thesis using grant grant_run [OF grant(1)] s2(1) by simp
  qed
qed

lemma isolation_wf_begun [simp]: "isolation_wf (begun s) \<longleftrightarrow> isolation_wf s"
  by (simp add: isolation_wf_def)

lemma isolation_wf_rearm: "isolation_wf ((rearm_requests is s)\<lparr>checking_init := c\<rparr>) \<longleftrightarrow> isolation_wf s"
  by (simp add: isolation_wf_def rearm_keeps)

text \<open>The check of the modules: it keeps the bookkeeping in order, or it faults.\<close>

lemma check_result:
  assumes "calm W" "isolation_wf s" "\<not> checking_init s"
  shows "if mod_isolated_out s \<ge> 0 \<and> fst (gpio_read (nat (mod_isolated_out s)) (plane s)) = 1
    then check_module_init_cb W s = Inl OutOfBounds
    else \<exists>s'. check_module_init_cb W s = Inr s' \<and> isolation_wf s' \<and> \<not> checking_init s'"
proof (cases "mod_isolated_out s < 0")
  case True
  then show ?thesis using scan_result [OF assms(1), of "begun s"] assms(2) check_run [OF assms(3), of W]
    by (auto simp: isolation_wf_rearm)
next
  case False
  then show ?thesis using police_result [OF assms(1), of "begun s"] assms(2) check_run [OF assms(3), of W]
    by (auto simp: isolation_wf_rearm split: if_splits)
qed

text \<open>C35: when a module ends its isolation by raising its pin, the check forgets the pin before it clears the
  failures of the module behind it, and writes outside the table of modules; that is the only way in
  which the check faults. In every other case it returns with its bookkeeping in order.\<close>

theorem end_of_isolation_writes_outside_table:
  assumes "calm W" "isolation_wf s"
  shows "(check_module_init_cb W s = Inl OutOfBounds
      \<longleftrightarrow> \<not> checking_init s \<and> mod_isolated_out s \<ge> 0 \<and> fst (gpio_read (nat (mod_isolated_out s)) (plane s)) = 1)
    \<and> (check_module_init_cb W s \<noteq> Inl OutOfBounds \<longrightarrow> (\<exists>s'. check_module_init_cb W s = Inr s' \<and> isolation_wf s'))"
proof (cases "checking_init s")
  case True
  then show ?thesis using assms(2) by (simp add: check_module_init_cb_def)
next
  case False
  show ?thesis using check_result [OF assms False] False by (auto split: if_splits)
qed

text \<open>A controller to which module 1 signals a request.\<close>

definition asking_plane :: backplane where
  "asking_plane = \<lparr>hw_log = [], pin_reads = (\<lambda>_. [])(8 := [0])\<rparr>"

definition asked :: controller where
  "asked = (controller_boot api_boot calm_board asking_plane fram_boot)\<lparr>last_mod_out_state := replicate 7 1\<rparr>"

lemma asked_wf: "isolation_wf asked"
  by (simp add: isolation_wf_def asked_def controller_boot_def)

lemma asked_simps [simp]:
  "mod_isolated_out asked = -1" "\<not> checking_init asked" "last_mod_isolated_out asked = -1"
  "last_mod_out_state asked = replicate 7 1" "slots asked = replicate 8 slot_boot"
  "pin_reads (plane asked) = (\<lambda>_. [])(8 := [0])"
  by (simp_all add: asked_def controller_boot_def asking_plane_def)

lemma begun_last [simp]: "last_mod_isolated_out (begun s) = last_mod_isolated_out s"
  by (simp add: begun_def app_watchdog_combine_def Let_def on_plane_def)

lemma asked_granted: "calm W \<Longrightarrow> \<exists>s'. check_module_init_cb W asked = Inr s' \<and> mod_isolated_out s' = 8"
proof -
  assume W: "calm W"
  have o: "MOD_OUTS ! 0 = 7" "MOD_OUTS ! 1 = 8" by (simp_all add: MOD_OUTS_def mod_pins)
  have n: "MODOUT_pin_to_mod_name 8 = 1" by (simp add: MODOUT_pin_to_mod_name_def mod_pins module_nums)
  have u: "[0..<7] = [0, 1, 2, 3, 4, 5, 6 :: nat]" by (simp add: upt_rec)
  have 0: "pin_value 7 (begun asked) = (1, begun asked)" by (simp add: pin_value_def gpio_read_def)
  let ?s = "(begun asked)\<lparr>last_mod_isolated_out := -1\<rparr>"
  obtain s2 where 1: "pin_value 8 ?s = (0, s2)" by (simp add: pin_value_def gpio_read_def)
  then obtain q where q: "s2 = ?s\<lparr>plane := q\<rparr>" using pin_value_reads_only [OF 1] by (auto simp: reads_only_def)
  have "checking_init (granted 1 s2)" using q by simp
  then obtain s3 where s3: "delay_ms W 1000 (granted 1 s2) = Inr s3" "frame s3 = frame (granted 1 s2)" by (rule calm_delay [OF W])
  have "scan_requests W [0..<7] (begun asked) = grant_isolation W 1 s2"
    unfolding u scan_requests.simps o 0 Let_def prod.case
    using 1 o n q by (simp add: slot_boot_def)
  also have "\<dots> = delay_ms W 1000 (granted 1 s2)" by (rule grant_run) simp
  also note s3(1)
  finally have s: "scan_requests W [0..<7] (begun asked) = Inr s3" .
  have "mod_isolated_out s3 = 8"
    using s3(2) granted_simps(1) [of 1 s2] o by (simp add: frame_def)
  then show ?thesis unfolding check_run [OF asked_simps(2)] using s by (simp add: rearm_keeps)
qed

text \<open>The two watchdogs are tickled during the wait.\<close>

abbreviation tickled :: waiting where
  "tickled \<equiv> nested_events calm_chips toy_tls [[AppTickle, HardwareTickle], [AppTickle]]"

lemma calm_tickled: "calm tickled"
  unfolding calm_def
proof (intro allI impI)
  fix ms and s :: controller
  assume c: "checking_init s"
  have "\<exists>s'. tickled ms s = Inr s'"
    by (simp add: controller_event_def signpost_controller_hardware_watchdog_tickle_def delay_ms_def)
  then show "\<exists>s'. tickled ms s = Inr s' \<and> frame s' = frame s" using eventful.wait_frame [OF c] by blast
qed

theorem isolated_module_is_alone_witness:
  "\<exists>s'. check_module_init_cb tickled asked = Inr s' \<and> mod_isolated_out s' = 8
    \<and> (\<forall>k<8. switched k \<longrightarrow> (switches (plane s') (port_of k) PIN_IDX_ISOLATE_I2C \<longleftrightarrow> k = 1))"
proof -
  obtain s' where s': "check_module_init_cb tickled asked = Inr s'" "mod_isolated_out s' = 8" using asked_granted [OF calm_tickled] by blast
  have n: "MODOUT_pin_to_mod_name 8 = 1" by (simp add: MODOUT_pin_to_mod_name_def mod_pins module_nums)
  have "\<forall>evs\<in>set [[AppTickle, HardwareTickle], [AppTickle]]. \<forall>ev\<in>set evs. keeps_bus ev" by simp
  from isolated_module_is_alone [OF asked_wf this _ s'(1)] s'(2) obtain i
    where "int (MOD_OUTS ! i) = 8" "\<forall>k<8. switched k \<longrightarrow> (switches (plane s') (port_of k) PIN_IDX_ISOLATE_I2C
                              \<longleftrightarrow> k = MODOUT_pin_to_mod_name (int (MOD_OUTS ! i)))"
    by auto
  then show ?thesis using s' n by auto
qed

text \<open>Module 1 holds the bus and its pin is up again.\<close>

definition released :: controller where
  "released = asked\<lparr>plane := asking_plane\<lparr>pin_reads := (\<lambda>_. [])(8 := [1])\<rparr>, mod_isolated_out := 8, mod_isolated_in := 1\<rparr>"

lemma released_wf: "isolation_wf (released\<lparr>plane := p\<rparr>)"
proof -
  have "(1 :: nat) < 7" "(8 :: int) = int (MOD_OUTS ! 1)" "(1 :: int) = int (MOD_INS ! 1)"
    by (simp_all add: MOD_OUTS_def MOD_INS_def mod_pins)
  then show ?thesis
    using asked_wf unfolding isolation_wf_def
    by (intro conjI disjI2 exI [of _ 1]) (simp_all add: released_def)
qed

theorem end_of_isolation_writes_outside_table_witness: "check_module_init_cb no_events released = Inl OutOfBounds"
proof -
  have "isolation_wf released" using released_wf [of "plane released"] by simp
  moreover have "\<not> checking_init released \<and> mod_isolated_out released \<ge> 0
      \<and> fst (gpio_read (nat (mod_isolated_out released)) (plane released)) = 1"
    by (simp add: released_def gpio_read_def asking_plane_def)
  ultimately show ?thesis using end_of_isolation_writes_outside_table [OF calm_no_events] by blast
qed

section \<open>The time-out\<close>

text \<open>The pin stays low for at least the next \<open>n\<close> reads.\<close>

definition low_for :: "nat \<Rightarrow> nat \<Rightarrow> controller \<Rightarrow> bool" where
  "low_for pin n s \<longleftrightarrow> (\<exists>vs. pin_reads (plane s) pin = replicate n 0 @ vs)"

lemma low_for_read: "low_for pin (Suc n) s \<Longrightarrow> \<exists>s1. pin_value pin s = (0, s1) \<and> low_for pin n s1"
  by (auto simp: low_for_def pin_value_def gpio_read_def)

lemma low_for_Suc: "low_for pin (Suc n) s \<Longrightarrow> low_for pin n s"
  by (auto simp: low_for_def) (metis append_Cons append_assoc replicate_app_Cons_same)

lemma rearm_reads:
  "distinct is \<Longrightarrow> \<forall>i\<in>set is. i < 7 \<Longrightarrow> j < 7 \<Longrightarrow>
   \<exists>k\<le>1. pin_reads (plane (rearm_requests is s)) (MOD_OUTS ! j) = drop k (pin_reads (plane s) (MOD_OUTS ! j))
     \<and> (j \<notin> set is \<longrightarrow> k = 0)"
proof (induction "is" arbitrary: s)
  case (Cons i "is")
  obtain v s1 where v: "pin_value (MOD_OUTS ! i) s = (v, s1)" by fastforce
  let ?s = "if v = 1 then s1\<lparr>last_mod_out_state := (last_mod_out_state s1)[i := 1]\<rparr> else s1"
  have p: "plane ?s = plane s1" by simp
  have i: "i < 7" "i \<notin> set is" using Cons.prems by auto
  show ?case
  proof (cases "last_mod_out_state s ! i = 0")
    case True
    then have r: "rearm_requests (i # is) s = rearm_requests is ?s" using v by simp
    obtain k where k: "k \<le> 1" "pin_reads (plane (rearm_requests is ?s)) (MOD_OUTS ! j) = drop k (pin_reads (plane ?s) (MOD_OUTS ! j))"
      "j \<notin> set is \<longrightarrow> k = 0" using Cons.IH [of ?s] Cons.prems by auto
    show ?thesis
    proof (cases "i = j")
      case True
      have "pin_reads (plane s1) (MOD_OUTS ! j) = drop 1 (pin_reads (plane s) (MOD_OUTS ! j))"
        using v True by (auto simp: pin_value_def gpio_read_def split: list.splits)
      then show ?thesis using k i(2) True r p by (intro exI [of _ 1]) simp
    next
      case False
      then have "pin_reads (plane s1) (MOD_OUTS ! j) = pin_reads (plane s) (MOD_OUTS ! j)"
        using pin_value_other [OF v] MOD_OUTS_inj [OF i(1) Cons.prems(3)] by blast
      then show ?thesis using k False r p by (intro exI [of _ k]) simp
    qed
  next
    case False
    then have "rearm_requests (i # is) s = rearm_requests is s" by simp
    moreover obtain k where "k \<le> 1" "pin_reads (plane (rearm_requests is s)) (MOD_OUTS ! j) = drop k (pin_reads (plane s) (MOD_OUTS ! j))"
      "j \<notin> set is \<longrightarrow> k = 0" using Cons.IH [of s] Cons.prems by auto
    ultimately show ?thesis by (intro exI [of _ k]) auto
  qed
qed (auto intro: exI [of _ 0])

lemma low_for_rearm:
  assumes "j < 7" "low_for (MOD_OUTS ! j) (Suc n) s"
  shows "low_for (MOD_OUTS ! j) n (rearm_requests [0..<7] s)"
proof -
  obtain k where "k \<le> 1" "pin_reads (plane (rearm_requests [0..<7] s)) (MOD_OUTS ! j) = drop k (pin_reads (plane s) (MOD_OUTS ! j))"
    using rearm_reads [of "[0..<7]" j s] assms(1) by auto
  then show ?thesis using assms(2) low_for_Suc [OF assms(2)] by (cases k) (auto simp: low_for_def)
qed

text \<open>One check of a silent module: it is one step closer to its time-out.\<close>

lemma check_counts:
  assumes "\<not> checking_init s" "j < 7" "mod_isolated_out s = int (MOD_OUTS ! j)" "low_for (MOD_OUTS ! j) (2 + n) s"
    "\<not> isolated_count s > isolation_timeout_seconds s" "isolation_wf s"
  shows "\<exists>s'. check_module_init_cb W s = Inr s' \<and> mod_isolated_out s' = mod_isolated_out s \<and> low_for (MOD_OUTS ! j) n s'
    \<and> isolated_count s' = isolated_count s + 1 \<and> isolation_timeout_seconds s' = isolation_timeout_seconds s
    \<and> isolation_wf s' \<and> \<not> checking_init s'"
proof -
  have "low_for (MOD_OUTS ! j) (Suc (Suc n)) (begun s)" using assms(4) by (simp add: low_for_def)
  from low_for_read [OF this] obtain s1 where v: "pin_value (MOD_OUTS ! j) (begun s) = (0, s1)" and l: "low_for (MOD_OUTS ! j) (Suc n) s1"
    by blast
  obtain q where q: "s1 = (begun s)\<lparr>plane := q\<rparr>" using pin_value_reads_only [OF v] by (auto simp: reads_only_def)
  let ?s2 = "s1\<lparr>isolated_count := isolated_count s1 + 1\<rparr>"
  have nt: "\<not> isolated_count s1 > isolation_timeout_seconds s1" using assms(5) q by simp
  have p: "pin_value (nat (mod_isolated_out (begun s))) (begun s) = (0, s1)" using v assms(3) by simp
  have "(0 :: int) \<noteq> 1" by simp
  then have "police_isolation W (begun s) = Inr ?s2"
    unfolding police_isolation_def Let_def p prod.case using nt by simp
  then have c: "check_module_init_cb W s = Inr ((rearm_requests [0..<7] ?s2)\<lparr>checking_init := False\<rparr>)"
    using check_run [OF assms(1), of W] assms(3) by simp
  have "low_for (MOD_OUTS ! j) (Suc n) ?s2" using l by (simp add: low_for_def)
  from low_for_rearm [OF assms(2) this] have "low_for (MOD_OUTS ! j) n ((rearm_requests [0..<7] ?s2)\<lparr>checking_init := False\<rparr>)"
    by (simp add: low_for_def)
  moreover have "isolation_wf ?s2" using assms(6) q by (simp add: isolation_wf_def)
  ultimately show ?thesis using c q by (simp add: rearm_keeps isolation_wf_rearm)
qed

fun checks :: "waiting \<Rightarrow> nat \<Rightarrow> controller \<Rightarrow> fault + controller" where
  "checks W 0 s = Inr s"
| "checks W (Suc n) s = andthen (check_module_init_cb W s) (checks W n)"

lemma silent_module:
  assumes "calm W" "j < 7"
  shows "k < 12 \<Longrightarrow> \<not> checking_init s \<Longrightarrow> mod_isolated_out s = int (MOD_OUTS ! j) \<Longrightarrow> low_for (MOD_OUTS ! j) (2 * (12 - k)) s \<Longrightarrow>
    isolated_count s = of_nat k \<Longrightarrow> isolation_timeout_seconds s = 10 \<Longrightarrow> isolation_wf s \<Longrightarrow>
    (\<forall>m<12 - k. \<exists>t. checks W m s = Inr t \<and> mod_isolated_out t = mod_isolated_out s)
    \<and> (\<exists>t. checks W (12 - k) s = Inr t \<and> mod_isolated_out t = -1)"
proof (induction "11 - k" arbitrary: k s)
  case 0
  then have k: "k = 11" by simp
  have l: "low_for (MOD_OUTS ! j) (Suc (Suc 0)) (begun s)" using 0(5) k by (simp add: low_for_def numeral_2_eq_2)
  from low_for_read [OF l] obtain s1 where v: "pin_value (MOD_OUTS ! j) (begun s) = (0, s1)" by blast
  have p: "pin_value (nat (mod_isolated_out (begun s))) (begun s) = (0, s1)" using v 0(4) by simp
  obtain s2 where s2: "police_isolation W (begun s) = Inr s2" "mod_isolated_out s2 = -1"
    using timeout_ends [OF assms(1) _ _ _ p] 0 k by auto
  have "check_module_init_cb W s = Inr ((rearm_requests [0..<7] s2)\<lparr>checking_init := False\<rparr>)"
    using check_run [OF 0(3), of W] s2(1) 0(4) by simp
  then show ?case using s2(2) k by (auto simp: rearm_keeps)
next
  case (Suc x)
  then have k: "k < 11" by simp
  have "unat (of_nat k :: u32) = k" using k by (simp add: unsigned_of_nat take_bit_nat_eq_self)
  then have nt: "\<not> isolated_count s > isolation_timeout_seconds s"
    using Suc.prems(5,6) k by (simp add: word_less_nat_alt)
  have two: "2 * (12 - k) = 2 + 2 * (12 - Suc k)" using k by simp
  obtain t where t: "check_module_init_cb W s = Inr t" "mod_isolated_out t = mod_isolated_out s"
    "low_for (MOD_OUTS ! j) (2 * (12 - Suc k)) t" "isolated_count t = isolated_count s + 1"
    "isolation_timeout_seconds t = isolation_timeout_seconds s" "isolation_wf t" "\<not> checking_init t"
    using check_counts [OF Suc.prems(2) assms(2) Suc.prems(3) Suc.prems(4) [unfolded two] nt Suc.prems(7), of W] by blast
  have IH: "(\<forall>m<12 - Suc k. \<exists>u. checks W m t = Inr u \<and> mod_isolated_out u = mod_isolated_out t)
    \<and> (\<exists>u. checks W (12 - Suc k) t = Inr u \<and> mod_isolated_out u = -1)"
    by (rule Suc.hyps(1)) (use Suc t k in auto)
  have d: "12 - k = Suc (12 - Suc k)" using k by simp
  show ?case unfolding d
  proof
    show "\<forall>m<Suc (12 - Suc k). \<exists>u. checks W m s = Inr u \<and> mod_isolated_out u = mod_isolated_out s"
    proof (intro allI impI)
      fix m assume "m < Suc (12 - Suc k)"
      then show "\<exists>u. checks W m s = Inr u \<and> mod_isolated_out u = mod_isolated_out s"
        using IH t(1,2) by (cases m) auto
    qed
    show "\<exists>u. checks W (Suc (12 - Suc k)) s = Inr u \<and> mod_isolated_out u = -1" using IH t(1) by simp
  qed
qed

text \<open>C36: a module that was granted the bus and keeps its pin low loses it again: eleven checks leave it
  isolated, and the twelfth ends the isolation. The timer runs every 300 ms.\<close>

theorem isolation_times_out:
  assumes "calm W" "isolation_wf s" "\<not> checking_init s" "j < 7" "mod_isolated_out s = int (MOD_OUTS ! j)"
    "low_for (MOD_OUTS ! j) 24 s" "isolated_count s = 0" "isolation_timeout_seconds s = 10"
  shows "(\<forall>m<12. \<exists>t. checks W m s = Inr t \<and> mod_isolated_out t = mod_isolated_out s)
    \<and> (\<exists>t. checks W 12 s = Inr t \<and> mod_isolated_out t = -1)"
  using silent_module [OF assms(1,4), of 0 s] assms by simp

theorem isolation_times_out_witness:
  "\<exists>t. checks no_events 12 (released\<lparr>plane := asking_plane\<lparr>pin_reads := (\<lambda>_. [])(8 := replicate 24 0)\<rparr>\<rparr>) = Inr t
     \<and> mod_isolated_out t = -1"
proof -
  let ?s = "released\<lparr>plane := asking_plane\<lparr>pin_reads := (\<lambda>_. [])(8 := replicate 24 0)\<rparr>\<rparr>"
  have pins: "(1 :: nat) < 7" "(8 :: int) = int (MOD_OUTS ! 1)" by (simp_all add: MOD_OUTS_def mod_pins)
  have "isolation_wf ?s" by (rule released_wf)
  moreover have "low_for (MOD_OUTS ! 1) 24 ?s" using pins(2) by (simp add: low_for_def)
  ultimately show ?thesis
    using isolation_times_out [OF calm_no_events, of ?s 1] pins
    by (simp add: released_def asked_def controller_boot_def)
qed

end
