(* ===== verification/Controller_Duties.thy ===== *)
theory Controller_Duties
  imports Controller_Isolation Signpost_Rpc
begin

text \<open>
  The other duties of the controller: the kernel's watchdog, cutting off modules without energy, the
  energy it reports to modules, and the declaration of an isolated module.
\<close>

section \<open>The watchdog\<close>

instantiation watchdog_tickler :: enum
begin

definition "enum_watchdog_tickler = [WATCH_APP_TICKLE, WATCH_LIB_GPS, WATCH_LIB_INIT]"
definition "enum_all_watchdog_tickler P \<longleftrightarrow> P WATCH_APP_TICKLE \<and> P WATCH_LIB_GPS \<and> P WATCH_LIB_INIT"
definition "enum_ex_watchdog_tickler P \<longleftrightarrow> P WATCH_APP_TICKLE \<or> P WATCH_LIB_GPS \<or> P WATCH_LIB_INIT"

instance
proof
  show "(UNIV :: watchdog_tickler set) = set enum_class.enum"
    by (auto simp: enum_watchdog_tickler_def) (metis watchdog_tickler.exhaust)
  show "distinct (enum_class.enum :: watchdog_tickler list)" by (simp add: enum_watchdog_tickler_def)
  show "enum_class.enum_all P \<longleftrightarrow> Ball UNIV P" for P :: "watchdog_tickler \<Rightarrow> bool"
    unfolding enum_all_watchdog_tickler_def by (metis UNIV_I watchdog_tickler.exhaust)
  show "enum_class.enum_ex P \<longleftrightarrow> Bex UNIV P" for P :: "watchdog_tickler \<Rightarrow> bool"
    unfolding enum_ex_watchdog_tickler_def by (metis UNIV_I watchdog_tickler.exhaust)
qed

end

text \<open>The specification: a round is over when every source has reported since the last one.\<close>

definition full :: "watchdog_tickler set \<Rightarrow> bool" where
  "full S \<longleftrightarrow> (\<forall>v. v \<in> S)"

fun rounds :: "watchdog_tickler set \<Rightarrow> watchdog_tickler list \<Rightarrow> nat" where
  "rounds S [] = 0"
| "rounds S (w # ws) = (if full (insert w S) then Suc (rounds {} ws) else rounds (insert w S) ws)"

definition seen :: "controller \<Rightarrow> watchdog_tickler set" where
  "seen s = {w. watchdog_states s ! tickler_num w}"

lemma tickler_num_less: "tickler_num w < 3"
  by (cases w) simp_all

lemma tickler_num_inj: "tickler_num v = tickler_num w \<longleftrightarrow> v = w"
  by (cases v; cases w) simp_all

lemma all_ticklers: "(\<forall>i\<in>set [0..<NUM_WATCH_STATES]. P i) \<longleftrightarrow> (\<forall>w. P (tickler_num w))"
proof
  assume "\<forall>w. P (tickler_num w)"
  then have "P 0" "P 1" "P 2" by (metis tickler_num.simps)+
  then show "\<forall>i\<in>set [0..<NUM_WATCH_STATES]. P i"
    by (auto simp: NUM_WATCH_STATES_def numeral_3_eq_3 less_Suc_eq numeral_2_eq_2)
qed (use tickler_num_less in \<open>auto simp: NUM_WATCH_STATES_def\<close>)

lemma combine_step:
  assumes "length (watchdog_states s) = 3"
  shows "seen (app_watchdog_combine w s) = (if full (insert w (seen s)) then {} else insert w (seen s))"
    "hw_log (plane (app_watchdog_combine w s)) =
       hw_log (plane s) @ (if full (insert w (seen s)) then [WatchdogCommand 1 0] else [])"
    "length (watchdog_states (app_watchdog_combine w s)) = 3"
proof -
  let ?st = "(watchdog_states s)[tickler_num w := True]"
  have st: "?st ! tickler_num v \<longleftrightarrow> v \<in> insert w (seen s)" for v
    using assms tickler_num_less [of v] tickler_num_less [of w] by (cases "v = w") (auto simp: seen_def tickler_num_inj)
  have all: "(\<forall>i\<in>set [0..<NUM_WATCH_STATES]. ?st ! i) \<longleftrightarrow> full (insert w (seen s))"
    unfolding all_ticklers st full_def by auto
  show "seen (app_watchdog_combine w s) = (if full (insert w (seen s)) then {} else insert w (seen s))"
    using st tickler_num_less unfolding app_watchdog_combine_def Let_def all
    by (auto simp: seen_def NUM_WATCH_STATES_def on_plane_def)
  show "hw_log (plane (app_watchdog_combine w s)) =
       hw_log (plane s) @ (if full (insert w (seen s)) then [WatchdogCommand 1 0] else [])"
    unfolding app_watchdog_combine_def Let_def all by (simp add: on_plane_def app_watchdog_tickle_kernel_def hw_def)
  show "length (watchdog_states (app_watchdog_combine w s)) = 3"
    using assms by (simp add: app_watchdog_combine_def Let_def NUM_WATCH_STATES_def)
qed

lemma combine_rounds:
  "length (watchdog_states s) = 3 \<Longrightarrow>
   hw_log (plane (fold app_watchdog_combine ws s)) = hw_log (plane s) @ replicate (rounds (seen s) ws) (WatchdogCommand 1 0)"
proof (induction ws arbitrary: s)
  case (Cons w ws)
  show ?case using Cons.IH [OF combine_step(3) [OF Cons.prems, of w]] combine_step(1,2) [OF Cons.prems, of w]
    by (cases "full (insert w (seen s))") simp_all
qed simp

lemma rounds_silent: "w \<notin> S \<union> set ws \<Longrightarrow> rounds S ws = 0"
  by (induction S ws rule: rounds.induct) (auto simp: full_def)

text \<open>C37: the kernel's watchdog is tickled exactly once per round in which the application, the GPS and the
  check of the modules have all reported; while one of them is silent it is not tickled at all.\<close>

theorem kernel_tickled_once_per_round:
  assumes "length (watchdog_states s) = 3"
  shows "hw_log (plane (fold app_watchdog_combine ws s)) =
      hw_log (plane s) @ replicate (rounds (seen s) ws) (WatchdogCommand 1 0)
    \<and> ((\<exists>w. w \<notin> seen s \<union> set ws) \<longrightarrow> hw_log (plane (fold app_watchdog_combine ws s)) = hw_log (plane s))"
  using combine_rounds [OF assms] rounds_silent by auto

theorem kernel_tickled_once_per_round_witness:
  "hw_log (plane (fold app_watchdog_combine
      [WATCH_LIB_GPS, WATCH_LIB_GPS, WATCH_APP_TICKLE, WATCH_LIB_INIT, WATCH_LIB_GPS] asked)) = [WatchdogCommand 1 0]"
proof -
  have w: "watchdog_states asked = [False, False, False]" "hw_log (plane asked) = []"
    by (simp_all add: asked_def controller_boot_def NUM_WATCH_STATES_def numeral_3_eq_3 asking_plane_def)
  have "seen asked = {}" by (auto simp: seen_def w) (metis tickler_num.elims nth_Cons_0 nth_Cons_Suc One_nat_def numeral_2_eq_2)
  moreover have "rounds {} [WATCH_LIB_GPS, WATCH_LIB_GPS, WATCH_APP_TICKLE, WATCH_LIB_INIT, WATCH_LIB_GPS] = 1" by code_simp
  ultimately show ?thesis
    using kernel_tickled_once_per_round [of asked "[WATCH_LIB_GPS, WATCH_LIB_GPS, WATCH_APP_TICKLE, WATCH_LIB_INIT, WATCH_LIB_GPS]"] w
    by simp
qed

section \<open>Modules without energy\<close>

text \<open>The switches of a module are what its state says.\<close>

definition follows :: "nat \<Rightarrow> controller \<Rightarrow> bool" where
  "follows i s \<longleftrightarrow>
     (isolation_state (slots s ! i) = ModuleEnabled \<longrightarrow>
        switches (plane s) (port_of i) PIN_IDX_ISOLATE_POWER \<and> switches (plane s) (port_of i) PIN_IDX_ISOLATE_I2C)
   \<and> (isolation_state (slots s ! i) = ModuleDisabledEnergy \<longrightarrow>
        \<not> switches (plane s) (port_of i) PIN_IDX_ISOLATE_POWER \<and> \<not> switches (plane s) (port_of i) PIN_IDX_ISOLATE_I2C)"

lemma metered_switched: "i < 8 \<Longrightarrow> metered i \<longleftrightarrow> switched i"
  by (auto simp: less_8 metered_def switched_def)

lemma module_remaining_same: "module_remaining ch n s = Inr (r, s') \<Longrightarrow> slots s' = slots s \<and> plane s' = plane s"
  by (auto simp: module_remaining_def on_board_def andthen_Inr_iff)

lemma set_isolation_run: "n < length (slots s) \<Longrightarrow> set_isolation st n s = Inr (s\<lparr>slots := (slots s)[n := (slots s ! n)\<lparr>isolation_state := st\<rparr>]\<rparr>)"
  by (simp add: set_isolation_def upd_slot_def)

lemma power_and_i2c_run:
  "n < 8 \<Longrightarrow> power_and_i2c_on n s = Inr (on_plane (hws [AsyncSet (port_of n) PIN_IDX_ISOLATE_POWER, AsyncSet (port_of n) PIN_IDX_ISOLATE_I2C]) s)"
  "n < 8 \<Longrightarrow> power_and_i2c_off n s = Inr (on_plane (hws [AsyncClear (port_of n) PIN_IDX_ISOLATE_POWER, AsyncClear (port_of n) PIN_IDX_ISOLATE_I2C]) s)"
  by (simp_all add: power_and_i2c_on_def power_and_i2c_off_def try_plane_def switch_calls on_plane_def hw_def hws_def)

text \<open>One module's turn.\<close>

definition settle_module :: "int \<Rightarrow> nat \<Rightarrow> controller \<Rightarrow> fault + controller" where
  "settle_module r i s =
     (if r \<le> 0 then andthen (set_isolation ModuleDisabledEnergy i s) (power_and_i2c_off i)
      else if isolation_state (slots s ! i) = ModuleEnabled \<or> isolation_state (slots s ! i) = ModuleDisabledEnergy
      then andthen (set_isolation ModuleEnabled i s) (power_and_i2c_on i)
      else Inr s)"

lemma settle_module_ok:
  assumes "length (slots s) = 8" "i < 8" "metered i"
  shows "\<exists>s'. settle_module r i s = Inr s' \<and> length (slots s') = 8 \<and> follows i s' \<and> cboard s' = cboard s \<and> cpolicy s' = cpolicy s
    \<and> (\<forall>k<8. k \<noteq> i \<longrightarrow> metered k \<longrightarrow> follows k s \<longrightarrow> follows k s')"
proof -
  have p: "port_of k = port_of i \<longleftrightarrow> k = i" if "k < 8" for k
    using port_inj [of i k] assms(2,3) metered_switched that by blast
  have ne: "PIN_IDX_ISOLATE_POWER \<noteq> PIN_IDX_ISOLATE_I2C" by (simp add: switch_nums)
  show ?thesis
    using assms(1,2) p ne
    by (auto simp: settle_module_def set_isolation_run power_and_i2c_run on_plane_def follows_def nth_list_update)
qed

lemma cut_off_step:
  "metered i \<Longrightarrow> cut_off_modules ch (i # is) s =
     andthen (module_remaining ch (int i) s) (\<lambda>(_, s1).
     andthen (module_remaining ch (int i) s1) (\<lambda>(r, s2).
     andthen (settle_module r i s2) (cut_off_modules ch is)))"
  by (simp add: settle_module_def)

lemma cut_off_follows:
  "cut_off_modules ch is s = Inr s' \<Longrightarrow> length (slots s) = 8 \<Longrightarrow> \<forall>i\<in>set is. i < 8 \<Longrightarrow>
   \<forall>k<8. metered k \<longrightarrow> (k \<in> set is \<or> follows k s) \<longrightarrow> follows k s'"
proof (induction "is" arbitrary: s)
  case (Cons i "is")
  show ?case
  proof (cases "metered i")
    case True
    obtain x s1 r s2 s3 where 1: "module_remaining ch (int i) s = Inr (x, s1)" "module_remaining ch (int i) s1 = Inr (r, s2)"
      and 3: "settle_module r i s2 = Inr s3" and 4: "cut_off_modules ch is s3 = Inr s'"
      using Cons.prems(1) cut_off_step [OF True, of ch "is" s] by (auto simp: andthen_Inr_iff simp del: cut_off_modules.simps)
    have same: "slots s2 = slots s" "plane s2 = plane s" using 1 by (auto dest!: module_remaining_same)
    then have fs: "follows k s2 \<longleftrightarrow> follows k s" for k by (simp add: follows_def)
    have "i < 8" "length (slots s2) = 8" using Cons.prems same by auto
    from settle_module_ok [OF this(2,1) True, of r] 3 have
      s3: "length (slots s3) = 8" "follows i s3" "\<forall>k<8. k \<noteq> i \<longrightarrow> metered k \<longrightarrow> follows k s2 \<longrightarrow> follows k s3" by auto
    have "\<forall>k<8. metered k \<longrightarrow> (k \<in> set is \<or> follows k s3) \<longrightarrow> follows k s'"
      by (rule Cons.IH [OF 4 s3(1)]) (use Cons.prems in auto)
    then show ?thesis using s3 fs by auto
  qed (use Cons in auto)
qed simp

lemma update_policy_follows:
  assumes "update_energy_policy_cb ch s = Inr s'" "length (slots s) = 8" "i < 8" "metered i"
  shows "follows i s'"
proof -
  obtain s1 x s3 where 1: "on_policy (signpost_energy_policy_update_energy ch) s = Inr s1"
    "on_board (signpost_energy_policy_get_controller_energy_remaining_uwh ch (cpolicy (save_accounts s1))) (save_accounts s1) = Inr (x, s3)"
    "cut_off_modules ch [0..<8] s3 = Inr s'"
    using assms(1) by (auto simp: update_energy_policy_cb_def Let_def andthen_Inr_iff)
  have "frame s3 = frame s" using 1(1,2) by (auto dest!: framed)
  then have "length (slots s3) = 8" using assms(2) by (simp add: frame_def)
  from cut_off_follows [OF 1(3) this] assms(3,4) show ?thesis by auto
qed

text \<open>
  The update does not look at isolations: a module that is enabled and has energy is on the bus afterwards,
  even while another one is isolated.
\<close>

lemma update_breaks_isolation:
  assumes "update_energy_policy_cb ch s = Inr s'" "length (slots s) = 8" "mod_isolated_out s = int (MOD_OUTS ! j)"
    "i < 8" "metered i" "isolation_state (slots s' ! i) = ModuleEnabled"
  shows "switches (plane s') (port_of i) PIN_IDX_ISOLATE_I2C \<and> mod_isolated_out s' = int (MOD_OUTS ! j)"
  using update_policy_follows [OF assms(1,2,4,5)] update_energy_policy_framed [OF assms(1)] assms(3,6)
  by (simp add: follows_def frame_def)

lemma save_accounts_same [simp]:
  "cboard (save_accounts s) = cboard s" "cpolicy (save_accounts s) = cpolicy s" "slots (save_accounts s) = slots s"
  "plane (save_accounts s) = plane s"
  by (simp_all add: save_accounts_def fm25cl_write_sync_def two_syscalls_def split: prod.split)

text \<open>What an update of the energy policy does to a module with the balance \<open>r\<close>: its state, and whether its power and its bus are
  switched on.\<close>

definition view :: "nat \<Rightarrow> controller \<Rightarrow> isolation \<times> bool \<times> bool" where
  "view i s = (isolation_state (slots s ! i), switches (plane s) (port_of i) PIN_IDX_ISOLATE_POWER, switches (plane s) (port_of i) PIN_IDX_ISOLATE_I2C)"

fun settled :: "int \<Rightarrow> isolation \<times> bool \<times> bool \<Rightarrow> isolation \<times> bool \<times> bool" where
  "settled r (st, pw, i2c) =
     (if r \<le> 0 then (ModuleDisabledEnergy, False, False)
      else if st = ModuleEnabled \<or> st = ModuleDisabledEnergy then (ModuleEnabled, True, True)
      else (st, pw, i2c))"

text \<open>The balances that the update decides on: each metered module is read twice, and the second reading counts.\<close>

fun balances :: "chips \<Rightarrow> policy \<Rightarrow> nat list \<Rightarrow> board \<Rightarrow> fault + (nat \<times> int) list \<times> board" where
  "balances ch p [] b = Inr ([], b)"
| "balances ch p (i # is) b =
     (if metered i
      then andthen (signpost_energy_policy_get_module_energy_remaining_uwh ch (int i) p b) (\<lambda>(_, b1).
           andthen (signpost_energy_policy_get_module_energy_remaining_uwh ch (int i) p b1) (\<lambda>(r, b2).
           andthen (balances ch p is b2) (\<lambda>(rs, b3). Inr ((i, r) # rs, b3))))
      else balances ch p is b)"

lemma settle_module_view:
  assumes "length (slots s) = 8" "i < 8" "metered i"
  shows "\<exists>s'. settle_module r i s = Inr s' \<and> length (slots s') = 8 \<and> cboard s' = cboard s \<and> cpolicy s' = cpolicy s \<and>
    (\<forall>k<8. metered k \<longrightarrow> view k s' = (if k = i then settled r (view k s) else view k s))"
proof -
  have p: "port_of k = port_of i \<longleftrightarrow> k = i" if "k < 8" for k
    using port_inj [of i k] assms(2,3) metered_switched that by blast
  have ne: "PIN_IDX_ISOLATE_POWER \<noteq> PIN_IDX_ISOLATE_I2C" by (simp add: switch_nums)
  show ?thesis
    using assms(1,2) p ne
    by (auto simp: settle_module_def set_isolation_run power_and_i2c_run on_plane_def view_def nth_list_update)
qed

lemma cut_off_settles:
  "cut_off_modules ch is s = Inr s' \<Longrightarrow> length (slots s) = 8 \<Longrightarrow> \<forall>i\<in>set is. i < 8 \<Longrightarrow> distinct is \<Longrightarrow>
   \<exists>rs. balances ch (cpolicy s) is (cboard s) = Inr (rs, cboard s') \<and> cpolicy s' = cpolicy s \<and> map fst rs = filter metered is \<and>
     (\<forall>(i, r)\<in>set rs. view i s' = settled r (view i s)) \<and>
     (\<forall>k<8. metered k \<longrightarrow> k \<notin> set is \<longrightarrow> view k s' = view k s)"
proof (induction "is" arbitrary: s)
  case (Cons i "is")
  show ?case
  proof (cases "metered i")
    case True
    obtain x s1 r s2 s3 where 1: "module_remaining ch (int i) s = Inr (x, s1)" "module_remaining ch (int i) s1 = Inr (r, s2)"
      and 3: "settle_module r i s2 = Inr s3" and 4: "cut_off_modules ch is s3 = Inr s'"
      using Cons.prems(1) cut_off_step [OF True, of ch "is" s] by (auto simp: andthen_Inr_iff simp del: cut_off_modules.simps)
    obtain b1 b2 where b: "signpost_energy_policy_get_module_energy_remaining_uwh ch (int i) (cpolicy s) (cboard s) = Inr (x, b1)"
      "signpost_energy_policy_get_module_energy_remaining_uwh ch (int i) (cpolicy s) b1 = Inr (r, b2)" "s2 = s\<lparr>cboard := b2\<rparr>"
      using 1 by (auto simp: module_remaining_def on_board_def andthen_Inr_iff)
    have i: "i < 8" "length (slots s2) = 8" using Cons.prems b(3) by auto
    have v2: "view k s2 = view k s" for k by (simp add: view_def b(3))
    have s3: "length (slots s3) = 8" "cboard s3 = b2" "cpolicy s3 = cpolicy s"
      "metered k \<Longrightarrow> k < 8 \<Longrightarrow> view k s3 = (if k = i then settled r (view k s) else view k s)" for k
      using settle_module_view [OF i(2,1) True, of r] 3 b(3) v2 by auto
    obtain rs where rs: "balances ch (cpolicy s) is b2 = Inr (rs, cboard s')" "cpolicy s' = cpolicy s" "map fst rs = filter metered is"
      "\<forall>(i, r)\<in>set rs. view i s' = settled r (view i s3)" "\<forall>k<8. metered k \<longrightarrow> k \<notin> set is \<longrightarrow> view k s' = view k s3"
      using Cons.IH [OF 4 s3(1)] Cons.prems(3,4) s3(2,3) by auto
    have later: "j \<in> set is \<and> metered j \<and> j < 8 \<and> j \<noteq> i" if "(j, q) \<in> set rs" for j q
    proof -
      have "j \<in> set (map fst rs)" using that by force
      then show ?thesis using rs(3) Cons.prems(3,4) by auto
    qed
    have "\<forall>(j, q)\<in>set ((i, r) # rs). view j s' = settled q (view j s)"
      using rs(4,5) later s3(4) True i(1) Cons.prems(4) by fastforce
    moreover have "\<forall>k<8. metered k \<longrightarrow> k \<notin> set (i # is) \<longrightarrow> view k s' = view k s"
      using rs(5) s3(4) by simp
    ultimately show ?thesis
      using b(1,2) rs(1-3) True by (intro exI [of _ "(i, r) # rs"]) simp
  next
    case False
    obtain rs where "balances ch (cpolicy s) is (cboard s) = Inr (rs, cboard s')" "cpolicy s' = cpolicy s" "map fst rs = filter metered is"
      "\<forall>(i, r)\<in>set rs. view i s' = settled r (view i s)" "\<forall>k<8. metered k \<longrightarrow> k \<notin> set is \<longrightarrow> view k s' = view k s"
      using Cons.IH [of s] Cons.prems False by auto
    then show ?thesis using False by (intro exI [of _ rs]) simp
  qed
qed simp

text \<open>C38: every update of the energy policy brings the accounts up to date and then decides on each of the six metered modules by its
  balance. A module whose balance is not positive gets the state \<open>ModuleDisabledEnergy\<close> and loses its power and its bus; one with a positive
  balance that is enabled or was cut off for energy gets the state \<open>ModuleEnabled\<close>, power and bus; and one with a positive balance in any
  other state keeps its state and both switches as they were.\<close>

theorem switches_follow_balances:
  assumes "update_energy_policy_cb ch s = Inr s'" "length (slots s) = 8"
  shows "\<exists>p b e b' rs. signpost_energy_policy_update_energy ch (cpolicy s) (cboard s) = Inr (p, b) \<and>
    signpost_energy_policy_get_controller_energy_remaining_uwh ch p b = Inr (e, b') \<and>
    balances ch p [0..<8] b' = Inr (rs, cboard s') \<and> cpolicy s' = p \<and> map fst rs = [0, 1, 2, 5, 6, 7] \<and>
    (\<forall>(i, r)\<in>set rs.
       (isolation_state (slots s' ! i), switches (plane s') (port_of i) PIN_IDX_ISOLATE_POWER, switches (plane s') (port_of i) PIN_IDX_ISOLATE_I2C) =
       (if r \<le> 0 then (ModuleDisabledEnergy, False, False)
        else if isolation_state (slots s ! i) = ModuleEnabled \<or> isolation_state (slots s ! i) = ModuleDisabledEnergy then (ModuleEnabled, True, True)
        else (isolation_state (slots s ! i), switches (plane s) (port_of i) PIN_IDX_ISOLATE_POWER,
              switches (plane s) (port_of i) PIN_IDX_ISOLATE_I2C)))"
proof -
  obtain p b where 1: "signpost_energy_policy_update_energy ch (cpolicy s) (cboard s) = Inr (p, b)"
    and rest: "andthen (on_board (signpost_energy_policy_get_controller_energy_remaining_uwh ch p) (save_accounts (s\<lparr>cpolicy := p, cboard := b\<rparr>)))
      (\<lambda>(_, s3). cut_off_modules ch [0..<8] s3) = Inr s'"
    using assms(1) by (auto simp: update_energy_policy_cb_def on_policy_def Let_def elim!: andthen_InrE)
  obtain e b' where 2: "signpost_energy_policy_get_controller_energy_remaining_uwh ch p b = Inr (e, b')"
    and 3: "cut_off_modules ch [0..<8] ((save_accounts (s\<lparr>cpolicy := p, cboard := b\<rparr>))\<lparr>cboard := b'\<rparr>) = Inr s'"
    using rest by (auto simp: on_board_def elim!: andthen_InrE)
  define s3 where "s3 = (save_accounts (s\<lparr>cpolicy := p, cboard := b\<rparr>))\<lparr>cboard := b'\<rparr>"
  have s3: "cpolicy s3 = p" "cboard s3 = b'" "slots s3 = slots s" "view i s3 = view i s" for i
    by (simp_all add: s3_def view_def)
  obtain rs where rs: "balances ch p [0..<8] b' = Inr (rs, cboard s')" "cpolicy s' = p" "map fst rs = filter metered [0..<8]"
    "\<forall>(i, r)\<in>set rs. view i s' = settled r (view i s)"
    using cut_off_settles [OF 3 [folded s3_def]] s3 assms(2) by auto
  have "filter metered [0..<8] = [0, 1, 2, 5, 6, 7]" by (simp add: metered_def upt_rec)
  then show ?thesis
    using 1 2 rs by (intro exI [of _ p] exI [of _ b] exI [of _ e] exI [of _ b'] exI [of _ rs]) (simp add: view_def)
qed

lemma module_remaining_ok:
  assumes "answers (Suc n) (cboard s)" "length (module_energy_remaining (remaining (cpolicy s))) = 8" "i < 8"
  shows "\<exists>r s'. module_remaining ch (int i) s = Inr (r, s') \<and> answers n (cboard s') \<and> cpolicy s' = cpolicy s
    \<and> slots s' = slots s"
proof -
  obtain e b where "signpost_energy_get_module_energy_uwh ch (int i) (cboard s) = Inr (e, b)" "answers n b"
    using energy_reads_ok(3) [OF assms(1), of "int i" ch] assms(3) by auto
  then show ?thesis
    using assms(2,3) by (auto simp: module_remaining_def on_board_def slot_def
        signpost_energy_policy_get_module_energy_remaining_uwh_def)
qed

lemma cut_off_ok:
  "answers (2 * length (filter metered is) + n) (cboard s) \<Longrightarrow> length (slots s) = 8 \<Longrightarrow>
   length (module_energy_remaining (remaining (cpolicy s))) = 8 \<Longrightarrow> \<forall>i\<in>set is. i < 8 \<Longrightarrow>
   \<exists>s'. cut_off_modules ch is s = Inr s'"
proof (induction "is" arbitrary: s)
  case (Cons i "is")
  show ?case
  proof (cases "metered i")
    case True
    have a: "answers (Suc (Suc (2 * length (filter metered is) + n))) (cboard s)" using Cons.prems(1) True by simp
    have i: "i < 8" using Cons.prems(4) by simp
    obtain x s1 where 1: "module_remaining ch (int i) s = Inr (x, s1)" "answers (Suc (2 * length (filter metered is) + n)) (cboard s1)"
      "cpolicy s1 = cpolicy s" "slots s1 = slots s"
      using module_remaining_ok [OF a Cons.prems(3) i, of ch] by blast
    obtain r s2 where 2: "module_remaining ch (int i) s1 = Inr (r, s2)" "answers (2 * length (filter metered is) + n) (cboard s2)"
      "cpolicy s2 = cpolicy s1" "slots s2 = slots s1"
      using module_remaining_ok [OF 1(2) _ i, of ch] 1(3) Cons.prems(3) by metis
    obtain s3 where 3: "settle_module r i s2 = Inr s3" "length (slots s3) = 8" "cboard s3 = cboard s2" "cpolicy s3 = cpolicy s2"
      using settle_module_ok [of s2 i r] True i 1(4) 2(4) Cons.prems(2) by auto
    have "\<exists>s'. cut_off_modules ch is s3 = Inr s'"
      by (rule Cons.IH) (use 1 2 3 Cons.prems in auto)
    then show ?thesis unfolding cut_off_step [OF True] using 1(1) 2(1) 3(1) by simp
  qed (use Cons in simp)
qed simp

lemma update_policy_ok:
  assumes "policy_wf (cpolicy s)" "answers 30 (cboard s)" "update_period ch (cpolicy s) (cboard s) \<noteq> 0" "length (slots s) = 8"
  shows "\<exists>s'. update_energy_policy_cb ch s = Inr s'"
proof -
  have "answers (17 + 13) (cboard s)" using assms(2) by simp
  then obtain p b where u: "signpost_energy_policy_update_energy ch (cpolicy s) (cboard s) = Inr (p, b)"
    "answers (Suc 12) b" "length (module_energy_remaining (remaining p)) = 8"
    using update_result [OF assms(1), of 13 "cboard s" ch] assms(3) by auto
  let ?s1 = "s\<lparr>cpolicy := p, cboard := b\<rparr>"
  obtain e b' where c: "signpost_energy_get_controller_energy_uwh ch b = Inr (e, b')" "answers 12 b'"
    using energy_reads_ok(2) [OF u(2), of ch] by blast
  let ?s3 = "(save_accounts ?s1)\<lparr>cboard := b'\<rparr>"
  have len: "length (filter metered [0..<8]) = 6" by (simp add: metered_def upt_rec)
  have "\<exists>s'. cut_off_modules ch [0..<8] ?s3 = Inr s'"
    by (rule cut_off_ok [of _ 0]) (use len c(2) u(3) assms(4) in simp_all)
  then show ?thesis
    using u(1) c(1) by (simp add: update_energy_policy_cb_def on_policy_def on_board_def Let_def
        signpost_energy_policy_get_controller_energy_remaining_uwh_def)
qed

theorem switches_follow_balances_witness:
  "\<exists>s' p b rs. update_energy_policy_cb calm_chips (asked\<lparr>cboard := calm_board\<lparr>upcalls := replicate 90 0\<rparr>\<rparr>) = Inr s' \<and>
    balances calm_chips p [0..<8] b = Inr (rs, cboard s') \<and> map fst rs = [0, 1, 2, 5, 6, 7] \<and>
    (\<forall>(i, r)\<in>set rs. r \<le> 0 \<longrightarrow> \<not> switches (plane s') (port_of i) PIN_IDX_ISOLATE_POWER)"
proof -
  let ?s = "asked\<lparr>cboard := calm_board\<lparr>upcalls := replicate 90 0\<rparr>\<rparr>"
  have p: "cpolicy ?s = policy_boot" by (simp add: asked_def controller_boot_def)
  have "update_period calm_chips policy_boot (calm_board\<lparr>upcalls := replicate 90 0\<rparr>) = 600"
    using calm_period by (simp add: update_period_def calc_time_since_last_time_ms_def alarm_read_def split: prod.splits)
  then obtain s' where s': "update_energy_policy_cb calm_chips ?s = Inr s'"
    using update_policy_ok [of ?s calm_chips] policy_boot_wf p by (auto simp: answers_def calm_board_def)
  obtain p b rs where "balances calm_chips p [0..<8] b = Inr (rs, cboard s')" "map fst rs = [0, 1, 2, 5, 6, 7]"
    "\<forall>(i, r)\<in>set rs. r \<le> 0 \<longrightarrow> \<not> switches (plane s') (port_of i) PIN_IDX_ISOLATE_POWER"
    using switches_follow_balances [OF s'] by (auto simp: case_prod_beta split: if_splits)
  then show ?thesis using s' by (intro exI [of _ s'] exI [of _ p] exI [of _ b] exI [of _ rs] conjI)
qed

section \<open>What a module is told\<close>

text \<open>C39: a module learns that its energy runs low only while it has some left: both warnings are off as soon
  as its balance is negative, because the balance is sent and compared as an unsigned number.\<close>

theorem energy_warnings:
  assumes "- (2 ^ 31) \<le> limit" "limit < 2 ^ 31"
  shows "length (energy_information limit us ms) = ENERGY_INFORMATION_LEN
    \<and> drop 12 (energy_information limit us ms)
      = [if 0 \<le> limit \<and> limit < 1000000 then 1 else 0, if 0 \<le> limit \<and> limit < 200000 then 1 else 0]"
proof -
  have u: "(word_of_int limit :: u32) < word_of_int k \<longleftrightarrow> 0 \<le> limit \<and> limit < k" if "0 \<le> k" "k < 2 ^ 31" for k
  proof -
    have "uint (word_of_int k :: u32) = k" using that by (simp add: uint_word_of_int)
    moreover have "uint (word_of_int limit :: u32) = (if 0 \<le> limit then limit else limit + 2 ^ 32)"
    proof (cases "0 \<le> limit")
      case False
      have "limit mod 2 ^ 32 = (limit + 2 ^ 32) mod 2 ^ 32" by simp
      also have "\<dots> = limit + 2 ^ 32" using False assms by (intro mod_pos_pos_trivial) auto
      finally show ?thesis using False by (simp add: uint_word_of_int)
    qed (use assms in \<open>simp add: uint_word_of_int\<close>)
    ultimately show ?thesis using that assms by (auto simp: word_less_def)
  qed
  have "(1000000 :: u32) = word_of_int 1000000" "(200000 :: u32) = word_of_int 200000" by simp_all
  then show ?thesis
    using u [of 1000000] u [of 200000] by (simp add: energy_information_def Let_def le32_def ENERGY_INFORMATION_LEN_def)
qed

theorem energy_warnings_witness:
  "drop 12 (energy_information (- 5) 7 0) = [0, 0] \<and> drop 12 (energy_information 5 7 0) = [1, 1]"
  using energy_warnings [of "- 5" 7 0] energy_warnings [of 5 7 0] by simp

section \<open>Declarations\<close>

lemma cstr_append_zeros: "cstr (xs @ replicate k 0) = cstr xs"
  by (induction xs) (simp_all add: cstr_def takeWhile_replicate)

lemma cstr_take: "cstr (take n xs) = take n (cstr xs)"
  by (simp add: cstr_def takeWhile_take)

lemma take_strnlen: "take (strnlen s n) s = take n (cstr s)"
proof -
  have "take (length (cstr s)) s = cstr s" unfolding cstr_def by (metis takeWhile_eq_take)
  then have "take n (take (length (cstr s)) s) = take n (cstr s)" by simp
  then show ?thesis by (simp only: take_take strnlen_eq)
qed

lemma register_name: "overwrite (replicate NAME_LEN 0) 0 (take (strnlen s NAME_LEN) s) = strncpy_bytes s NAME_LEN"
  by (simp add: take_strnlen overwrite_def strncpy_bytes_def min_def)

lemma declared_name_ok:
  assumes "len \<le> 17" "len \<le> length msg"
  shows "\<exists>nm. declared_name len msg = Inr nm \<and> strncpy_bytes nm NAME_LEN = strncpy_bytes (take len msg) NAME_LEN"
proof -
  let ?nm = "strncpy_bytes msg len @ replicate (17 - len) 0"
  have "declared_name len msg = Inr ?nm"
    using assms by (simp add: declared_name_def memcpy_at_def overwrite_def length_strncpy_bytes)
  moreover have "cstr ?nm = cstr (take len msg)" by (simp add: cstr_append_zeros cstr_strncpy cstr_take)
  then have "strncpy_bytes ?nm NAME_LEN = strncpy_bytes (take len msg) NAME_LEN" by (simp add: strncpy_bytes_def)
  ultimately show ?thesis by blast
qed

lemma register_module_wf: "module_wf mi \<Longrightarrow> n < NUM_MODULES \<Longrightarrow> module_wf (register_module a n nm mi)"
  by (auto simp: module_wf_def register_module_def register_name length_strncpy_bytes dest!: set_update_subset_insert [THEN subsetD])

text \<open>When an isolated module declares itself with a name of at most 17 bytes, the slot behind its pin
  gets the module's address (a new one of its own if it has none) and name and loses its key, no other
  slot changes, and the answer with the address is on the bus. A longer name overflows the handler's buffer.\<close>

theorem declaration_registers_isolated_module:
  fixes src :: byte
  assumes "bus_clear m (capi s)" "mod_isolated_out s = int (MOD_OUTS ! j)" "j < 7" "len \<le> length msg"
  defines "n \<equiv> MODOUT_pin_to_mod_name (int (MOD_OUTS ! j))"
  defines "addr \<equiv> if src = 0 then 0x10 + word_of_nat n else src"
  shows "if len > 17
    then initialization_api_callback m src CommandFrame InitializationApiType InitializationDeclare len msg s = Inl OutOfBounds
    else \<exists>s'. initialization_api_callback m src CommandFrame InitializationApiType InitializationDeclare len msg s = Inr s'
      \<and> module_info (capi s') = (module_info (capi s))\<lparr>
           i2c_address_mods := (i2c_address_mods (module_info (capi s)))[n := addr],
           names := (names (module_info (capi s)))[n := strncpy_bytes (take len msg) NAME_LEN],
           haskey := (haskey (module_info (capi s)))[n := False]\<rparr>
      \<and> (\<exists>fs. fs \<noteq> [] \<and> wr_log (penv (capi s')) = wr_log (penv (capi s)) @ map (Pair src) fs)"
proof (cases "len > 17")
  case True
  then show ?thesis
    using assms(2,4) by (simp add: initialization_api_callback_def declared_name_def memcpy_at_def length_strncpy_bytes Let_def)
next
  case False
  obtain nm where nm: "declared_name len msg = Inr nm" "strncpy_bytes nm NAME_LEN = strncpy_bytes (take len msg) NAME_LEN"
    using declared_name_ok [of len msg] False assms(4) by auto
  have n8: "n < 8" unfolding n_def by (rule module_of_pin [OF assms(3)])
  then have un: "unat (word_of_nat n :: byte) = n" by (simp add: unsigned_of_nat take_bit_nat_eq_self)
  let ?a = "upd_module (register_module addr n nm) (capi s)"
  have up: "set_up ?a" using assms(1) n8
    by (simp add: bus_clear_def set_up_def upd_module_def register_module_wf NUM_MODULES_def)
  have send: "\<exists>a'. signpost_api_send m src ResponseFrame InitializationApiType InitializationDeclare (length [addr]) [addr] ?a
      = Inr (int (length (sent_wire m src (signpost_api_addr_to_key (module_info ?a)) (ResponseFrame, InitializationApiType, InitializationDeclare, [addr]) (layers ?a))), a')
    \<and> wr_log (penv a') = wr_log (penv ?a) @ map (Pair src)
        (sent_frames m src (signpost_api_addr_to_key (module_info ?a)) (ResponseFrame, InitializationApiType, InitializationDeclare, [addr]) (layers ?a))
    \<and> wr_rcs (penv a') = []"
    by (rule api_send_ok) (use assms(1) up in \<open>simp_all add: bus_clear_def upd_module_def\<close>)
  then obtain rc a' where a': "signpost_api_send m src ResponseFrame InitializationApiType InitializationDeclare 1 [addr] ?a = Inr (rc, a')"
    "wr_log (penv a') = wr_log (penv ?a) @ map (Pair src)
        (sent_frames m src (signpost_api_addr_to_key (module_info ?a)) (ResponseFrame, InitializationApiType, InitializationDeclare, [addr]) (layers ?a))"
    by auto
  have mi: "module_info a' = module_info ?a" by (rule api_send_ready(2) [OF up a'(1)])
  have fs: "sent_frames m src f x l \<noteq> []" for f x l
    by (rule sent_frames_nonempty) (use assms(1) in \<open>simp add: bus_clear_def\<close>)
  have "initialization_api_callback m src CommandFrame InitializationApiType InitializationDeclare len msg s = Inr (s\<lparr>capi := a'\<rparr>)"
    using a'(1) nm(1) assms(2) n8 un
    by (simp add: initialization_api_callback_def Let_def on_api_def signpost_initialization_declare_respond_def
        n_def [symmetric] addr_def NUM_MODULES_def)
  moreover have "module_info (capi (s\<lparr>capi := a'\<rparr>)) = (module_info (capi s))\<lparr>
           i2c_address_mods := (i2c_address_mods (module_info (capi s)))[n := addr],
           names := (names (module_info (capi s)))[n := strncpy_bytes (take len msg) NAME_LEN],
           haskey := (haskey (module_info (capi s)))[n := False]\<rparr>"
    by (simp add: mi upd_module_def register_module_def register_name nm(2))
  moreover have "\<exists>fs. fs \<noteq> [] \<and> wr_log (penv (capi (s\<lparr>capi := a'\<rparr>))) = wr_log (penv (capi s)) @ map (Pair src) fs"
    by (rule exI, rule conjI, rule fs) (use a'(2) in \<open>simp add: upd_module_def\<close>)
  ultimately show ?thesis using False by auto
qed

theorem declaration_registers_isolated_module_witness:
  "\<exists>s'. initialization_api_callback toy_tls 0 CommandFrame InitializationApiType InitializationDeclare 3 [0x67, 0x70, 0x73]
         (asked\<lparr>capi := toy_node, mod_isolated_out := 8\<rparr>) = Inr s'
    \<and> i2c_address_mods (module_info (capi s')) = (i2c_address_mods (module_info toy_node))[1 := 0x11]"
proof -
  have "MODOUT_pin_to_mod_name (int (MOD_OUTS ! 1)) = 1" "int (MOD_OUTS ! 1) = 8"
    by (simp_all add: MOD_OUTS_def MODOUT_pin_to_mod_name_def mod_pins module_nums)
  then show ?thesis
    using declaration_registers_isolated_module [of toy_tls "asked\<lparr>capi := toy_node, mod_isolated_out := 8\<rparr>" 1 3
        "[0x67, 0x70, 0x73]" 0] toy_node_clear(1) by auto
qed

section \<open>Commands\<close>

text \<open>A command is compared over its own length only: an empty one means \<open>on\<close>, and a prefix is enough.\<close>

lemma empty_downlink_is_on: "parse_downlink data 0 = Some ON"
  by (simp add: parse_downlink_def strncmp_eq_def)

lemma prefix_downlink: "parse_downlink [0x6F, 0x66] 2 = Some OFF" "parse_downlink [0x72] 1 = Some RESET"
  by code_simp+

end
