(* ===== verification/Gps_Facts.thy ===== *)
theory Gps_Facts
  imports Gps_Receiver
begin

text \<open>
  Facts about the GPS receiver: the commands it is sent pass the parser's own check and changed ones do
  not, a sentence without a position divides by zero, and what the conversion of positions loses.
\<close>

section \<open>Checksums\<close>

lemma checksum_loop_body:
  assumes "\<forall>c\<in>set body. c \<noteq> 0x2A \<and> P c"
  shows "checksum_loop P acc (body @ 0x2A # rest) = (foldl (XOR) acc body, 0x2A # rest)"
  using assms by (induction body arbitrary: acc) auto

lemma foldl_xor_shift: "foldl (XOR) (acc XOR c) body = foldl (XOR) acc body XOR (c :: byte)"
proof (induction body arbitrary: acc)
  case (Cons b body)
  have "(acc XOR c) XOR b = (acc XOR b) XOR c" by (simp add: xor.assoc xor.commute [of c b])
  then show ?case using Cons [of "acc XOR b"] by simp
qed simp

lemma foldl_xor_update:
  assumes "i < length body"
  shows "foldl (XOR) acc (body[i := c]) = foldl (XOR) acc body XOR (body ! i XOR (c :: byte))"
  using assms
proof (induction body arbitrary: acc i)
  case (Cons b body)
  show ?case
  proof (cases i)
    case 0
    have "(acc XOR b) XOR (b XOR c) = acc XOR c" by (simp add: xor.assoc [symmetric]) (simp add: xor.assoc)
    then show ?thesis using 0 foldl_xor_shift [of "acc XOR b" "b XOR c" body] by simp
  next
    case (Suc j)
    then show ?thesis using Cons by simp
  qed
qed simp

lemma xor_fixed:
  assumes "a XOR (b XOR c) = (a :: byte)"
  shows "b = c"
proof -
  have "b XOR c = a XOR (a XOR (b XOR c))" by (simp add: xor.assoc [symmetric])
  also have "\<dots> = 0" using assms by simp
  finally have z: "b XOR c = 0" .
  have "b = (b XOR c) XOR c" by (simp add: xor.assoc)
  then show ?thesis using z by simp
qed

lemma hex2int_digit: "d < 16 \<Longrightarrow> hex2int (hex_digit d) = uint d"
proof -
  assume "d < 16"
  then have "unat d < 16" by (simp add: word_less_nat_alt)
  moreover have "\<forall>k<16. hex2int (hex_digit (word_of_nat k)) = uint (word_of_nat k :: byte)"
    by code_simp
  ultimately have "hex2int (hex_digit (word_of_nat (unat d))) = uint (word_of_nat (unat d) :: byte)" by blast
  then show ?thesis by simp
qed

lemma uint_not_minus1: "uint (w :: byte) \<noteq> -1"
  using uint_ge_0 [of w] by linarith

lemma hex_digit_printable: "d < 16 \<Longrightarrow> hex_digit d \<noteq> 0x0A \<and> hex_digit d \<noteq> 0"
proof -
  assume "d < 16"
  then have "unat d < 16" by (simp add: word_less_nat_alt)
  moreover have "\<forall>k<16. hex_digit (word_of_nat k) \<noteq> 0x0A \<and> hex_digit (word_of_nat k) \<noteq> 0"
    by code_simp
  ultimately have "hex_digit (word_of_nat (unat d)) \<noteq> 0x0A \<and> hex_digit (word_of_nat (unat d)) \<noteq> 0" by blast
  then show ?thesis by simp
qed

lemma nibbles: "drop_bit 4 b < 16" "b AND 0xF < 16" for b :: byte
proof -
  show "drop_bit 4 b < 16"
    using unat_byte_less [of b] by (simp add: word_less_nat_alt drop_bit_eq_div unat_div)
  have "b AND mask 4 < 16"
    using and_mask_less' [of 4 b] by simp
  then show "b AND 0xF < 16" by (simp add: mask_eq_exp_minus_1)
qed

lemma hex2_printable: "c \<in> set (hex2 b) \<Longrightarrow> c \<noteq> 0x0A \<and> c \<noteq> 0"
  using hex_digit_printable [OF nibbles(1)] hex_digit_printable [OF nibbles(2)] by (auto simp: hex2_def)

lemma hex2int_hex2:
  "hex2int (hex_digit (drop_bit 4 b)) = uint (drop_bit 4 b)" "hex2int (hex_digit (b AND 0xF)) = uint (b AND 0xF)"
  by (rule hex2int_digit, rule nibbles)+

lemma hex2_value:
  fixes b :: byte
  shows "push_bit 4 (uint (drop_bit 4 b)) OR uint (b AND 0xF) = uint b"
proof -
  have m: "(0xF :: int) = mask 4" by (simp add: mask_eq_exp_minus_1)
  have "push_bit 4 (drop_bit 4 (uint b)) OR (uint b AND mask 4) = uint b"
    by (rule bit_eqI) (auto simp: bit_simps)
  then show ?thesis
    by (simp add: drop_bit_eq_div uint_div uint_and m)
qed

definition sealed :: "bytes \<Rightarrow> byte \<Rightarrow> bytes \<Rightarrow> bytes" where
  "sealed body checksum rest = 0x24 # body @ 0x2A # hex2 checksum @ rest"

text \<open>What the check says of a sentence with a checksum in place.\<close>

lemma minmea_check_sealed:
  assumes "\<forall>c\<in>set body. c \<noteq> 0x2A \<and> signpost_isprint c" "length body + length rest \<le> 79"
  shows "minmea_check (sealed body checksum rest) strict \<longleftrightarrow> foldl (XOR) 0 body = checksum \<and> line_end_ok strict rest"
proof -
  have loop: "checksum_loop signpost_isprint 0 (tl (sealed body checksum rest)) = (foldl (XOR) 0 body, 0x2A # hex2 checksum @ rest)"
    using checksum_loop_body [OF assms(1)] by (simp add: sealed_def)
  have len: "\<not> length (sealed body checksum rest) > MINMEA_MAX_LENGTH + 3"
    using assms(2) by (simp add: sealed_def hex2_def MINMEA_MAX_LENGTH_def)
  have "peek (sealed body checksum rest) = 0x24" by (simp add: sealed_def peek_def)
  then show ?thesis
    using len unfolding minmea_check_def
    by (simp add: loop hex2_def peek_def hex2int_hex2 hex2_value word_uint_eq_iff [symmetric] uint_not_minus1 Let_def
        del: uint_and)
qed

lemma gps_message_sealed:
  assumes "0x2A \<notin> set body" "length body \<le> 53"
  shows "gps_message (0x24 # body @ [0x2A]) = sealed body (foldl (XOR) 0 body) [0x0D, 0x0A]"
proof -
  have "minmea_checksum (0x24 # body @ [0x2A]) = foldl (XOR) 0 body"
    using assms(1) checksum_loop_body [of body "\<lambda>_. True" 0 "[]"]
    by (simp add: minmea_checksum_def peek_def) (metis fst_conv)
  then show ?thesis
    using assms(2) by (simp add: gps_message_def sealed_def hex2_def)
qed

text \<open>A command to the receiver, with the checksum that \<open>gps_send_msg\<close> adds, passes the parser's check of
  sentences, strict or not; when one printable byte of it is replaced by another (not a star) it does not.\<close>

theorem commands_pass_check:
  assumes "\<forall>c\<in>set body. c \<noteq> 0x2A \<and> signpost_isprint c" "length body \<le> 53"
  shows "minmea_check (gps_message (0x24 # body @ [0x2A])) strict \<and>
    (\<forall>i c. i < length body \<longrightarrow> c \<noteq> 0x2A \<longrightarrow> signpost_isprint c \<longrightarrow> c \<noteq> body ! i \<longrightarrow>
       \<not> minmea_check ((gps_message (0x24 # body @ [0x2A]))[Suc i := c]) strict)"
proof (intro conjI allI impI)
  have star: "0x2A \<notin> set body" using assms(1) by auto
  have crlf: "line_end_ok strict [0x0D, 0x0A]" by (simp add: line_end_ok_def)
  have msg: "gps_message (0x24 # body @ [0x2A]) = sealed body (foldl (XOR) 0 body) [0x0D, 0x0A]"
    using star assms(2) by (rule gps_message_sealed)
  show "minmea_check (gps_message (0x24 # body @ [0x2A])) strict"
    using assms crlf by (simp add: msg minmea_check_sealed)
  fix i c assume i: "i < length body" and c: "c \<noteq> 0x2A" "signpost_isprint c" "c \<noteq> body ! i"
  have upd: "(gps_message (0x24 # body @ [0x2A]))[Suc i := c] = sealed (body[i := c]) (foldl (XOR) 0 body) [0x0D, 0x0A]"
    using i by (simp add: msg sealed_def list_update_append)
  have "\<forall>b\<in>set (body[i := c]). b \<noteq> 0x2A \<and> signpost_isprint b"
    using assms(1) c set_update_subset_insert [of body i c] by auto
  moreover have "foldl (XOR) 0 (body[i := c]) \<noteq> foldl (XOR) 0 body"
    using foldl_xor_update [OF i, of 0 c] c(3) xor_fixed [of "foldl (XOR) 0 body" "body ! i" c] by auto
  ultimately show "\<not> minmea_check ((gps_message (0x24 # body @ [0x2A]))[Suc i := c]) strict"
    using assms(2) by (simp add: upd minmea_check_sealed)
qed

theorem commands_pass_check_witness:
  "minmea_check (gps_message GPS_DGPS_WAAS) True \<and> \<not> minmea_check ((gps_message GPS_DGPS_WAAS)[6 := 0x34]) True"
proof -
  have "GPS_DGPS_WAAS = 0x24 # chars ''PMTK301,2'' @ [0x2A]" by (simp add: GPS_DGPS_WAAS_def chars_def)
  moreover have body: "\<forall>c\<in>set (chars ''PMTK301,2''). c \<noteq> 0x2A \<and> signpost_isprint c" "length (chars ''PMTK301,2'') \<le> 53"
    by (simp_all add: chars_def signpost_isprint_def)
  moreover have "5 < length (chars ''PMTK301,2'')" "(0x34 :: byte) \<noteq> 0x2A" "signpost_isprint 0x34"
      "0x34 \<noteq> chars ''PMTK301,2'' ! 5" "Suc 5 = 6"
    by (simp_all add: chars_def signpost_isprint_def)
  ultimately show ?thesis
    using commands_pass_check [OF body, of True] by metis
qed

section \<open>Sentences without a position\<close>

lemma next_field_comma:
  assumes "\<forall>c\<in>set f. minmea_isfield c"
  shows "next_field (f @ 0x2C # rest) = (rest, Some rest)"
  using assms by (induction f) (auto simp: minmea_isfield_def)

definition lost_position :: "bytes \<Rightarrow> bytes \<Rightarrow> bytes" where
  "lost_position time date = chars ''GPRMC,'' @ time @ chars '',V,,,,,,,'' @ date @ chars '',,''"

lemma digit_is_field: "signpost_isdigit c \<Longrightarrow> minmea_isfield c"
  by (auto simp: signpost_isdigit_def minmea_isfield_def signpost_isprint_def word_le_nat_alt word_less_nat_alt)

lemma six_digits_prefix:
  assumes "length t \<ge> 6" "\<forall>c\<in>set (take 6 t). signpost_isdigit c"
  shows "six_digits (t @ rest)" "minmea_isfield (peek (t @ rest))"
proof -
  have "length (takeWhile signpost_isdigit (take 6 t)) = length (take 6 t)"
    using assms(2) by (simp only: takeWhile_eq_all_conv [THEN iffD2])
  then show "six_digits (t @ rest)" using assms(1) by (simp add: six_digits_def)
  obtain c u where "t = c # u" using assms(1) by (cases t) auto
  then show "minmea_isfield (peek (t @ rest))" using assms(2) by (simp add: peek_def digit_is_field)
qed

lemma scan_empty_float: "scan_float (Some (0x2C # s)) = Some (VFloat 0 0)" "scan_float (Some (0x2A # s)) = Some (VFloat 0 0)"
  by (simp_all add: scan_float_def minmea_isfield_def)

lemma scan_empty_direction: "scan_direction (Some (0x2C # s)) = Some (VInt 0)" "scan_direction (Some (0x2A # s)) = Some (VInt 0)"
  by (simp_all add: scan_direction_def minmea_isfield_def peek_def)

lemma scan_lost_position:
  assumes t: "length time \<ge> 6" "\<forall>c\<in>set (take 6 time). signpost_isdigit c" "\<forall>c\<in>set time. minmea_isfield c"
    and d: "length date = 6" "\<forall>c\<in>set date. signpost_isdigit c"
  shows "\<exists>vt vd. minmea_scan (sealed (lost_position time date) cs rest) ''tTcfdfdffDfd'' =
    Some [VType (chars ''GPRMC''), vt, VChar 0x56, VFloat 0 0, VInt 0, VFloat 0 0, VInt 0, VFloat 0 0, VFloat 0 0, vd, VFloat 0 0, VInt 0]"
proof -
  have d': "length date \<ge> 6" "\<forall>c\<in>set (take 6 date). signpost_isdigit c" "\<forall>c\<in>set date. minmea_isfield c"
    using d digit_is_field by auto
  have prefix: "chars ''$GPRMC,'' = [0x24, 0x47, 0x50, 0x52, 0x4D, 0x43, 0x2C]"
    and gap: "chars '',V,,,,,,,'' = [0x2C, 0x56, 0x2C, 0x2C, 0x2C, 0x2C, 0x2C, 0x2C, 0x2C]"
    and type: "chars ''GPRMC'' = [0x47, 0x50, 0x52, 0x4D, 0x43]"
    by (simp_all add: chars_def)
  have "sealed (lost_position time date) cs rest =
      [0x24, 0x47, 0x50, 0x52, 0x4D, 0x43, 0x2C] @ time @ [0x2C, 0x56, 0x2C, 0x2C, 0x2C, 0x2C, 0x2C, 0x2C, 0x2C] @ date @
      0x2C # 0x2C # 0x2A # hex2 cs @ rest"
    by (simp add: sealed_def lost_position_def chars_def)
  then show ?thesis
    by (simp add: minmea_scan_def scan_field_def type scan_type_def scan_char_def scan_time_def scan_date_def
        six_digits_prefix [OF t(1,2)] six_digits_prefix [OF d'(1,2)] next_field_comma [OF t(3)] next_field_comma [OF d'(3)]
        scan_empty_float scan_empty_direction minmea_isfield_def signpost_isprint_def peek_def)
qed

lemma strtok_line:
  assumes "0x0A \<notin> set l"
  shows "strtok_lines acc (l @ [0x0A]) = (if rev l @ acc = [] then ([], [0x0A]) else ([rev acc @ l], l @ [0]))"
  using assms by (induction l arbitrary: acc) auto

text \<open>A message of one line in the buffer is handed to the parser.\<close>

lemma receive_line:
  assumes "length (gps_data_buffer g) \<ge> length l + 2" "0x0A \<notin> set l" "0 \<notin> set l" "l \<noteq> []"
    "gps_parse_data l (gps_position g) = Inl e"
  shows "gps_receive (l @ [0x0A, 0]) g = Inl e"
proof -
  obtain b where b: "memcpy_at (gps_data_buffer g) 0 (l @ [0x0A, 0]) = Inr b"
    and b': "b = l @ [0x0A, 0] @ drop (length l + 2) (gps_data_buffer g)"
    using assms(1) by (simp add: c_mem)
  have "takeWhile (\<lambda>c. c \<noteq> 0) (l @ r) = l @ takeWhile (\<lambda>c. c \<noteq> 0) r" for r
    using assms(3) by (intro takeWhile_append2) auto
  then have content: "takeWhile (\<lambda>c. c \<noteq> 0) b = l @ [0x0A]"
    by (simp add: b')
  have "0 \<in> set b" by (simp add: b')
  then show ?thesis
    using assms(4,5) by (simp add: gps_receive_def b gps_rx_callback_def content strtok_line [OF assms(2)])
qed

lemma no_position_divides: "to_decimal_degrees (0, 0) = Inl DivisionByZero"
  by (simp add: to_decimal_degrees_def wrap32_def)

lemma lost_position_printable:
  assumes "\<forall>c\<in>set time. minmea_isfield c" "\<forall>c\<in>set date. signpost_isdigit c"
  shows "\<forall>c\<in>set (lost_position time date). c \<noteq> 0x2A \<and> signpost_isprint c"
  using assms digit_is_field by (auto simp: lost_position_def chars_def minmea_isfield_def signpost_isprint_def)

lemma scan_type_sealed:
  "minmea_scan (sealed (lost_position time date) cs rest) ''t'' = Some [VType (chars ''GPRMC'')]"
  by (simp add: minmea_scan_def scan_field_def sealed_def lost_position_def chars_def scan_type_def
      minmea_isfield_def signpost_isprint_def peek_def split: prod.split)

lemma parse_lost_position:
  assumes t: "length time \<ge> 6" "length time \<le> 30" "\<forall>c\<in>set (take 6 time). signpost_isdigit c" "\<forall>c\<in>set time. minmea_isfield c"
    and d: "length date = 6" "\<forall>c\<in>set date. signpost_isdigit c"
  shows "gps_parse_data (sealed (lost_position time date) (foldl (XOR) 0 (lost_position time date)) [0x0D]) p = Inl DivisionByZero"
proof -
  let ?l = "sealed (lost_position time date) (foldl (XOR) 0 (lost_position time date)) [0x0D]"
  have "length (lost_position time date) = length time + 23"
    using d(1) by (simp add: lost_position_def chars_def)
  then have "minmea_check ?l False"
    using t(2) lost_position_printable [OF t(4) d(2)] by (simp add: minmea_check_sealed line_end_ok_def)
  then have kind: "minmea_sentence_id ?l False = MINMEA_SENTENCE_RMC"
    by (simp add: minmea_sentence_id_def scan_type_sealed chars_def)
  obtain vt vd where "minmea_scan ?l ''tTcfdfdffDfd'' =
      Some [VType (chars ''GPRMC''), vt, VChar 0x56, VFloat 0 0, VInt 0, VFloat 0 0, VInt 0, VFloat 0 0, VFloat 0 0, vd, VFloat 0 0, VInt 0]"
    using scan_lost_position [OF t(1,3,4) d] by blast
  then have "parse_sentence ''RMC'' ''tTcfdfdffDfd'' ?l =
      Some [VType (chars ''GPRMC''), vt, VChar 0x56, VFloat 0 0, VInt 0, VFloat 0 0, VInt 0, VFloat 0 0, VFloat 0 0, vd, VFloat 0 0, VInt 0]"
    by (simp add: parse_sentence_def v_type_def chars_def)
  then obtain f where f: "minmea_parse_rmc ?l = Some f" "rmc_latitude f = (0, 0)"
    by (simp add: minmea_parse_rmc_def v_float_def v_int_def directed_def)
  have "gps_update_rmc f p = Inl DivisionByZero"
    by (simp add: gps_update_rmc_def f(2) no_position_divides split: prod.split)
  then show ?thesis
    by (simp add: gps_parse_data_def kind f(1))
qed

text \<open>C18: a receiver that lost its position sends a sentence whose position fields are empty. It passes the
  check, but the conversion of its position divides by the scale 0 of an empty field.\<close>

theorem lost_position_divides_by_zero:
  assumes "length time \<ge> 6" "length time \<le> 30" "\<forall>c\<in>set (take 6 time). signpost_isdigit c" "\<forall>c\<in>set time. minmea_isfield c"
    and "length date = 6" "\<forall>c\<in>set date. signpost_isdigit c" and "length (gps_data_buffer g) = 500"
  shows "gps_receive (gps_message (0x24 # lost_position time date @ [0x2A]) @ [0]) g = Inl DivisionByZero"
proof -
  let ?b = "lost_position time date"
  let ?l = "sealed ?b (foldl (XOR) 0 ?b) [0x0D]"
  have len: "length ?b \<le> 53"
    using assms(2,5) by (simp add: lost_position_def chars_def)
  have print: "\<forall>c\<in>set ?b. c \<noteq> 0x2A \<and> signpost_isprint c"
    using assms(4,6) by (rule lost_position_printable)
  then have "gps_message (0x24 # ?b @ [0x2A]) @ [0] = ?l @ [0x0A, 0]"
    using len by (subst gps_message_sealed) (auto simp: sealed_def)
  moreover have "0x0A \<notin> set ?l" "0 \<notin> set ?l"
    using print hex2_printable by (auto simp: sealed_def signpost_isprint_def)
  ultimately show ?thesis
    using receive_line [of ?l g DivisionByZero] parse_lost_position [OF assms(1-6)] len assms(7)
    by (simp add: sealed_def hex2_def)
qed

theorem lost_position_divides_by_zero_witness:
  "gps_receive (gps_message (0x24 # lost_position (chars ''081836.000'') (chars ''130998'') @ [0x2A]) @ [0]) gps_boot = Inl DivisionByZero"
  by (rule lost_position_divides_by_zero)
     (simp_all add: chars_def gps_boot_def signpost_isdigit_def minmea_isfield_def signpost_isprint_def)

section \<open>The precision of positions\<close>

lemma wrap32_small: "- (2 ^ 31) \<le> x \<Longrightarrow> x < 2 ^ 31 \<Longrightarrow> wrap32 x = x"
  by (simp add: wrap32_def signed_of_int signed_take_bit_int_eq_self)

lemma to_decimal_degrees_parts:
  fixes deg minutes scale :: int
  assumes "scale \<in> {1000, 10000, 100000}" "0 \<le> deg" "deg \<le> 180" "0 \<le> minutes" "minutes < 60 * scale"
  shows "to_decimal_degrees (deg * 100 * scale + minutes, scale) = Inr (deg * 1000000 + minutes div 60 * (1000000 div scale))"
    and "to_decimal_degrees (- (deg * 100 * scale + minutes), scale) = Inr (- (deg * 1000000 + minutes div 60 * (1000000 div scale)))"
proof -
  define v where "v = deg * 100 * scale + minutes"
  define unit where "unit = scale * 100"
  have s: "scale = 1000 \<or> scale = 10000 \<or> scale = 100000" using assms(1) by auto
  have v: "v = deg * unit + minutes" by (simp add: v_def unit_def)
  have unit: "wrap32 unit = unit" "0 < unit" using s by (auto simp: unit_def wrap32_small)
  have m: "minutes < unit" using assms(1,5) by (auto simp: unit_def)
  have big: "0 \<le> deg * unit" "deg * unit \<le> 1800000000" "minutes < 6000000"
    using assms by (auto simp: unit_def)
  have q: "(deg * unit + minutes) sdiv unit = deg" "(- (deg * unit) - minutes) sdiv unit = - deg"
    using assms(2,4) unit(2) m big(1) sdiv_nonneg [of "deg * unit + minutes" unit] sdiv_minus [of "deg * unit + minutes" unit] by simp_all
  define k where "k = minutes div 60"
  have k: "0 \<le> k" "60 * k \<le> minutes" using assms(4) by (auto simp: k_def)
  have mq: "minutes sdiv 60 = k" "(- minutes) sdiv 60 = - k"
    using assms(4) by (simp_all add: sdiv_nonneg sdiv_minus k_def)
  have d16: "sint (word_of_int deg :: 16 word) = deg" "sint (word_of_int (- deg) :: 16 word) = - deg"
    using assms(2,3) by (simp_all add: signed_of_int signed_take_bit_int_eq_self del: of_int_minus)
  have w: "wrap32 (deg * unit) = deg * unit" "wrap32 (- (deg * unit)) = - (deg * unit)" "wrap32 minutes = minutes"
    "wrap32 (- minutes) = - minutes" "wrap32 (deg * unit + k * 100) = deg * unit + k * 100"
    "wrap32 (- (deg * unit) - k * 100) = - (deg * unit) - k * 100" "wrap32 (k * 100) = k * 100" "wrap32 (- (k * 100)) = - (k * 100)"
    using big k assms(4) by (simp_all add: wrap32_small)
  have q10: "(deg * unit + k * 100) sdiv 10 = (deg * unit + k * 100) div 10"
    "(- (deg * unit) - k * 100) sdiv 10 = - ((deg * unit + k * 100) div 10)"
    using big k sdiv_nonneg [of "deg * unit + k * 100" 10] sdiv_minus [of "deg * unit + k * 100" 10] by (simp_all add: algebra_simps)
  have pos: "to_decimal_degrees (v, scale) =
      Inr (if scale = 100000 then (deg * unit + k * 100) div 10 else if scale = 1000 then wrap32 ((deg * unit + k * 100) * 10) else deg * unit + k * 100)"
    using unit by (simp add: to_decimal_degrees_def Let_def unit_def [symmetric] q d16 w mq q10 v)
  have neg: "to_decimal_degrees (- v, scale) =
      Inr (if scale = 100000 then - ((deg * unit + k * 100) div 10) else if scale = 1000 then wrap32 ((- (deg * unit) - k * 100) * 10) else - (deg * unit) - k * 100)"
    using unit by (simp add: to_decimal_degrees_def Let_def unit_def [symmetric] q d16 w mq q10 v del: of_int_minus)
  show "to_decimal_degrees (deg * 100 * scale + minutes, scale) = Inr (deg * 1000000 + minutes div 60 * (1000000 div scale))"
    using pos s assms(2,3,5) k by (auto simp: v_def unit_def k_def [symmetric] wrap32_small)
  show "to_decimal_degrees (- (deg * 100 * scale + minutes), scale) = Inr (- (deg * 1000000 + minutes div 60 * (1000000 div scale)))"
    using neg s assms(2,3,5) k by (auto simp: v_def unit_def k_def [symmetric] wrap32_small)
qed

text \<open>C21: a position with three to five digits of minutes becomes millionths of a degree, cut off after the
  minutes were divided by 60: it is at most the exact one and misses it by less than a thousandth, a ten-thousandth or
  a hundred-thousandth of a degree; south and west are treated alike.\<close>

theorem position_truncated:
  assumes "scale \<in> {1000, 10000, 100000}" "0 \<le> deg" "deg \<le> 180" "0 \<le> minutes" "minutes < 60 * scale"
  shows "\<exists>r. to_decimal_degrees (deg * 100 * scale + minutes, scale) = Inr r \<and>
    to_decimal_degrees (- (deg * 100 * scale + minutes), scale) = Inr (- r) \<and>
    (let exact = (deg * 60 * scale + minutes) * 1000000
     in r * (60 * scale) \<le> exact \<and> exact < (r + 1000000 div scale) * (60 * scale))"
proof -
  define k where "k = minutes div 60"
  have k: "60 * k \<le> minutes" "minutes < 60 * k + 60" by (simp_all add: k_def)
  have "(deg * 1000000 + k * (1000000 div scale)) * (60 * scale) \<le> (deg * 60 * scale + minutes) * 1000000"
    "(deg * 60 * scale + minutes) * 1000000 < (deg * 1000000 + k * (1000000 div scale) + 1000000 div scale) * (60 * scale)"
    using assms(1) k by auto
  then show ?thesis
    using to_decimal_degrees_parts [OF assms] by (auto simp: k_def Let_def)
qed

theorem position_truncated_witness:
  "\<exists>r. to_decimal_degrees (48070380, 10000) = Inr r \<and> to_decimal_degrees (-48070380, 10000) = Inr (- r) \<and>
    r * 600000 \<le> 28870380000000 \<and> 28870380000000 < (r + 100) * 600000"
  using position_truncated [of 10000 48 70380] by (simp add: Let_def)

end
