(* ===== verification/Modem_Console.thy ===== *)
theory Modem_Console
  imports Signpost_Port
begin

text \<open>
  The serial lines of the radio module, \<open>libsignpost-tock/multi_console.c\<close>, and the exchange of AT commands over
  them, \<open>at_command.c\<close>. The kernel's side is the record \<open>uart\<close>: results of system calls, lengths that
  completed transmissions report, what arrives during each wait, and whether \<open>malloc\<close> succeeds; an
  exhausted script means success, and silence for a wait. \<open>uart_log\<close> holds the calls, oldest first.
  A buffer is the list of the bytes received into it so far: what lies beyond was never written.
\<close>

section \<open>The lines\<close>

datatype rx_event = Arrives bytes | Silence

datatype uart_call =
    Subscribe nat nat
  | AllowRx nat nat
  | AllowTx nat bytes
  | AwaitRx nat nat
  | PinOutput nat
  | PinToggle nat
  | PinSet nat
  | PinClear nat
  | LedOn nat
  | LedOff nat
  | Pause nat

record uart =
  uart_rcs :: "int list"
  tx_lens :: "int list"
  rx_events :: "rx_event list"
  uart_mallocs :: "bool list"
  uart_log :: "uart_call list"

definition clean_uart :: uart where
  "clean_uart = \<lparr>uart_rcs = [], tx_lens = [], rx_events = [], uart_mallocs = [], uart_log = []\<rparr>"

definition note_call :: "uart_call \<Rightarrow> uart \<Rightarrow> uart" where
  "note_call c u = u\<lparr>uart_log := uart_log u @ [c]\<rparr>"

definition uart_call :: "uart_call \<Rightarrow> uart \<Rightarrow> int \<times> uart" where
  "uart_call c u = (let (rc, rcs) = pop 0 (uart_rcs u) in (rc, note_call c (u\<lparr>uart_rcs := rcs\<rparr>)))"

definition uart_malloc :: "uart \<Rightarrow> bool \<times> uart" where
  "uart_malloc u = (let (ok, ms) = pop True (uart_mallocs u) in (ok, u\<lparr>uart_mallocs := ms\<rparr>))"

definition TOCK_FAIL :: int where "TOCK_FAIL = -1"
definition TOCK_ENOMEM :: int where "TOCK_ENOMEM = -9"

text \<open>The synchronous read gives the length and the bytes; it waits until something arrives.\<close>

definition console_read :: "nat \<Rightarrow> nat \<Rightarrow> uart \<Rightarrow> fault + int \<times> bytes \<times> uart" where
  "console_read num max_len u =
     (let (r1, u1) = uart_call (Subscribe num 2) u
      in if r1 < 0 then Inr (r1, [], u1)
         else let (r2, u2) = uart_call (AllowRx num max_len) u1
         in if r2 < 0 then Inr (r2, [], u2)
            else case rx_events u2 of
                   Arrives bs # evs \<Rightarrow> Inr (int (length (take max_len bs)), take max_len bs, u2\<lparr>rx_events := evs\<rparr>)
                 | _ \<Rightarrow> Inl Blocked)"

definition console_read_with_timeout :: "nat \<Rightarrow> nat \<Rightarrow> nat \<Rightarrow> uart \<Rightarrow> int \<times> bytes \<times> uart" where
  "console_read_with_timeout num max_len timeout_ms u =
     (let (r1, u1) = uart_call (Subscribe num 2) u
      in if r1 < 0 then (r1, [], u1)
         else let (r2, u2) = uart_call (AllowRx num max_len) u1
         in if r2 < 0 then (r2, [], u2)
            else let (ev, evs) = pop Silence (rx_events u2); u3 = note_call (AwaitRx num timeout_ms) (u2\<lparr>rx_events := evs\<rparr>)
            in case ev of
                 Silence \<Rightarrow> (TOCK_FAIL, [], u3)
               | Arrives bs \<Rightarrow> (int (length (take max_len bs)), take max_len bs, u3))"

definition console_read_async :: "nat \<Rightarrow> nat \<Rightarrow> uart \<Rightarrow> int \<times> uart" where
  "console_read_async num max_len u =
     (let (r1, u1) = uart_call (AllowRx num max_len) u
      in if r1 < 0 then (r1, u1)
         else let (r2, u2) = uart_call (Subscribe num 2) u1 in if r2 < 0 then (r2, u2) else (0, u2))"

definition console_write :: "nat \<Rightarrow> bytes \<Rightarrow> uart \<Rightarrow> int \<times> uart" where
  "console_write num buf u =
     (let (ok, u0) = uart_malloc u
      in if \<not> ok then (TOCK_ENOMEM, u0)
         else let (r1, u1) = uart_call (AllowTx num buf) u0
         in if r1 < 0 then (r1, u1)
            else let (r2, u2) = uart_call (Subscribe num 1) u1
            in if r2 < 0 then (r2, u2)
               else let (len, ls) = pop (int (length buf)) (tx_lens u2) in (len, u2\<lparr>tx_lens := ls\<rparr>))"

definition console_write_async :: "nat \<Rightarrow> bytes \<Rightarrow> uart \<Rightarrow> int \<times> uart" where
  "console_write_async num buf u =
     (let (r1, u1) = uart_call (AllowTx num buf) u
      in if r1 < 0 then (r1, u1)
         else let (r2, u2) = uart_call (Subscribe num 1) u1 in if r2 < 0 then (r2, u2) else (int (length buf), u2))"

section \<open>AT commands\<close>

definition AT_SUCCESS :: int where "AT_SUCCESS = 0"
definition AT_ERROR :: int where "AT_ERROR = -1"
definition AT_NO_RESPONSE :: int where "AT_NO_RESPONSE = -2"

lemmas at_codes = AT_SUCCESS_def AT_ERROR_def AT_NO_RESPONSE_def TOCK_FAIL_def TOCK_ENOMEM_def

definition check_buffer :: "bytes \<Rightarrow> int" where
  "check_buffer buf =
     (if length buf \<ge> 4 \<and> drop (length buf - 4) buf = chars ''OK'' @ [0x0D, 0x0A] then AT_SUCCESS
      else if length buf \<ge> 7 \<and> drop (length buf - 7) buf = chars ''ERROR'' @ [0x0D, 0x0A] then AT_ERROR
      else AT_NO_RESPONSE)"

definition check_custom_buffer :: "bytes \<Rightarrow> int \<Rightarrow> bytes \<Rightarrow> int" where
  "check_custom_buffer rstring position buf =
     (let len = length buf; rlen = length rstring
      in if len \<ge> rlen
         then if position > 0 \<and> position < int len - int rlen
              then if take rlen (drop (nat position) buf) = rstring then AT_SUCCESS else AT_NO_RESPONSE
              else if drop (len - rlen) buf = rstring then AT_SUCCESS else AT_NO_RESPONSE
         else AT_NO_RESPONSE)"

definition at_send_buf :: "nat \<Rightarrow> bytes \<Rightarrow> uart \<Rightarrow> int \<times> uart" where
  "at_send_buf num buf u = (let (ret, u1) = console_write num buf u in (if ret < 0 then AT_ERROR else ret, u1))"

definition at_send :: "nat \<Rightarrow> bytes \<Rightarrow> uart \<Rightarrow> int \<times> uart" where
  "at_send num cmd u = at_send_buf num (cstr cmd) u"

text \<open>The loop over the tries, with the check to apply to what was received so far.\<close>

fun response_loop :: "(bytes \<Rightarrow> int) \<Rightarrow> nat \<Rightarrow> nat \<Rightarrow> nat \<Rightarrow> nat \<Rightarrow> bytes \<Rightarrow> uart \<Rightarrow> int \<times> bytes \<times> uart" where
  "response_loop check num 0 timeout_ms max_len buf u = (AT_NO_RESPONSE, buf, u)"
| "response_loop check num (Suc tries) timeout_ms max_len buf u =
     (let (len, bs, u1) = console_read_with_timeout num (max_len - length buf) timeout_ms u
      in if len < 0 then (AT_ERROR, buf, u1)
         else let buf' = buf @ bs
         in if check buf' = AT_SUCCESS then (int (length buf'), buf', u1)
            else if check buf' = AT_ERROR then (AT_ERROR, buf', u1)
            else response_loop check num tries timeout_ms max_len buf' u1)"

definition at_get_response :: "nat \<Rightarrow> nat \<Rightarrow> nat \<Rightarrow> nat \<Rightarrow> uart \<Rightarrow> int \<times> bytes \<times> uart" where
  "at_get_response num max_tries timeout_ms max_len u = response_loop check_buffer num max_tries timeout_ms max_len [] u"

definition at_get_custom_response :: "nat \<Rightarrow> nat \<Rightarrow> nat \<Rightarrow> nat \<Rightarrow> bytes \<Rightarrow> int \<Rightarrow> uart \<Rightarrow> int \<times> bytes \<times> uart" where
  "at_get_custom_response num max_tries timeout_ms max_len rstring position u =
     response_loop (check_custom_buffer rstring position) num max_tries timeout_ms max_len [] u"

definition at_wait_for_response :: "nat \<Rightarrow> nat \<Rightarrow> nat \<Rightarrow> uart \<Rightarrow> int \<times> uart" where
  "at_wait_for_response num max_tries timeout_ms u =
     (let (ret, _, u1) = at_get_response num max_tries timeout_ms 200 u in (ret, u1))"

definition at_wait_for_custom_response :: "nat \<Rightarrow> nat \<Rightarrow> nat \<Rightarrow> bytes \<Rightarrow> int \<Rightarrow> uart \<Rightarrow> int \<times> uart" where
  "at_wait_for_custom_response num max_tries timeout_ms rstring position u =
     (let (ret, _, u1) = at_get_custom_response num max_tries timeout_ms 200 rstring position u in (ret, u1))"

text \<open>
  The drivers above this are sequences of calls, each of which ends the function with an error when its
  result is negative; what comes last gives the result.
\<close>

fun at_script :: "int \<Rightarrow> (uart \<Rightarrow> int \<times> uart) list \<Rightarrow> (uart \<Rightarrow> int \<times> uart) \<Rightarrow> uart \<Rightarrow> int \<times> uart" where
  "at_script err [] result u = result u"
| "at_script err (c # cs) result u =
     (let (ret, u1) = c u in if ret < 0 then (err, u1) else at_script err cs result u1)"

definition give :: "int \<Rightarrow> uart \<Rightarrow> int \<times> uart" where
  "give rc u = (rc, u)"

end
