(* ===== verification/Modem_Xdot.thy ===== *)
theory Modem_Xdot
  imports Modem_Console Minmea
begin

text \<open>
  The LoRa radio, \<open>libsignpost-tock/xdot.c\<close>: sequences of AT commands to its serial line. The busy-waiting loops
  have no effect and are left out.
\<close>

definition XDOT_SUCCESS :: int where "XDOT_SUCCESS = 0"
definition XDOT_ERROR :: int where "XDOT_ERROR = -1"
definition XDOT_INVALID_PARAM :: int where "XDOT_INVALID_PARAM = -3"

definition LORA_CONSOLE :: nat where "LORA_CONSOLE = 0x10080007"
definition LORA_WAKE_PIN :: nat where "LORA_WAKE_PIN = 10"

abbreviation lora_send :: "bytes \<Rightarrow> uart \<Rightarrow> int \<times> uart" where
  "lora_send \<equiv> at_send LORA_CONSOLE"

abbreviation lora_wait :: "nat \<Rightarrow> nat \<Rightarrow> uart \<Rightarrow> int \<times> uart" where
  "lora_wait \<equiv> at_wait_for_response LORA_CONSOLE"

definition command_line :: "string \<Rightarrow> bytes" where
  "command_line s = chars s @ [0x0A]"

definition xdot_init :: "uart \<Rightarrow> int \<times> uart" where
  "xdot_init u = at_script XDOT_ERROR [lora_send (command_line ''ATE0''), lora_wait 3 500] (give XDOT_SUCCESS)
     (note_call (PinOutput LORA_WAKE_PIN) u)"

definition xdot_reset :: "uart \<Rightarrow> int \<times> uart" where
  "xdot_reset u =
     at_script XDOT_ERROR [lora_send (command_line ''ATZ''), lora_wait 3 500, lora_send (command_line ''AT'')]
       (\<lambda>u1. (XDOT_SUCCESS, note_call (Pause 100) u1)) u"

definition xdot_join_network :: "bytes \<Rightarrow> bytes \<Rightarrow> uart \<Rightarrow> int \<times> uart" where
  "xdot_join_network AppEUI AppKey =
     at_script XDOT_ERROR
       [lora_send (command_line ''AT''), lora_wait 3 500,
        lora_send (command_line ''AT+NJM=1''), lora_wait 3 500,
        lora_send (chars ''AT+NI=0,''), at_send_buf LORA_CONSOLE (concat (map hex2 (take 8 AppEUI))), lora_send [0x0A], lora_wait 6 500,
        lora_send (chars ''AT+NK=0,''), at_send_buf LORA_CONSOLE (concat (map hex2 (take 16 AppKey))), lora_send [0x0A], lora_wait 6 500,
        lora_send (command_line ''AT+PN=1''), lora_wait 3 500,
        lora_send (command_line ''AT+FSB=1''), lora_wait 3 500,
        lora_send (command_line ''AT&W''), lora_wait 3 2000,
        xdot_reset,
        lora_send (command_line ''AT+JOIN''), lora_wait 3 15000]
       (give XDOT_SUCCESS)"

text \<open>\<open>snprintf\<close> with room for one character writes only the terminator.\<close>

definition xdot_get_txdr :: "uart \<Rightarrow> int \<times> uart" where
  "xdot_get_txdr u =
     (let (r1, u1) = lora_send (command_line ''AT+TXDR?'') u
      in if r1 < 0 then (XDOT_ERROR, u1)
         else let (r2, buf, u2) = at_get_response LORA_CONSOLE 3 500 200 u1
         in if r2 \<le> 0 then (r2, u2)
            else if peek buf = 0x30 then (0, u2)
            else let a = fst (strtol (take (1 - 1) (cstr buf))) in (if a = 0 then XDOT_ERROR else a, u2))"

definition xdot_set_txdr :: "byte \<Rightarrow> uart \<Rightarrow> int \<times> uart" where
  "xdot_set_txdr dr u =
     (if dr > 4 then (XDOT_INVALID_PARAM, u)
      else at_script XDOT_ERROR [lora_send (take 14 (chars ''AT+TXDR='' @ decimal_text (unat dr) @ [0x0A]))] (lora_wait 3 500) u)"

text \<open>The setters that send the name and the number apart; the number has room for three characters.\<close>

definition send_setting :: "string \<Rightarrow> byte \<Rightarrow> uart \<Rightarrow> int \<times> uart" where
  "send_setting name v =
     at_script XDOT_ERROR [lora_send (chars name), lora_send (take 3 (decimal_text (unat v) @ [0x0A]))] (lora_wait 3 500)"

definition xdot_set_adr :: "byte \<Rightarrow> uart \<Rightarrow> int \<times> uart" where
  "xdot_set_adr adr u = (if adr > 1 then (XDOT_INVALID_PARAM, u) else send_setting ''AT+ADR='' adr u)"

definition xdot_set_txpwr :: "byte \<Rightarrow> uart \<Rightarrow> int \<times> uart" where
  "xdot_set_txpwr tx u = (if tx > 20 then (XDOT_INVALID_PARAM, u) else send_setting ''AT+TXP='' tx u)"

definition xdot_set_ack :: "byte \<Rightarrow> uart \<Rightarrow> int \<times> uart" where
  "xdot_set_ack ack u = (if ack > 8 then (XDOT_INVALID_PARAM, u) else send_setting ''AT+ACK='' ack u)"

definition xdot_save_settings :: "uart \<Rightarrow> int \<times> uart" where
  "xdot_save_settings = at_script XDOT_ERROR [lora_send (command_line ''AT&W'')] (lora_wait 3 2000)"

definition buf_to_hex_string :: "bytes \<Rightarrow> bytes" where
  "buf_to_hex_string buf = concat (map hex2 buf)"

definition xdot_send :: "bytes \<Rightarrow> uart \<Rightarrow> int \<times> uart" where
  "xdot_send buf u =
     (let (ok, u0) = uart_malloc u
      in if \<not> ok then (XDOT_ERROR, u0)
         else at_script XDOT_ERROR
                [lora_send (chars ''AT+sendb=''), at_send_buf LORA_CONSOLE (buf_to_hex_string buf), lora_send [0x0A]]
                (lora_wait 3 5000) u0)"

text \<open>\<open>strtol\<close> in base 0 of the two characters after \<open>0x\<close>: it stops at the first that is no hexadecimal digit.\<close>

definition hex_pair :: "byte \<Rightarrow> byte \<Rightarrow> byte" where
  "hex_pair a b =
     (if hex2int a = -1 then 0 else if hex2int b = -1 then word_of_int (hex2int a)
      else word_of_int (16 * hex2int a + hex2int b))"

text \<open>
  The result is the number of bytes the message claims, and the bytes written to the caller's buffer of \<open>len\<close>. The search for
  the first digit leaves the received bytes when there is none, and does not end when its 8-bit index wraps.
\<close>

definition xdot_receive :: "nat \<Rightarrow> uart \<Rightarrow> fault + int \<times> bytes \<times> uart" where
  "xdot_receive len u =
     (let (ok, u0) = uart_malloc u
      in if \<not> ok then Inr (XDOT_ERROR, [], u0)
         else let (r1, u1) = lora_send (command_line ''AT+RECV'') u0
         in if r1 < 0 then Inr (XDOT_ERROR, [], u1)
            else let (ret, buf, u2) = at_get_response LORA_CONSOLE 3 3000 (len * 2) u1
            in if ret < 7 then Inr (XDOT_ERROR, [], u2)
               else if ret \<le> 9 then Inr (0, [], u2)
               else let start = length (takeWhile (\<lambda>c. c < 0x30 \<or> c > 0x39) buf)
               in if start \<ge> 256 then Inl Blocked
                  else if start \<ge> length buf then Inl Uninitialised
                  else let claimed = (ret - int start - 8) sdiv 2;
                           out = map (\<lambda>i. hex_pair (buf ! (start + 2 * i)) (buf ! (start + 1 + 2 * i))) [0..<min (nat claimed) len]
                       in Inr (claimed, out, u2))"

definition xdot_sleep :: "uart \<Rightarrow> int \<times> uart" where
  "xdot_sleep = at_script XDOT_ERROR
     [lora_send (command_line ''AT+WM=1''), lora_wait 3 500, lora_send (command_line ''AT+sleep=1'')] (lora_wait 3 500)"

definition xdot_wake :: "uart \<Rightarrow> int \<times> uart" where
  "xdot_wake u = (XDOT_SUCCESS, note_call (PinToggle LORA_WAKE_PIN) (note_call (PinToggle LORA_WAKE_PIN) u))"

end
