(* ===== verification/Modem_Sara.thy ===== *)
theory Modem_Sara
  imports Modem_Console Minmea
begin

text \<open>
  The cellular modem, \<open>libsignpost-tock/sara_u260.c\<close>: posting a file over HTTP and reading one back.
\<close>

definition SARA_U260_SUCCESS :: int where "SARA_U260_SUCCESS = 0"
definition SARA_U260_ERROR :: int where "SARA_U260_ERROR = -1"
definition SARA_U260_NO_SERVICE :: int where "SARA_U260_NO_SERVICE = -3"
definition SARA_U260_OPERATION_FAILED :: int where "SARA_U260_OPERATION_FAILED = -4"

lemmas sara_codes = SARA_U260_SUCCESS_def SARA_U260_ERROR_def SARA_U260_NO_SERVICE_def SARA_U260_OPERATION_FAILED_def

definition SARA_CONSOLE :: nat where "SARA_CONSOLE = 0x10080006"

abbreviation sara_send :: "bytes \<Rightarrow> uart \<Rightarrow> int \<times> uart" where
  "sara_send \<equiv> at_send SARA_CONSOLE"

abbreviation sara_wait :: "nat \<Rightarrow> nat \<Rightarrow> uart \<Rightarrow> int \<times> uart" where
  "sara_wait \<equiv> at_wait_for_response SARA_CONSOLE"

definition cr_line :: "string \<Rightarrow> bytes" where
  "cr_line s = chars s @ [0x0D]"

definition quote :: byte where "quote = 0x22"

text \<open>A last call whose negative results all become the error.\<close>

definition success_or_error :: "(uart \<Rightarrow> int \<times> uart) \<Rightarrow> uart \<Rightarrow> int \<times> uart" where
  "success_or_error c u = (let (ret, u1) = c u in (if ret \<ge> 0 then SARA_U260_SUCCESS else SARA_U260_ERROR, u1))"

definition sara_u260_init :: "uart \<Rightarrow> int \<times> uart" where
  "sara_u260_init = at_script SARA_U260_ERROR [sara_send (cr_line ''AT''), sara_send (cr_line ''ATE0'')]
     (success_or_error (sara_wait 3 1000))"

definition sara_u260_check_connection :: "uart \<Rightarrow> int \<times> uart" where
  "sara_u260_check_connection u =
     (let (r1, u1) = sara_send (cr_line ''AT+COPS?'') u
      in if r1 < 0 then (SARA_U260_ERROR, u1)
         else let (len, _, u2) = at_get_response SARA_CONSOLE 3 2000 50 u1
         in (if len \<le> 0 then SARA_U260_ERROR else if len > 20 then SARA_U260_SUCCESS else SARA_U260_NO_SERVICE, u2))"

definition sara_u260_setup_packet_switch :: "uart \<Rightarrow> int \<times> uart" where
  "sara_u260_setup_packet_switch u =
     (let (r0, u0) = sara_u260_check_connection u
      in if r0 \<noteq> SARA_U260_SUCCESS then (r0, u0)
         else let (r1, u1) = sara_send (cr_line ''AT+UPSND=0,0'') u0
         in if r1 < 0 then (SARA_U260_ERROR, u1)
            else let (r2, u2) = sara_wait 3 3000 u1
            in if r2 = AT_ERROR
               then at_script SARA_U260_ERROR
                      [sara_send (chars ''AT+UPSD=0,1,'' @ [quote, quote, 0x0D]), sara_wait 3 3000,
                       sara_send (cr_line ''AT+UPSDA=0,3''), sara_wait 3 3000,
                       sara_send (cr_line ''AT+UPSND=0,0''), sara_wait 3 3000] (give SARA_U260_SUCCESS) u2
               else if r2 = AT_NO_RESPONSE then (SARA_U260_ERROR, u2)
               else (SARA_U260_SUCCESS, u2))"

definition sara_u260_setup_http_profile :: "bytes \<Rightarrow> uart \<Rightarrow> int \<times> uart" where
  "sara_u260_setup_http_profile url = at_script SARA_U260_ERROR
     [sara_send (cr_line ''AT+UHTTP=0''), sara_wait 3 3000,
      sara_send (chars ''AT+UHTTP=0,1,'' @ [quote]), sara_send url, sara_send [quote, 0x0D], sara_wait 3 3000,
      sara_send (cr_line ''AT+UHTTP=0,5,80''), sara_wait 3 3000] (give SARA_U260_SUCCESS)"

definition sara_u260_del_file :: "bytes \<Rightarrow> uart \<Rightarrow> int \<times> uart" where
  "sara_u260_del_file fname = at_script SARA_U260_ERROR
     [sara_send (chars ''AT+UDELFILE='' @ [quote]), sara_send fname, sara_send [quote, 0x0D]]
     (success_or_error (sara_wait 3 5000))"

text \<open>The data go out in pieces of 30 bytes.\<close>

function send_pieces :: "bytes \<Rightarrow> uart \<Rightarrow> int \<times> uart" where
  "send_pieces buf u =
     (if buf = [] then (0, u)
      else let (ret, u1) = at_send_buf SARA_CONSOLE (take 30 buf) u
           in if ret < 0 then (SARA_U260_ERROR, u1) else send_pieces (drop 30 buf) u1)"
  by pat_completeness auto

termination
  by (relation "measure (\<lambda>(buf, _). length buf)") (auto simp: length_greater_0_conv [symmetric] simp del: length_greater_0_conv)

declare send_pieces.simps [simp del]

definition sara_u260_write_to_file :: "bytes \<Rightarrow> bytes \<Rightarrow> uart \<Rightarrow> int \<times> uart" where
  "sara_u260_write_to_file fname buf = at_script SARA_U260_ERROR
     [sara_send (chars ''AT+UDWNFILE='' @ [quote]), sara_send fname, sara_send [quote, 0x2C],
      sara_send (take 14 (decimal_text (length buf))), sara_send [0x0D],
      at_wait_for_custom_response SARA_CONSOLE 3 2000 [0x0A, 0x3E] (-1),
      send_pieces buf] (success_or_error (sara_wait 3 5000))"

text \<open>The end of a request: the modem's report, whose 16th byte decides. It was never written when the report is shorter.\<close>

definition http_result :: "int \<Rightarrow> bytes \<Rightarrow> fault + int" where
  "http_result ret rbuf =
     (if ret < 0 then Inr SARA_U260_ERROR
      else if length rbuf \<le> 15 then Inl Uninitialised
      else Inr (if rbuf ! 15 = 0x30 then SARA_U260_OPERATION_FAILED else SARA_U260_SUCCESS))"

definition http_report :: "uart \<Rightarrow> fault + int \<times> uart" where
  "http_report u =
     (let (ret, rbuf, u1) = at_get_custom_response SARA_CONSOLE 3 20000 30 (chars ''+UUHTTPCR'') 2 u
      in andthen (http_result ret rbuf) (\<lambda>rc. Inr (rc, u1)))"

definition sara_u260_basic_http_post :: "bytes \<Rightarrow> bytes \<Rightarrow> bytes \<Rightarrow> uart \<Rightarrow> fault + int \<times> uart" where
  "sara_u260_basic_http_post url path buf u =
     (let (r0, u0) = sara_u260_setup_packet_switch u
      in if r0 < 0 then Inr (r0, u0)
         else let (_, u1) = sara_u260_del_file (chars ''postdata.bin'') u0;
                  (r2, u2) = sara_u260_write_to_file (chars ''postdata.bin'') buf u1
         in if r2 < 0 then Inr (r2, u2)
            else let (r3, u3) = at_script SARA_U260_ERROR
                   [sara_u260_setup_http_profile url, sara_send (chars ''AT+UHTTPC=0,4,'' @ [quote]), sara_send path,
                    sara_send ([quote, 0x2C, quote] @ chars ''postresult.txt'' @ [quote, 0x2C, quote] @ chars ''postdata.bin'' @ [quote, 0x2C, 0x32, 0x0D]),
                    sara_wait 3 30000] (give 0) u2
            in if r3 < 0 then Inr (r3, u3) else http_report u3)"

text \<open>The result of the request's own response is dropped.\<close>

definition sara_u260_basic_http_get :: "bytes \<Rightarrow> bytes \<Rightarrow> uart \<Rightarrow> fault + int \<times> uart" where
  "sara_u260_basic_http_get url path u =
     (let (r0, u0) = sara_u260_setup_packet_switch u
      in if r0 < 0 then Inr (r0, u0)
         else let (r1, u1) = at_script SARA_U260_ERROR
                [sara_u260_setup_http_profile url, sara_send (chars ''AT+UHTTPC=0,1,'' @ [quote]), sara_send path,
                 sara_send ([quote, 0x2C, quote] @ chars ''getresult.txt'' @ [quote, 0x0D])] (give 0) u0
         in if r1 < 0 then Inr (r1, u1)
            else let (_, u2) = sara_wait 3 30000 u1 in http_report u2)"

text \<open>What \<open>atoi\<close> looks at after the digits; it leaves an object that is used up before.\<close>

definition after_digits :: "bytes \<Rightarrow> bytes" where
  "after_digits s =
     (let t = dropWhile is_blank s
      in dropWhile signpost_isdigit (if peek t = 0x2D \<or> peek t = 0x2B then tl t else t))"

text \<open>The number between the commas, copied to an array of ten bytes.\<close>

definition field_number :: "bytes \<Rightarrow> fault + int" where
  "field_number s =
     (if length s > 10 then Inl OutOfBounds
      else if length s = 10 \<and> 0 \<notin> set s \<and> after_digits s = [] then Inl OutOfBounds
      else Inr (fst (strtol (cstr s))))"

text \<open>What the modem sent: the data of the length between its first two commas, before seven closing bytes.\<close>

definition file_data :: "nat \<Rightarrow> bytes \<Rightarrow> fault + int \<times> bytes" where
  "file_data max_len tbuf =
     (case filter (\<lambda>i. tbuf ! i = 0x2C) [1..<length tbuf] of
        c1 # c2 # _ \<Rightarrow>
          andthen (field_number (take (c2 - c1 - 1) (drop (c1 + 1) tbuf))) (\<lambda>dlen.
          if dlen \<ge> 0 \<and> nat dlen > max_len then Inr (SARA_U260_ERROR, [])
          else if dlen < 0 \<or> int (length tbuf) - 7 - dlen < 0 then Inl OutOfBounds
          else andthen (read_at tbuf (length tbuf - 7 - nat dlen) (nat dlen)) (\<lambda>xs. Inr (dlen, xs)))
      | _ \<Rightarrow> Inr (SARA_U260_ERROR, []))"

definition sara_u260_read_file :: "bytes \<Rightarrow> nat \<Rightarrow> nat \<Rightarrow> uart \<Rightarrow> fault + int \<times> bytes \<times> uart" where
  "sara_u260_read_file fname offset max_len u =
     (let (r1, u1) = at_script SARA_U260_ERROR
            [sara_send (chars ''AT+URDBLOCK='' @ [quote]), at_send_buf SARA_CONSOLE (cstr fname), sara_send [quote, 0x2C],
             sara_send (take 59 (decimal_text offset @ [0x2C] @ decimal_text max_len @ [0x0D]))] (give 0) u
      in if r1 < 0 then Inr (r1, [], u1)
         else let (ok, u2) = uart_malloc u1
         in if \<not> ok then Inr (SARA_U260_ERROR, [], u2)
            else let (ret, tbuf, u3) = at_get_response SARA_CONSOLE 3 5000 (max_len + 100) u2
            in if ret < 0 then Inr (SARA_U260_ERROR, [], u3)
               else andthen (file_data max_len tbuf) (\<lambda>(rc, xs). Inr (rc, xs, u3)))"

definition sara_u260_get_post_partial_response :: "nat \<Rightarrow> nat \<Rightarrow> uart \<Rightarrow> fault + int \<times> bytes \<times> uart" where
  "sara_u260_get_post_partial_response = sara_u260_read_file (chars ''postresult.txt'')"

definition sara_u260_get_post_response :: "nat \<Rightarrow> uart \<Rightarrow> fault + int \<times> bytes \<times> uart" where
  "sara_u260_get_post_response = sara_u260_get_post_partial_response 0"

definition sara_u260_get_get_partial_response :: "nat \<Rightarrow> nat \<Rightarrow> uart \<Rightarrow> fault + int \<times> bytes \<times> uart" where
  "sara_u260_get_get_partial_response = sara_u260_read_file (chars ''getresult.txt'')"

definition sara_u260_get_get_response :: "nat \<Rightarrow> uart \<Rightarrow> fault + int \<times> bytes \<times> uart" where
  "sara_u260_get_get_response = sara_u260_get_get_partial_response 0"

end
