(* ===== verification/Radio.thy ===== *)
theory Radio
  imports Modem_Xdot Modem_Sara Signpost_Init Signpost_Services Backplane "HOL-Library.Log_Nat"
begin

text \<open>
  The program of the radio module, \<open>radio_module/radio_app_ble/main.c\<close>: a ring of messages that other modules
  publish, emptied over Bluetooth, LoRa or the cellular network, and a status message and an energy report every
  minute. The statics of the file are the record \<open>radio\<close>, beside those of the library and of the modems.
  The Bluetooth stack is the log \<open>ble_log\<close>. Where the code waits (\<open>delay_ms\<close>, a modem, an answer of the
  controller) other callbacks can run: they are the parameter \<open>W\<close> and run when the wait is over.
\<close>

section \<open>State\<close>

definition QUEUE_SIZE :: nat where "QUEUE_SIZE = 30"
definition BUFFER_SIZE :: nat where "BUFFER_SIZE = 100"
definition ADDRESS_SIZE :: nat where "ADDRESS_SIZE = 6"
definition NUMBER_OF_MODULES :: nat where "NUMBER_OF_MODULES = 8"
definition CELL_POST_SIZE :: nat where "CELL_POST_SIZE = 2000"
definition UPDATE_VAL_LEN :: nat where "UPDATE_VAL_LEN = 4"
definition LOG_BUFFER_LEN :: nat where "LOG_BUFFER_LEN = 128"
definition LORA_JOINED :: int where "LORA_JOINED = 0"
definition LORA_ERROR :: int where "LORA_ERROR = -1"
definition POST_ADDRESS :: bytes where "POST_ADDRESS = chars ''ec2-35-166-179-172.us-west-2.compute.amazonaws.com''"
definition BLE_RESET :: nat where "BLE_RESET = 3"
definition LORA_POWER :: nat where "LORA_POWER = 8"

datatype ble_char = LogUpdate | LogRead | LogNotify

datatype ble_op = CharSet ble_char bytes | Notify ble_char | StartAdvertising

record radio =
  node :: api
  node_events :: "api_event list"
  modem :: uart
  board_pins :: backplane
  heap :: "bool list"
  ble_log :: "ble_op list"
  own_address :: bytes
  app_key :: bytes
  data_queue :: "bytes list"
  data_length :: "byte list"
  data_address :: "byte list"
  queue_head :: byte
  queue_tail :: byte
  module_num_map :: "byte list"
  number_of_modules :: byte
  module_packet_count :: "byte list"
  status_send_buf :: bytes
  status_length_offset :: byte
  status_data_offset :: byte
  lora_state :: int
  seq_num :: byte
  currently_sending :: bool
  added_queue :: bool
  fail_counter :: int
  cellular_state :: int
  send_counter :: byte
  log_update_value :: bytes
  log_buffer :: bytes

definition radio_boot :: "api \<Rightarrow> uart \<Rightarrow> bytes \<Rightarrow> bytes \<Rightarrow> radio" where
  "radio_boot a u addr key = \<lparr>node = a, node_events = [], modem = u, board_pins = \<lparr>hw_log = [], pin_reads = \<lambda>_. []\<rparr>,
     heap = [], ble_log = [], own_address = addr, app_key = key,
     data_queue = replicate QUEUE_SIZE (replicate BUFFER_SIZE 0), data_length = replicate QUEUE_SIZE 0,
     data_address = replicate QUEUE_SIZE 0, queue_head = 0, queue_tail = 0,
     module_num_map = replicate NUMBER_OF_MODULES 0, number_of_modules = 0,
     module_packet_count = replicate NUMBER_OF_MODULES 0, status_send_buf = replicate 400 0,
     status_length_offset = 0, status_data_offset = 0, lora_state = LORA_ERROR, seq_num = 0,
     currently_sending = False, added_queue = False, fail_counter = 0, cellular_state = SARA_U260_NO_SERVICE,
     send_counter = 0, log_update_value = replicate UPDATE_VAL_LEN 0, log_buffer = replicate LOG_BUFFER_LEN 0\<rparr>"

type_synonym meanwhile = "radio \<Rightarrow> fault + radio"

definition on_modem :: "meanwhile \<Rightarrow> (uart \<Rightarrow> int \<times> uart) \<Rightarrow> radio \<Rightarrow> fault + int \<times> radio" where
  "on_modem W f r = (let (rc, u) = f (modem r) in andthen (W (r\<lparr>modem := u\<rparr>)) (\<lambda>r1. Inr (rc, r1)))"

definition try_modem :: "meanwhile \<Rightarrow> (uart \<Rightarrow> fault + 'a \<times> uart) \<Rightarrow> radio \<Rightarrow> fault + 'a \<times> radio" where
  "try_modem W f r = andthen (f (modem r)) (\<lambda>(x, u). andthen (W (r\<lparr>modem := u\<rparr>)) (\<lambda>r1. Inr (x, r1)))"

definition device :: "uart_call \<Rightarrow> radio \<Rightarrow> radio" where
  "device c r = r\<lparr>modem := note_call c (modem r)\<rparr>"

definition delay_ms :: "meanwhile \<Rightarrow> nat \<Rightarrow> radio \<Rightarrow> fault + radio" where
  "delay_ms W ms r = W (device (Pause ms) r)"

text \<open>A call of the library that waits for an answer.\<close>

definition on_node ::
  "meanwhile \<Rightarrow> (api_event list \<Rightarrow> api \<Rightarrow> fault + int \<times> api \<times> api_event list) \<Rightarrow> radio \<Rightarrow> fault + int \<times> radio" where
  "on_node W f r = andthen (f (node_events r) (node r)) (\<lambda>(rc, a, evs).
     andthen (W (r\<lparr>node := a, node_events := evs\<rparr>)) (\<lambda>r1. Inr (rc, r1)))"

section \<open>The ring\<close>

definition increment_queue_pointer :: "byte \<Rightarrow> byte" where
  "increment_queue_pointer p = (if unat p = QUEUE_SIZE - 1 then 0 else p + 1)"

fun count_packet :: "byte \<Rightarrow> nat list \<Rightarrow> radio \<Rightarrow> radio" where
  "count_packet addr [] r = r"
| "count_packet addr (i # is) r =
     (let bump = (module_packet_count r)[i := module_packet_count r ! i + 1]
      in if module_num_map r ! i = 0
         then r\<lparr>module_num_map := (module_num_map r)[i := addr], module_packet_count := bump,
                number_of_modules := number_of_modules r + 1\<rparr>
         else if module_num_map r ! i = addr then r\<lparr>module_packet_count := bump\<rparr>
         else count_packet addr is r)"

definition count_module_packet :: "byte \<Rightarrow> radio \<Rightarrow> radio" where
  "count_module_packet addr r = (if addr = 0 then r else count_packet addr [0..<NUMBER_OF_MODULES] r)"

text \<open>An index into the ring that is none of its slots is out of bounds.\<close>

definition ring_slot :: "byte \<Rightarrow> fault + nat" where
  "ring_slot p = (if unat p < QUEUE_SIZE then Inr (unat p) else Inl OutOfBounds)"

definition add_buffer_to_queue :: "byte \<Rightarrow> bytes \<Rightarrow> byte \<Rightarrow> radio \<Rightarrow> fault + int \<times> radio" where
  "add_buffer_to_queue addr buffer len r =
     (let temp_tail = increment_queue_pointer (queue_tail r)
      in if temp_tail = queue_head r then Inr (TOCK_FAIL, r)
         else if unat len \<le> BUFFER_SIZE
         then andthen (ring_slot (queue_tail r)) (\<lambda>t.
              andthen (read_at buffer 0 (unat len)) (\<lambda>xs.
              andthen (memcpy_at (data_queue r ! t) 0 xs) (\<lambda>row.
              Inr (0, r\<lparr>data_address := (data_address r)[t := addr], data_queue := (data_queue r)[t := row],
                        data_length := (data_length r)[t := len], queue_tail := temp_tail\<rparr>))))
         else Inr (TOCK_ENOMEM, r))"

definition calc_queue_length :: "radio \<Rightarrow> byte" where
  "calc_queue_length r =
     (if queue_tail r \<ge> queue_head r then queue_tail r - queue_head r
      else word_of_nat QUEUE_SIZE - (queue_head r - queue_tail r))"

text \<open>The length of a message is cut to 8 bits on its way into the ring.\<close>

definition networking_api_callback ::
  "mbedtls \<Rightarrow> byte \<Rightarrow> byte \<Rightarrow> byte \<Rightarrow> nat \<Rightarrow> bytes \<Rightarrow> radio \<Rightarrow> fault + radio" where
  "networking_api_callback m src frame mt len msg r =
     (if (frame = NotificationFrame \<or> frame = CommandFrame) \<and> mt = NetworkingPublishMessage
      then andthen (add_buffer_to_queue src msg (word_of_nat len) r) (\<lambda>(rc, r1).
           andthen (signpost_networking_publish_reply m src rc (node r1)) (\<lambda>(_, a).
           Inr (r1\<lparr>node := a\<rparr>)))
      else Inr r)"

text \<open>A length in two bytes, the high one first; the length is a byte, so that the high one is zero.\<close>

definition length_bytes :: "byte \<Rightarrow> bytes" where
  "length_bytes l = [ucast (drop_bit 8 ((ucast l :: u16) AND 0xFF00)), ucast ((ucast l :: u16) AND 0xFF)]"

section \<open>Bluetooth\<close>

definition ble :: "ble_op list \<Rightarrow> radio \<Rightarrow> radio" where
  "ble ops r = r\<lparr>ble_log := ble_log r @ ops\<rparr>"

definition ble_evt_write :: "bool \<Rightarrow> radio \<Rightarrow> fault + radio" where
  "ble_evt_write is_log_update r =
     (if \<not> is_log_update then Inr r
      else let r1 = (if added_queue r then r\<lparr>seq_num := seq_num r + 1, queue_head := increment_queue_pointer (queue_head r)\<rparr> else r)
      in if queue_head r1 = queue_tail r1
         then let r2 = r1\<lparr>log_update_value := replicate UPDATE_VAL_LEN 0\<rparr>
              in Inr ((ble [CharSet LogUpdate (log_update_value r2), CharSet LogNotify [1], Notify LogNotify] r2)\<lparr>added_queue := False\<rparr>)
         else andthen (ring_slot (queue_head r1)) (\<lambda>h.
              let len = data_length r1 ! h
              in andthen (read_at (data_queue r1 ! h) 0 (unat len)) (\<lambda>xs.
                 andthen (memcpy_at (log_buffer r1) 0 (own_address r1 @ [seq_num r1] @ length_bytes len @ xs)) (\<lambda>b.
                 let r2 = count_module_packet (data_address r1 ! h) (r1\<lparr>log_buffer := b\<rparr>);
                     index = ADDRESS_SIZE + 3 + unat len
                 in Inr ((ble [CharSet LogRead (take index b), Notify LogRead] r2)\<lparr>added_queue := True\<rparr>)))))"

definition ble_evt_disconnected :: "radio \<Rightarrow> radio" where
  "ble_evt_disconnected = ble [CharSet LogNotify [0]]"

section \<open>Sending\<close>

definition track_failures :: "meanwhile \<Rightarrow> bool \<Rightarrow> radio \<Rightarrow> fault + radio" where
  "track_failures W fail r =
     (let led = (if fail then 2 else 3)
      in andthen (delay_ms W 5 (device (LedOn led) (r\<lparr>fail_counter := (if fail then fail_counter r + 1 else 0)\<rparr>))) (\<lambda>r1.
         let r2 = device (LedOff led) r1
         in if fail_counter r2 = 10
            then andthen (on_modem W xdot_reset r2) (\<lambda>(_, r3).
                 andthen (delay_ms W 500 r3) (\<lambda>r4. Inr (r4\<lparr>lora_state := LORA_ERROR\<rparr>)))
            else if fail_counter r2 = 40
            then andthen (delay_ms W 1000 (device (PinSet LORA_POWER) r2)) (\<lambda>r3.
                 andthen (delay_ms W 1000 (device (PinClear LORA_POWER) r3)) (\<lambda>r4.
                 andthen (on_modem W xdot_reset r4) (\<lambda>(_, r5).
                 andthen (delay_ms W 500 r5) (\<lambda>r6. Inr (r6\<lparr>lora_state := LORA_ERROR\<rparr>)))))
            else Inr r2))"

text \<open>
  The messages are packed from the head on while there is room, which is computed with the length of the first. The
  result is the used part of the buffer and the index after the last message in it.
\<close>

function pack_messages :: "byte \<Rightarrow> nat \<Rightarrow> bytes \<Rightarrow> radio \<Rightarrow> fault + nat \<times> bytes \<times> byte \<times> radio" where
  "pack_messages temp_head used cell_buffer r =
     (if QUEUE_SIZE \<le> unat (queue_head r) then Inl OutOfBounds
      else if used + 2 + unat (data_length r ! unat (queue_head r)) < CELL_POST_SIZE
      then andthen (ring_slot temp_head) (\<lambda>i.
           andthen (read_at (data_queue r ! i) 0 (unat (data_length r ! i))) (\<lambda>xs.
           andthen (memcpy_at cell_buffer used (length_bytes (data_length r ! i) @ xs)) (\<lambda>b.
           let r1 = count_module_packet (data_address r ! i) r;
               next_head = increment_queue_pointer temp_head;
               used' = used + 2 + unat (data_length r ! i)
           in if next_head = queue_tail r1 then Inr (used', b, next_head, r1)
              else pack_messages next_head used' b r1)))
      else Inr (used, cell_buffer, temp_head, r))"
  by pat_completeness auto

termination
  by (relation "measure (\<lambda>(h, used, b, r). CELL_POST_SIZE - used)") auto

declare pack_messages.simps [simp del]

text \<open>Whether the answer says that the post was accepted; the comparison reads on while the bytes agree.\<close>

definition accepted :: "bytes \<Rightarrow> fault + bool" where
  "accepted rbuf =
     (let got = take 6 (drop 9 rbuf)
      in if length got < 6 \<and> got = take (length got) (chars ''200 OK'') then Inl Uninitialised
         else Inr (got = chars ''200 OK''))"

definition send_cellular :: "meanwhile \<Rightarrow> radio \<Rightarrow> fault + bool \<times> radio" where
  "send_cellular W r =
     andthen (on_modem W sara_u260_check_connection r) (\<lambda>(ret, r1).
     if ret < SARA_U260_SUCCESS
     then Inr (False, r1\<lparr>cellular_state := SARA_U260_NO_SERVICE, currently_sending := False\<rparr>)
     else andthen (memcpy_at (replicate CELL_POST_SIZE 0) 0 (own_address r1 @ [seq_num r1])) (\<lambda>b0.
          andthen (pack_messages (queue_head r1) (ADDRESS_SIZE + 1) b0 r1) (\<lambda>(used, b, temp_head, r2).
          andthen (try_modem W (sara_u260_basic_http_post POST_ADDRESS (chars ''/signpost'') (take used b)) r2) (\<lambda>(ret2, r3).
          if ret2 < SARA_U260_SUCCESS then Inr (True, r3)
          else andthen (try_modem W (\<lambda>u. andthen (sara_u260_get_post_response 20 u) (\<lambda>(rc, xs, u'). Inr ((rc, xs), u'))) r3) (\<lambda>((rc, rbuf), r4).
               if rc \<ge> SARA_U260_SUCCESS
               then andthen (accepted rbuf) (\<lambda>ok.
                    Inr (True, if ok then r4\<lparr>seq_num := seq_num r4 + 1, queue_head := temp_head\<rparr> else r4))
               else Inr (True, r4))))))"

text \<open>Waking the LoRa radio only toggles its pin; nothing runs meanwhile.\<close>

definition wake_xdot :: "radio \<Rightarrow> radio" where
  "wake_xdot r = r\<lparr>modem := snd (xdot_wake (modem r))\<rparr>"

definition send_lora :: "meanwhile \<Rightarrow> radio \<Rightarrow> fault + radio" where
  "send_lora W r =
     andthen (ring_slot (queue_head r)) (\<lambda>h.
     let r1 = count_module_packet (data_address r ! h) r;
         packet = own_address r1 @ [seq_num r1] @ take BUFFER_SIZE (data_queue r1 ! h)
     in andthen (read_at packet 0 (unat (data_length r1 ! h + 7))) (\<lambda>xs.
        andthen (on_modem W (xdot_send xs) (wake_xdot r1)) (\<lambda>(status, r3).
        andthen (if status < 0 then track_failures W True r3
                 else andthen (track_failures W False r3) (\<lambda>r4.
                      Inr (r4\<lparr>seq_num := seq_num r4 + 1, queue_head := increment_queue_pointer (queue_head r4)\<rparr>))) (\<lambda>r5.
        andthen (on_modem W xdot_sleep r5) (\<lambda>(_, r6). Inr r6)))))"

text \<open>One attempt to send; the result is false when the callback returns at once.\<close>

definition forward :: "meanwhile \<Rightarrow> radio \<Rightarrow> fault + bool \<times> radio" where
  "forward W r =
     andthen (if cellular_state r = SARA_U260_NO_SERVICE
              then andthen (on_modem W sara_u260_check_connection (r\<lparr>currently_sending := True\<rparr>)) (\<lambda>(ret, r1).
                   Inr (r1\<lparr>cellular_state := (if ret < SARA_U260_SUCCESS then SARA_U260_NO_SERVICE else SARA_U260_SUCCESS)\<rparr>))
              else Inr (r\<lparr>currently_sending := True\<rparr>)) (\<lambda>r1.
     andthen (if 100 * unat (calc_queue_length r1) > 66 * QUEUE_SIZE \<and> cellular_state r1 = SARA_U260_SUCCESS
              then send_cellular W r1
              else if lora_state r1 = LORA_JOINED then andthen (send_lora W r1) (\<lambda>r2. Inr (True, r2))
              else Inr (True, r1)) (\<lambda>(go_on, r2).
     Inr (go_on, if go_on then r2\<lparr>currently_sending := False\<rparr> else r2)))"

section \<open>The report of every minute\<close>

text \<open>Single-precision arithmetic on non-negative numbers: the nearest number of 24 significant bits, ties to even.\<close>

definition round_even :: "rat \<Rightarrow> int" where
  "round_even x =
     (let f = \<lfloor>x\<rfloor>; d = x - of_int f
      in if d < 1 / 2 then f else if d > 1 / 2 then f + 1 else if even f then f else f + 1)"

definition exponent_of :: "rat \<Rightarrow> int" where
  "exponent_of q =
     (let (n, d) = quotient_of q; k = int (floorlog 2 (nat n)) - int (floorlog 2 (nat d))
      in if 2 powi k \<le> q then k else k - 1)"

definition single :: "rat \<Rightarrow> rat" where
  "single q =
     (if q \<le> 0 then 0
      else let e = exponent_of q in of_int (round_even (q * 2 powi (23 - e))) * 2 powi (e - 23))"

text \<open>Without any packet it divides zero by zero, and the conversion of the result to an integer is undefined.\<close>

definition energy_share :: "byte \<Rightarrow> nat \<Rightarrow> u32 \<Rightarrow> fault + u32" where
  "energy_share count packets_total used =
     (if packets_total = 0 then Inl DivisionByZero
      else Inr (word_of_int \<lfloor>single (single (of_nat (unat count) / of_nat packets_total) * single (of_nat (unat used)))\<rfloor>))"

text \<open>The modules of the status message, and the report entries they get; \<open>reps\<close> has the entries there is memory for.\<close>

fun status_entries :: "nat list \<Rightarrow> nat \<Rightarrow> (byte \<times> u32) list \<Rightarrow> radio \<Rightarrow> fault + nat \<times> (byte \<times> u32) list \<times> radio" where
  "status_entries [] packets reps r = Inr (packets, reps, r)"
| "status_entries (i # is) packets reps r =
     (if module_num_map r ! i \<noteq> 0
      then if i < length reps
           then andthen (memcpy_at (status_send_buf r) (unat (status_data_offset r) + 1 + 2 * i)
                           [module_num_map r ! i, module_packet_count r ! i]) (\<lambda>b.
                status_entries is ((packets + unat (module_packet_count r ! i)) mod 65536)
                  (reps[i := (module_num_map r ! i, 0)]) (r\<lparr>status_send_buf := b\<rparr>))
           else Inl OutOfBounds
      else Inr (packets, reps, r))"

fun share_energy :: "nat list \<Rightarrow> nat \<Rightarrow> u32 \<Rightarrow> (byte \<times> u32) list \<Rightarrow> radio \<Rightarrow> fault + (byte \<times> u32) list" where
  "share_energy [] packets used reps r = Inr reps"
| "share_energy (i # is) packets used reps r =
     (if module_num_map r ! i \<noteq> 0
      then if i < length reps
           then andthen (energy_share (module_packet_count r ! i) packets used) (\<lambda>e.
                share_energy is packets used (reps[i := (fst (reps ! i), e)]) r)
           else Inl OutOfBounds
      else Inr reps)"

definition report_bytes :: "(byte \<times> u32) list \<Rightarrow> bytes" where
  "report_bytes reps = concat (map (\<lambda>(a, e). le16 (ucast a) @ le32 e) reps)"

text \<open>The handler of messages inside the waits: the radio's own callback runs when the wait is over.\<close>

definition no_handler :: user where
  "no_handler k src frame api mt len msg s = Inr s"

definition report_energy :: "meanwhile \<Rightarrow> mbedtls \<Rightarrow> nat \<Rightarrow> (byte \<times> u32) list \<Rightarrow> radio \<Rightarrow> fault + radio" where
  "report_energy W m packets reps r =
     andthen (on_node W (signpost_energy_query no_handler m (replicate 14 0)) r) (\<lambda>(energy_failed, r1).
     if energy_failed < 0 then Inr r1
     else andthen (share_energy [0..<NUMBER_OF_MODULES] packets (of_le32 (energy_mem (svc (node r1)))) reps r1) (\<lambda>reps'.
          andthen (on_node W (signpost_energy_report no_handler m (number_of_modules r1) (report_bytes reps')) r1) (\<lambda>(rc, r2).
          if rc < 0 then Inr r2
          else andthen (on_node W (signpost_energy_reset no_handler m) r2) (\<lambda>(_, r3).
               Inr (r3\<lparr>module_packet_count := replicate NUMBER_OF_MODULES 0\<rparr>)))))"

text \<open>The queue length and the length of the status, and the status as a message of the module itself.\<close>

definition queue_status :: "radio \<Rightarrow> fault + radio" where
  "queue_status r =
     (let n = unat (number_of_modules r); off = unat (status_data_offset r)
      in andthen (memcpy_at (status_send_buf r) (off + 1 + 2 * n) [calc_queue_length r]) (\<lambda>b1.
         andthen (memcpy_at b1 (unat (status_length_offset r)) [word_of_nat (2 + 2 * n + 1)]) (\<lambda>b2.
         andthen (add_buffer_to_queue 0x22 b2 (word_of_nat (off + 1 + 2 * n + 1)) (r\<lparr>status_send_buf := b2\<rparr>)) (\<lambda>(_, r1).
         Inr (r1\<lparr>send_counter := 0\<rparr>)))))"

text \<open>The result is false when there is no memory for the report and the callback returns.\<close>

definition status_round :: "meanwhile \<Rightarrow> mbedtls \<Rightarrow> radio \<Rightarrow> fault + bool \<times> radio" where
  "status_round W m r =
     andthen (memcpy_at (status_send_buf r) (unat (status_data_offset r)) [number_of_modules r]) (\<lambda>b.
     let (ok, h) = pop True (heap r);
         r1 = r\<lparr>status_send_buf := b, heap := h\<rparr>
     in if \<not> ok then Inr (False, r1)
        else andthen (status_entries [0..<NUMBER_OF_MODULES] 0 (replicate (unat (number_of_modules r1)) (0, 0)) r1) (\<lambda>(packets, reps, r2).
             andthen (report_energy W m packets reps r2) (\<lambda>r3.
             andthen (queue_status r3) (\<lambda>r4. Inr (True, r4)))))"

definition timer_callback :: "meanwhile \<Rightarrow> mbedtls \<Rightarrow> radio \<Rightarrow> fault + radio" where
  "timer_callback W m r =
     (if currently_sending r then Inr r
      else andthen (if queue_head r \<noteq> queue_tail r then forward W r else Inr (True, r)) (\<lambda>(go_on, r1).
           if \<not> go_on then Inr r1
           else let r2 = r1\<lparr>send_counter := send_counter r1 + 1\<rparr>
                in andthen (if send_counter r2 = 30 then status_round W m r2 else Inr (True, r2)) (\<lambda>(tickle, r3).
                   Inr (if tickle then r3\<lparr>board_pins := app_watchdog_tickle_kernel (board_pins r3)\<rparr> else r3))))"

section \<open>The start\<close>

partial_function (option) join_loop :: "meanwhile \<Rightarrow> radio \<Rightarrow> (fault + radio) option" where
  "join_loop W r =
     (case andthen (on_modem W (xdot_join_network (replicate 8 0) (app_key r)) r) (\<lambda>(rc, r1).
           andthen (if rc < 0
                    then andthen (track_failures W True r1) (\<lambda>r2.
                         andthen (delay_ms W 5000 r2) (\<lambda>r3. Inr (wake_xdot r3)))
                    else Inr r1) (\<lambda>r5.
           Inr (rc, r5\<lparr>board_pins := app_watchdog_tickle_kernel (board_pins r5)\<rparr>))) of
        Inl f \<Rightarrow> Some (Inl f)
      | Inr (rc, r6) \<Rightarrow> if rc < 0 then join_loop W r6 else Some (Inr r6))"

definition xdot_settings :: "meanwhile \<Rightarrow> radio \<Rightarrow> fault + radio" where
  "xdot_settings W r =
     andthen (delay_ms W 1000 (wake_xdot r)) (\<lambda>r2.
     andthen (on_modem W xdot_init r2) (\<lambda>(_, r3).
     andthen (on_modem W (xdot_set_ack 1) r3) (\<lambda>(_, r4).
     andthen (on_modem W (xdot_set_txpwr 20) r4) (\<lambda>(_, r5).
     andthen (on_modem W (xdot_set_txdr 2) r5) (\<lambda>(_, r6).
     andthen (on_modem W (xdot_set_adr 0) r6) (\<lambda>(_, r7). Inr r7))))))"

definition join_lora_network :: "meanwhile \<Rightarrow> radio \<Rightarrow> (fault + radio) option" where
  "join_lora_network W r =
     (case xdot_settings W r of
        Inl f \<Rightarrow> Some (Inl f)
      | Inr r1 \<Rightarrow>
          map_option (\<lambda>res. andthen res (\<lambda>r2.
            andthen (on_modem W xdot_sleep r2) (\<lambda>(_, r3).
            andthen (track_failures W False r3) (\<lambda>r4. Inr (r4\<lparr>lora_state := LORA_JOINED\<rparr>)))))
            (join_loop W r1))"

definition status_topic :: bytes where "status_topic = chars ''signpost/radio/status''"

definition set_up_status :: "radio \<Rightarrow> fault + radio" where
  "set_up_status r =
     (let n = length status_topic
      in andthen (memcpy_at (status_send_buf r) 0 ([word_of_nat n] @ status_topic)) (\<lambda>b1.
         andthen (memcpy_at b1 (n + 2) [0x02]) (\<lambda>b2.
         Inr (r\<lparr>status_send_buf := b2, status_length_offset := word_of_nat (1 + n), status_data_offset := word_of_nat (n + 3)\<rparr>))))"

text \<open>\<open>main\<close> between the initialisation of the module and its endless loop.\<close>

definition radio_setup :: "meanwhile \<Rightarrow> radio \<Rightarrow> fault + radio" where
  "radio_setup W r =
     andthen (delay_ms W 100 (device (PinClear BLE_RESET) (device (PinOutput BLE_RESET) r))) (\<lambda>r1.
     andthen (delay_ms W 500 (device (PinSet LORA_POWER) (device (PinOutput LORA_POWER) (device (PinSet BLE_RESET) r1)))) (\<lambda>r2.
     andthen (delay_ms W 1000 (device (PinClear LORA_POWER) r2)) (\<lambda>r3.
     andthen (on_modem W sara_u260_init r3) (\<lambda>(_, r4).
     andthen (set_up_status r4) (\<lambda>r5.
     Inr ((ble [StartAdvertising] r5)\<lparr>board_pins := app_watchdog_start (app_watchdog_set_kernel_timeout 60000 (board_pins r5))\<rparr>))))))"

definition radio_handlers :: "api_handler list" where
  "radio_handlers = [\<lparr>h_api_type = NetworkingApiType, h_callback = UserHandler 0\<rparr>]"

text \<open>The initialisation is tried until it succeeds.\<close>

partial_function (option) radio_init_loop :: "meanwhile \<Rightarrow> mbedtls \<Rightarrow> radio \<Rightarrow> (fault + radio) option" where
  "radio_init_loop W m r =
     (case signpost_initialization_module_init no_handler m (chars ''signpost'') (chars ''radio'') ModuleAddressRadio
             radio_handlers (node_events r) (node r) of
        None \<Rightarrow> None
      | Some (Inl f) \<Rightarrow> Some (Inl f)
      | Some (Inr (rc, a, evs)) \<Rightarrow>
          let r1 = r\<lparr>node := a, node_events := evs\<rparr>
          in if rc < 0
             then (case delay_ms W 5000 r1 of Inl f \<Rightarrow> Some (Inl f) | Inr r2 \<Rightarrow> radio_init_loop W m r2)
             else Some (Inr r1))"

definition radio_start :: "meanwhile \<Rightarrow> mbedtls \<Rightarrow> radio \<Rightarrow> (fault + radio) option" where
  "radio_start W m r = map_option (\<lambda>res. andthen res (radio_setup W)) (radio_init_loop W m r)"

text \<open>The events of the endless loop.\<close>

datatype radio_event =
    Tick
  | NetworkMessage byte byte byte nat bytes
  | BleWrite bool
  | BleDisconnected

definition radio_event :: "meanwhile \<Rightarrow> mbedtls \<Rightarrow> radio_event \<Rightarrow> radio \<Rightarrow> fault + radio" where
  "radio_event W m ev r = (case ev of
       Tick \<Rightarrow> timer_callback W m r
     | NetworkMessage src frame mt len msg \<Rightarrow> networking_api_callback m src frame mt len msg r
     | BleWrite u \<Rightarrow> ble_evt_write u r
     | BleDisconnected \<Rightarrow> Inr (ble_evt_disconnected r))"

text \<open>One pass of the loop of \<open>main\<close>: it joins the network when it has to and then waits for an event.\<close>

definition main_pass :: "meanwhile \<Rightarrow> mbedtls \<Rightarrow> radio_event \<Rightarrow> radio \<Rightarrow> (fault + radio) option" where
  "main_pass W m ev r =
     (case (if lora_state r \<noteq> LORA_JOINED then join_lora_network W r else Some (Inr r)) of
        None \<Rightarrow> None
      | Some res \<Rightarrow> Some (andthen res (radio_event W m ev)))"

end
