(* ===== verification/Radio_Ring.thy ===== *)
theory Radio_Ring
  imports Radio
begin

text \<open>
  The radio's ring of messages is a bounded queue: the interface \<open>bounded_queue\<close>, what follows from it for
  any sequence of operations, and its interpretation on the ring.
\<close>

section \<open>Bounded queues\<close>

datatype 'm queue_op = Put 'm | Take

text \<open>The specification: a list of at most \<open>cap\<close> messages that fit, and a result for each message put. Nothing may be
  taken from the empty list (\<open>None\<close>).\<close>

fun queue_spec :: "nat \<Rightarrow> ('m \<Rightarrow> bool) \<Rightarrow> 'm queue_op list \<Rightarrow> 'm list \<Rightarrow> (int list \<times> 'm list) option" where
  "queue_spec cap fits [] xs = Some ([], xs)"
| "queue_spec cap fits (Put m # ops) xs =
     (let (rc, xs1) = (if length xs \<ge> cap then (TOCK_FAIL, xs) else if fits m then (0, xs @ [m]) else (TOCK_ENOMEM, xs))
      in map_option (\<lambda>(rcs, xs2). (rc # rcs, xs2)) (queue_spec cap fits ops xs1))"
| "queue_spec cap fits (Take # ops) xs = (if xs = [] then None else queue_spec cap fits ops (tl xs))"

fun queue_run :: "('m \<Rightarrow> 's \<Rightarrow> fault + int \<times> 's) \<Rightarrow> ('s \<Rightarrow> 's) \<Rightarrow> 'm queue_op list \<Rightarrow> 's \<Rightarrow> fault + int list \<times> 's" where
  "queue_run put remove_first [] s = Inr ([], s)"
| "queue_run put remove_first (Put m # ops) s =
     andthen (put m s) (\<lambda>(rc, s1). andthen (queue_run put remove_first ops s1) (\<lambda>(rcs, s2). Inr (rc # rcs, s2)))"
| "queue_run put remove_first (Take # ops) s = queue_run put remove_first ops (remove_first s)"

fun put_of :: "'m queue_op \<Rightarrow> 'm set" where
  "put_of (Put m) = {m}"
| "put_of Take = {}"

locale bounded_queue =
  fixes wf :: "'s \<Rightarrow> bool"
    and contents :: "'s \<Rightarrow> 'm list"
    and cap :: nat
    and known :: "'m \<Rightarrow> bool"
    and fits :: "'m \<Rightarrow> bool"
    and put :: "'m \<Rightarrow> 's \<Rightarrow> fault + int \<times> 's"
    and remove_first :: "'s \<Rightarrow> 's"
  assumes put_full: "wf s \<Longrightarrow> known m \<Longrightarrow> cap \<le> length (contents s) \<Longrightarrow> put m s = Inr (TOCK_FAIL, s)"
    and put_unfit: "wf s \<Longrightarrow> known m \<Longrightarrow> length (contents s) < cap \<Longrightarrow> \<not> fits m \<Longrightarrow> put m s = Inr (TOCK_ENOMEM, s)"
    and put_fits: "wf s \<Longrightarrow> known m \<Longrightarrow> length (contents s) < cap \<Longrightarrow> fits m \<Longrightarrow>
      \<exists>s'. put m s = Inr (0, s') \<and> wf s' \<and> contents s' = contents s @ [m]"
    and remove_law: "wf s \<Longrightarrow> contents s \<noteq> [] \<Longrightarrow> wf (remove_first s) \<and> contents (remove_first s) = tl (contents s)"
begin

lemma run_implements_spec:
  assumes "wf s" "\<forall>op\<in>set ops. \<forall>m\<in>put_of op. known m" "queue_spec cap fits ops (contents s) = Some (rcs, xs)"
  shows "\<exists>s'. queue_run put remove_first ops s = Inr (rcs, s') \<and> wf s' \<and> contents s' = xs"
  using assms
proof (induction ops arbitrary: s rcs)
  case (Cons op ops)
  show ?case
  proof (cases op)
    case (Put m)
    then have m: "known m" using Cons.prems(2) by simp
    consider "cap \<le> length (contents s)" | "length (contents s) < cap" "\<not> fits m" | "length (contents s) < cap" "fits m"
      by linarith
    then obtain rc s1 where put: "put m s = Inr (rc, s1)" "wf s1"
      and res: "(if cap \<le> length (contents s) then (TOCK_FAIL, contents s)
        else if fits m then (0, contents s @ [m]) else (TOCK_ENOMEM, contents s)) = (rc, contents s1)"
      by cases (use put_full [OF Cons.prems(1) m] put_unfit [OF Cons.prems(1) m] put_fits [OF Cons.prems(1) m] Cons.prems(1) in auto)
    obtain rcs' where "rcs = rc # rcs'" "queue_spec cap fits ops (contents s1) = Some (rcs', xs)"
      using Cons.prems(3) unfolding Put queue_spec.simps res by auto
    then show ?thesis
      using Cons.IH [OF put(2), of rcs'] Cons.prems(2) put(1) by (auto simp: Put)
  next
    case Take
    then show ?thesis
      using Cons.IH [of "remove_first s"] Cons.prems remove_law [OF Cons.prems(1)] by (auto split: if_splits)
  qed
qed (simp add: assms)

end

section \<open>The ring\<close>

definition ring_wf :: "radio \<Rightarrow> bool" where
  "ring_wf r \<longleftrightarrow> unat (queue_head r) < 30 \<and> unat (queue_tail r) < 30 \<and> length (data_queue r) = 30 \<and>
     length (data_length r) = 30 \<and> length (data_address r) = 30 \<and>
     (\<forall>i<30. length (data_queue r ! i) = 100 \<and> unat (data_length r ! i) \<le> 100)"

definition ring_len :: "radio \<Rightarrow> nat" where
  "ring_len r = (unat (queue_tail r) + 30 - unat (queue_head r)) mod 30"

definition entry :: "radio \<Rightarrow> nat \<Rightarrow> byte \<times> bytes" where
  "entry r i = (data_address r ! i, take (unat (data_length r ! i)) (data_queue r ! i))"

definition messages :: "radio \<Rightarrow> (byte \<times> bytes) list" where
  "messages r = map (\<lambda>k. entry r ((unat (queue_head r) + k) mod 30)) [0..<ring_len r]"

text \<open>Arithmetic of the indices.\<close>

lemma wrap30: "x < 60 \<Longrightarrow> x mod 30 = (if x < 30 then x else x - 30)" for x :: nat
  by (simp add: le_mod_geq)

lemma ring_indices:
  fixes h t k :: nat
  assumes "h < 30" "t < 30"
  shows "(t + 1) mod 30 = h \<longleftrightarrow> (t + 30 - h) mod 30 = 29"
    and "h = t \<longleftrightarrow> (t + 30 - h) mod 30 = 0"
    and "(t + 30 - h) mod 30 = (if h \<le> t then t - h else 30 - (h - t))"
    and "(t + 30 - h) mod 30 \<noteq> 0 \<Longrightarrow> (t + 30 - (h + 1) mod 30) mod 30 = (t + 30 - h) mod 30 - 1"
    and "(t + 30 - h) mod 30 = 0 \<Longrightarrow> (t + 30 - (h + 1) mod 30) mod 30 = 29"
    and "(t + 30 - h) mod 30 < 29 \<Longrightarrow> ((t + 1) mod 30 + 30 - h) mod 30 = Suc ((t + 30 - h) mod 30)"
    and "k < (t + 30 - h) mod 30 \<Longrightarrow> (h + k) mod 30 \<noteq> t"
    and "(h + (t + 30 - h) mod 30) mod 30 = t"
    and "k < 29 \<Longrightarrow> ((h + 1) mod 30 + k) mod 30 = (h + Suc k) mod 30"
  using assms by (auto simp: wrap30 split: if_splits)

lemma length_messages [simp]: "length (messages r) = ring_len r"
  by (simp add: messages_def)

lemma increment_mod: "unat p < 30 \<Longrightarrow> unat (increment_queue_pointer p) = (unat p + 1) mod 30"
proof (cases "unat p = 29")
  case False
  assume "unat p < 30"
  then have "unat (p + 1) = unat p + 1" using unat_word_ariths(1) [of p 1] by simp
  with False \<open>unat p < 30\<close> show ?thesis by (simp add: increment_queue_pointer_def QUEUE_SIZE_def)
qed (simp add: increment_queue_pointer_def QUEUE_SIZE_def)

lemma ring_len_less: "ring_len r < 30"
  by (simp add: ring_len_def)

lemma ring_full:
  assumes "ring_wf r"
  shows "increment_queue_pointer (queue_tail r) = queue_head r \<longleftrightarrow> ring_len r = 29"
  using increment_mod [of "queue_tail r"] assms ring_indices(1) [of "unat (queue_head r)" "unat (queue_tail r)"]
  by (simp add: ring_wf_def word_unat_eq_iff ring_len_def)

lemma ring_empty: "ring_wf r \<Longrightarrow> queue_head r = queue_tail r \<longleftrightarrow> ring_len r = 0"
  using ring_indices(2) [of "unat (queue_head r)" "unat (queue_tail r)"]
  by (simp add: ring_wf_def ring_len_def word_unat_eq_iff)

lemma queue_length:
  assumes "ring_wf r"
  shows "unat (calc_queue_length r) = ring_len r"
proof (cases "queue_tail r \<ge> queue_head r")
  case True
  then have "unat (queue_tail r - queue_head r) = unat (queue_tail r) - unat (queue_head r)" by (simp add: unat_sub)
  then show ?thesis
    using assms True ring_indices(3) [of "unat (queue_head r)" "unat (queue_tail r)"]
    by (simp add: calc_queue_length_def ring_len_def ring_wf_def word_le_nat_alt)
next
  case False
  then have lt: "queue_tail r \<le> queue_head r" "unat (queue_tail r) < unat (queue_head r)"
    by (simp_all add: word_le_nat_alt)
  have d: "unat (queue_head r - queue_tail r) = unat (queue_head r) - unat (queue_tail r)"
    using lt(1) by (simp add: unat_sub)
  moreover have "unat (queue_head r) - unat (queue_tail r) \<le> 30"
    using assms unfolding ring_wf_def by linarith
  ultimately have "queue_head r - queue_tail r \<le> 30"
    by (simp add: word_le_nat_alt)
  then have "unat (30 - (queue_head r - queue_tail r)) = 30 - (unat (queue_head r) - unat (queue_tail r))"
    by (simp add: unat_sub d)
  then show ?thesis
    using assms False lt(2) ring_indices(3) [of "unat (queue_head r)" "unat (queue_tail r)"]
    by (simp add: calc_queue_length_def ring_len_def ring_wf_def QUEUE_SIZE_def)
qed

text \<open>Only the ring's own fields count.\<close>

definition same_ring :: "radio \<Rightarrow> radio \<Rightarrow> bool" where
  "same_ring r r' \<longleftrightarrow> data_queue r' = data_queue r \<and> data_length r' = data_length r \<and> data_address r' = data_address r \<and>
     queue_head r' = queue_head r \<and> queue_tail r' = queue_tail r"

lemma same_ring_messages: "same_ring r r' \<Longrightarrow> messages r' = messages r"
  by (simp add: same_ring_def messages_def ring_len_def entry_def)

lemma same_ring_wf: "same_ring r r' \<Longrightarrow> ring_wf r' = ring_wf r"
  by (simp add: same_ring_def ring_wf_def)

text \<open>The removal, as the program has it: the head moves on, whether or not there is a message.\<close>

definition advance :: "radio \<Rightarrow> radio" where
  "advance r = r\<lparr>queue_head := increment_queue_pointer (queue_head r)\<rparr>"

lemma advance_wf: "ring_wf r \<Longrightarrow> ring_wf (advance r)"
  by (simp add: ring_wf_def advance_def increment_mod)

lemma advance_len: "ring_wf r \<Longrightarrow> ring_len r \<noteq> 0 \<Longrightarrow> ring_len (advance r) = ring_len r - 1"
  using ring_indices(4) [of "unat (queue_head r)" "unat (queue_tail r)"]
  by (simp add: ring_wf_def ring_len_def advance_def increment_mod)

lemma advance_messages:
  assumes "ring_wf r" "ring_len r \<noteq> 0"
  shows "messages (advance r) = tl (messages r)"
proof -
  let ?h = "unat (queue_head r)"
  have h: "unat (queue_head (advance r)) = (?h + 1) mod 30" "?h < 30" "unat (queue_tail r) < 30"
    using assms by (simp_all add: ring_wf_def advance_def increment_mod)
  have e: "entry (advance r) i = entry r i" for i by (simp add: entry_def advance_def)
  have "((?h + 1) mod 30 + k) mod 30 = (?h + Suc k) mod 30" if "k < ring_len r - 1" for k
    using that ring_len_less [of r] ring_indices(9) [OF h(2,3), of k] by simp
  then show ?thesis
    by (intro nth_equalityI) (simp_all add: messages_def advance_len [OF assms] e h(1) nth_tl less_diff_conv)
qed

lemma advance_empty: "ring_wf r \<Longrightarrow> ring_len r = 0 \<Longrightarrow> ring_len (advance r) = 29"
  using ring_indices(5) [of "unat (queue_head r)" "unat (queue_tail r)"]
  by (simp add: ring_wf_def ring_len_def advance_def increment_mod)

lemma add_buffer_stored:
  assumes r: "ring_wf r" "ring_len r < 29" and n: "length xs \<le> 100" "n = word_of_nat (length xs)"
  shows "\<exists>r'. add_buffer_to_queue addr xs n r = Inr (0, r') \<and> ring_wf r' \<and> messages r' = messages r @ [(addr, xs)] \<and>
    queue_head r' = queue_head r"
proof -
  let ?t = "unat (queue_tail r)" and ?h = "unat (queue_head r)"
  have len: "unat n = length xs" using n by (simp add: unat_of_nat)
  have t: "?t < 30" and rows: "length (data_queue r ! ?t) = 100" using r(1) by (auto simp: ring_wf_def)
  define r' where "r' = r\<lparr>data_address := (data_address r)[?t := addr],
    data_queue := (data_queue r)[?t := xs @ drop (length xs) (data_queue r ! ?t)],
    data_length := (data_length r)[?t := n], queue_tail := increment_queue_pointer (queue_tail r)\<rparr>"
  have res: "add_buffer_to_queue addr xs n r = Inr (0, r')"
    using r t rows n(1) ring_full [OF r(1)]
    by (simp add: add_buffer_to_queue_def ring_slot_def QUEUE_SIZE_def BUFFER_SIZE_def len c_mem r'_def)
  have wf: "ring_wf r'"
    using r(1) t n(1) by (auto simp: ring_wf_def r'_def increment_mod len nth_list_update)
  have h: "?h < 30" using r(1) by (simp add: ring_wf_def)
  have l: "ring_len r' = Suc (ring_len r)"
    using r(2) t ring_indices(6) [OF h t] by (simp add: ring_len_def r'_def increment_mod)
  have old: "(?h + k) mod 30 \<noteq> ?t" if "k < ring_len r" for k
    using that ring_indices(7) [OF h t] by (simp add: ring_len_def)
  have new: "(?h + ring_len r) mod 30 = ?t"
    using ring_indices(8) [OF h t] by (simp add: ring_len_def)
  have "entry r' ((?h + k) mod 30) = entry r ((?h + k) mod 30)" if "k < ring_len r" for k
    using old [OF that] by (simp add: entry_def r'_def)
  moreover have "entry r' ((?h + ring_len r) mod 30) = (addr, xs)"
    using r(1) t by (simp add: entry_def r'_def new ring_wf_def len)
  moreover have "queue_head r' = queue_head r" by (simp add: r'_def)
  ultimately have "messages r' = messages r @ [(addr, xs)]"
    by (simp add: messages_def l)
  then show ?thesis using res wf by (simp add: r'_def)
qed

lemma add_buffer_full: "ring_wf r \<Longrightarrow> ring_len r = 29 \<Longrightarrow> add_buffer_to_queue addr xs n r = Inr (TOCK_FAIL, r)"
  using ring_full by (simp add: add_buffer_to_queue_def)

lemma add_buffer_too_long:
  "ring_wf r \<Longrightarrow> ring_len r < 29 \<Longrightarrow> unat n > 100 \<Longrightarrow> add_buffer_to_queue addr xs n r = Inr (TOCK_ENOMEM, r)"
  using ring_full by (simp add: add_buffer_to_queue_def BUFFER_SIZE_def)

section \<open>The ring is a bounded queue\<close>

text \<open>A message is put with its length as the \<open>uint8_t\<close> argument.\<close>

abbreviation ring_add :: "byte \<times> bytes \<Rightarrow> radio \<Rightarrow> fault + int \<times> radio" where
  "ring_add m \<equiv> add_buffer_to_queue (fst m) (snd m) (word_of_nat (length (snd m)))"

interpretation ring: bounded_queue ring_wf messages 29 "\<lambda>m. length (snd m) < 256" "\<lambda>m. length (snd m) \<le> 100" ring_add advance
proof
  fix r and m :: "byte \<times> bytes"
  assume r: "ring_wf r"
  show "ring_add m r = Inr (TOCK_FAIL, r)" if "29 \<le> length (messages r)"
    using that r ring_len_less [of r] add_buffer_full [OF r] by simp
  show "ring_add m r = Inr (TOCK_ENOMEM, r)" if "length (snd m) < 256" "length (messages r) < 29" "\<not> length (snd m) \<le> 100"
    using that r add_buffer_too_long [OF r] by (simp add: unat_of_nat)
  show "\<exists>s'. ring_add m r = Inr (0, s') \<and> ring_wf s' \<and> messages s' = messages r @ [m]"
    if "length (messages r) < 29" "length (snd m) \<le> 100"
    using that add_buffer_stored [OF r, of "snd m" _ "fst m"] by force
  show "ring_wf (advance r) \<and> messages (advance r) = tl (messages r)" if "messages r \<noteq> []"
    using that advance_wf [OF r] advance_messages [OF r] by (simp flip: length_greater_0_conv)
qed

text \<open>C5: as long as nothing is removed from it when it is empty, the ring is a queue of 29 messages of up to 100 bytes: any
  sequence of insertions (of less than 256 bytes) and removals for which the list specification is defined runs without a
  fault and gives its results and its contents, in order, and the length the ring reports is the number of its
  messages. The removal has no guard of its own: done on the ring when it is empty, it makes the reported length 29.\<close>

theorem ring_is_bounded_queue:
  assumes "ring_wf r" "\<forall>op\<in>set ops. \<forall>m\<in>put_of op. length (snd m) < 256"
    and "queue_spec 29 (\<lambda>m. length (snd m) \<le> 100) ops (messages r) = Some (rcs, xs)"
  shows "\<exists>r'. queue_run (\<lambda>(addr, bytes). add_buffer_to_queue addr bytes (word_of_nat (length bytes))) advance ops r = Inr (rcs, r') \<and>
    messages r' = xs \<and> unat (calc_queue_length r') = length xs \<and> ring_wf r' \<and>
    (xs = [] \<longrightarrow> unat (calc_queue_length (advance r')) = 29)"
proof -
  obtain r' where r': "queue_run ring_add advance ops r = Inr (rcs, r')" "ring_wf r'" "messages r' = xs"
    using ring.run_implements_spec [OF assms] by blast
  have len: "ring_len r' = length xs" using r'(3) by (simp flip: length_messages)
  show ?thesis
    using r' len queue_length [OF r'(2)] queue_length [OF advance_wf [OF r'(2)]] advance_empty [OF r'(2)]
    by (auto simp: split_beta')
qed

lemma radio_boot_ring: "ring_wf (radio_boot a u addr key)" "messages (radio_boot a u addr key) = []"
  by (simp_all add: ring_wf_def messages_def ring_len_def radio_boot_def QUEUE_SIZE_def BUFFER_SIZE_def)

theorem ring_is_bounded_queue_witness:
  "\<exists>r'. queue_run (\<lambda>(addr, bytes). add_buffer_to_queue addr bytes (word_of_nat (length bytes))) advance
      [Put (1, [7, 8]), Put (2, replicate 101 0), Take] (radio_boot api_boot clean_uart [] []) = Inr ([0, TOCK_ENOMEM], r') \<and>
    messages r' = [] \<and> unat (calc_queue_length (advance r')) = 29"
proof -
  have ops: "\<forall>op\<in>set [Put (1, [7, 8]), Put (2, replicate 101 0), Take]. \<forall>m\<in>put_of op. length (snd m) < 256" by simp
  have spec: "queue_spec 29 (\<lambda>m. length (snd m) \<le> 100) [Put (1, [7, 8]), Put (2, replicate 101 0), Take]
      (messages (radio_boot api_boot clean_uart [] [])) = Some ([0, TOCK_ENOMEM], [])"
    by (simp add: radio_boot_ring(2))
  show ?thesis using ring_is_bounded_queue [OF radio_boot_ring(1) ops spec] by blast
qed

end
