(* ===== verification/Modem_Facts.thy ===== *)
theory Modem_Facts
  imports Modem_Xdot Modem_Sara Gps_Facts
begin

text \<open>
  What the modem drivers do with a line that works: every command goes out and every answer is read. On such
  a line the result of an HTTP request is not looked at, the data rate of the LoRa radio cannot be read, and a received message is
  decoded only if its first character is a decimal digit.
\<close>

section \<open>A line that works\<close>

definition line_works :: "uart \<Rightarrow> bool" where
  "line_works u \<longleftrightarrow> uart_rcs u = [] \<and> tx_lens u = [] \<and> uart_mallocs u = []"

definition sent :: "nat \<Rightarrow> bytes \<Rightarrow> uart \<Rightarrow> uart" where
  "sent num buf u = u\<lparr>uart_log := uart_log u @ [AllowTx num buf, Subscribe num 1]\<rparr>"

definition received :: "nat \<Rightarrow> nat \<Rightarrow> nat \<Rightarrow> uart \<Rightarrow> uart" where
  "received num max_len t u = u\<lparr>rx_events := tl (rx_events u), uart_log := uart_log u @ [Subscribe num 2, AllowRx num max_len, AwaitRx num t]\<rparr>"

named_theorems works \<open>the drivers' steps on a line that works\<close>

lemma sent_simps [works]:
  "line_works (sent num buf u) = line_works u" "rx_events (sent num buf u) = rx_events u"
  "line_works (received num n t u) = line_works u" "rx_events (received num n t u) = tl (rx_events u)"
  by (simp_all add: sent_def received_def line_works_def)

lemma note_call_works [works]: "line_works (note_call c u) = line_works u" "rx_events (note_call c u) = rx_events u"
  by (simp_all add: note_call_def line_works_def)

lemma at_send_buf_works [works]: "line_works u \<Longrightarrow> at_send_buf num buf u = (int (length buf), sent num buf u)"
  by (simp add: line_works_def at_send_buf_def console_write_def uart_malloc_def uart_call_def note_call_def sent_def)

lemma at_send_works [works]: "line_works u \<Longrightarrow> at_send num cmd u = (int (length (cstr cmd)), sent num (cstr cmd) u)"
  by (simp add: at_send_def at_send_buf_works)

lemma malloc_works [works]: "line_works u \<Longrightarrow> uart_malloc u = (True, u)"
  by (simp add: line_works_def uart_malloc_def)

lemma response_works:
  assumes "line_works u" "rx_events u = Arrives bs # evs" "length bs \<le> max_len" "check bs = AT_SUCCESS"
  shows "response_loop check num (Suc n) t max_len [] u = (int (length bs), bs, received num max_len t u)"
  using assms by (simp add: line_works_def console_read_with_timeout_def uart_call_def note_call_def received_def at_codes)

text \<open>An answer that ends the wait.\<close>

definition ends_ok :: "bytes \<Rightarrow> bool" where
  "ends_ok bs \<longleftrightarrow> check_buffer bs = AT_SUCCESS"

definition ok_answer :: rx_event where
  "ok_answer = Arrives (chars ''OK'' @ [0x0D, 0x0A])"

lemma get_response_works:
  "line_works u \<Longrightarrow> rx_events u = Arrives bs # evs \<Longrightarrow> length bs \<le> max_len \<Longrightarrow> ends_ok bs \<Longrightarrow>
   at_get_response num 3 t max_len u = (int (length bs), bs, received num max_len t u)"
  unfolding at_get_response_def ends_ok_def numeral_3_eq_3 by (rule response_works)

lemma wait_works [works]:
  "line_works u \<Longrightarrow> rx_events u = ok_answer # evs \<Longrightarrow> at_wait_for_response num 3 t u = (4, received num 200 t u)"
  using get_response_works [of u "chars ''OK'' @ [0x0D, 0x0A]" evs 200 num t]
  by (simp add: at_wait_for_response_def ok_answer_def ends_ok_def check_buffer_def chars_def at_codes)

section \<open>Requests over HTTP\<close>

text \<open>The report of the modem on a request of kind \<open>k\<close> with the result \<open>d\<close>, and the answers to a post.\<close>

definition http_answer :: "byte \<Rightarrow> byte \<Rightarrow> bytes" where
  "http_answer k d = [0x0D, 0x0A] @ chars ''+UUHTTPCR: 0,'' @ [k, 0x2C, d, 0x0D, 0x0A]"

definition post_answers :: "bytes \<Rightarrow> byte \<Rightarrow> rx_event list" where
  "post_answers operator d = [Arrives operator, ok_answer, ok_answer, Arrives [0x0D, 0x0A, 0x3E], ok_answer,
     ok_answer, ok_answer, ok_answer, ok_answer, Arrives (http_answer 0x34 d)]"

lemma send_pieces_works:
  "line_works u \<Longrightarrow> \<exists>u'. send_pieces buf u = (0, u') \<and> line_works u' \<and> rx_events u' = rx_events u"
proof (induction buf u rule: send_pieces.induct)
  case (1 buf u)
  show ?case
  proof (cases "buf = []")
    case False
    obtain u' where "send_pieces (drop 30 buf) (sent SARA_CONSOLE (take 30 buf) u) = (0, u')" "line_works u'"
      "rx_events u' = rx_events u"
      using 1(1) [OF False at_send_buf_works [OF 1(2), symmetric]] 1(2) by (auto simp: works)
    then show ?thesis
      using False 1(2) by (subst send_pieces.simps) (simp add: works)
  qed (use 1 in \<open>simp add: send_pieces.simps\<close>)
qed


lemma check_connection_works:
  "line_works u \<Longrightarrow> rx_events u = Arrives operator # evs \<Longrightarrow> 20 < length operator \<Longrightarrow> length operator \<le> 50 \<Longrightarrow> ends_ok operator \<Longrightarrow>
   \<exists>u'. sara_u260_check_connection u = (SARA_U260_SUCCESS, u') \<and> line_works u' \<and> rx_events u' = evs"
  by (auto simp: sara_u260_check_connection_def works get_response_works sara_codes)

lemma packet_switch_works:
  assumes "line_works u" "rx_events u = Arrives operator # ok_answer # evs" "20 < length operator" "length operator \<le> 50" "ends_ok operator"
  shows "\<exists>u'. sara_u260_setup_packet_switch u = (SARA_U260_SUCCESS, u') \<and> line_works u' \<and> rx_events u' = evs"
proof -
  obtain u1 where "sara_u260_check_connection u = (SARA_U260_SUCCESS, u1)" "line_works u1" "rx_events u1 = ok_answer # evs"
    using check_connection_works [OF assms] by blast
  then show ?thesis
    by (simp add: sara_u260_setup_packet_switch_def works at_codes)
qed

lemma del_file_works:
  "line_works u \<Longrightarrow> rx_events u = ok_answer # evs \<Longrightarrow>
   \<exists>u'. sara_u260_del_file f u = (SARA_U260_SUCCESS, u') \<and> line_works u' \<and> rx_events u' = evs"
  by (simp add: sara_u260_del_file_def success_or_error_def works)

lemma prompt_works:
  "line_works u \<Longrightarrow> rx_events u = Arrives [0x0D, 0x0A, 0x3E] # evs \<Longrightarrow>
   at_wait_for_custom_response num 3 t [0x0A, 0x3E] (-1) u = (3, received num 200 t u)"
  using response_works [of u "[0x0D, 0x0A, 0x3E]" evs 200 "check_custom_buffer [0x0A, 0x3E] (-1)" num 2 t]
  by (simp add: at_wait_for_custom_response_def at_get_custom_response_def check_custom_buffer_def at_codes numeral_3_eq_3)

lemma write_file_works:
  assumes "line_works u" "rx_events u = Arrives [0x0D, 0x0A, 0x3E] # ok_answer # evs"
  shows "\<exists>u'. sara_u260_write_to_file f buf u = (SARA_U260_SUCCESS, u') \<and> line_works u' \<and> rx_events u' = evs"
proof -
  define u1 where "u1 = received SARA_CONSOLE 200 2000 (sent SARA_CONSOLE (cstr [0x0D]) (sent SARA_CONSOLE (cstr (take 14 (decimal_text (length buf))))
    (sent SARA_CONSOLE (cstr [quote, 0x2C]) (sent SARA_CONSOLE (cstr f) (sent SARA_CONSOLE (cstr (chars ''AT+UDWNFILE='' @ [quote])) u)))))"
  have "line_works u1" "rx_events u1 = ok_answer # evs" using assms by (simp_all add: u1_def works)
  then obtain u2 where "send_pieces buf u1 = (0, u2)" "line_works u2" "rx_events u2 = ok_answer # evs"
    using send_pieces_works by metis
  then show ?thesis
    using assms by (simp add: sara_u260_write_to_file_def works prompt_works u1_def [symmetric] success_or_error_def)
qed

lemma profile_works:
  "line_works u \<Longrightarrow> rx_events u = ok_answer # ok_answer # ok_answer # evs \<Longrightarrow>
   \<exists>u'. sara_u260_setup_http_profile url u = (SARA_U260_SUCCESS, u') \<and> line_works u' \<and> rx_events u' = evs"
  by (simp add: sara_u260_setup_http_profile_def works give_def)

lemma http_report_works:
  assumes "line_works u" "rx_events u = Arrives (http_answer k d) # evs" "k \<noteq> 0x30"
  shows "\<exists>u'. http_report u = Inr (SARA_U260_SUCCESS, u') \<and> line_works u' \<and> rx_events u' = evs"
proof -
  have a: "length (http_answer k d) = 20" "http_answer k d ! 15 = k"
    "check_custom_buffer (chars ''+UUHTTPCR'') 2 (http_answer k d) = AT_SUCCESS"
    by (simp_all add: http_answer_def chars_def check_custom_buffer_def)
  have "at_get_custom_response SARA_CONSOLE 3 20000 30 (chars ''+UUHTTPCR'') 2 u = (20, http_answer k d, received SARA_CONSOLE 30 20000 u)"
    using response_works [OF assms(1,2), of 30 _ SARA_CONSOLE 2 20000] a
    by (simp add: at_get_custom_response_def numeral_3_eq_3)
  then show ?thesis
    using assms a by (simp add: http_report_def http_result_def works)
qed

text \<open>The answer to a read of the result file with the data \<open>xs\<close>.\<close>

definition file_answer :: "bytes \<Rightarrow> bytes" where
  "file_answer xs = [0x0D, 0x0A] @ chars ''+URDBLOCK: '' @ [quote] @ chars ''postresult.txt'' @ [quote, 0x2C] @
     decimal_text (length xs) @ [0x2C, quote] @ xs @ [quote, 0x0D, 0x0A] @ chars ''OK'' @ [0x0D, 0x0A]"

definition accepted_file :: bytes where
  "accepted_file = chars ''HTTP/1.1 200 OK'' @ [0x0D, 0x0A]"

lemma post_response_works:
  assumes "line_works u" "rx_events u = Arrives (file_answer accepted_file) # evs"
  shows "\<exists>u'. sara_u260_get_post_response 20 u = Inr (17, accepted_file, u') \<and> line_works u' \<and> rx_events u' = evs"
proof -
  have a: "length (file_answer accepted_file) = 58" "ends_ok (file_answer accepted_file)"
    "file_data 20 (file_answer accepted_file) = Inr (17, accepted_file)"
    by code_simp+
  show ?thesis
    using assms a get_response_works [of _ "file_answer accepted_file" evs 120 SARA_CONSOLE 5000]
    by (simp add: sara_u260_get_post_response_def sara_u260_get_post_partial_response_def sara_u260_read_file_def works give_def)
qed

text \<open>A post over a working line succeeds whatever result the modem reports for it: the byte that is looked at
  is the kind of the request.\<close>

lemma post_ignores_result:
  assumes "line_works u" "rx_events u = post_answers operator d @ evs" "20 < length operator" "length operator \<le> 50" "ends_ok operator"
  shows "\<exists>u'. sara_u260_basic_http_post url path buf u = Inr (SARA_U260_SUCCESS, u') \<and> line_works u' \<and> rx_events u' = evs"
proof -
  let ?later = "[Arrives [0x0D, 0x0A, 0x3E], ok_answer, ok_answer, ok_answer, ok_answer, ok_answer, Arrives (http_answer 0x34 d)] @ evs"
  obtain u0 where u0: "sara_u260_setup_packet_switch u = (SARA_U260_SUCCESS, u0)" "line_works u0" "rx_events u0 = ok_answer # ?later"
    using packet_switch_works [OF assms(1) _ assms(3-5), of "ok_answer # ?later"] assms(2) by (auto simp: post_answers_def)
  obtain u1 where u1: "sara_u260_del_file (chars ''postdata.bin'') u0 = (SARA_U260_SUCCESS, u1)" "line_works u1" "rx_events u1 = ?later"
    using del_file_works [OF u0(2,3)] by blast
  obtain u2 where u2: "sara_u260_write_to_file (chars ''postdata.bin'') buf u1 = (SARA_U260_SUCCESS, u2)" "line_works u2"
    "rx_events u2 = [ok_answer, ok_answer, ok_answer, ok_answer, Arrives (http_answer 0x34 d)] @ evs"
    using write_file_works [OF u1(2), of "drop 2 ?later"] u1(3) by auto
  obtain u3 where u3: "sara_u260_setup_http_profile url u2 = (SARA_U260_SUCCESS, u3)" "line_works u3"
    "rx_events u3 = [ok_answer, Arrives (http_answer 0x34 d)] @ evs"
    using profile_works [OF u2(2), of "[ok_answer, Arrives (http_answer 0x34 d)] @ evs"] u2(3) by auto
  show ?thesis
    using u0(1) u1(1) u2(1) u3 http_report_works
    by (simp add: sara_u260_basic_http_post_def works give_def sara_codes)
qed

section \<open>The LoRa radio\<close>

text \<open>The text of the answer is cut to nothing before the number in it is read.\<close>

lemma txdr_unreadable: "fst (xdot_get_txdr u) \<le> 0"
proof -
  have "fst (strtol []) = 0" by (simp add: strtol_def peek_def)
  then show ?thesis
    by (auto simp: xdot_get_txdr_def XDOT_ERROR_def split: prod.split)
qed

text \<open>What \<open>AT+RECV\<close> answers for the message \<open>data\<close>.\<close>

definition recv_answer :: "bytes \<Rightarrow> bytes" where
  "recv_answer data = [0x0D, 0x0A] @ buf_to_hex_string data @ [0x0D, 0x0A, 0x0D, 0x0A] @ chars ''OK'' @ [0x0D, 0x0A]"

lemma hex_pair_hex2: "hex_pair (hex_digit (drop_bit 4 b)) (hex_digit (b AND 0xF)) = b"
proof -
  have "16 * uint (drop_bit 4 b) + uint (b AND 0xF) = uint b"
  proof -
    have "uint (drop_bit 4 b) = uint b div 16" by (simp add: drop_bit_eq_div uint_div)
    moreover have "uint (b AND 0xF) = uint b mod 16"
      using take_bit_eq_mod [of 4 "uint b"] by (simp add: uint_and take_bit_eq_mask mask_eq_exp_minus_1)
    ultimately show ?thesis by simp
  qed
  then show ?thesis
    by (simp add: hex_pair_def hex2int_hex2 uint_not_minus1 del: uint_and)
qed

lemma hex_text_nth:
  "i < length data \<Longrightarrow> buf_to_hex_string data ! (2 * i) = hex_digit (drop_bit 4 (data ! i)) \<and>
    buf_to_hex_string data ! (2 * i + 1) = hex_digit (data ! i AND 0xF)"
  by (induction data arbitrary: i) (auto simp: buf_to_hex_string_def hex2_def nth_Cons split: nat.split)

lemma length_hex_text: "length (buf_to_hex_string data) = 2 * length data"
  by (induction data) (simp_all add: buf_to_hex_string_def hex2_def)

text \<open>A message received over LoRa comes out as it was sent exactly when its first four bits are below ten: the hexadecimal letters at its
  start are skipped in the search for the first digit.\<close>

lemma lora_message_received:
  assumes u: "line_works u" "rx_events u = Arrives (recv_answer data) # evs"
    and n: "data \<noteq> []" "length data + 5 \<le> len" and first: "drop_bit 4 (hd data) < 10"
  shows "\<exists>u'. xdot_receive len u = Inr (int (length data), data, u')"
proof -
  let ?a = "recv_answer data"
  have l: "length ?a = 2 * length data + 10" by (simp add: recv_answer_def length_hex_text chars_def)
  have "drop (length ?a - 4) ?a = chars ''OK'' @ [0x0D, 0x0A]" by (simp add: recv_answer_def chars_def)
  then have ok: "ends_ok ?a" by (simp add: ends_ok_def check_buffer_def l)
  obtain b bs where data: "data = b # bs" using n(1) by (cases data) auto
  have d: "unat (drop_bit 4 b) < 10" using first data by (simp add: word_less_nat_alt)
  then have "unat (0x30 + drop_bit 4 b) = 48 + unat (drop_bit 4 b)" by (simp add: unat_word_ariths(1))
  then have "\<not> (hex_digit (drop_bit 4 b) < 0x30 \<or> hex_digit (drop_bit 4 b) > 0x39)"
    using d first data by (simp add: hex_digit_def word_less_nat_alt)
  then have start: "length (takeWhile (\<lambda>c. c < 0x30 \<or> c > 0x39) ?a) = 2"
    by (simp add: recv_answer_def data buf_to_hex_string_def hex2_def)
  have out: "map (\<lambda>i. hex_pair (?a ! (2 + 2 * i)) (?a ! (2 + 1 + 2 * i))) [0..<length data] = data"
  proof (rule nth_equalityI)
    fix i assume "i < length (map (\<lambda>i. hex_pair (?a ! (2 + 2 * i)) (?a ! (2 + 1 + 2 * i))) [0..<length data])"
    then have i: "i < length data" by simp
    have "?a ! (2 + 2 * i) = buf_to_hex_string data ! (2 * i)" "?a ! (2 + 1 + 2 * i) = buf_to_hex_string data ! (2 * i + 1)"
      using i length_hex_text [of data] by (simp_all add: recv_answer_def nth_append)
    then show "map (\<lambda>i. hex_pair (?a ! (2 + 2 * i)) (?a ! (2 + 1 + 2 * i))) [0..<length data] ! i = data ! i"
      using i hex_text_nth [OF i] hex_pair_hex2 by simp
  qed simp
  have get: "at_get_response LORA_CONSOLE 3 3000 (len * 2) (sent LORA_CONSOLE (cstr (command_line ''AT+RECV'')) u) =
      (int (length ?a), ?a, received LORA_CONSOLE (len * 2) 3000 (sent LORA_CONSOLE (cstr (command_line ''AT+RECV'')) u))"
    using get_response_works u ok l n(2) by (simp add: works)
  have claimed: "(int (length ?a) - int 2 - 8) sdiv 2 = int (length data)"
    by (simp add: l sdiv_nonneg)
  have "length data > 0" using n(1) by simp
  then have big: "\<not> int (length ?a) < 7" "\<not> int (length ?a) \<le> 9" "\<not> 2 \<ge> length ?a" by (simp_all add: l)
  show ?thesis
    using u(1) n(2) out
    by (simp only: xdot_receive_def malloc_works at_send_works get start claimed big Let_def prod.case if_False not_True_eq_False)
       (simp add: min_def)
qed

end
