(* ===== verification/Modem_Line.thy ===== *)
theory Modem_Line
  imports
    Modem_Facts
begin

text \<open>
  What the drivers put on a serial line, whatever the modem answers: the bytes handed to the kernel for transmission, in order. A
  command that succeeded put its text there; a wait puts nothing there; no driver takes anything back. A successful post over HTTP
  is a write of its file, then the request for that file.
\<close>

section \<open>The line\<close>

fun tx_bytes :: "nat \<Rightarrow> uart_call \<Rightarrow> bytes" where
  "tx_bytes num (AllowTx n xs) = (if n = num then xs else [])"
| "tx_bytes num _ = []"

definition line_out :: "nat \<Rightarrow> uart \<Rightarrow> bytes" where
  "line_out num u = concat (map (tx_bytes num) (uart_log u))"

text \<open>A driver's step adds something to the line; a step that succeeds adds exactly these bytes.\<close>

definition line_grows :: "(uart \<Rightarrow> int \<times> uart) \<Rightarrow> bool" where
  "line_grows f \<longleftrightarrow> (\<forall>u. \<exists>ys. line_out SARA_CONSOLE (snd (f u)) = line_out SARA_CONSOLE u @ ys)"

definition sends :: "bytes \<Rightarrow> (uart \<Rightarrow> int \<times> uart) \<Rightarrow> bool" where
  "sends xs f \<longleftrightarrow> line_grows f \<and> (\<forall>u. fst (f u) \<ge> 0 \<longrightarrow> line_out SARA_CONSOLE (snd (f u)) = line_out SARA_CONSOLE u @ xs)"

lemma sends_grows: "sends xs f \<Longrightarrow> line_grows f"
  by (simp add: sends_def)

lemma sendsD: "sends xs f \<Longrightarrow> f u = (rc, u') \<Longrightarrow> 0 \<le> rc \<Longrightarrow> line_out SARA_CONSOLE u' = line_out SARA_CONSOLE u @ xs"
  by (auto simp: sends_def dest: spec [of _ u])

lemma line_growsD: "line_grows f \<Longrightarrow> f u = (rc, u') \<Longrightarrow> \<exists>ys. line_out SARA_CONSOLE u' = line_out SARA_CONSOLE u @ ys"
  by (auto simp: line_grows_def dest: spec [of _ u])

lemma line_out_updates [simp]:
  "line_out num (u\<lparr>uart_rcs := a\<rparr>) = line_out num u" "line_out num (u\<lparr>tx_lens := b\<rparr>) = line_out num u"
  "line_out num (u\<lparr>rx_events := c\<rparr>) = line_out num u" "line_out num (u\<lparr>uart_mallocs := d\<rparr>) = line_out num u"
  "line_out num (note_call x u) = line_out num u @ tx_bytes num x"
  by (simp_all add: line_out_def note_call_def)

lemma line_out_call [simp]: "uart_call c u = (rc, u') \<Longrightarrow> line_out num u' = line_out num u @ tx_bytes num c"
  by (auto simp: uart_call_def split: prod.splits)

lemma line_out_malloc [simp]: "uart_malloc u = (ok, u') \<Longrightarrow> line_out num u' = line_out num u"
  by (auto simp: uart_malloc_def split: prod.splits)

section \<open>Commands and waits\<close>

lemma send_buf_sends: "sends xs (at_send_buf SARA_CONSOLE xs)"
  unfolding sends_def line_grows_def
  by (auto simp: at_send_buf_def console_write_def Let_def at_codes split: prod.splits if_splits)

lemma send_sends: "sends (cstr xs) (sara_send xs)"
  unfolding at_send_def by (rule send_buf_sends)

lemma read_quiet: "console_read_with_timeout num n t u = (rc, bs, u') \<Longrightarrow> line_out k u' = line_out k u"
  by (auto simp: console_read_with_timeout_def Let_def split: prod.splits if_splits rx_event.splits)

lemma response_quiet: "response_loop check num tries t n buf u = (rc, bs, u') \<Longrightarrow> line_out k u' = line_out k u"
  by (induction check num tries t n buf u arbitrary: rc bs u' rule: response_loop.induct)
    (auto simp: Let_def read_quiet split: prod.splits if_splits)

lemma get_response_quiet: "at_get_response num tries t n u = (rc, bs, u') \<Longrightarrow> line_out k u' = line_out k u"
  by (simp add: at_get_response_def response_quiet)

lemma wait_sends: "sends [] (at_wait_for_response num tries t)" "sends [] (at_wait_for_custom_response num tries t rs p)"
  by (auto simp: sends_def line_grows_def at_wait_for_response_def at_wait_for_custom_response_def at_get_response_def
      at_get_custom_response_def response_quiet split: prod.splits)

lemma give_sends: "sends [] (give rc)"
  by (simp add: sends_def line_grows_def give_def)

lemma success_sends: "sends xs c \<Longrightarrow> sends xs (success_or_error c)"
  by (auto simp: sends_def line_grows_def success_or_error_def sara_codes split: prod.splits) (metis fst_conv snd_conv)+

lemma script_nil [simp]: "at_script err [] result = result"
  by (rule ext) simp

lemma script_grows: "list_all line_grows cs \<Longrightarrow> line_grows result \<Longrightarrow> line_grows (at_script err cs result)"
proof (induction cs)
  case (Cons c cs)
  show ?case
    unfolding line_grows_def
  proof
    fix u
    obtain rc u1 where c: "c u = (rc, u1)" by fastforce
    then obtain ys where ys: "line_out SARA_CONSOLE u1 = line_out SARA_CONSOLE u @ ys"
      using Cons.prems line_growsD by fastforce
    obtain zs where "line_out SARA_CONSOLE (snd (at_script err cs result u1)) = line_out SARA_CONSOLE u1 @ zs"
      using Cons.IH Cons.prems by (auto simp: line_grows_def [of "at_script err cs result"])
    then show "\<exists>ys. line_out SARA_CONSOLE (snd (at_script err (c # cs) result u)) = line_out SARA_CONSOLE u @ ys"
      using c ys by simp
  qed
qed simp

lemma script_sends:
  "list_all2 sends xss cs \<Longrightarrow> sends ys result \<Longrightarrow> err < 0 \<Longrightarrow> sends (concat xss @ ys) (at_script err cs result)"
proof (induction xss cs rule: list_all2_induct)
  case (Cons xs xss c cs)
  have "list_all line_grows (c # cs)"
    using Cons.hyps by (auto simp: list_all2_conv_all_nth list_all_length nth_Cons sends_grows split: nat.split)
  then have "line_grows (at_script err (c # cs) result)"
    using script_grows Cons.prems(1) sends_grows by blast
  moreover have "line_out SARA_CONSOLE (snd (at_script err (c # cs) result u)) = line_out SARA_CONSOLE u @ concat (xs # xss) @ ys"
    if "fst (at_script err (c # cs) result u) \<ge> 0" for u
  proof -
    obtain rc u1 where c: "c u = (rc, u1)" by fastforce
    then have ok: "rc \<ge> 0" "fst (at_script err cs result u1) \<ge> 0" using that Cons.prems(2) by (auto split: if_splits)
    then have "line_out SARA_CONSOLE (snd (at_script err cs result u1)) = line_out SARA_CONSOLE u1 @ concat xss @ ys"
      using Cons.IH [OF Cons.prems] by (simp add: sends_def)
    then show ?thesis using sendsD [OF Cons.hyps(1) c ok(1)] c ok by simp
  qed
  ultimately show ?case unfolding sends_def by simp
qed simp

section \<open>A post\<close>

lemma pieces_sends: "sends buf (send_pieces buf)"
proof -
  have "(\<exists>ys. line_out SARA_CONSOLE (snd (send_pieces buf u)) = line_out SARA_CONSOLE u @ ys) \<and>
      (fst (send_pieces buf u) \<ge> 0 \<longrightarrow> line_out SARA_CONSOLE (snd (send_pieces buf u)) = line_out SARA_CONSOLE u @ buf)" for u
  proof (induction buf u rule: send_pieces.induct)
    case (1 buf u)
    show ?case
    proof (cases "buf = []")
      case False
      obtain ret u1 where c: "at_send_buf SARA_CONSOLE (take 30 buf) u = (ret, u1)" by fastforce
      obtain ys where ys: "line_out SARA_CONSOLE u1 = line_out SARA_CONSOLE u @ ys"
        using line_growsD [OF sends_grows [OF send_buf_sends] c] by blast
      show ?thesis
      proof (cases "ret < 0")
        case True
        then show ?thesis using False c ys by (subst (1 2 3) send_pieces.simps) (simp add: sara_codes)
      next
        case ret: False
        have "line_out SARA_CONSOLE u1 = line_out SARA_CONSOLE u @ take 30 buf"
          using sendsD [OF send_buf_sends c] ret by simp
        moreover have "send_pieces buf u = send_pieces (drop 30 buf) u1"
          using False ret c by (subst send_pieces.simps) simp
        ultimately show ?thesis using 1 [OF False c [symmetric] refl ret] by auto
      qed
    qed (simp add: send_pieces.simps)
  qed
  then show ?thesis by (auto simp: sends_def line_grows_def)
qed

lemma decimal_text_chars: "c \<in> set (decimal_text n) \<Longrightarrow> c \<noteq> 0"
proof (induction n rule: decimal_text.induct)
  case (1 n)
  have digit: "(0x30 :: byte) + word_of_nat k \<noteq> 0" if "k < 10" for k :: nat
  proof -
    have "unat ((0x30 :: byte) + word_of_nat k) = 48 + k"
      using that by (simp add: unat_word_ariths(1) unat_of_nat)
    then show ?thesis by (metis add_is_0 unat_0 zero_neq_numeral)
  qed
  show ?case using 1 digit [of n] digit [of "n mod 10"] by (subst (asm) decimal_text.simps) (auto split: if_splits)
qed

lemma decimal_text_length: "n < 10 ^ Suc k \<Longrightarrow> length (decimal_text n) \<le> Suc k"
proof (induction k arbitrary: n)
  case (Suc k)
  then show ?case by (subst decimal_text.simps) (auto simp: less_mult_imp_div_less mult.commute)
qed (simp add: decimal_text.simps)

lemma cstr_id: "0 \<notin> set s \<Longrightarrow> cstr s = s"
  unfolding cstr_def by (rule takeWhile_eq_all_conv [THEN iffD2]) auto

text \<open>The command that announces a file of \<open>n\<close> bytes, and what asks for the file to be posted.\<close>

definition file_command :: "nat \<Rightarrow> bytes" where
  "file_command n = chars ''AT+UDWNFILE='' @ [quote] @ chars ''postdata.bin'' @ [quote, 0x2C] @ decimal_text n @ [0x0D]"

definition post_request :: "bytes \<Rightarrow> bytes \<Rightarrow> bytes" where
  "post_request url path = cr_line ''AT+UHTTP=0'' @ chars ''AT+UHTTP=0,1,'' @ [quote] @ url @ [quote, 0x0D] @ cr_line ''AT+UHTTP=0,5,80'' @
     chars ''AT+UHTTPC=0,4,'' @ [quote] @ path @ [quote, 0x2C, quote] @ chars ''postresult.txt'' @ [quote, 0x2C, quote] @
     chars ''postdata.bin'' @ [quote, 0x2C, 0x32, 0x0D]"

lemma text_sends: "0 \<notin> set xs \<Longrightarrow> sends xs (sara_send xs)"
  using send_sends [of xs] by (simp add: cstr_id)

lemma err_neg: "SARA_U260_ERROR < 0"
  by (simp add: sara_codes)

lemmas line_sends = text_sends send_sends send_buf_sends wait_sends give_sends pieces_sends success_sends [OF wait_sends(1)]

lemma write_file_sends:
  assumes "length buf < 10 ^ 14"
  shows "sends (file_command (length buf) @ buf) (sara_u260_write_to_file (chars ''postdata.bin'') buf)"
proof -
  have d: "0 \<notin> set (decimal_text (length buf))" "take 14 (decimal_text (length buf)) = decimal_text (length buf)"
    using decimal_text_chars [of 0 "length buf"] decimal_text_length [of "length buf" 13] assms by auto
  have "sends (concat [chars ''AT+UDWNFILE='' @ [quote], chars ''postdata.bin'', [quote, 0x2C], decimal_text (length buf), [0x0D], [], buf] @ [])
      (sara_u260_write_to_file (chars ''postdata.bin'') buf)"
    unfolding sara_u260_write_to_file_def d(2)
    by (rule script_sends) (use d(1) in \<open>simp_all add: line_sends err_neg chars_def quote_def\<close>)
  then show ?thesis by (simp add: file_command_def)
qed

lemma profile_sends:
  assumes "0 \<notin> set url"
  shows "sends (cr_line ''AT+UHTTP=0'' @ chars ''AT+UHTTP=0,1,'' @ [quote] @ url @ [quote, 0x0D] @ cr_line ''AT+UHTTP=0,5,80'')
    (sara_u260_setup_http_profile url)"
proof -
  have "sends (concat [cr_line ''AT+UHTTP=0'', [], chars ''AT+UHTTP=0,1,'' @ [quote], url, [quote, 0x0D], [], cr_line ''AT+UHTTP=0,5,80'', []] @ [])
      (sara_u260_setup_http_profile url)"
    unfolding sara_u260_setup_http_profile_def
    by (rule script_sends) (use assms in \<open>simp_all add: line_sends err_neg chars_def quote_def cr_line_def\<close>)
  then show ?thesis by simp
qed

lemma request_sends:
  assumes "0 \<notin> set url" "0 \<notin> set path"
  shows "sends (post_request url path) (at_script SARA_U260_ERROR
     [sara_u260_setup_http_profile url, sara_send (chars ''AT+UHTTPC=0,4,'' @ [quote]), sara_send path,
      sara_send ([quote, 0x2C, quote] @ chars ''postresult.txt'' @ [quote, 0x2C, quote] @ chars ''postdata.bin'' @ [quote, 0x2C, 0x32, 0x0D]),
      sara_wait 3 30000] (give 0))"
proof -
  let ?profile = "cr_line ''AT+UHTTP=0'' @ chars ''AT+UHTTP=0,1,'' @ [quote] @ url @ [quote, 0x0D] @ cr_line ''AT+UHTTP=0,5,80''"
  let ?last = "[quote, 0x2C, quote] @ chars ''postresult.txt'' @ [quote, 0x2C, quote] @ chars ''postdata.bin'' @ [quote, 0x2C, 0x32, 0x0D]"
  have last: "sends ?last (sara_send ?last)" "sends (chars ''AT+UHTTPC=0,4,'' @ [quote]) (sara_send (chars ''AT+UHTTPC=0,4,'' @ [quote]))"
    by (rule text_sends, simp add: chars_def quote_def)+
  have "sends (concat [?profile, chars ''AT+UHTTPC=0,4,'' @ [quote], path, ?last, []] @ []) (at_script SARA_U260_ERROR
     [sara_u260_setup_http_profile url, sara_send (chars ''AT+UHTTPC=0,4,'' @ [quote]), sara_send path, sara_send ?last,
      sara_wait 3 30000] (give 0))"
    by (rule script_sends) (use last profile_sends [OF assms(1)] text_sends [OF assms(2)] wait_sends(1) give_sends err_neg in \<open>simp_all\<close>)
  then show ?thesis by (simp add: post_request_def)
qed

lemma del_file_grows: "line_grows (sara_u260_del_file f)"
  unfolding sara_u260_del_file_def
  by (rule script_grows) (simp_all add: sends_grows [OF send_sends] sends_grows [OF success_sends [OF wait_sends(1)]])

lemma connection_grows: "line_grows sara_u260_check_connection"
  unfolding line_grows_def
proof
  fix u
  obtain rc u1 where c: "sara_send (cr_line ''AT+COPS?'') u = (rc, u1)" by fastforce
  then obtain ys where "line_out SARA_CONSOLE u1 = line_out SARA_CONSOLE u @ ys"
    using line_growsD [OF sends_grows [OF send_sends]] by blast
  then show "\<exists>ys. line_out SARA_CONSOLE (snd (sara_u260_check_connection u)) = line_out SARA_CONSOLE u @ ys"
    using c by (auto simp: sara_u260_check_connection_def get_response_quiet split: prod.split)
qed

lemma line_grows_trans: "line_grows f \<Longrightarrow> f u = (rc, u1) \<Longrightarrow> \<exists>ys. line_out SARA_CONSOLE u2 = line_out SARA_CONSOLE u1 @ ys \<Longrightarrow>
    \<exists>ys. line_out SARA_CONSOLE u2 = line_out SARA_CONSOLE u @ ys"
  using line_growsD by fastforce

lemma switch_grows: "line_grows sara_u260_setup_packet_switch"
  unfolding line_grows_def
proof
  fix u
  let ?activate = "at_script SARA_U260_ERROR
                      [sara_send (chars ''AT+UPSD=0,1,'' @ [quote, quote, 0x0D]), sara_wait 3 3000,
                       sara_send (cr_line ''AT+UPSDA=0,3''), sara_wait 3 3000,
                       sara_send (cr_line ''AT+UPSND=0,0''), sara_wait 3 3000] (give SARA_U260_SUCCESS)"
  have a: "line_grows ?activate"
    by (rule script_grows) (simp_all add: sends_grows [OF send_sends] sends_grows [OF wait_sends(1)] sends_grows [OF give_sends])
  obtain r0 u0 where 0: "sara_u260_check_connection u = (r0, u0)" by fastforce
  obtain r1 u1 where 1: "sara_send (cr_line ''AT+UPSND=0,0'') u0 = (r1, u1)" by fastforce
  obtain r2 u2 where 2: "sara_wait 3 3000 u1 = (r2, u2)" by fastforce
  have "\<exists>ys. line_out SARA_CONSOLE (snd (?activate u2)) = line_out SARA_CONSOLE u2 @ ys" using a by (simp add: line_grows_def)
  then have 3: "\<exists>ys. line_out SARA_CONSOLE (snd (?activate u2)) = line_out SARA_CONSOLE u1 @ ys"
    using line_grows_trans [OF sends_grows [OF wait_sends(1)] 2] by blast
  have 4: "\<exists>ys. line_out SARA_CONSOLE u2 = line_out SARA_CONSOLE u1 @ ys" using line_growsD [OF sends_grows [OF wait_sends(1)] 2] .
  note up = line_grows_trans [OF connection_grows 0] line_grows_trans [OF sends_grows [OF send_sends] 1]
  have "\<exists>ys. line_out SARA_CONSOLE u1 = line_out SARA_CONSOLE u @ ys" "\<exists>ys. line_out SARA_CONSOLE u0 = line_out SARA_CONSOLE u @ ys"
    using line_growsD [OF sends_grows [OF send_sends] 1] line_growsD [OF connection_grows 0] up(1) by blast+
  then show "\<exists>ys. line_out SARA_CONSOLE (snd (sara_u260_setup_packet_switch u)) = line_out SARA_CONSOLE u @ ys"
    using up(1) [OF up(2) [OF 3]] up(1) [OF up(2) [OF 4]] unfolding sara_u260_setup_packet_switch_def 0 1 2 prod.case Let_def
    by (cases "?activate u2") (simp split: if_split)
qed

text \<open>A successful post put its file and its request on the line, behind the set-up of the connection.\<close>

lemma post_on_line:
  assumes "sara_u260_basic_http_post url path buf u = Inr (rc, u')" "rc \<ge> 0"
    and "0 \<notin> set url" "0 \<notin> set path" "length buf < 10 ^ 14"
  shows "\<exists>before. line_out SARA_CONSOLE u' = line_out SARA_CONSOLE u @ before @ file_command (length buf) @ buf @ post_request url path"
proof -
  let ?request = "at_script SARA_U260_ERROR
     [sara_u260_setup_http_profile url, sara_send (chars ''AT+UHTTPC=0,4,'' @ [quote]), sara_send path,
      sara_send ([quote, 0x2C, quote] @ chars ''postresult.txt'' @ [quote, 0x2C, quote] @ chars ''postdata.bin'' @ [quote, 0x2C, 0x32, 0x0D]),
      sara_wait 3 30000] (give 0)"
  obtain r0 u0 where 0: "sara_u260_setup_packet_switch u = (r0, u0)" by fastforce
  obtain r1 u1 where 1: "sara_u260_del_file (chars ''postdata.bin'') u0 = (r1, u1)" by fastforce
  obtain r2 u2 where 2: "sara_u260_write_to_file (chars ''postdata.bin'') buf u1 = (r2, u2)" by fastforce
  obtain r3 u3 where 3: "?request u2 = (r3, u3)" by fastforce
  have ok: "\<not> r0 < 0" "\<not> r2 < 0" "\<not> r3 < 0" and report: "http_report u3 = Inr (rc, u')"
    using assms(1,2) unfolding sara_u260_basic_http_post_def 0 1 2 3 prod.case Let_def by (auto split: if_splits)
  obtain before where "line_out SARA_CONSOLE u1 = line_out SARA_CONSOLE u @ before"
    using line_grows_trans [OF switch_grows 0 line_growsD [OF del_file_grows 1]] by blast
  moreover have "line_out SARA_CONSOLE u2 = line_out SARA_CONSOLE u1 @ file_command (length buf) @ buf"
    using sendsD [OF write_file_sends [OF assms(5)] 2] ok by simp
  moreover have "line_out SARA_CONSOLE u3 = line_out SARA_CONSOLE u2 @ post_request url path"
    using sendsD [OF request_sends [OF assms(3,4)] 3] ok by simp
  moreover have "line_out SARA_CONSOLE u' = line_out SARA_CONSOLE u3"
    using report by (auto simp: http_report_def at_get_custom_response_def response_quiet elim!: andthen_InrE split: prod.splits)
  ultimately show ?thesis by simp
qed

lemma read_file_grows:
  assumes "sara_u260_read_file f off n u = Inr (rc, xs, u')"
  shows "\<exists>ys. line_out SARA_CONSOLE u' = line_out SARA_CONSOLE u @ ys"
proof -
  let ?ask = "at_script SARA_U260_ERROR
            [sara_send (chars ''AT+URDBLOCK='' @ [quote]), at_send_buf SARA_CONSOLE (cstr f), sara_send [quote, 0x2C],
             sara_send (take 59 (decimal_text off @ [0x2C] @ decimal_text n @ [0x0D]))] (give 0)"
  have "line_grows ?ask"
    by (rule script_grows) (simp_all add: sends_grows [OF send_sends] sends_grows [OF send_buf_sends] sends_grows [OF give_sends])
  moreover obtain r1 u1 where 1: "?ask u = (r1, u1)" by fastforce
  ultimately have "\<exists>ys. line_out SARA_CONSOLE u1 = line_out SARA_CONSOLE u @ ys" by (rule line_growsD)
  moreover have "line_out SARA_CONSOLE u' = line_out SARA_CONSOLE u1"
    using assms unfolding sara_u260_read_file_def 1 prod.case Let_def
    by (auto simp: get_response_quiet elim!: andthen_InrE split: prod.splits if_splits)
  ultimately show ?thesis by simp
qed

end
