(* ===== verification/Radio_Sending.thy ===== *)
theory Radio_Sending
  imports Radio_Ring Modem_Line
begin

text \<open>
  How messages leave the ring: what a post over the cellular network packs and removes, when it
  overflows its buffer, and what happens when two radios take the same message.
\<close>

section \<open>Packing a post\<close>

lemma count_packet_same: "same_ring r (count_packet a is r) \<and> own_address (count_packet a is r) = own_address r \<and>
  seq_num (count_packet a is r) = seq_num r \<and> modem (count_packet a is r) = modem r"
  by (induction a "is" r rule: count_packet.induct) (auto simp: same_ring_def Let_def)

lemma count_same_ring: "same_ring r (count_module_packet a r)"
  and count_own_address [simp]: "own_address (count_module_packet a r) = own_address r"
  and count_seq_num [simp]: "seq_num (count_module_packet a r) = seq_num r"
  and count_modem [simp]: "modem (count_module_packet a r) = modem r"
  using count_packet_same by (simp_all add: count_module_packet_def same_ring_def)

lemma same_ring_refl [simp]: "same_ring r r"
  by (simp add: same_ring_def)

lemma same_ring_trans: "same_ring r r1 \<Longrightarrow> same_ring r1 r2 \<Longrightarrow> same_ring r r2"
  by (simp add: same_ring_def)

text \<open>A message in a post, and how many messages of a list are packed when the first of the ring has the length \<open>hl\<close>.\<close>

definition framed_message :: "byte \<times> bytes \<Rightarrow> bytes" where
  "framed_message m = [0, word_of_nat (length (snd m))] @ snd m"

fun packed :: "nat \<Rightarrow> nat \<Rightarrow> (byte \<times> bytes) list \<Rightarrow> nat" where
  "packed hl used [] = 0"
| "packed hl used (m # ms) = (if used + 2 + hl < 2000 then Suc (packed hl (used + 2 + length (snd m)) ms) else 0)"

lemma length_bytes_byte: "length_bytes l = [0, l]"
proof -
  have "drop_bit 8 ((ucast l :: u16) AND 0xFF00) = 0"
  proof (rule bit_word_eqI)
    fix n assume "n < LENGTH(16)"
    have "\<not> bit l (8 + n)" by (auto dest: bit_imp_le_length)
    then show "bit (drop_bit 8 ((ucast l :: u16) AND 0xFF00)) n = bit (0 :: u16) n"
      by (simp add: bit_simps)
  qed
  moreover have "ucast ((ucast l :: u16) AND mask 8) = l"
    by (rule bit_word_eqI) (auto simp: bit_simps dest: bit_imp_le_length)
  then have "ucast ((ucast l :: u16) AND 0xFF) = l"
    by (simp add: mask_eq_exp_minus_1)
  ultimately show ?thesis by (simp add: length_bytes_def)
qed

lemma length_length_bytes [simp]: "length (length_bytes l) = 2"
  by (simp add: length_bytes_def)

lemma length_framed [simp]: "length (framed_message m) = 2 + length (snd m)"
  by (simp add: framed_message_def)

lemma entry_length: "ring_wf r \<Longrightarrow> i < 30 \<Longrightarrow> length (snd (entry r i)) = unat (data_length r ! i)"
  by (auto simp: entry_def ring_wf_def)

lemma message_entry: "k < ring_len r \<Longrightarrow> messages r ! k = entry r ((unat (queue_head r) + k) mod 30)"
  by (simp add: messages_def)


text \<open>The index of the \<open>k\<close>-th message.\<close>

definition slot :: "nat \<Rightarrow> radio \<Rightarrow> byte" where
  "slot k r = word_of_nat ((unat (queue_head r) + k) mod 30)"

lemma unat_slot [simp]: "unat (slot k r) = (unat (queue_head r) + k) mod 30"
  by (simp add: slot_def unat_of_nat)

lemma slot_0: "ring_wf r \<Longrightarrow> slot 0 r = queue_head r"
  by (simp add: ring_wf_def word_unat_eq_iff)

lemma slot_next: "increment_queue_pointer (slot k r) = slot (Suc k) r"
  by (simp add: word_unat_eq_iff increment_mod mod_Suc_eq)

lemma slot_tail:
  assumes "ring_wf r" "k \<le> ring_len r"
  shows "slot k r = queue_tail r \<longleftrightarrow> k = ring_len r"
proof -
  have h: "unat (queue_head r) < 30" "unat (queue_tail r) < 30" using assms by (auto simp: ring_wf_def)
  show ?thesis
    using assms(2) ring_indices(7) [OF h, of k] ring_indices(8) [OF h]
    by (cases "k = ring_len r") (auto simp: word_unat_eq_iff ring_len_def)
qed

lemma slot_same: "same_ring r r' \<Longrightarrow> slot k r' = slot k r"
  by (simp add: slot_def same_ring_def)

lemma ring_len_same: "same_ring r r' \<Longrightarrow> ring_len r' = ring_len r"
  by (simp add: ring_len_def same_ring_def)

text \<open>One message: it fits, or the memory after the buffer is written.\<close>

lemma pack_step:
  assumes r: "ring_wf r" "k < ring_len r" and b: "length b = 2000" and hl: "hl = length (snd (messages r ! 0))"
    and room: "used + 2 + hl < 2000"
  defines "m \<equiv> messages r ! k"
  defines "r1 \<equiv> count_module_packet (fst m) r"
  shows "pack_messages (slot k r) used b r =
    (if used + length (framed_message m) \<le> 2000
     then (if Suc k = ring_len r then Inr (used + length (framed_message m), overwrite b used (framed_message m), slot (Suc k) r, r1)
           else pack_messages (slot (Suc k) r) (used + length (framed_message m)) (overwrite b used (framed_message m)) r1)
     else Inl OutOfBounds)"
proof -
  let ?i = "(unat (queue_head r) + k) mod 30"
  have i: "?i < 30" by simp
  have m: "m = entry r ?i" using r(2) by (simp add: m_def message_entry)
  have h: "unat (queue_head r) < 30" using r(1) by (simp add: ring_wf_def)
  have "messages r ! 0 = entry r (unat (queue_head r))" using r(2) h by (simp add: message_entry)
  then have hl': "hl = unat (data_length r ! unat (queue_head r))" by (simp add: hl entry_length [OF r(1) h])
  have rd: "read_at (data_queue r ! ?i) 0 (unat (data_length r ! ?i)) = Inr (snd m)" and len: "unat (data_length r ! ?i) = length (snd m)"
    using r(1) i by (auto simp: ring_wf_def c_mem m entry_def)
  have frame: "length_bytes (data_length r ! ?i) @ snd m = framed_message m"
    using len [symmetric] by (simp add: framed_message_def length_bytes_byte)
  have same: "same_ring r r1" by (simp add: r1_def count_same_ring)
  have tail: "slot (Suc k) r = queue_tail r1 \<longleftrightarrow> Suc k = ring_len r"
    using same slot_tail [OF r(1), of "Suc k"] r(2) by (simp add: same_ring_def)
  have fst: "data_address r ! ?i = fst m" by (simp add: m entry_def)
  show ?thesis
    apply (subst pack_messages.simps)
    using h room b
    by (simp add: QUEUE_SIZE_def CELL_POST_SIZE_def hl' [symmetric] ring_slot_def rd frame fst memcpy_at_def slot_next tail r1_def [symmetric] Let_def)
       (simp add: framed_message_def len add.assoc)
qed


lemma packed_same: "same_ring r r' \<Longrightarrow> ring_wf r \<Longrightarrow> messages r' = messages r \<and> ring_wf r' \<and> ring_len r' = ring_len r \<and> slot k r' = slot k r"
  using same_ring_messages same_ring_wf ring_len_same slot_same by blast

text \<open>When no message is longer than the first, all that is packed fits.\<close>

lemma pack_fits:
  assumes "ring_wf r" "k < ring_len r" "length b = 2000" "used \<le> 2000"
    and "hl = length (snd (messages r ! 0))" "\<forall>m\<in>set (messages r). length (snd m) \<le> hl"
  defines "n \<equiv> packed hl used (drop k (messages r))"
  shows "\<exists>b' r'. pack_messages (slot k r) used b r = Inr (used + length (concat (map framed_message (take n (drop k (messages r))))), b', slot (k + n) r, r') \<and>
    same_ring r r' \<and> own_address r' = own_address r \<and> seq_num r' = seq_num r \<and> modem r' = modem r \<and> length b' = 2000 \<and>
    take (used + length (concat (map framed_message (take n (drop k (messages r)))))) b' =
      take used b @ concat (map framed_message (take n (drop k (messages r))))"
  using assms(1-6) unfolding n_def
proof (induction "ring_len r - k" arbitrary: k used b r)
  case 0
  then show ?case by simp
next
  case (Suc d)
  let ?ms = "messages r"
  let ?m = "?ms ! k"
  have dr: "drop k ?ms = ?m # drop (Suc k) ?ms" using Suc.prems(2) by (simp add: Cons_nth_drop_Suc)
  show ?case
  proof (cases "used + 2 + hl < 2000")
    case False
    have "unat (queue_head r) < 30" using Suc.prems(1) by (simp add: ring_wf_def)
    moreover from this have "hl = unat (data_length r ! unat (queue_head r))"
      using Suc.prems(1,2,5) by (simp add: message_entry entry_length)
    ultimately have "pack_messages (slot k r) used b r = Inr (used, b, slot k r, r)"
      using False by (subst pack_messages.simps) (simp add: QUEUE_SIZE_def CELL_POST_SIZE_def)
    then show ?thesis using False Suc.prems(3,4) by (simp add: dr)
  next
    case True
    define r1 where "r1 = count_module_packet (fst ?m) r"
    define b1 where "b1 = overwrite b used (framed_message ?m)"
    define u1 where "u1 = used + length (framed_message ?m)"
    have s1: "same_ring r r1" by (simp add: r1_def count_same_ring)
    have le: "length (snd ?m) \<le> hl" using Suc.prems(2,6) by simp
    then have u1: "u1 \<le> 2000" using True by (simp add: u1_def)
    have b1: "length b1 = 2000"
      using u1 Suc.prems(3) by (simp add: b1_def u1_def c_mem)
    have b1': "take u1 b1 = take used b @ framed_message ?m"
      using u1 Suc.prems(3) unfolding b1_def u1_def by (intro take_overwrite_all) simp
    have step: "pack_messages (slot k r) used b r =
      (if Suc k = ring_len r then Inr (u1, b1, slot (Suc k) r, r1) else pack_messages (slot (Suc k) r) u1 b1 r1)"
      using pack_step [OF Suc.prems(1,2,3,5) True] u1 by (simp add: u1_def b1_def r1_def)
    show ?thesis
    proof (cases "Suc k = ring_len r")
      case last: True
      then have "drop (Suc k) ?ms = []" by simp
      then show ?thesis
        using step last True s1 b1 b1' by (simp add: dr u1_def r1_def)
    next
      case False
      have same: "messages r1 = ?ms" "ring_wf r1" "ring_len r1 = ring_len r" "slot j r1 = slot j r" for j
        using packed_same [OF s1 Suc.prems(1)] by auto
      have "Suc k < ring_len r" using False Suc.prems(2) by simp
      moreover have "d = ring_len r1 - Suc k" using Suc.hyps(2) same(3) by simp
      ultimately obtain b' r' where
        "pack_messages (slot (Suc k) r) u1 b1 r1 = Inr (u1 + length (concat (map framed_message (take (packed hl u1 (drop (Suc k) ?ms)) (drop (Suc k) ?ms)))), b',
           slot (Suc k + packed hl u1 (drop (Suc k) ?ms)) r, r')"
        "same_ring r1 r'" "own_address r' = own_address r1" "seq_num r' = seq_num r1" "modem r' = modem r1" "length b' = 2000"
        "take (u1 + length (concat (map framed_message (take (packed hl u1 (drop (Suc k) ?ms)) (drop (Suc k) ?ms))))) b' =
           take u1 b1 @ concat (map framed_message (take (packed hl u1 (drop (Suc k) ?ms)) (drop (Suc k) ?ms)))"
        using Suc.hyps(1) [of r1 "Suc k" b1 u1] same b1 u1 Suc.prems(5,6) by auto
      then show ?thesis
        using step False True same_ring_trans [OF s1] b1' by (simp add: dr u1_def r1_def add.assoc)
    qed
  qed
qed


text \<open>When the first message is short, the messages after it run over the end of the buffer.\<close>

lemma pack_overflows:
  assumes "ring_wf r" "length b = 2000" "snd (messages r ! 0) = []" "k + n < ring_len r"
    and "\<forall>i. k \<le> i \<longrightarrow> i \<le> k + n \<longrightarrow> length (snd (messages r ! i)) = 100" "used + 102 * n + 2 < 2000" "used + 102 * Suc n > 2000"
  shows "pack_messages (slot k r) used b r = Inl OutOfBounds"
  using assms
proof (induction n arbitrary: k used b r)
  case 0
  have "length (framed_message (messages r ! k)) = 102" using 0 by simp
  then show ?case
    using pack_step [OF 0(1) _ 0(2) refl, of k used] 0 by (simp del: length_framed)
next
  case (Suc n)
  let ?m = "messages r ! k"
  define r1 where "r1 = count_module_packet (fst ?m) r"
  have len: "length (framed_message ?m) = 102" using Suc.prems by simp
  have s1: "same_ring r r1" by (simp add: r1_def count_same_ring)
  have same: "messages r1 = messages r" "ring_wf r1" "ring_len r1 = ring_len r" "slot j r1 = slot j r" for j
    using packed_same [OF s1 Suc.prems(1)] by auto
  have "pack_messages (slot k r) used b r = pack_messages (slot (Suc k) r) (used + 102) (overwrite b used (framed_message ?m)) r1"
    using pack_step [OF Suc.prems(1) _ Suc.prems(2) refl, of k used] Suc.prems(3,4,6) len
    by (simp add: r1_def del: length_framed)
  also have "\<dots> = Inl OutOfBounds"
    using Suc.IH [of r1 "overwrite b used (framed_message ?m)" "Suc k" "used + 102"] Suc.prems len same
    by (simp add: length_overwrite del: length_framed)
  finally show ?case .
qed

text \<open>C20: a post is packed with room for the length of the first message only: behind an empty first message, twenty messages of
  100 bytes are written past the end of the buffer of 2000 bytes.\<close>

theorem short_first_message_overflows_post:
  assumes "ring_wf r" "length (own_address r) = 6" "messages r = (a, []) # ms" "length ms \<ge> 20"
    and "\<forall>m\<in>set (take 20 ms). length (snd m) = 100"
  shows "andthen (memcpy_at (replicate CELL_POST_SIZE 0) 0 (own_address r @ [seq_num r])) (\<lambda>b.
    pack_messages (queue_head r) (ADDRESS_SIZE + 1) b r) = Inl OutOfBounds"
proof -
  have n: "ring_len r = Suc (length ms)" using arg_cong [OF assms(3), of length] by simp
  have long: "length (snd (messages r ! i)) = 100" if "1 \<le> i" "i \<le> 20" for i
  proof -
    have "ms ! (i - 1) \<in> set (take 20 ms)" using that assms(4) by (auto simp: in_set_conv_nth intro!: exI [of _ "i - 1"])
    then show ?thesis using that assms(3,5) by simp
  qed
  define b where "b = overwrite (replicate 2000 0) 0 (own_address r @ [seq_num r])"
  have b: "length b = 2000" using assms(2) by (simp add: b_def length_overwrite)
  define r1 where "r1 = count_module_packet a r"
  define b1 where "b1 = overwrite b 7 (framed_message (a, []))"
  have s1: "same_ring r r1" by (simp add: r1_def count_same_ring)
  have same: "messages r1 = messages r" "ring_wf r1" "ring_len r1 = ring_len r" "slot j r1 = slot j r" for j
    using packed_same [OF s1 assms(1)] by auto
  have "pack_messages (queue_head r) 7 b r = pack_messages (slot 1 r) 9 b1 r1"
    using pack_step [OF assms(1) _ b refl, of 0 7] assms(3,4) n slot_0 [OF assms(1)] by (auto simp: b1_def r1_def)
  also have "\<dots> = Inl OutOfBounds"
    using pack_overflows [of r1 b1 1 19 9] same b assms(3,4) n long by (simp add: b1_def length_overwrite)
  finally show ?thesis
    using assms(2) by (simp add: CELL_POST_SIZE_def ADDRESS_SIZE_def memcpy_at_def b_def)
qed


section \<open>The cellular network\<close>

lemma packed_le: "packed hl used ms \<le> length ms"
  by (induction hl used ms rule: packed.induct) auto

lemma head_slot_messages:
  assumes "ring_wf r" "n \<le> ring_len r"
  shows "ring_wf (r\<lparr>queue_head := slot n r\<rparr>) \<and> messages (r\<lparr>queue_head := slot n r\<rparr>) = drop n (messages r)"
  using assms(2)
proof (induction n)
  case 0
  then show ?case using slot_0 [OF assms(1)] assms(1) by simp
next
  case (Suc n)
  let ?r = "r\<lparr>queue_head := slot n r\<rparr>"
  have wf: "ring_wf ?r" and ms: "messages ?r = drop n (messages r)" using Suc by auto
  have "ring_len ?r \<noteq> 0" using Suc.prems arg_cong [OF ms, of length] by simp
  moreover have "advance ?r = r\<lparr>queue_head := slot (Suc n) r\<rparr>" by (simp add: advance_def slot_next)
  ultimately show ?case
    using advance_messages [OF wf] advance_wf [OF wf] by (simp add: ms drop_Suc tl_drop)
qed

lemma same_ring_head: "same_ring r r' \<Longrightarrow> messages (r'\<lparr>queue_head := h\<rparr>) = messages (r\<lparr>queue_head := h\<rparr>)"
  by (rule same_ring_messages) (simp add: same_ring_def)

lemma same_ring_updates [simp]:
  "same_ring r (r'\<lparr>modem := u\<rparr>) = same_ring r r'" "same_ring r (r'\<lparr>cellular_state := c\<rparr>) = same_ring r r'"
  "same_ring r (r'\<lparr>currently_sending := x\<rparr>) = same_ring r r'" "same_ring r (r'\<lparr>seq_num := q\<rparr>) = same_ring r r'"
  by (simp_all add: same_ring_def)

lemma on_modem_quiet: "on_modem Inr f r = Inr (fst (f (modem r)), r\<lparr>modem := snd (f (modem r))\<rparr>)"
  by (simp add: on_modem_def split_beta)

lemma either_result:
  "(if c then andthen a (\<lambda>ok. Inr (True, if ok then x else y)) else Inr (True, y)) = Inr (g, z) \<Longrightarrow> z = x \<or> z = y"
  by (cases a) (auto split: if_split_asm)

text \<open>The header and the messages of a post.\<close>

definition post_of :: "radio \<Rightarrow> nat \<Rightarrow> bytes" where
  "post_of r n = own_address r @ [seq_num r] @ concat (map framed_message (take n (messages r)))"

definition first_length :: "radio \<Rightarrow> nat" where
  "first_length r = length (snd (messages r ! 0))"

lemma pack_from_head:
  assumes r: "ring_wf r" "messages r \<noteq> []" and a: "length (own_address r) = 6"
    and le: "\<forall>m\<in>set (messages r). length (snd m) \<le> first_length r"
  defines "n \<equiv> packed (first_length r) 7 (messages r)"
  shows "\<exists>b r'. pack_messages (queue_head r) 7 (overwrite (replicate 2000 0) 0 (own_address r @ [seq_num r])) r =
      Inr (length (post_of r n), b, slot n r, r') \<and> same_ring r r' \<and> own_address r' = own_address r \<and> seq_num r' = seq_num r \<and> modem r' = modem r \<and>
      take (length (post_of r n)) b = post_of r n \<and> length (post_of r n) \<le> 2000"
proof -
  define b0 where "b0 = overwrite (replicate 2000 0) 0 (own_address r @ [seq_num r])"
  have b0: "length b0 = 2000" "take 7 b0 = own_address r @ [seq_num r]" using a by (simp_all add: b0_def overwrite_def)
  have "0 < ring_len r" using r(2) by (metis length_greater_0_conv length_messages)
  then obtain b r' where p: "pack_messages (slot 0 r) 7 b0 r =
      Inr (7 + length (concat (map framed_message (take n (messages r)))), b, slot n r, r')"
    "same_ring r r'" "own_address r' = own_address r" "seq_num r' = seq_num r" "modem r' = modem r" "length b = 2000"
    "take (7 + length (concat (map framed_message (take n (messages r))))) b = take 7 b0 @ concat (map framed_message (take n (messages r)))"
    using pack_fits [OF r(1) _ b0(1), of 0 7 "first_length r"] le by (auto simp: first_length_def n_def)
  have post: "7 + length (concat (map framed_message (take n (messages r)))) = length (post_of r n)"
    by (simp add: post_of_def a)
  have tk: "take (length (post_of r n)) b = post_of r n"
    using p(7) unfolding post by (simp add: b0(2) post_of_def)
  moreover have "length (post_of r n) \<le> 2000"
    using arg_cong [OF tk, of length] p(6) by simp
  ultimately show ?thesis
    using p slot_0 [OF r(1)] unfolding post b0_def by auto
qed

text \<open>When no message in the ring is longer than the first, a cellular transmission leaves the ring as it was, or
  it put on the modem's line a file of the address, the sequence number and the first messages, in order, within the buffer, and the
  request to post it; these messages, at least one, are the ones that leave the ring, and the sequence number moves on.\<close>

theorem cellular_removes_what_it_posted:
  assumes "ring_wf r" "messages r \<noteq> []" "length (own_address r) = 6"
    and "\<forall>m\<in>set (messages r). length (snd m) \<le> first_length r"
    and "send_cellular Inr r = Inr (go_on, r')"
  shows "messages r' = messages r \<and> seq_num r' = seq_num r \<or>
    (\<exists>n before after. 0 < n \<and> n \<le> length (messages r) \<and> length (post_of r n) \<le> 2000 \<and>
       line_out SARA_CONSOLE (modem r') = line_out SARA_CONSOLE (modem r) @ before @ file_command (length (post_of r n)) @ post_of r n @
         post_request POST_ADDRESS (chars ''/signpost'') @ after \<and>
       messages r' = drop n (messages r) \<and> seq_num r' = seq_num r + 1)"
proof -
  define r1 where "r1 = r\<lparr>modem := snd (sara_u260_check_connection (modem r))\<rparr>"
  define n where "n = packed (first_length r) 7 (messages r)"
  have r1: "same_ring r r1" "own_address r1 = own_address r" "seq_num r1 = seq_num r" by (simp_all add: r1_def)
  have same: "messages r1 = messages r" "ring_wf r1" "ring_len r1 = ring_len r" "slot j r1 = slot j r" for j
    using packed_same [OF r1(1) assms(1)] by auto
  have post: "post_of r1 k = post_of r k" "first_length r1 = first_length r" for k
    using r1 same by (simp_all add: post_of_def first_length_def)
  have ih: "\<exists>b r2. pack_messages (queue_head r1) 7 (overwrite (replicate 2000 0) 0 (own_address r1 @ [seq_num r1])) r1 =
      Inr (length (post_of r n), b, slot n r, r2) \<and> same_ring r1 r2 \<and> own_address r2 = own_address r1 \<and> seq_num r2 = seq_num r1 \<and> modem r2 = modem r1 \<and>
      take (length (post_of r n)) b = post_of r n \<and> length (post_of r n) \<le> 2000"
    using pack_from_head [of r1] same r1 post assms(2,3,4) unfolding n_def by simp
  then obtain b r2 where pack: "pack_messages (queue_head r1) 7 (overwrite (replicate 2000 0) 0 (own_address r1 @ [seq_num r1])) r1 =
      Inr (length (post_of r n), b, slot n r, r2)" and r2: "same_ring r1 r2" "seq_num r2 = seq_num r1" "modem r2 = modem r1"
    and tk: "take (length (post_of r n)) b = post_of r n" and fits: "length (post_of r n) \<le> 2000" by blast
  have same2: "same_ring r r2" using same_ring_trans [OF r1(1) r2(1)] .
  have hl: "first_length r \<le> 100"
    using assms(1,2) by (auto simp: first_length_def message_entry entry_length ring_wf_def simp flip: length_messages)
  obtain m ms where "messages r = m # ms" using assms(2) by (cases "messages r") auto
  then have n: "0 < n" "n \<le> length (messages r)" using hl packed_le by (auto simp: n_def)
  show ?thesis
  proof (cases "fst (sara_u260_check_connection (modem r)) < SARA_U260_SUCCESS")
    case True
    then have "r' = r1\<lparr>cellular_state := SARA_U260_NO_SERVICE, currently_sending := False\<rparr>"
      using assms(5) by (simp add: send_cellular_def on_modem_quiet r1_def)
    then show ?thesis using r1 same_ring_messages [of r r'] by simp
  next
    case False
    let ?post = "sara_u260_basic_http_post POST_ADDRESS (chars ''/signpost'') (post_of r n) (modem r2)"
    have "memcpy_at (replicate CELL_POST_SIZE 0) 0 (own_address r1 @ [seq_num r1]) = Inr (overwrite (replicate 2000 0) 0 (own_address r1 @ [seq_num r1]))"
      using assms(3) r1(2) by (simp add: memcpy_at_def CELL_POST_SIZE_def)
    then have "andthen (try_modem Inr (sara_u260_basic_http_post POST_ADDRESS (chars ''/signpost'') (post_of r n)) r2) (\<lambda>(ret2, r3).
          if ret2 < SARA_U260_SUCCESS then Inr (True, r3)
          else andthen (try_modem Inr (\<lambda>u. andthen (sara_u260_get_post_response 20 u) (\<lambda>(rc, xs, u'). Inr ((rc, xs), u'))) r3) (\<lambda>((rc, rbuf), r4).
               if rc \<ge> SARA_U260_SUCCESS
               then andthen (accepted rbuf) (\<lambda>ok.
                    Inr (True, if ok then r4\<lparr>seq_num := seq_num r4 + 1, queue_head := slot n r\<rparr> else r4))
               else Inr (True, r4))) = Inr (go_on, r')"
      using assms(5) False pack tk
      by (simp add: send_cellular_def on_modem_quiet r1_def [symmetric] ADDRESS_SIZE_def)
    then obtain rc r3 where post_run: "try_modem Inr (sara_u260_basic_http_post POST_ADDRESS (chars ''/signpost'') (post_of r n)) r2 = Inr (rc, r3)"
      and rest: "(if rc < SARA_U260_SUCCESS then Inr (True, r3)
          else andthen (try_modem Inr (\<lambda>u. andthen (sara_u260_get_post_response 20 u) (\<lambda>(rc, xs, u'). Inr ((rc, xs), u'))) r3) (\<lambda>((rc, rbuf), r4).
               if rc \<ge> SARA_U260_SUCCESS
               then andthen (accepted rbuf) (\<lambda>ok.
                    Inr (True, if ok then r4\<lparr>seq_num := seq_num r4 + 1, queue_head := slot n r\<rparr> else r4))
               else Inr (True, r4))) = Inr (go_on, r')"
      by (auto elim!: andthen_InrE)
    from post_run obtain u where rc: "?post = Inr (rc, u)" and r3: "r3 = r2\<lparr>modem := u\<rparr>"
      by (auto simp: try_modem_def elim!: andthen_InrE)
    have "r' = r3 \<or> rc \<ge> 0 \<and> (\<exists>v ys. line_out SARA_CONSOLE v = line_out SARA_CONSOLE u @ ys \<and>
        (r' = r3\<lparr>modem := v\<rparr> \<or> r' = r3\<lparr>modem := v, seq_num := seq_num r3 + 1, queue_head := slot n r\<rparr>))"
    proof (cases "rc < SARA_U260_SUCCESS")
      case False
      then have "andthen (try_modem Inr (\<lambda>u. andthen (sara_u260_get_post_response 20 u) (\<lambda>(rc, xs, u'). Inr ((rc, xs), u'))) r3) (\<lambda>((rc, rbuf), r4).
               if rc \<ge> SARA_U260_SUCCESS
               then andthen (accepted rbuf) (\<lambda>ok.
                    Inr (True, if ok then r4\<lparr>seq_num := seq_num r4 + 1, queue_head := slot n r\<rparr> else r4))
               else Inr (True, r4)) = Inr (go_on, r')"
        using rest by simp
      then obtain rc' xs r4 where r4: "try_modem Inr (\<lambda>u. andthen (sara_u260_get_post_response 20 u) (\<lambda>(rc, xs, u'). Inr ((rc, xs), u'))) r3 = Inr ((rc', xs), r4)"
        and last: "(if rc' \<ge> SARA_U260_SUCCESS
               then andthen (accepted xs) (\<lambda>ok.
                    Inr (True, if ok then r4\<lparr>seq_num := seq_num r4 + 1, queue_head := slot n r\<rparr> else r4))
               else Inr (True, r4)) = Inr (go_on, r')"
        by (auto elim!: andthen_InrE)
      from r4 obtain v where v: "r4 = r3\<lparr>modem := v\<rparr>" and got: "sara_u260_get_post_response 20 u = Inr (rc', xs, v)"
        by (auto simp: try_modem_def r3 elim!: andthen_InrE)
      have "\<exists>ys. line_out SARA_CONSOLE v = line_out SARA_CONSOLE u @ ys"
        using got by (simp add: sara_u260_get_post_response_def sara_u260_get_post_partial_response_def read_file_grows)
      moreover
      have "r' = r4\<lparr>seq_num := seq_num r4 + 1, queue_head := slot n r\<rparr> \<or> r' = r4"
        using last by (rule either_result)
      moreover have "rc \<ge> 0" using False by (simp add: SARA_U260_SUCCESS_def)
      moreover have "seq_num r4 = seq_num r3" by (simp add: v)
      ultimately show ?thesis unfolding v by (metis (no_types))
    next
      case True
      then show ?thesis using rest by simp
    qed
    then have "(\<exists>u. r' = r2\<lparr>modem := u\<rparr>) \<or>
      rc \<ge> 0 \<and> (\<exists>v ys. line_out SARA_CONSOLE v = line_out SARA_CONSOLE u @ ys \<and>
        r' = r2\<lparr>modem := v, seq_num := seq_num r2 + 1, queue_head := slot n r\<rparr>)"
      unfolding r3 by (elim disjE conjE exE) (simp_all, blast+)
    then show ?thesis
    proof (elim disjE conjE exE)
      fix v assume "r' = r2\<lparr>modem := v\<rparr>"
      then show ?thesis using same2 r1 r2 same_ring_messages [of r r'] by simp
    next
      fix v ys assume 0: "rc \<ge> 0" and v: "line_out SARA_CONSOLE v = line_out SARA_CONSOLE u @ ys"
        and r': "r' = r2\<lparr>modem := v, seq_num := seq_num r2 + 1, queue_head := slot n r\<rparr>"
      have left: "messages r' = drop n (messages r)" "seq_num r' = seq_num r + 1"
        using same_ring_head [of r "r2\<lparr>modem := v, seq_num := seq_num r2 + 1\<rparr>" "slot n r"] same2 r1 r2 r'
          head_slot_messages [OF assms(1), of n] n by simp_all
      have texts: "0 \<notin> set POST_ADDRESS" "0 \<notin> set (chars ''/signpost'')" by (simp_all add: POST_ADDRESS_def chars_def)
      obtain before where "line_out SARA_CONSOLE u = line_out SARA_CONSOLE (modem r1) @ before @ file_command (length (post_of r n)) @ post_of r n @
          post_request POST_ADDRESS (chars ''/signpost'')"
        using post_on_line [OF rc 0 texts] fits r2(3) by auto
      moreover obtain ys' where "line_out SARA_CONSOLE (modem r1) = line_out SARA_CONSOLE (modem r) @ ys'"
        using connection_grows unfolding line_grows_def r1_def by auto
      ultimately have "line_out SARA_CONSOLE (modem r') = line_out SARA_CONSOLE (modem r) @ (ys' @ before) @ file_command (length (post_of r n)) @
          post_of r n @ post_request POST_ADDRESS (chars ''/signpost'') @ ys"
        using v r' by simp
      then show ?thesis using left n fits by blast
    qed
  qed
qed


section \<open>Two radios and one ring\<close>

text \<open>An acknowledgement over Bluetooth moves the head on when a message was offered, whatever happened to the ring since.\<close>

lemma ble_ack:
  assumes "ring_wf r" "added_queue r" "length (log_buffer r) = 128" "length (own_address r) = 6"
  shows "\<exists>r'. ble_evt_write True r = Inr r' \<and> same_ring (advance r) r'"
proof -
  define r1 where "r1 = r\<lparr>seq_num := seq_num r + 1, queue_head := increment_queue_pointer (queue_head r)\<rparr>"
  have s1: "same_ring (advance r) r1" by (simp add: same_ring_def advance_def r1_def)
  have wf: "ring_wf r1" using advance_wf [OF assms(1)] same_ring_wf [OF s1] by simp
  show ?thesis
  proof (cases "queue_head r1 = queue_tail r1")
    case True
    then show ?thesis
      using assms(2) s1 True by (auto simp: ble_evt_write_def r1_def [symmetric] ble_def same_ring_def)
  next
    case False
    let ?h = "unat (queue_head r1)"
    have h: "?h < 30" using wf by (simp add: ring_wf_def)
    then have "length (data_queue r1 ! ?h) = 100" and l: "unat (data_length r1 ! ?h) \<le> 100" using wf by (auto simp: ring_wf_def)
    then have rd: "read_at (data_queue r1 ! ?h) 0 (unat (data_length r1 ! ?h)) = Inr (take (unat (data_length r1 ! ?h)) (data_queue r1 ! ?h))"
      by (simp add: c_mem)
    obtain b where b: "memcpy_at (log_buffer r1) 0 (own_address r1 @ [seq_num r1] @ length_bytes (data_length r1 ! ?h) @
        take (unat (data_length r1 ! ?h)) (data_queue r1 ! ?h)) = Inr b"
      using assms(3,4) l \<open>length (data_queue r1 ! ?h) = 100\<close> by (simp add: memcpy_at_def r1_def)
    have "same_ring r1 (count_module_packet a (r1\<lparr>log_buffer := b\<rparr>))" for a
      using count_same_ring [of "r1\<lparr>log_buffer := b\<rparr>" a] by (simp add: same_ring_def)
    then show ?thesis
      using assms(2) False h rd b same_ring_trans [OF s1]
      by (simp add: ble_evt_write_def r1_def [symmetric] ring_slot_def QUEUE_SIZE_def Let_def ble_def same_ring_def)
  qed
qed

lemma quiet_device [simp]: "same_ring r (device c r') = same_ring r r'"
  by (simp add: device_def)

definition lora_packet :: "radio \<Rightarrow> bytes" where
  "lora_packet r = own_address r @ [seq_num r] @ snd (messages r ! 0)"

text \<open>What sending leaves alone.\<close>

definition same_ble :: "radio \<Rightarrow> radio \<Rightarrow> bool" where
  "same_ble r r' \<longleftrightarrow> added_queue r' = added_queue r \<and> log_buffer r' = log_buffer r \<and> own_address r' = own_address r \<and>
     send_counter r' = send_counter r \<and> heap r' = heap r"

lemma count_same_ble: "same_ble r (count_module_packet a r)"
proof -
  have "same_ble r (count_packet a is r)" for "is"
    by (induction a "is" r rule: count_packet.induct) (auto simp: same_ble_def Let_def)
  then show ?thesis by (simp add: count_module_packet_def same_ble_def)
qed

lemma lora_sends_first:
  assumes r: "ring_wf r" "messages r \<noteq> []" "length (own_address r) = 6"
    and ok: "fst (xdot_send (lora_packet r) (snd (xdot_wake (modem r)))) \<ge> 0"
  shows "\<exists>r'. send_lora Inr r = Inr r' \<and> same_ring (advance r) r' \<and> same_ble r r'"
proof -
  let ?h = "unat (queue_head r)"
  have h: "?h < 30" using r(1) by (simp add: ring_wf_def)
  have l: "unat (data_length r ! ?h) \<le> 100" "length (data_queue r ! ?h) = 100" using r(1) h by (auto simp: ring_wf_def)
  have "0 < ring_len r" using r(2) by (metis length_greater_0_conv length_messages)
  then have m: "snd (messages r ! 0) = take (unat (data_length r ! ?h)) (data_queue r ! ?h)"
    using h by (simp add: message_entry entry_def)
  define r1 where "r1 = count_module_packet (data_address r ! ?h) r"
  have r1: "same_ring r r1" "same_ble r r1" by (simp_all add: r1_def count_same_ring count_same_ble)
  have f: "data_queue r1 = data_queue r" "data_length r1 = data_length r" "own_address r1 = own_address r" "seq_num r1 = seq_num r" "modem r1 = modem r"
    using r1 by (simp_all add: same_ring_def r1_def)
  have "unat (data_length r ! ?h + 7) = unat (data_length r ! ?h) + 7"
    using l(1) unat_word_ariths(1) [of "data_length r ! ?h" 7] by simp
  then have rd: "read_at (own_address r @ seq_num r # take BUFFER_SIZE (data_queue r ! ?h)) 0 (unat (data_length r ! ?h + 7)) = Inr (lora_packet r)"
    using l r(3) by (simp add: c_mem BUFFER_SIZE_def lora_packet_def m)
  show ?thesis
    using h rd ok r1 f
    by (simp add: send_lora_def ring_slot_def QUEUE_SIZE_def r1_def [symmetric] Let_def on_modem_quiet wake_xdot_def track_failures_def
        delay_ms_def device_def same_ring_def same_ble_def advance_def)
qed

text \<open>C16: Bluetooth and LoRa take their messages from one ring. When LoRa sent a message that was also offered over
  Bluetooth, its acknowledgement there removes another one, which was never sent; when there is none, the empty ring turns into one of
  29 messages.\<close>

theorem acknowledged_message_removes_another:
  assumes "ring_wf r" "added_queue r" "messages r = x # ms" "length ms < 19" "length (own_address r) = 6" "length (log_buffer r) = 128"
    and "\<not> currently_sending r" "cellular_state r = SARA_U260_SUCCESS" "lora_state r = LORA_JOINED" "send_counter r + 1 \<noteq> 30"
    and "fst (xdot_send (lora_packet r) (snd (xdot_wake (modem r)))) \<ge> 0"
  shows "\<exists>r1 r2. timer_callback Inr m r = Inr r1 \<and> messages r1 = ms \<and> ble_evt_write True r1 = Inr r2 \<and>
    (if ms = [] then length (messages r2) = 29 else messages r2 = tl ms)"
proof -
  let ?r = "r\<lparr>currently_sending := True\<rparr>"
  have same: "same_ring r ?r" "ring_wf ?r" "messages ?r = messages r" "ring_len ?r = Suc (length ms)"
    using packed_same [of r ?r] assms(1) arg_cong [OF assms(3), of length] by auto
  then have pkt: "lora_packet ?r = lora_packet r" by (simp add: lora_packet_def)
  obtain r0 where r0: "send_lora Inr ?r = Inr r0" "same_ring (advance ?r) r0" "same_ble ?r r0"
    using lora_sends_first [of ?r] same assms(3,5,11) pkt by auto
  have "\<not> 100 * unat (calc_queue_length ?r) > 66 * QUEUE_SIZE"
    using queue_length [OF same(2)] same(4) assms(4) by (simp add: QUEUE_SIZE_def)
  then have fw: "forward Inr r = Inr (True, r0\<lparr>currently_sending := False\<rparr>)"
    using assms(8,9) r0(1) by (simp add: forward_def SARA_U260_NO_SERVICE_def SARA_U260_SUCCESS_def)
  have ne: "queue_head r \<noteq> queue_tail r"
    using ring_empty [OF assms(1)] arg_cong [OF assms(3), of length] by simp
  define r1 where "r1 = r0\<lparr>currently_sending := False, send_counter := send_counter r0 + 1, board_pins := app_watchdog_tickle_kernel (board_pins r0)\<rparr>"
  have t: "timer_callback Inr m r = Inr r1"
    using assms(7,10) ne fw r0(3) by (simp add: timer_callback_def Let_def r1_def same_ble_def)
  have s1: "same_ring (advance r) r1" using r0(2) by (simp add: same_ring_def r1_def advance_def)
  have nz: "ring_len r \<noteq> 0" using arg_cong [OF assms(3), of length] by simp
  have m1: "messages r1 = ms" "ring_wf r1"
    using packed_same [OF s1 advance_wf [OF assms(1)]] advance_messages [OF assms(1) nz] assms(3) by auto
  obtain r2 where r2: "ble_evt_write True r1 = Inr r2" "same_ring (advance r1) r2"
    using ble_ack [OF m1(2)] r0(3) assms(2,5,6) by (auto simp: r1_def same_ble_def)
  have "ring_len r1 = length ms" using arg_cong [OF m1(1), of length] by simp
  then have "if ms = [] then length (messages r2) = 29 else messages r2 = tl ms"
    using packed_same [OF r2(2) advance_wf [OF m1(2)]] advance_messages [OF m1(2)] advance_empty [OF m1(2)] m1(1)
    by (cases "ms = []") simp_all
  then show ?thesis using t m1(1) r2(1) by blast
qed


section \<open>A concrete radio\<close>

text \<open>A radio that has started, with the given messages in its ring and the given answers of its modems.\<close>

definition sample_boot :: "rx_event list \<Rightarrow> radio" where
  "sample_boot evs = radio_boot api_boot (clean_uart\<lparr>rx_events := evs\<rparr>) [0xC0, 0x98, 0xE5, 0x12, 0, 1] []"

definition sample_radio :: "rx_event list \<Rightarrow> (byte \<times> bytes) list \<Rightarrow> radio" where
  "sample_radio evs ms = (case queue_run ring_add advance (map Put ms) (sample_boot evs) of
     Inl _ \<Rightarrow> sample_boot evs | Inr (_, r) \<Rightarrow> r)"

lemma sample_run:
  assumes "\<forall>m\<in>set ms. length (snd m) \<le> 100" "length ms \<le> 29"
  shows "\<exists>rcs. queue_run ring_add advance (map Put ms) (sample_boot evs) = Inr (rcs, sample_radio evs ms) \<and>
    ring_wf (sample_radio evs ms) \<and> messages (sample_radio evs ms) = ms"
proof -
  have "queue_spec 29 (\<lambda>m. length (snd m) \<le> 100) (map Put ms) xs = Some (map (\<lambda>_. 0) ms, xs @ ms)" if "length xs + length ms \<le> 29" for xs
    using assms(1) that by (induction ms arbitrary: xs) auto
  then have "queue_spec 29 (\<lambda>m. length (snd m) \<le> 100) (map Put ms) (messages (sample_boot evs)) = Some (map (\<lambda>_. 0) ms, ms)"
    using assms(2) by (simp add: sample_boot_def radio_boot_ring(2))
  moreover have "\<forall>op\<in>set (map Put ms). \<forall>m\<in>put_of op. length (snd m) < 256"
    using assms(1) by fastforce
  ultimately show ?thesis
    using ring.run_implements_spec [of "sample_boot evs" "map Put ms"] radio_boot_ring(1) by (auto simp: sample_radio_def sample_boot_def)
qed

lemma sample_ring:
  assumes "\<forall>m\<in>set ms. length (snd m) \<le> 100" "length ms \<le> 29"
  shows "ring_wf (sample_radio evs ms)" "messages (sample_radio evs ms) = ms"
  using sample_run [OF assms] by auto

lemma ring_add_same:
  assumes "ring_add m r = Inr (rc, r')"
  shows "same_ble r r' \<and> modem r' = modem r \<and> currently_sending r' = currently_sending r"
  using assms by (auto simp: add_buffer_to_queue_def Let_def same_ble_def elim!: andthen_InrE split: if_splits)

lemma sample_same: "same_ble (sample_boot evs) (sample_radio evs ms) \<and> modem (sample_radio evs ms) = clean_uart\<lparr>rx_events := evs\<rparr> \<and>
  \<not> currently_sending (sample_radio evs ms)"
proof -
  have "same_ble r r' \<and> modem r' = modem r \<and> currently_sending r' = currently_sending r"
    if "queue_run ring_add advance (map Put ms) r = Inr (rcs, r')" for r rcs r'
    using that
  proof (induction ms arbitrary: r rcs)
    case (Cons m ms)
    from Cons.prems obtain rc r1 rcs1 where "ring_add m r = Inr (rc, r1)" "queue_run ring_add advance (map Put ms) r1 = Inr (rcs1, r')"
      by (auto elim!: andthen_InrE)
    then show ?case using ring_add_same [of m r rc r1] Cons.IH [of r1 rcs1] by (simp add: same_ble_def)
  qed (simp add: same_ble_def)
  then show ?thesis
    by (auto simp: sample_radio_def sample_boot_def radio_boot_def same_ble_def split: sum.splits)
qed

lemma sample_fields: "own_address (sample_radio evs ms) = [0xC0, 0x98, 0xE5, 0x12, 0, 1]" "length (log_buffer (sample_radio evs ms)) = 128"
  "send_counter (sample_radio evs ms) = 0" "line_works (modem (sample_radio evs ms))" "rx_events (modem (sample_radio evs ms)) = evs"
  "\<not> currently_sending (sample_radio evs ms)"
  using sample_same [of evs ms]
  by (simp_all add: same_ble_def sample_boot_def radio_boot_def LOG_BUFFER_LEN_def line_works_def clean_uart_def)

theorem short_first_message_overflows_post_witness:
  "andthen (memcpy_at (replicate CELL_POST_SIZE 0) 0 (own_address (sample_radio [] ((1, []) # replicate 20 (2, replicate 100 0))) @
      [seq_num (sample_radio [] ((1, []) # replicate 20 (2, replicate 100 0)))]))
    (\<lambda>b. pack_messages (queue_head (sample_radio [] ((1, []) # replicate 20 (2, replicate 100 0)))) (ADDRESS_SIZE + 1) b
      (sample_radio [] ((1, []) # replicate 20 (2, replicate 100 0)))) = Inl OutOfBounds"
  by (rule short_first_message_overflows_post [where a = 1 and ms = "replicate 20 (2, replicate 100 0)"])
     (auto simp: sample_ring sample_fields)

text \<open>A packet goes out over LoRa when the modem answers.\<close>

lemma xdot_send_works: "line_works u \<Longrightarrow> rx_events u = ok_answer # evs \<Longrightarrow> fst (xdot_send xs (snd (xdot_wake u))) \<ge> 0"
  by (simp add: xdot_send_def xdot_wake_def works)

theorem acknowledged_message_removes_another_witness:
  "\<exists>r1 r2. timer_callback Inr toy_tls ((sample_radio [ok_answer] [(1, [7])])\<lparr>added_queue := True, cellular_state := SARA_U260_SUCCESS, lora_state := LORA_JOINED\<rparr>) = Inr r1 \<and>
    messages r1 = [] \<and> ble_evt_write True r1 = Inr r2 \<and> length (messages r2) = 29"
proof -
  let ?s = "sample_radio [ok_answer] [(1, [7])]"
  let ?r = "?s\<lparr>added_queue := True, cellular_state := SARA_U260_SUCCESS, lora_state := LORA_JOINED\<rparr>"
  have ring: "ring_wf ?r" "messages ?r = [(1, [7])]"
    using sample_ring [of "[(1, [7])]" "[ok_answer]"] packed_same [of ?s ?r] by (simp_all add: same_ring_def)
  have sends: "fst (xdot_send (lora_packet ?r) (snd (xdot_wake (modem ?r)))) \<ge> 0"
    using sample_fields [of "[ok_answer]" "[(1, [7])]"] by (simp add: xdot_send_works)
  show ?thesis
    using acknowledged_message_removes_another [OF ring(1) _ ring(2) _ _ _ _ _ _ _ sends, of toy_tls] sample_fields [of "[ok_answer]" "[(1, [7])]"]
    by simp
qed

text \<open>When the modem works and the server accepts the post, it is made.\<close>

lemma cellular_sends:
  assumes r: "ring_wf r" "messages r \<noteq> []" "length (own_address r) = 6" "\<forall>m\<in>set (messages r). length (snd m) \<le> first_length r"
    and u: "line_works (modem r)"
      "rx_events (modem r) = Arrives operator # post_answers operator d @ [Arrives (file_answer accepted_file)]"
    and op: "20 < length operator" "length operator \<le> 50" "ends_ok operator"
  shows "\<exists>r'. send_cellular Inr r = Inr (True, r') \<and> messages r' = drop (packed (first_length r) 7 (messages r)) (messages r)"
proof -
  let ?n = "packed (first_length r) 7 (messages r)"
  obtain u1 where u1: "sara_u260_check_connection (modem r) = (SARA_U260_SUCCESS, u1)" "line_works u1"
    "rx_events u1 = post_answers operator d @ [Arrives (file_answer accepted_file)]"
    using check_connection_works [OF u op] by blast
  define r1 where "r1 = r\<lparr>modem := u1\<rparr>"
  have s1: "same_ring r r1" and f1: "own_address r1 = own_address r" "seq_num r1 = seq_num r" by (simp_all add: r1_def)
  have m1: "messages r1 = messages r" "ring_wf r1" "slot k r1 = slot k r" for k
    using packed_same [OF s1 r(1)] by auto
  have "first_length r1 = first_length r" by (simp add: first_length_def m1(1))
  then obtain b r2 where p: "pack_messages (queue_head r1) 7 (overwrite (replicate 2000 0) 0 (own_address r1 @ [seq_num r1])) r1 =
      Inr (length (post_of r1 ?n), b, slot ?n r, r2)" "same_ring r1 r2" "modem r2 = modem r1"
    using pack_from_head [of r1] m1 f1 r(2-4) by auto
  obtain u2 where u2: "sara_u260_basic_http_post POST_ADDRESS (chars ''/signpost'') (take (length (post_of r1 ?n)) b) u1 = Inr (SARA_U260_SUCCESS, u2)"
    "line_works u2" "rx_events u2 = [Arrives (file_answer accepted_file)]"
    using post_ignores_result [OF u1(2,3) op] by blast
  obtain u3 where u3: "sara_u260_get_post_response 20 u2 = Inr (17, accepted_file, u3)"
    using post_response_works [OF u2(2,3)] by blast
  define r3 where "r3 = r2\<lparr>modem := u3\<rparr>"
  have ok: "accepted accepted_file = Inr True" by code_simp
  have b0: "memcpy_at (replicate CELL_POST_SIZE 0) 0 (own_address r1 @ [seq_num r1]) = Inr (overwrite (replicate 2000 0) 0 (own_address r1 @ [seq_num r1]))"
    using r(3) f1 by (simp add: memcpy_at_def CELL_POST_SIZE_def)
  have modem: "modem r2 = u1" using p(3) by (simp add: r1_def)
  have "send_cellular Inr r = Inr (True, r3\<lparr>seq_num := seq_num r3 + 1, queue_head := slot ?n r\<rparr>)"
    using b0 p(1)
    by (simp add: send_cellular_def on_modem_def try_modem_def u1(1) sara_codes r1_def [symmetric] ADDRESS_SIZE_def modem
        u2(1) [unfolded sara_codes] u3 ok r3_def)
  moreover have "messages (r3\<lparr>seq_num := seq_num r3 + 1, queue_head := slot ?n r\<rparr>) = drop ?n (messages r)"
    using same_ring_head [of r "r3\<lparr>seq_num := seq_num r3 + 1\<rparr>" "slot ?n r"] same_ring_trans [OF s1 p(2)]
      head_slot_messages [OF r(1), of ?n] packed_le [of "first_length r" 7 "messages r"]
    by (simp add: r3_def)
  ultimately show ?thesis by blast
qed

definition sample_operator :: bytes where
  "sample_operator = [0x0D, 0x0A] @ chars ''+COPS: 0,0,'' @ [quote] @ chars ''Network'' @ [quote, 0x2C, 0x32, 0x0D, 0x0A, 0x0D, 0x0A] @
     chars ''OK'' @ [0x0D, 0x0A]"

end
