(* ===== verification/Radio_Invariant.thy ===== *)
theory Radio_Invariant
  imports
    Radio_Sending
begin

text \<open>
  What every callback of the radio module keeps: the indices of the ring and the lengths of the buffers, and a table of
  modules whose used entries come first, are different, and are as many as it says.
\<close>

section \<open>A well-formed radio\<close>

definition table_wf :: "byte list \<Rightarrow> byte \<Rightarrow> bool" where
  "table_wf tab n \<longleftrightarrow> (\<exists>ms. tab = ms @ replicate (8 - length ms) 0 \<and> length ms \<le> 8 \<and> 0 \<notin> set ms \<and> distinct ms \<and> n = word_of_nat (length ms))"

definition radio_wf :: "radio \<Rightarrow> bool" where
  "radio_wf r \<longleftrightarrow> ring_wf r \<and> table_wf (module_num_map r) (number_of_modules r) \<and> length (own_address r) = 6 \<and>
     length (log_buffer r) = 128 \<and> length (module_packet_count r) = 8 \<and> length (status_send_buf r) = 400 \<and> length (log_update_value r) = 4"

lemma radio_wf_updates [simp]:
  "radio_wf (r\<lparr>node := a\<rparr>) = radio_wf r" "radio_wf (r\<lparr>node_events := e\<rparr>) = radio_wf r" "radio_wf (r\<lparr>modem := u\<rparr>) = radio_wf r"
  "radio_wf (r\<lparr>board_pins := p\<rparr>) = radio_wf r" "radio_wf (r\<lparr>heap := h\<rparr>) = radio_wf r" "radio_wf (r\<lparr>ble_log := b\<rparr>) = radio_wf r"
  "radio_wf (r\<lparr>status_length_offset := x\<rparr>) = radio_wf r" "radio_wf (r\<lparr>status_data_offset := x\<rparr>) = radio_wf r"
  "radio_wf (r\<lparr>lora_state := i\<rparr>) = radio_wf r" "radio_wf (r\<lparr>seq_num := x\<rparr>) = radio_wf r"
  "radio_wf (r\<lparr>currently_sending := c\<rparr>) = radio_wf r" "radio_wf (r\<lparr>added_queue := c\<rparr>) = radio_wf r"
  "radio_wf (r\<lparr>fail_counter := i\<rparr>) = radio_wf r" "radio_wf (r\<lparr>cellular_state := i\<rparr>) = radio_wf r" "radio_wf (r\<lparr>send_counter := x\<rparr>) = radio_wf r"
  by (simp_all add: radio_wf_def ring_wf_def)

lemma radio_wf_tables [simp]:
  "radio_wf r \<Longrightarrow> length xs = 128 \<Longrightarrow> radio_wf (r\<lparr>log_buffer := xs\<rparr>)"
  "radio_wf r \<Longrightarrow> length xs = 400 \<Longrightarrow> radio_wf (r\<lparr>status_send_buf := xs\<rparr>)"
  "radio_wf r \<Longrightarrow> length xs = 4 \<Longrightarrow> radio_wf (r\<lparr>log_update_value := xs\<rparr>)"
  "radio_wf r \<Longrightarrow> length cs = 8 \<Longrightarrow> radio_wf (r\<lparr>module_packet_count := cs\<rparr>)"
  "radio_wf r \<Longrightarrow> unat x < 30 \<Longrightarrow> radio_wf (r\<lparr>queue_head := x\<rparr>)"
  by (simp_all add: radio_wf_def ring_wf_def)

lemma radio_wf_lengths:
  "radio_wf r \<Longrightarrow> length (log_buffer r) = 128" "radio_wf r \<Longrightarrow> length (status_send_buf r) = 400"
  "radio_wf r \<Longrightarrow> unat (queue_head r) < 30" "radio_wf r \<Longrightarrow> unat (queue_tail r) < 30"
  by (simp_all add: radio_wf_def ring_wf_def)

lemma next_slot: "radio_wf r \<Longrightarrow> unat (increment_queue_pointer (queue_head r)) < 30"
  using radio_wf_lengths(3) by (simp add: increment_mod)

lemmas wf_facts = radio_wf_lengths next_slot

lemma radio_boot_wf: "length addr = 6 \<Longrightarrow> radio_wf (radio_boot a u addr key)"
proof -
  have "table_wf (replicate 8 0) 0" by (simp add: table_wf_def exI [of _ "[]"])
  then show "length addr = 6 \<Longrightarrow> radio_wf (radio_boot a u addr key)"
    using radio_boot_ring(1) [of a u addr key] by (simp add: radio_wf_def radio_boot_def NUMBER_OF_MODULES_def LOG_BUFFER_LEN_def UPDATE_VAL_LEN_def)
qed

text \<open>Counting a packet of a module, new or known.\<close>

lemma table_insert:
  assumes "table_wf tab n" "k < 8" "tab ! k = 0" "0 \<notin> set (take k tab)" "addr \<notin> set (take k tab)" "addr \<noteq> 0"
  shows "table_wf (tab[k := addr]) (n + 1)"
proof -
  obtain ms where ms: "tab = ms @ replicate (8 - length ms) 0" "length ms \<le> 8" "0 \<notin> set ms" "distinct ms" "n = word_of_nat (length ms)"
    using assms(1) by (auto simp: table_wf_def)
  have "\<not> k < length ms" using assms(3) ms(1,3) nth_mem [of k ms] by (metis nth_append)
  moreover have "\<not> length ms < k"
  proof
    assume "length ms < k"
    then have "tab ! length ms \<in> set (take k tab)"
      using nth_mem [of "length ms" "take k tab"] assms(2) arg_cong [OF ms(1), of length] by simp
    moreover have "(ms @ replicate (8 - length ms) 0) ! length ms = 0" using assms(2) \<open>length ms < k\<close> by (simp add: nth_append)
    then have "tab ! length ms = 0" using ms(1) by metis
    ultimately show False using assms(4) by simp
  qed
  ultimately have k: "k = length ms" by simp
  have "tab[k := addr] = (ms @ [addr]) @ replicate (8 - length (ms @ [addr])) 0"
  proof -
    have "8 - length ms = Suc (7 - length ms)" using assms(2) k by simp
    then show ?thesis by (subst ms(1)) (simp add: k list_update_append)
  qed
  moreover have "addr \<notin> set ms" using assms(5) ms(1) k by simp
  ultimately show ?thesis
    unfolding table_wf_def using ms assms(2,6) k by (intro exI [of _ "ms @ [addr]"]) simp
qed

lemma count_packet_wf:
  assumes "k \<le> 8" "radio_wf r" "addr \<noteq> 0" "addr \<notin> set (take k (module_num_map r))" "0 \<notin> set (take k (module_num_map r))"
  shows "radio_wf (count_packet addr [k..<8] r)"
  using assms(1,4,5)
proof (induction "8 - k" arbitrary: k)
  case (Suc d)
  let ?tab = "module_num_map r"
  have k: "k < 8" using Suc.hyps(2) by simp
  have len: "length ?tab = 8" using assms(2) by (auto simp: radio_wf_def table_wf_def)
  have tk: "take (Suc k) ?tab = take k ?tab @ [?tab ! k]" using k len by (simp add: take_Suc_conv_app_nth)
  have up: "[k..<8] = k # [Suc k..<8]" using k by (rule upt_conv_Cons)
  consider "?tab ! k = 0" | "?tab ! k \<noteq> 0" "?tab ! k = addr" | "?tab ! k \<noteq> 0" "?tab ! k \<noteq> addr" by blast
  then show ?case
  proof cases
    case 1
    have "table_wf (?tab[k := addr]) (number_of_modules r + 1)"
      by (rule table_insert) (use 1 k assms Suc.prems in \<open>simp_all add: radio_wf_def\<close>)
    then show ?thesis using 1 assms(2) by (simp add: up radio_wf_def ring_wf_def Let_def)
  next
    case 2
    then show ?thesis using assms(2) by (simp add: up Let_def radio_wf_def ring_wf_def)
  next
    case 3
    then have "radio_wf (count_packet addr [Suc k..<8] r)"
      using Suc k tk by simp
    then show ?thesis using 3 by (simp add: up)
  qed
qed (use assms in simp)

lemma count_module_packet_wf [simp]: "radio_wf r \<Longrightarrow> radio_wf (count_module_packet addr r)"
  using count_packet_wf [of 0 r addr] by (simp add: count_module_packet_def NUMBER_OF_MODULES_def)

lemma count_module_packet_fields [simp]:
  "queue_head (count_module_packet addr r) = queue_head r" "queue_tail (count_module_packet addr r) = queue_tail r"
  using count_same_ring [of r addr] by (simp_all add: same_ring_def)

section \<open>The callbacks\<close>

lemma ring_slot_unat: "ring_slot p = Inr i \<Longrightarrow> i = unat p \<and> i < 30"
  by (auto simp: ring_slot_def QUEUE_SIZE_def split: if_splits)

lemma next_index: "unat p < 30 \<Longrightarrow> unat (increment_queue_pointer p) < 30"
  by (simp add: increment_mod)

lemma add_buffer_wf:
  assumes "add_buffer_to_queue addr buffer len r = Inr (rc, r')" "radio_wf r"
  shows "radio_wf r'"
proof (cases "rc = 0")
  case True
  then obtain t xs row where t: "t = unat (queue_tail r)" "t < 30" and row: "length row = length (data_queue r ! t)" and len: "unat len \<le> 100"
    and r': "r' = r\<lparr>data_address := (data_address r)[t := addr], data_queue := (data_queue r)[t := row],
      data_length := (data_length r)[t := len], queue_tail := increment_queue_pointer (queue_tail r)\<rparr>"
    using assms(1) by (auto simp: add_buffer_to_queue_def Let_def BUFFER_SIZE_def at_codes elim!: andthen_InrE
        split: if_splits dest!: ring_slot_unat memcpy_at_length)
  then show ?thesis using assms(2) by (auto simp: radio_wf_def ring_wf_def nth_list_update next_index)
next
  case False
  then show ?thesis using assms by (auto simp: add_buffer_to_queue_def Let_def elim!: andthen_InrE split: if_splits)
qed

lemma pack_messages_wf:
  "pack_messages h used b r = Inr (used', b', h', r') \<Longrightarrow> radio_wf r \<Longrightarrow> unat h < 30 \<Longrightarrow> radio_wf r' \<and> unat h' < 30"
proof (induction h used b r rule: pack_messages.induct)
  case (1 h used b r)
  show ?case
  proof (cases "used + 2 + unat (data_length r ! unat (queue_head r)) < CELL_POST_SIZE")
    case False
    then show ?thesis using 1(2-4) by (subst (asm) pack_messages.simps) (auto split: if_splits)
  next
    case True
    then have head: "\<not> QUEUE_SIZE \<le> unat (queue_head r)" and i: "ring_slot h = Inr (unat h)"
      using 1(4) radio_wf_lengths(3) [OF 1(3)] by (simp_all add: QUEUE_SIZE_def ring_slot_def)
    define r1 where "r1 = count_module_packet (data_address r ! unat h) r"
    obtain xs b1 where xs: "read_at (data_queue r ! unat h) 0 (unat (data_length r ! unat h)) = Inr xs"
      and b1: "memcpy_at b used (length_bytes (data_length r ! unat h) @ xs) = Inr b1"
      and rest: "(if increment_queue_pointer h = queue_tail r1
        then Inr (used + 2 + unat (data_length r ! unat h), b1, increment_queue_pointer h, r1)
        else pack_messages (increment_queue_pointer h) (used + 2 + unat (data_length r ! unat h)) b1 r1) = Inr (used', b', h', r')"
      using 1(2) [unfolded pack_messages.simps [of h used b r]] True head i unfolding r1_def by (auto simp: Let_def simp del: add_2_eq_Suc add_2_eq_Suc' elim!: andthen_InrE)
    have "radio_wf r1" using 1(3) by (simp add: r1_def)
    moreover have "unat (increment_queue_pointer h) < 30" using 1(4) by (rule next_index)
    ultimately show ?thesis
      using rest 1(1) [OF head True i xs b1 r1_def refl refl] by (auto split: if_splits)
  qed
qed

lemma networking_wf: "networking_api_callback m src frame mt len msg r = Inr r' \<Longrightarrow> radio_wf r \<Longrightarrow> radio_wf r'"
  by (auto simp: networking_api_callback_def elim!: andthen_InrE split: if_splits dest!: add_buffer_wf)

lemma ble_evt_write_wf: "ble_evt_write b r = Inr r' \<Longrightarrow> radio_wf r \<Longrightarrow> radio_wf r'"
  by (auto simp: wf_facts ble_evt_write_def ble_def Let_def UPDATE_VAL_LEN_def elim!: andthen_InrE split: if_splits dest!: memcpy_at_length)

lemma ble_disconnected_wf [simp]: "radio_wf (ble_evt_disconnected r) = radio_wf r"
  by (simp add: ble_evt_disconnected_def ble_def)

lemma status_entries_wf: "status_entries is packets reps r = Inr (packets', reps', r') \<Longrightarrow> radio_wf r \<Longrightarrow> radio_wf r'"
proof (induction "is" packets reps r rule: status_entries.induct)
  case (2 i "is" packets reps r)
  show ?case
  proof (cases "module_num_map r ! i \<noteq> 0 \<and> i < length reps")
    case True
    then obtain b where b: "memcpy_at (status_send_buf r) (unat (status_data_offset r) + 1 + 2 * i) [module_num_map r ! i, module_packet_count r ! i] = Inr b"
      and rest: "status_entries is ((packets + unat (module_packet_count r ! i)) mod 65536) (reps[i := (module_num_map r ! i, 0)])
        (r\<lparr>status_send_buf := b\<rparr>) = Inr (packets', reps', r')"
      using 2(2) by (auto elim!: andthen_InrE)
    have "radio_wf (r\<lparr>status_send_buf := b\<rparr>)" using 2(3) memcpy_at_length [OF b] by (simp add: wf_facts)
    then show ?thesis using 2(1) [OF _ _ b rest] True by simp
  qed (use 2 in \<open>auto split: if_splits\<close>)
qed simp

lemma queue_status_wf: "queue_status r = Inr r' \<Longrightarrow> radio_wf r \<Longrightarrow> radio_wf r'"
  by (auto simp: wf_facts queue_status_def Let_def elim!: andthen_InrE dest!: memcpy_at_length add_buffer_wf)

text \<open>What happens during a wait keeps the radio well-formed.\<close>

locale waits_well =
  fixes W :: meanwhile
  assumes wait_wf: "radio_wf r \<Longrightarrow> W r = Inr r' \<Longrightarrow> radio_wf r'"
begin

lemma waited: "W r = Inr r' \<Longrightarrow> radio_wf r \<Longrightarrow> radio_wf r'"
  using wait_wf by blast

lemma on_modem_wf: "on_modem W f r = Inr (rc, r') \<Longrightarrow> radio_wf r \<Longrightarrow> radio_wf r'"
  by (auto simp: on_modem_def split_beta elim!: andthen_InrE dest!: waited)

lemma try_modem_wf: "try_modem W f r = Inr (x, r') \<Longrightarrow> radio_wf r \<Longrightarrow> radio_wf r'"
  by (auto simp: try_modem_def elim!: andthen_InrE dest!: waited)

lemma device_wf [simp]: "radio_wf (device c r) = radio_wf r"
  by (simp add: device_def)

lemma delay_wf: "delay_ms W n r = Inr r' \<Longrightarrow> radio_wf r \<Longrightarrow> radio_wf r'"
  using waited [of "device (Pause n) r" r'] by (simp add: delay_ms_def)

lemma on_node_wf: "on_node W f r = Inr (rc, r') \<Longrightarrow> radio_wf r \<Longrightarrow> radio_wf r'"
  by (auto simp: on_node_def elim!: andthen_InrE dest!: waited)

lemmas wait_steps = on_modem_wf try_modem_wf delay_wf on_node_wf

lemma track_failures_wf: "track_failures W b r = Inr r' \<Longrightarrow> radio_wf r \<Longrightarrow> radio_wf r'"
  by (auto simp: wf_facts track_failures_def Let_def elim!: andthen_InrE split: if_splits dest!: wait_steps)

lemma send_lora_wf: "send_lora W r = Inr r' \<Longrightarrow> radio_wf r \<Longrightarrow> radio_wf r'"
  by (auto simp: wf_facts send_lora_def wake_xdot_def Let_def elim!: andthen_InrE split: if_splits dest!: wait_steps track_failures_wf)

lemma send_cellular_wf: "send_cellular W r = Inr (go_on, r') \<Longrightarrow> radio_wf r \<Longrightarrow> radio_wf r'"
  by (auto simp: wf_facts send_cellular_def elim!: andthen_InrE split: if_splits dest!: wait_steps pack_messages_wf)

lemma forward_wf: "forward W r = Inr (go_on, r') \<Longrightarrow> radio_wf r \<Longrightarrow> radio_wf r'"
  by (auto simp: forward_def elim!: andthen_InrE split: if_splits dest!: wait_steps send_cellular_wf send_lora_wf)

lemma report_energy_wf: "report_energy W m packets reps r = Inr r' \<Longrightarrow> radio_wf r \<Longrightarrow> radio_wf r'"
  by (auto simp: report_energy_def NUMBER_OF_MODULES_def elim!: andthen_InrE split: if_splits dest!: wait_steps)

lemma status_round_wf: "status_round W m r = Inr (ok, r') \<Longrightarrow> radio_wf r \<Longrightarrow> radio_wf r'"
  by (auto simp: wf_facts status_round_def Let_def split_beta elim!: andthen_InrE split: if_splits
      dest!: memcpy_at_length status_entries_wf report_energy_wf queue_status_wf)

lemma timer_callback_wf: "timer_callback W m r = Inr r' \<Longrightarrow> radio_wf r \<Longrightarrow> radio_wf r'"
  by (auto simp: timer_callback_def Let_def elim!: andthen_InrE split: if_splits dest!: forward_wf status_round_wf)

lemma xdot_settings_wf: "xdot_settings W r = Inr r' \<Longrightarrow> radio_wf r \<Longrightarrow> radio_wf r'"
  by (auto simp: xdot_settings_def wake_xdot_def elim!: andthen_InrE dest!: wait_steps)

end

lemma join_loop_keeps:
  assumes "join_loop W r = Some res"
  shows "waits_well W \<longrightarrow> radio_wf r \<longrightarrow> (\<forall>r'. res = Inr r' \<longrightarrow> radio_wf r')"
proof (rule join_loop.raw_induct [where P = "\<lambda>W r res. waits_well W \<longrightarrow> radio_wf r \<longrightarrow> (\<forall>r'. res = Inr r' \<longrightarrow> radio_wf r')", OF _ assms], goal_cases)
  case (1 loop W r res)
  show ?case
  proof (intro impI allI)
    fix r' assume w: "waits_well W" and r: "radio_wf r" and res: "res = Inr r'"
    note steps = waits_well.wait_steps [OF w] waits_well.track_failures_wf [OF w]
    obtain rc r6 where pass: "andthen (on_modem W (xdot_join_network (replicate 8 0) (app_key r)) r) (\<lambda>(rc, r1).
           andthen (if rc < 0
                    then andthen (track_failures W True r1) (\<lambda>r2.
                         andthen (delay_ms W 5000 r2) (\<lambda>r3. Inr (wake_xdot r3)))
                    else Inr r1) (\<lambda>r5.
           Inr (rc, r5\<lparr>board_pins := app_watchdog_tickle_kernel (board_pins r5)\<rparr>))) = Inr (rc, r6)"
      and rest: "(if rc < 0 then loop W r6 else Some (Inr r6)) = Some (Inr r')"
      using 1(2) res by (auto split: sum.splits)
    have "radio_wf r6"
      using pass r by (auto simp: wake_xdot_def elim!: andthen_InrE split: if_splits dest!: steps)
    then show "radio_wf r'" using rest 1(1) w by (auto split: if_splits)
  qed
qed

context waits_well
begin

lemma join_loop_wf: "join_loop W r = Some (Inr r') \<Longrightarrow> radio_wf r \<Longrightarrow> radio_wf r'"
  using join_loop_keeps waits_well_axioms by blast

lemma join_lora_network_wf: "join_lora_network W r = Some (Inr r') \<Longrightarrow> radio_wf r \<Longrightarrow> radio_wf r'"
  by (auto simp: join_lora_network_def wake_xdot_def elim!: andthen_InrE split: sum.splits
      dest!: xdot_settings_wf join_loop_wf track_failures_wf wait_steps)

lemma radio_event_wf: "radio_event W m ev r = Inr r' \<Longrightarrow> radio_wf r \<Longrightarrow> radio_wf r'"
  by (cases ev) (auto simp: radio_event_def dest!: timer_callback_wf networking_wf ble_evt_write_wf)

lemma main_pass_wf: "main_pass W m ev r = Some (Inr r') \<Longrightarrow> radio_wf r \<Longrightarrow> radio_wf r'"
  by (auto simp: main_pass_def elim!: andthen_InrE split: option.splits if_splits dest!: radio_event_wf join_lora_network_wf)

end

section \<open>Runs\<close>

text \<open>The callbacks that run during the waits, at each depth: those inside the waits of the callbacks before come next.\<close>

fun run_callbacks :: "meanwhile \<Rightarrow> mbedtls \<Rightarrow> radio_event list \<Rightarrow> meanwhile" where
  "run_callbacks W m [] r = Inr r"
| "run_callbacks W m (ev # evs) r = andthen (radio_event W m ev r) (run_callbacks W m evs)"

fun nested :: "mbedtls \<Rightarrow> radio_event list list \<Rightarrow> meanwhile" where
  "nested m [] = Inr"
| "nested m (evs # inner) = run_callbacks (nested m inner) m evs"

fun radio_runs :: "meanwhile \<Rightarrow> mbedtls \<Rightarrow> radio_event list \<Rightarrow> radio \<Rightarrow> (fault + radio) option" where
  "radio_runs W m [] r = Some (Inr r)"
| "radio_runs W m (ev # evs) r = (case main_pass W m ev r of Some (Inr r1) \<Rightarrow> radio_runs W m evs r1 | res \<Rightarrow> res)"

interpretation quiet_wait: waits_well Inr
  by unfold_locales simp

lemma run_callbacks_wf: "waits_well W \<Longrightarrow> run_callbacks W m evs r = Inr r' \<Longrightarrow> radio_wf r \<Longrightarrow> radio_wf r'"
  by (induction evs arbitrary: r) (auto elim!: andthen_InrE dest: waits_well.radio_event_wf)

lemma nested_waits_well: "waits_well (nested m evss)"
proof (induction evss)
  case Nil
  show ?case using quiet_wait.waits_well_axioms by simp
next
  case (Cons evs inner)
  show ?case
  proof
    fix r r' assume "radio_wf r" "nested m (evs # inner) r = Inr r'"
    then show "radio_wf r'" using run_callbacks_wf [OF Cons] by simp
  qed
qed

interpretation nested_wait: waits_well "nested m evss" for m evss
  by (rule nested_waits_well)

lemma radio_runs_wf: "radio_runs (nested m evss) m evs r = Some (Inr r') \<Longrightarrow> radio_wf r \<Longrightarrow> radio_wf r'"
  by (induction evs arbitrary: r) (auto split: option.splits sum.splits dest: nested_wait.main_pass_wf)

lemma ring_messages_short: "ring_wf r \<Longrightarrow> x \<in> set (messages r) \<Longrightarrow> length (snd x) \<le> 100"
  by (auto simp: messages_def entry_def ring_wf_def)

lemma table_entries: "table_wf tab n \<Longrightarrow> unat n = length (takeWhile (\<lambda>a. a \<noteq> 0) tab) \<and> distinct (takeWhile (\<lambda>a. a \<noteq> 0) tab)"
proof -
  assume "table_wf tab n"
  then obtain ms where ms: "tab = ms @ replicate (8 - length ms) 0" "length ms \<le> 8" "0 \<notin> set ms" "distinct ms" "n = word_of_nat (length ms)"
    by (auto simp: table_wf_def)
  have "takeWhile (\<lambda>a. a \<noteq> 0) (ms @ replicate k 0) = ms" for k
    using ms(3) by (subst takeWhile_append2) (auto simp: takeWhile_replicate)
  then have "takeWhile (\<lambda>a. a \<noteq> 0) tab = ms" using ms(1) by metis
  moreover have "unat n = length ms" using ms(2,5) by (simp add: unat_of_nat)
  ultimately show ?thesis using ms(4) by simp
qed

text \<open>C27: whatever callbacks run, also inside the waits of others, the ring of the radio stays well-formed: its at most 29
  messages have at most 100 bytes, its buffers keep their lengths, and its table lists as many different modules as it says.\<close>

theorem radio_stays_well_formed:
  assumes "radio_wf r" "radio_runs (nested m evss) m evs r = Some (Inr r')"
  shows "radio_wf r' \<and> length (messages r') \<le> 29 \<and> (\<forall>x\<in>set (messages r'). length (snd x) \<le> 100) \<and>
    unat (number_of_modules r') = length (takeWhile (\<lambda>a. a \<noteq> 0) (module_num_map r')) \<and> distinct (takeWhile (\<lambda>a. a \<noteq> 0) (module_num_map r'))"
proof -
  have "radio_wf r'" using radio_runs_wf assms by blast
  then show ?thesis
    using ring_len_less [of r'] ring_messages_short table_entries by (auto simp: radio_wf_def)
qed

theorem radio_stays_well_formed_witness:
  "\<exists>r'. radio_runs (nested toy_tls [[BleWrite True]]) toy_tls [Tick, BleWrite True, BleDisconnected]
     ((radio_boot api_boot clean_uart (replicate 6 0) [])\<lparr>lora_state := LORA_JOINED\<rparr>) = Some (Inr r') \<and> radio_wf r'"
proof -
  let ?r = "(radio_boot api_boot clean_uart (replicate 6 0) [])\<lparr>lora_state := LORA_JOINED\<rparr>"
  have wf: "radio_wf ?r" by (simp add: radio_boot_wf)
  obtain r' where "radio_runs (nested toy_tls [[BleWrite True]]) toy_tls [Tick, BleWrite True, BleDisconnected] ?r = Some (Inr r')"
    by (simp add: main_pass_def radio_event_def timer_callback_def radio_boot_def ble_evt_write_def ble_def ble_evt_disconnected_def Let_def)
  then show ?thesis using radio_stays_well_formed [OF wf] by blast
qed

end
