(* ===== verification/Radio_Downlink.thy ===== *)
theory Radio_Downlink
  imports
    Radio_Sending Signpost_Formats Signpost_Rpc
begin

text \<open>
  The radio application without Bluetooth, \<open>radio_module/radio_app/main.c\<close>. Its queue, the cellular network and the status report are those of
  \<open>Radio\<close>, with messages of up to 128 bytes; what it adds is the way down: a message that the LoRa network returns after a packet is sent on to the
  controller. The lemmas say when such a message is sent on, that it reaches the subscriber unchanged, and what a malformed one does.
\<close>

section \<open>The program\<close>

definition APP_BUFFER_SIZE :: nat where "APP_BUFFER_SIZE = 128"
definition BLE_POWER :: nat where "BLE_POWER = 5"
definition control_name :: bytes where "control_name = chars ''signpost/control''"

definition app_boot :: "api \<Rightarrow> uart \<Rightarrow> bytes \<Rightarrow> bytes \<Rightarrow> radio" where
  "app_boot a u addr key = (radio_boot a u addr key)\<lparr>
     data_queue := replicate QUEUE_SIZE (replicate APP_BUFFER_SIZE 0), status_send_buf := replicate 50 0\<rparr>"

definition lookup_module_num :: "bytes \<Rightarrow> int" where
  "lookup_module_num mod_name = (if strncmp_eq mod_name control_name NAME_LEN then uint ModuleAddressController else TOCK_FAIL)"

text \<open>Reading a byte of the receive buffer, of which only the first bytes were written.\<close>

definition received_byte :: "bytes \<Rightarrow> nat \<Rightarrow> fault + byte" where
  "received_byte buf i =
     (if i < length buf then Inr (buf ! i) else if i < APP_BUFFER_SIZE then Inl Uninitialised else Inl OutOfBounds)"

text \<open>\<open>memchr\<close>: where the byte is among the first \<open>n\<close>.\<close>

definition memchr :: "bytes \<Rightarrow> byte \<Rightarrow> nat \<Rightarrow> nat option" where
  "memchr s c n = List.find (\<lambda>i. s ! i = c) [0..<min n (length s)]"

text \<open>An array of 17 bytes that is printed as a string.\<close>

definition printed :: "bytes \<Rightarrow> fault + bytes" where
  "printed s = (if 0 \<in> set s then Inr s else Inl OutOfBounds)"

definition name_array :: "bytes \<Rightarrow> fault + bytes" where
  "name_array xs = memcpy_at (replicate (NAME_LEN + 1) 0) 0 xs"

text \<open>
  The name and the topic of a message: up to the second slash, and behind it. Without a first slash the search goes on from the null
  pointer, without a second one the length of the name is a difference with the null pointer.
\<close>

definition downlink_names :: "bytes \<Rightarrow> nat \<Rightarrow> fault + bytes \<times> bytes" where
  "downlink_names text slen =
     (case memchr text 0x2F slen of
        None \<Rightarrow> Inl NullPointer
      | Some find1 \<Rightarrow>
          (case memchr (drop (find1 + 1) text) 0x2F (slen - (find1 + 1)) of
             None \<Rightarrow> Inl OutOfBounds
           | Some k \<Rightarrow>
               let find2 = find1 + 1 + k
               in andthen (name_array (take find2 text)) (\<lambda>mod_name.
                  andthen (read_at text (find2 + 1) (slen - find2 - 1)) (\<lambda>xs.
                  andthen (name_array xs) (\<lambda>topic.
                  andthen (printed mod_name) (\<lambda>_.
                  andthen (printed topic) (\<lambda>_. Inr (mod_name, topic))))))))"

definition send_downlink_message :: "mbedtls \<Rightarrow> bytes \<Rightarrow> byte \<Rightarrow> radio \<Rightarrow> fault + int \<times> radio" where
  "send_downlink_message m buffer len r =
     andthen (received_byte buffer 0) (\<lambda>slen.
     andthen (received_byte buffer (unat slen + 1)) (\<lambda>dlen.
     if unat slen + unat dlen + 2 > unat len then Inr (TOCK_FAIL, r)
     else andthen (downlink_names (drop 1 buffer) (unat slen)) (\<lambda>(mod_name, topic).
          let ret = lookup_module_num mod_name
          in if ret = TOCK_FAIL then Inr (TOCK_FAIL, r)
             else andthen (signpost_networking_subscribe_send m (word_of_int ret) topic (drop (unat slen + 2) buffer) dlen (node r)) (\<lambda>(rc, a).
                  Inr (signed_take_bit 7 rc, r\<lparr>node := a\<rparr>)))))"

definition app_add_buffer_to_queue :: "byte \<Rightarrow> bytes \<Rightarrow> byte \<Rightarrow> radio \<Rightarrow> fault + int \<times> radio" where
  "app_add_buffer_to_queue addr buffer len r =
     (let temp_tail = increment_queue_pointer (queue_tail r)
      in if temp_tail = queue_head r then Inr (TOCK_FAIL, r)
         else if unat len \<le> APP_BUFFER_SIZE
         then andthen (ring_slot (queue_tail r)) (\<lambda>t.
              andthen (read_at buffer 0 (unat len)) (\<lambda>xs.
              andthen (memcpy_at (data_queue r ! t) 0 xs) (\<lambda>row.
              Inr (0, r\<lparr>data_address := (data_address r)[t := addr], data_queue := (data_queue r)[t := row],
                        data_length := (data_length r)[t := len], queue_tail := temp_tail\<rparr>))))
         else Inr (TOCK_ENOMEM, r))"

definition app_networking_api_callback ::
  "mbedtls \<Rightarrow> byte \<Rightarrow> byte \<Rightarrow> byte \<Rightarrow> nat \<Rightarrow> bytes \<Rightarrow> radio \<Rightarrow> fault + radio" where
  "app_networking_api_callback m src frame mt len msg r =
     (if (frame = NotificationFrame \<or> frame = CommandFrame) \<and> mt = NetworkingPublishMessage
      then andthen (app_add_buffer_to_queue src msg (word_of_nat len) r) (\<lambda>(rc, r1).
           andthen (signpost_networking_publish_reply m src rc (node r1)) (\<lambda>(_, a).
           Inr (r1\<lparr>node := a\<rparr>)))
      else Inr r)"

text \<open>After a packet that was sent, the network may have returned a message.\<close>

definition receive_downlink :: "meanwhile \<Rightarrow> mbedtls \<Rightarrow> radio \<Rightarrow> fault + radio" where
  "receive_downlink W m r =
     andthen (try_modem W (\<lambda>u. andthen (xdot_receive 128 u) (\<lambda>(rc, xs, u'). Inr ((rc, xs), u'))) r) (\<lambda>((status, rbuf), r1).
     if status > 0
     then andthen (send_downlink_message m rbuf (word_of_int status) r1) (\<lambda>(_, r2). Inr r2)
     else Inr r1)"

definition app_send_lora :: "meanwhile \<Rightarrow> mbedtls \<Rightarrow> radio \<Rightarrow> fault + radio" where
  "app_send_lora W m r =
     andthen (ring_slot (queue_head r)) (\<lambda>h.
     let r1 = count_module_packet (data_address r ! h) r;
         packet = own_address r1 @ [seq_num r1] @ take APP_BUFFER_SIZE (data_queue r1 ! h)
     in andthen (read_at packet 0 (unat (data_length r1 ! h + 7))) (\<lambda>xs.
        andthen (on_modem W (xdot_send xs) (wake_xdot r1)) (\<lambda>(status, r3).
        andthen (if status < 0 then track_failures W True r3
                 else andthen (track_failures W False r3) (\<lambda>r4.
                      receive_downlink W m (r4\<lparr>seq_num := seq_num r4 + 1, queue_head := increment_queue_pointer (queue_head r4)\<rparr>))) (\<lambda>r5.
        andthen (on_modem W xdot_sleep r5) (\<lambda>(_, r6). Inr r6)))))"

definition app_forward :: "meanwhile \<Rightarrow> mbedtls \<Rightarrow> radio \<Rightarrow> fault + bool \<times> radio" where
  "app_forward W m r =
     andthen (if cellular_state r = SARA_U260_NO_SERVICE
              then andthen (on_modem W sara_u260_check_connection (r\<lparr>currently_sending := True\<rparr>)) (\<lambda>(ret, r1).
                   Inr (r1\<lparr>cellular_state := (if ret < SARA_U260_SUCCESS then SARA_U260_NO_SERVICE else SARA_U260_SUCCESS)\<rparr>))
              else Inr (r\<lparr>currently_sending := True\<rparr>)) (\<lambda>r1.
     andthen (if 100 * unat (calc_queue_length r1) > 66 * QUEUE_SIZE \<and> cellular_state r1 = SARA_U260_SUCCESS
              then send_cellular W r1
              else if lora_state r1 = LORA_JOINED then andthen (app_send_lora W m r1) (\<lambda>r2. Inr (True, r2))
              else Inr (True, r1)) (\<lambda>(go_on, r2).
     Inr (go_on, if go_on then r2\<lparr>currently_sending := False\<rparr> else r2)))"

definition app_queue_status :: "radio \<Rightarrow> fault + radio" where
  "app_queue_status r =
     (let n = unat (number_of_modules r); off = unat (status_data_offset r)
      in andthen (memcpy_at (status_send_buf r) (off + 1 + 2 * n) [calc_queue_length r]) (\<lambda>b1.
         andthen (memcpy_at b1 (unat (status_length_offset r)) [word_of_nat (2 + 2 * n + 1)]) (\<lambda>b2.
         andthen (app_add_buffer_to_queue 0x22 b2 (word_of_nat (off + 1 + 2 * n + 1)) (r\<lparr>status_send_buf := b2\<rparr>)) (\<lambda>(_, r1).
         Inr (r1\<lparr>send_counter := 0\<rparr>)))))"

definition app_status_round :: "meanwhile \<Rightarrow> mbedtls \<Rightarrow> radio \<Rightarrow> fault + bool \<times> radio" where
  "app_status_round W m r =
     andthen (memcpy_at (status_send_buf r) (unat (status_data_offset r)) [number_of_modules r]) (\<lambda>b.
     let (ok, h) = pop True (heap r);
         r1 = r\<lparr>status_send_buf := b, heap := h\<rparr>
     in if \<not> ok then Inr (False, r1)
        else andthen (status_entries [0..<NUMBER_OF_MODULES] 0 (replicate (unat (number_of_modules r1)) (0, 0)) r1) (\<lambda>(packets, reps, r2).
             andthen (report_energy W m packets reps r2) (\<lambda>r3.
             andthen (app_queue_status r3) (\<lambda>r4. Inr (True, r4)))))"

definition app_timer_callback :: "meanwhile \<Rightarrow> mbedtls \<Rightarrow> radio \<Rightarrow> fault + radio" where
  "app_timer_callback W m r =
     (if currently_sending r then Inr r
      else andthen (if queue_head r \<noteq> queue_tail r then app_forward W m r else Inr (True, r)) (\<lambda>(go_on, r1).
           if \<not> go_on then Inr r1
           else let r2 = r1\<lparr>send_counter := send_counter r1 + 1\<rparr>
                in andthen (if send_counter r2 = 30 then app_status_round W m r2 else Inr (True, r2)) (\<lambda>(tickle, r3).
                   Inr (if tickle then r3\<lparr>board_pins := app_watchdog_tickle_kernel (board_pins r3)\<rparr> else r3))))"

definition app_set_up_status :: "radio \<Rightarrow> fault + radio" where
  "app_set_up_status r =
     (let n = length status_topic
      in andthen (memcpy_at (status_send_buf r) 0 ([word_of_nat n] @ status_topic)) (\<lambda>b1.
         andthen (memcpy_at b1 (n + 2) [0x01]) (\<lambda>b2.
         Inr (r\<lparr>status_send_buf := b2, status_length_offset := word_of_nat (1 + n), status_data_offset := word_of_nat (n + 3)\<rparr>))))"

definition app_setup :: "meanwhile \<Rightarrow> radio \<Rightarrow> fault + radio" where
  "app_setup W r =
     andthen (delay_ms W 500 (device (PinSet LORA_POWER) (device (PinOutput LORA_POWER)
               (device (PinSet BLE_POWER) (device (PinOutput BLE_POWER) r))))) (\<lambda>r1.
     andthen (delay_ms W 1000 (device (PinClear LORA_POWER) r1)) (\<lambda>r2.
     andthen (on_modem W sara_u260_init r2) (\<lambda>(_, r3).
     andthen (app_set_up_status r3) (\<lambda>r4.
     Inr (r4\<lparr>board_pins := app_watchdog_start (app_watchdog_set_kernel_timeout 60000 (board_pins r4))\<rparr>)))))"

definition app_start :: "meanwhile \<Rightarrow> mbedtls \<Rightarrow> radio \<Rightarrow> (fault + radio) option" where
  "app_start W m r = map_option (\<lambda>res. andthen res (app_setup W)) (radio_init_loop W m r)"

datatype app_event = AppTick | AppMessage byte byte byte nat bytes

definition app_event :: "meanwhile \<Rightarrow> mbedtls \<Rightarrow> app_event \<Rightarrow> radio \<Rightarrow> fault + radio" where
  "app_event W m ev r = (case ev of
       AppTick \<Rightarrow> app_timer_callback W m r
     | AppMessage src frame mt len msg \<Rightarrow> app_networking_api_callback m src frame mt len msg r)"

definition app_main_pass :: "meanwhile \<Rightarrow> mbedtls \<Rightarrow> app_event \<Rightarrow> radio \<Rightarrow> (fault + radio) option" where
  "app_main_pass W m ev r =
     (case (if lora_state r \<noteq> LORA_JOINED then join_lora_network W r else Some (Inr r)) of
        None \<Rightarrow> None
      | Some res \<Rightarrow> Some (andthen res (app_event W m ev)))"

section \<open>The names in a message\<close>

lemma memchr_found: "c \<notin> set a \<Longrightarrow> length a < n \<Longrightarrow> memchr (a @ c # b) c n = Some (length a)"
  unfolding memchr_def find_Some_iff
  by (intro exI [of _ "length a"]) (auto simp: nth_append in_set_conv_nth)

lemma memchr_None: "memchr s c n = None \<longleftrightarrow> c \<notin> set (take n s)"
  by (auto simp: memchr_def find_None_iff in_set_conv_nth)

lemma memchr_within:
  assumes "memchr (s @ junk) c (length s) = Some i"
  shows "\<exists>a b. s = a @ [c] @ b \<and> length a = i \<and> c \<notin> set a"
proof -
  have i: "i < length s" "(s @ junk) ! i = c" "\<forall>j<i. (s @ junk) ! j \<noteq> c"
    using assms by (auto simp: memchr_def find_Some_iff)
  then have "s ! i = c" by (simp add: nth_append)
  then have "s = take i s @ [c] @ drop (Suc i) s" using i(1) id_take_nth_drop by fastforce
  moreover have "c \<notin> set (take i s)" using i(1,3) by (auto simp: in_set_conv_nth nth_append)
  ultimately show ?thesis using i(1) by (metis length_take min.absorb4)
qed

lemma name_array_Inr: "length xs \<le> 17 \<Longrightarrow> name_array xs = Inr (xs @ replicate (17 - length xs) 0)"
  by (simp add: name_array_def NAME_LEN_def c_mem)

lemma name_array_Inl: "length xs > 17 \<Longrightarrow> name_array xs = Inl OutOfBounds"
  by (simp add: name_array_def NAME_LEN_def memcpy_at_def)

text \<open>What an array of 17 bytes can hold as a string: it ends in the array.\<close>

definition fits :: "bytes \<Rightarrow> bool" where
  "fits xs \<longleftrightarrow> length xs \<le> 16 \<or> length xs = 17 \<and> 0 \<in> set xs"

abbreviation padded :: "bytes \<Rightarrow> bytes" where
  "padded xs \<equiv> xs @ replicate (17 - length xs) 0"

lemma array_fits: "andthen (name_array xs) (\<lambda>arr. andthen (printed arr) (\<lambda>_. Inr arr)) = (if fits xs then Inr (padded xs) else Inl OutOfBounds)"
proof (cases "length xs \<le> 17")
  case True
  then show ?thesis by (auto simp: name_array_Inr printed_def fits_def)
qed (simp add: name_array_Inl fits_def)

lemma array_InrD: "name_array xs = Inr arr \<Longrightarrow> printed arr = Inr arr' \<Longrightarrow> fits xs"
  using array_fits [of xs] by (auto split: if_splits)

lemma array_fitsD: "fits xs \<Longrightarrow> name_array xs = Inr (padded xs)" "fits xs \<Longrightarrow> printed (padded xs) = Inr (padded xs)"
  by (auto simp: fits_def name_array_Inr printed_def)

definition slash :: byte where "slash = 0x2F"

text \<open>A text that names a module by two parts, and a topic, each of which an array of the program can hold.\<close>

definition names :: "bytes \<Rightarrow> bytes \<Rightarrow> bytes \<Rightarrow> bool" where
  "names text name topic \<longleftrightarrow> text = name @ [slash] @ topic \<and> fits name \<and> fits topic \<and>
     (\<exists>a b. name = a @ [slash] @ b \<and> slash \<notin> set a \<and> slash \<notin> set b)"

lemma names_parsed:
  assumes "names text name topic"
  shows "downlink_names (text @ junk) (length text) = Inr (padded name, padded topic)"
proof -
  obtain a b where tx: "text = name @ [slash] @ topic" and name: "name = a @ [slash] @ b" and no: "slash \<notin> set a" "slash \<notin> set b"
    and l: "fits name" "fits topic"
    using assms(1) by (auto simp: names_def)
  have f1: "memchr (text @ junk) slash (length text) = Some (length a)"
    using memchr_found [OF no(1), of "length text"] by (simp add: tx name)
  have f2: "memchr (drop (length a + 1) (text @ junk)) slash (length text - (length a + 1)) = Some (length b)"
    using memchr_found [OF no(2), of "length text - (length a + 1)" "topic @ junk"] by (simp add: tx name)
  have tk: "take (length a + 1 + length b) (text @ junk) = name" by (simp add: tx name)
  have rd: "read_at (text @ junk) (length a + 1 + length b + 1) (length text - (length a + 1 + length b) - 1) = Inr topic"
    by (simp add: read_at_def tx name)
  show ?thesis
    unfolding downlink_names_def slash_def [symmetric] f1 option.case f2 Let_def tk rd andthen.simps
      array_fitsD [OF l(1)] array_fitsD [OF l(2)] ..
qed

lemma parsed_names:
  assumes "downlink_names (text @ junk) (length text) = Inr x"
  shows "\<exists>name topic. names text name topic"
proof -
  obtain i k mod_name topic xs where f1: "memchr (text @ junk) slash (length text) = Some i"
    and f2: "memchr (drop (i + 1) (text @ junk)) slash (length text - (i + 1)) = Some k"
    and n: "name_array (take (i + 1 + k) (text @ junk)) = Inr mod_name" "printed mod_name = Inr mod_name"
    and t: "read_at (text @ junk) (i + 1 + k + 1) (length text - (i + 1 + k) - 1) = Inr xs" "name_array xs = Inr topic" "printed topic = Inr topic"
    using assms(1) unfolding downlink_names_def slash_def [symmetric]
    by (auto simp: Let_def printed_def elim!: andthen_InrE split: option.splits if_splits)
  obtain a t where a: "text = a @ [slash] @ t" "length a = i" "slash \<notin> set a"
    using memchr_within [OF f1] by blast
  have "memchr (t @ junk) slash (length t) = Some k" using f2 a(1,2) by simp
  then obtain b c where b: "t = b @ [slash] @ c" "length b = k" "slash \<notin> set b"
    using memchr_within by blast
  have tk: "take (i + 1 + k) (text @ junk) = a @ [slash] @ b" using a b by simp
  have xs: "xs = c" using t(1) a b by (auto simp: read_at_def)
  have "fits (a @ [slash] @ b)" "fits c"
    using array_InrD [OF n(1) [unfolded tk] n(2)] array_InrD [OF t(2) [unfolded xs] t(3)] by simp_all
  then have "names text (a @ [slash] @ b) c"
    unfolding names_def using a b by (intro conjI exI [of _ a] exI [of _ b]) simp_all
  then show ?thesis by blast
qed

lemma control_name: "length control_name = 16" "0 \<notin> set control_name"
  by code_simp+

lemma cstr_cut: "0 \<notin> set xs \<Longrightarrow> cstr (xs @ 0 # ys) = xs" "0 \<in> set xs \<Longrightarrow> cstr (xs @ ys) = cstr xs"
  by (auto simp: cstr_def takeWhile_append)

lemma cstr_padded: "fits xs \<Longrightarrow> cstr (padded xs) = cstr xs"
proof (cases "0 \<in> set xs")
  case False
  assume "fits xs"
  then have "17 - length xs = Suc (16 - length xs)" using False by (auto simp: fits_def)
  then have "padded xs = xs @ 0 # replicate (16 - length xs) 0" by simp
  moreover have "cstr xs = xs" unfolding cstr_def takeWhile_eq_all_conv using False by auto
  ultimately show ?thesis using cstr_cut(1) [OF False] by simp
qed (simp add: cstr_cut(2))

lemma cstr_fits: "fits xs \<Longrightarrow> length (cstr xs) \<le> 16"
proof -
  assume "fits xs"
  moreover have "length (cstr xs) \<le> length xs" by (simp add: cstr_def length_takeWhile_le)
  moreover have "length (cstr xs) \<noteq> length xs" if "0 \<in> set xs"
    using that unfolding cstr_def by (metis (mono_tags, lifting) length_takeWhile_le take_all takeWhile_eq_all_conv takeWhile_eq_take order_refl)
  ultimately show ?thesis unfolding fits_def by linarith
qed

lemma cstr_control: "cstr control_name = control_name"
  using control_name(2) unfolding cstr_def takeWhile_eq_all_conv by auto

lemma lookup_name:
  assumes "fits name"
  shows "lookup_module_num (padded name) = (if cstr name = control_name then uint ModuleAddressController else TOCK_FAIL)"
  using control_name(1) cstr_fits [OF assms]
  by (simp add: cstr_control lookup_module_num_def strncmp_eq_def NAME_LEN_def cstr_padded [OF assms])

text \<open>A message whose text and data were received.\<close>

lemma downlink_run:
  assumes "length text < 256" "length text + unat dlen + 2 \<le> unat len"
  shows "send_downlink_message m ([word_of_nat (length text)] @ text @ [dlen] @ rest) len r =
    andthen (downlink_names (text @ [dlen] @ rest) (length text)) (\<lambda>(mod_name, topic).
      let ret = lookup_module_num mod_name
      in if ret = TOCK_FAIL then Inr (TOCK_FAIL, r)
         else andthen (signpost_networking_subscribe_send m (word_of_int ret) topic rest dlen (node r)) (\<lambda>(rc, a).
              Inr (signed_take_bit 7 rc, r\<lparr>node := a\<rparr>)))"
proof -
  let ?msg = "[word_of_nat (length text)] @ text @ [dlen] @ rest"
  have slen: "unat (word_of_nat (length text) :: byte) = length text" using assms(1) by (simp add: unat_of_nat)
  have b0: "received_byte ?msg 0 = Inr (word_of_nat (length text))" by (simp add: received_byte_def)
  have b1: "received_byte ?msg (length text + 1) = Inr dlen" by (simp add: received_byte_def nth_append)
  have d: "drop 1 ?msg = text @ [dlen] @ rest" "drop (length text + 2) ?msg = rest" by simp_all
  show ?thesis
    using assms(2) unfolding send_downlink_message_def b0 andthen.simps slen b1 d by simp
qed

lemma downlink_dispatched:
  assumes "names text name topic" "length text < 256" "length text + unat dlen + 2 \<le> unat len"
  shows "send_downlink_message m ([word_of_nat (length text)] @ text @ [dlen] @ rest) len r =
    (if cstr name = control_name
     then andthen (signpost_networking_subscribe_send m ModuleAddressController (padded topic) rest dlen (node r)) (\<lambda>(rc, a).
          Inr (signed_take_bit 7 rc, r\<lparr>node := a\<rparr>))
     else Inr (TOCK_FAIL, r))"
proof -
  note parsed = names_parsed [OF assms(1), of "[dlen] @ rest"]
  have name: "fits name" using assms(1) by (auto simp: names_def)
  have "TOCK_FAIL \<noteq> uint ModuleAddressController" "word_of_int (uint ModuleAddressController) = ModuleAddressController"
    by (simp_all add: TOCK_FAIL_def ModuleAddressController_def)
  then show ?thesis
    unfolding downlink_run [OF assms(2,3)] parsed andthen.simps split_conv lookup_name [OF name] by (simp add: Let_def)
qed

text \<open>Received bytes with the two lengths in them, taken apart.\<close>

lemma downlink_shape:
  assumes "unat (hd buf) + 1 < length buf"
  shows "buf = [word_of_nat (length (take (unat (hd buf)) (tl buf)))] @ take (unat (hd buf)) (tl buf) @ [buf ! (unat (hd buf) + 1)] @
    drop (unat (hd buf) + 2) buf" (is ?shape)
    and "length (take (unat (hd buf)) (tl buf)) = unat (hd buf)"
proof -
  obtain b bs where buf: "buf = b # bs" using assms by (cases buf) auto
  have "unat b < length bs" using assms by (simp add: buf)
  then show "?shape" "length (take (unat (hd buf)) (tl buf)) = unat (hd buf)"
    using id_take_nth_drop [of "unat b" bs] by (simp_all add: buf)
qed

text \<open>C8: what becomes of the bytes \<open>buf\<close> of a message from the LoRa network, whatever they are. When the byte behind the text, whose length
  is the first byte, was not received, reading it is a fault. When the two lengths exceed what was received, the message is refused. Otherwise
  it is understood only if its text is a name of two parts, a slash and a topic (both short enough for the
  program's arrays): it is sent on to the controller if the name, up to a NUL, is the controller's, and refused if it is not; any
  other text makes the program read or write outside its memory.\<close>

theorem downlink_needs_two_slashes:
  fixes buf :: bytes and m :: mbedtls and r :: radio
  assumes "buf \<noteq> []" "length buf < 256"
  defines "slen \<equiv> unat (hd buf)"
  defines "text \<equiv> take slen (tl buf)"
  defines "result \<equiv> send_downlink_message m buf (word_of_nat (length buf)) r"
  shows "(length buf \<le> slen + 1 \<longrightarrow> (\<exists>f. result = Inl f)) \<and>
    (slen + 1 < length buf \<and> length buf < slen + unat (buf ! (slen + 1)) + 2 \<longrightarrow> result = Inr (TOCK_FAIL, r)) \<and>
    (slen + unat (buf ! (slen + 1)) + 2 \<le> length buf \<longrightarrow>
      (if \<exists>name topic. names text name topic
       then \<exists>name topic. names text name topic \<and> result =
         (if cstr name = control_name
          then andthen (signpost_networking_subscribe_send m ModuleAddressController (padded topic) (drop (slen + 2) buf) (buf ! (slen + 1)) (node r))
                 (\<lambda>(rc, a). Inr (signed_take_bit 7 rc, r\<lparr>node := a\<rparr>))
          else Inr (TOCK_FAIL, r))
       else \<exists>f. result = Inl f))"
proof (intro conjI impI)
  have len: "unat (word_of_nat (length buf) :: byte) = length buf" using assms(2) by (simp add: unat_of_nat)
  have b0: "received_byte buf 0 = Inr (hd buf)" using assms(1) by (simp add: received_byte_def hd_conv_nth)
  show "\<exists>f. result = Inl f" if "length buf \<le> slen + 1"
    using that b0 by (simp add: result_def send_downlink_message_def slen_def received_byte_def)
  show "result = Inr (TOCK_FAIL, r)" if "slen + 1 < length buf \<and> length buf < slen + unat (buf ! (slen + 1)) + 2"
    using that b0 len by (simp add: result_def send_downlink_message_def slen_def received_byte_def)
  assume fit: "slen + unat (buf ! (slen + 1)) + 2 \<le> length buf"
  have shape: "buf = [word_of_nat (length text)] @ text @ [buf ! (slen + 1)] @ drop (slen + 2) buf" "length text = slen"
    using downlink_shape [of buf] fit unfolding text_def slen_def by simp_all
  have lens: "length text < 256" "length text + unat (buf ! (slen + 1)) + 2 \<le> unat (word_of_nat (length buf) :: byte)"
    using fit assms(2) len shape(2) by simp_all
  show "if \<exists>name topic. names text name topic
       then \<exists>name topic. names text name topic \<and> result =
         (if cstr name = control_name
          then andthen (signpost_networking_subscribe_send m ModuleAddressController (padded topic) (drop (slen + 2) buf) (buf ! (slen + 1)) (node r))
                 (\<lambda>(rc, a). Inr (signed_take_bit 7 rc, r\<lparr>node := a\<rparr>))
          else Inr (TOCK_FAIL, r))
       else \<exists>f. result = Inl f"
  proof (cases "\<exists>name topic. names text name topic")
    case True
    then obtain name topic where "names text name topic" by blast
    with downlink_dispatched [OF this lens, of m "drop (slen + 2) buf" r] show ?thesis
      unfolding if_P [OF True] result_def shape(1) [symmetric] by blast
  next
    case False
    then obtain f where "downlink_names (text @ [buf ! (slen + 1)] @ drop (slen + 2) buf) (length text) = Inl f"
      using parsed_names by (cases "downlink_names (text @ [buf ! (slen + 1)] @ drop (slen + 2) buf) (length text)") blast+
    then show ?thesis
      using False downlink_run [OF lens, of m "drop (slen + 2) buf" r] unfolding result_def shape(1) [symmetric] by simp
  qed
qed

lemma names_slashes: "names text name topic \<Longrightarrow> 2 \<le> length (filter (\<lambda>c. c = slash) text)"
  by (auto simp: names_def)

text \<open>The text \<open>a/b\<close> has one slash; and two bytes of data that were not received.\<close>

theorem downlink_needs_two_slashes_witness:
  "(\<exists>f. send_downlink_message toy_tls [3, 0x61, 0x2F, 0x62, 1, 7] 6 (app_boot api_boot clean_uart (replicate 6 0) []) = Inl f) \<and>
   send_downlink_message toy_tls [3, 0x61, 0x2F, 0x62, 2, 7] 6 (app_boot api_boot clean_uart (replicate 6 0) []) =
     Inr (TOCK_FAIL, app_boot api_boot clean_uart (replicate 6 0) [])"
proof -
  have "\<not> (\<exists>name topic. names [0x61, 0x2F, 0x62] name topic)"
    using names_slashes [of "[0x61, 0x2F, 0x62]"] by (auto simp: slash_def)
  then show ?thesis
    using downlink_needs_two_slashes [of "[3, 0x61, 0x2F, 0x62, 1, 7]" toy_tls "app_boot api_boot clean_uart (replicate 6 0) []"]
      downlink_needs_two_slashes [of "[3, 0x61, 0x2F, 0x62, 2, 7]" toy_tls "app_boot api_boot clean_uart (replicate 6 0) []"] by simp
qed

section \<open>From the network to the controller\<close>

text \<open>What the network returns to send \<open>data\<close> for a topic of the controller.\<close>

definition control_message :: "bytes \<Rightarrow> bytes \<Rightarrow> bytes" where
  "control_message topic data = [word_of_nat (17 + length topic)] @ control_name @ [slash] @ topic @ [word_of_nat (length data)] @ data"

lemma control_names: "length topic \<le> 16 \<Longrightarrow> names (control_name @ [slash] @ topic) control_name topic"
proof -
  have "control_name = chars ''signpost'' @ [slash] @ chars ''control''" "slash \<notin> set (chars ''signpost'')" "slash \<notin> set (chars ''control'')"
    by code_simp+
  then have "\<exists>a b. control_name = a @ [slash] @ b \<and> slash \<notin> set a \<and> slash \<notin> set b" by blast
  then show "length topic \<le> 16 \<Longrightarrow> names (control_name @ [slash] @ topic) control_name topic"
    using control_name(1) by (simp add: names_def fits_def)
qed

lemma subscribe_send_padded:
  assumes "0 \<notin> set topic" "length topic \<le> 16" "length data < 256" "api_malloc s = (True, s1)"
  shows "signpost_networking_subscribe_send m dest (topic @ replicate (17 - length topic) 0) data (word_of_nat (length data)) s =
    signpost_api_send m dest NotificationFrame NetworkingApiType NetworkingSubscribeMessage (2 + length topic + length data) (subscribe_message topic data) s1"
proof -
  have "cstr topic = topic" unfolding cstr_def takeWhile_eq_all_conv using assms(1) by auto
  then have "cstr (padded topic) = topic" using cstr_padded [of topic] assms(2) by (simp add: fits_def)
  then have "strnlen (topic @ replicate (17 - length topic) 0) 28 = length topic"
    using assms(2) by (simp add: strnlen_eq)
  then show ?thesis
    using assms(3,4) by (simp add: signpost_networking_subscribe_send_def unat_of_nat read_at_def)
qed

text \<open>C19: a message for the controller that the LoRa network returned goes out on the bus to the controller; there its
  content makes the library call the subscriber with the topic and the data that were sent.\<close>

theorem downlink_reaches_controller:
  assumes "line_works (modem r)" "rx_events (modem r) = Arrives (recv_answer (control_message topic data)) # evs"
    and "0 \<notin> set topic" "length topic \<le> 16" "length topic + length data \<le> 104"
    and "api_malloc (node r) = (True, a)" "bus_clear m a"
    and "networking_subscribe_cb (svc c) = Some cb"
  shows "(\<exists>r'. receive_downlink Inr m r = Inr r' \<and> wr_log (penv (node r')) = wr_log (penv a) @ map (Pair ModuleAddressController)
       (sent_frames m ModuleAddressController (signpost_api_addr_to_key (module_info a))
         (NotificationFrame, NetworkingApiType, NetworkingSubscribeMessage, subscribe_message topic data) (layers a))) \<and>
    internal_subscribe_callback NotificationFrame NetworkingApiType NetworkingSubscribeMessage
      (length (subscribe_message topic data)) (subscribe_message topic data @ rest) c =
      Inr (upd_svc (\<lambda>v. v\<lparr>delivered := delivered v @ [(cb, topic @ replicate (33 - length topic) 0, data)]\<rparr>) c)"
proof
  let ?msg = "control_message topic data" and ?text = "control_name @ [slash] @ topic"
  have len: "length ?msg = 19 + length topic + length data" by (simp add: control_message_def control_name(1))
  have "unat (word_of_nat (17 + length topic) :: byte) = 17 + length topic" using assms(4) by (simp only: unat_of_nat) simp
  then have "drop_bit 4 (word_of_nat (17 + length topic) :: byte) < 10"
    using assms(4) by (simp add: word_less_nat_alt unat_drop_bit_eq drop_bit_eq_div unat_div del: of_nat_add)
  then have "drop_bit 4 (hd ?msg) < 10" by (simp add: control_message_def)
  then obtain u where u: "xdot_receive 128 (modem r) = Inr (int (length ?msg), ?msg, u)"
    using lora_message_received [OF assms(1,2), of 128] len assms(5) by (auto simp: control_message_def)
  let ?sub = "subscribe_message topic data"
  have sub: "length ?sub = 2 + length topic + length data" by (simp add: subscribe_message_def)
  then have "length ?sub < 2 ^ 16 - 64" using assms(5) by simp
  then obtain rc a' where a': "signpost_api_send m ModuleAddressController NotificationFrame NetworkingApiType NetworkingSubscribeMessage
      (length ?sub) ?sub a = Inr (rc, a')"
    "wr_log (penv a') = wr_log (penv a) @ map (Pair ModuleAddressController) (sent_frames m ModuleAddressController
      (signpost_api_addr_to_key (module_info a)) (NotificationFrame, NetworkingApiType, NetworkingSubscribeMessage, ?sub) (layers a))"
    by (rule request_sent [OF assms(7)])
  have l: "unat (word_of_int (int (length ?msg)) :: byte) = length ?msg" "unat (word_of_nat (length data) :: byte) = length data"
  proof -
    have "unat (word_of_nat (length ?msg) :: byte) = length ?msg" using len assms(5) by (simp only: unat_of_nat) simp
    then show "unat (word_of_int (int (length ?msg)) :: byte) = length ?msg" by simp
    show "unat (word_of_nat (length data) :: byte) = length data" using assms(5) by (simp add: unat_of_nat)
  qed
  have "send_downlink_message m ([word_of_nat (length ?text)] @ ?text @ [word_of_nat (length data)] @ data) (word_of_int (int (length ?msg)))
      (r\<lparr>modem := u\<rparr>) = Inr (signed_take_bit 7 rc, r\<lparr>modem := u, node := a'\<rparr>)"
    using downlink_dispatched [OF control_names [OF assms(4)], of "word_of_nat (length data)" "word_of_int (int (length ?msg))" m data "r\<lparr>modem := u\<rparr>"]
      subscribe_send_padded [OF assms(3,4) _ assms(6), of data m] assms(3-5) a'(1) [unfolded sub] control_name cstr_control len l by (simp add: slash_def)
  moreover have "[word_of_nat (length ?text)] @ ?text @ [word_of_nat (length data)] @ data = ?msg"
    by (simp add: control_message_def control_name(1))
  ultimately have "send_downlink_message m ?msg (word_of_int (int (length ?msg))) (r\<lparr>modem := u\<rparr>) = Inr (signed_take_bit 7 rc, r\<lparr>modem := u, node := a'\<rparr>)"
    by simp
  then have "receive_downlink Inr m r = Inr (r\<lparr>modem := u, node := a'\<rparr>)"
    using u len by (simp add: receive_downlink_def try_modem_def)
  then show "\<exists>r'. receive_downlink Inr m r = Inr r' \<and> wr_log (penv (node r')) = wr_log (penv a) @ map (Pair ModuleAddressController)
       (sent_frames m ModuleAddressController (signpost_api_addr_to_key (module_info a))
         (NotificationFrame, NetworkingApiType, NetworkingSubscribeMessage, ?sub) (layers a))"
    using a'(2) by (intro exI [of _ "r\<lparr>modem := u, node := a'\<rparr>"]) simp
  show "internal_subscribe_callback NotificationFrame NetworkingApiType NetworkingSubscribeMessage
      (length (subscribe_message topic data)) (subscribe_message topic data @ rest) c =
      Inr (upd_svc (\<lambda>v. v\<lparr>delivered := delivered v @ [(cb, topic @ replicate (33 - length topic) 0, data)]\<rparr>) c)"
    using assms(4,5,8) by (intro subscribe_message_is_delivered) simp_all
qed

text \<open>The command \<open>reset\<close> for the whole signpost.\<close>

definition reset_radio :: radio where
  "reset_radio = app_boot toy_node (clean_uart\<lparr>rx_events := [Arrives (recv_answer (control_message (chars ''signpost'') (chars ''reset'')))]\<rparr>)
     (replicate 6 0) []"

theorem downlink_reaches_controller_witness:
  "\<exists>r'. receive_downlink Inr toy_tls reset_radio = Inr r' \<and> wr_log (penv (node r')) \<noteq> wr_log (penv toy_node)"
proof -
  obtain a where a: "api_malloc (node reset_radio) = (True, a)" "bus_clear toy_tls a" "wr_log (penv a) = wr_log (penv toy_node)"
  proof -
    have "api_malloc toy_node = (True, set_env ((penv toy_node)\<lparr>malloc_rcs := []\<rparr>) toy_node)"
      using toy_node_memory by (simp add: api_malloc_def env_malloc_def)
    moreover have "bus_clear toy_tls (set_env ((penv toy_node)\<lparr>malloc_rcs := []\<rparr>) toy_node)"
      using toy_node_clear(1) by (simp add: bus_clear_def set_up_def set_env_def)
    ultimately show thesis using that by (simp add: reset_radio_def app_boot_def radio_boot_def set_env_def)
  qed
  have "sent_frames toy_tls d f x l \<noteq> []" for d f x l using sent_frames_nonempty [OF toy_tls_ok] .
  then show ?thesis
    using downlink_reaches_controller [of reset_radio "chars ''signpost''" "chars ''reset''" "[]" a toy_tls
      "upd_svc (\<lambda>v. v\<lparr>networking_subscribe_cb := Some 4\<rparr>) api_boot" 4 "[]"] a
    by (auto simp: reset_radio_def app_boot_def radio_boot_def line_works_def clean_uart_def chars_def)
qed

end
