(* ===== verification/Serial_Slip.thy ===== *)
theory Serial_Slip
  imports
    Signpost_Prelude Codec
begin

text \<open>
  The framing of the serial line to a LoRa radio, \<open>libsignpost-tock/ComSlip.c\<close> (SLIP). The record \<open>slip\<close> is the
  static \<open>ComSlip\<close>: the decoder's state, the buffer of the client with its claimed size, and whether a client
  registered. \<open>client_got\<close> lists what the client was given, \<open>line_out\<close> what \<open>putnstr\<close> sent, and \<open>auto_reads\<close> counts the reads
  that were started. The lemmas show that messages arrive, cut to the size of the buffer, in whatever state the decoder was.
\<close>

section \<open>The driver\<close>

definition SLIP_END :: byte where "SLIP_END = 0xC0"
definition SLIP_ESC :: byte where "SLIP_ESC = 0xDB"
definition SLIP_ESC_END :: byte where "SLIP_ESC_END = 0xDC"
definition SLIP_ESC_ESC :: byte where "SLIP_ESC_ESC = 0xDD"
definition NUMBER_OF_WAKEUP_CHARS :: nat where "NUMBER_OF_WAKEUP_CHARS = 40"

lemmas slip_chars = SLIP_END_def SLIP_ESC_def SLIP_ESC_END_def SLIP_ESC_ESC_def

datatype slip_state = SlipIdle | SlipStart | SlipInFrame | SlipEscape

record slip =
  rx_client :: bool
  rx_state :: slip_state
  rx_index :: u16
  rx_buffer_size :: u16
  rx_buffer :: "bytes option"
  client_got :: "bytes list"
  line_out :: bytes
  auto_reads :: nat

definition ComSlip_Init :: "slip \<Rightarrow> slip" where
  "ComSlip_Init s = s\<lparr>rx_state := SlipIdle, rx_index := 0, rx_buffer := None, rx_buffer_size := 0, auto_reads := auto_reads s + 1\<rparr>"

definition ComSlip_RegisterClient :: "bool \<Rightarrow> slip \<Rightarrow> slip" where
  "ComSlip_RegisterClient client s = s\<lparr>rx_client := client\<rparr>"

definition ComSlip_SetRxBuffer :: "bytes option \<Rightarrow> u16 \<Rightarrow> slip \<Rightarrow> bool \<times> slip" where
  "ComSlip_SetRxBuffer buf n s =
     (if rx_state s = SlipIdle \<and> rx_client s
      then (True, s\<lparr>rx_buffer := buf, rx_buffer_size := n, rx_state := SlipStart\<rparr>)
      else (False, s))"

definition ComSlip_StoreRxByte :: "byte \<Rightarrow> slip \<Rightarrow> fault + slip" where
  "ComSlip_StoreRxByte b s =
     (if rx_index s < rx_buffer_size s
      then case rx_buffer s of
             None \<Rightarrow> Inl OutOfBounds
           | Some buf \<Rightarrow> andthen (memcpy_at buf (unat (rx_index s)) [b]) (\<lambda>buf'.
               Inr (s\<lparr>rx_buffer := Some buf', rx_index := rx_index s + 1\<rparr>))
      else Inr s)"

text \<open>The client gets the first bytes of the buffer; what it returns is dropped.\<close>

definition ComSlip_ProcessRxMsg :: "slip \<Rightarrow> bool \<times> slip" where
  "ComSlip_ProcessRxMsg s =
     (rx_buffer s \<noteq> None,
      if rx_client s
      then s\<lparr>client_got := client_got s @ [take (unat (rx_index s)) (case rx_buffer s of None \<Rightarrow> [] | Some buf \<Rightarrow> buf)]\<rparr> else s)"

definition ComSlip_ProcessRxByte :: "byte \<Rightarrow> slip \<Rightarrow> fault + slip" where
  "ComSlip_ProcessRxByte b s =
     (case rx_state s of
        SlipStart \<Rightarrow> Inr (if b = SLIP_END then s\<lparr>rx_index := 0, rx_state := SlipInFrame\<rparr> else s)
      | SlipInFrame \<Rightarrow>
          if b = SLIP_END
          then Inr ((if rx_index s > 0
                     then let (more, s1) = ComSlip_ProcessRxMsg s in s1\<lparr>rx_state := (if more then SlipStart else SlipIdle)\<rparr>
                     else s)\<lparr>rx_index := 0\<rparr>)
          else if b = SLIP_ESC then Inr (s\<lparr>rx_state := SlipEscape\<rparr>)
          else ComSlip_StoreRxByte b s
      | SlipEscape \<Rightarrow>
          if b = SLIP_ESC_END then andthen (ComSlip_StoreRxByte SLIP_END s) (\<lambda>s1. Inr (s1\<lparr>rx_state := SlipInFrame\<rparr>))
          else if b = SLIP_ESC_ESC then andthen (ComSlip_StoreRxByte SLIP_ESC s) (\<lambda>s1. Inr (s1\<lparr>rx_state := SlipInFrame\<rparr>))
          else Inr (s\<lparr>rx_state := SlipStart\<rparr>)
      | SlipIdle \<Rightarrow> Inr s)"

fun process_bytes :: "bytes \<Rightarrow> slip \<Rightarrow> fault + slip" where
  "process_bytes [] s = Inr s"
| "process_bytes (b # bs) s = andthen (ComSlip_ProcessRxByte b s) (process_bytes bs)"

definition receive_message :: "bytes \<Rightarrow> nat \<Rightarrow> slip \<Rightarrow> fault + slip" where
  "receive_message StrBuf len s =
     andthen (read_at StrBuf 0 len) (\<lambda>bs. andthen (process_bytes bs s) (\<lambda>s1. Inr (s1\<lparr>auto_reads := auto_reads s1 + 1\<rparr>)))"

fun slip_escape :: "bytes \<Rightarrow> bytes" where
  "slip_escape [] = []"
| "slip_escape (b # bs) =
     (if b = SLIP_END then [SLIP_ESC, SLIP_ESC_END]
      else if b = SLIP_ESC then [SLIP_ESC, SLIP_ESC_ESC]
      else [b]) @ slip_escape bs"

definition slip_frame :: "bytes \<Rightarrow> bytes" where
  "slip_frame msg = replicate NUMBER_OF_WAKEUP_CHARS SLIP_END @ slip_escape msg @ [SLIP_END]"

definition ComSlip_SendMessage :: "bytes \<Rightarrow> u16 \<Rightarrow> slip \<Rightarrow> fault + bool \<times> slip" where
  "ComSlip_SendMessage msg len s =
     andthen (read_at msg 0 (unat len)) (\<lambda>bs. Inr (True, s\<lparr>line_out := line_out s @ slip_frame bs\<rparr>))"

section \<open>Receiving\<close>

text \<open>A decoder that is listening: a client, and a buffer of the size that is claimed.\<close>

definition listening :: "nat \<Rightarrow> slip \<Rightarrow> bool" where
  "listening n s \<longleftrightarrow> rx_client s \<and> rx_state s \<noteq> SlipIdle \<and> unat (rx_buffer_size s) = n \<and> 0 < n \<and>
     unat (rx_index s) \<le> n \<and> (\<exists>buf. rx_buffer s = Some buf \<and> length buf = n)"

definition between_frames :: "slip \<Rightarrow> bool" where
  "between_frames s \<longleftrightarrow> rx_state s = SlipStart \<or> rx_state s = SlipInFrame \<and> rx_index s = 0"

text \<open>Inside a frame of which \<open>xs\<close> was received.\<close>

definition in_frame :: "nat \<Rightarrow> bytes \<Rightarrow> slip \<Rightarrow> bool" where
  "in_frame n xs s \<longleftrightarrow> listening n s \<and> rx_state s = SlipInFrame \<and> unat (rx_index s) = min n (length xs) \<and>
     (\<forall>buf. rx_buffer s = Some buf \<longrightarrow> take (unat (rx_index s)) buf = take n xs)"

lemma process_append: "process_bytes (bs @ cs) s = andthen (process_bytes bs s) (process_bytes cs)"
proof (induction bs arbitrary: s)
  case (Cons b bs)
  then show ?case by (cases "ComSlip_ProcessRxByte b s") simp_all
qed simp

lemma process_then: "process_bytes bs s = Inr s1 \<Longrightarrow> process_bytes (bs @ cs) s = process_bytes cs s1"
  by (simp add: process_append)

lemma store_byte:
  assumes "listening n s" "unat (rx_index s) = min n (length xs)" "\<forall>buf. rx_buffer s = Some buf \<longrightarrow> take (unat (rx_index s)) buf = take n xs"
  shows "\<exists>s'. ComSlip_StoreRxByte b s = Inr s' \<and> rx_state s' = rx_state s \<and> client_got s' = client_got s \<and> listening n s' \<and>
    in_frame n (xs @ [b]) (s'\<lparr>rx_state := SlipInFrame\<rparr>)"
proof (cases "rx_index s < rx_buffer_size s")
  case True
  obtain buf where buf: "rx_buffer s = Some buf" "length buf = n" using assms(1) by (auto simp: listening_def)
  have lt: "unat (rx_index s) < n" using True assms(1) by (simp add: listening_def word_less_nat_alt)
  then have i: "unat (rx_index s) = length xs" using assms(2) by linarith
  have inc: "unat (rx_index s + 1) = Suc (length xs)"
    using lt i assms(1) unat_word_ariths(1) [of "rx_index s" 1] unat_u16_less [of "rx_buffer_size s"] by (simp add: listening_def)
  have "take (length xs) buf = take n xs" using assms(3) buf(1) i by simp
  then have "take (Suc (length xs)) (overwrite buf (length xs) [b]) = take n (xs @ [b])"
    using lt i buf(2) by (simp add: overwrite_def)
  then show ?thesis
    using True buf lt i inc assms(1)
    by (simp add: ComSlip_StoreRxByte_def memcpy_at_def in_frame_def listening_def length_overwrite)
next
  case False
  then have full: "unat (rx_index s) = n" using assms(1) by (simp add: listening_def word_less_nat_alt)
  then have "n \<le> length xs" using assms(2) by linarith
  then show ?thesis using False assms full by (simp add: ComSlip_StoreRxByte_def in_frame_def listening_def)
qed

lemma escaped_bytes_received:
  "in_frame n xs s \<Longrightarrow> \<exists>s'. process_bytes (slip_escape bs) s = Inr s' \<and> in_frame n (xs @ bs) s' \<and> client_got s' = client_got s"
proof (induction bs arbitrary: xs s)
  case (Cons b bs)
  note frame = Cons.prems [unfolded in_frame_def]
  have "\<exists>s1. process_bytes (slip_escape [b]) s = Inr s1 \<and> in_frame n (xs @ [b]) s1 \<and> client_got s1 = client_got s"
  proof (cases "b = SLIP_END \<or> b = SLIP_ESC")
    case True
    have "listening n (s\<lparr>rx_state := SlipEscape\<rparr>)" using frame by (simp add: listening_def)
    then obtain s1 where "ComSlip_StoreRxByte b (s\<lparr>rx_state := SlipEscape\<rparr>) = Inr s1" "client_got s1 = client_got s"
      "in_frame n (xs @ [b]) (s1\<lparr>rx_state := SlipInFrame\<rparr>)"
      using store_byte [of n "s\<lparr>rx_state := SlipEscape\<rparr>" xs b] frame by auto
    then show ?thesis using True frame by (auto simp: ComSlip_ProcessRxByte_def slip_chars)
  next
    case False
    obtain s1 where s1: "ComSlip_StoreRxByte b s = Inr s1" "rx_state s1 = rx_state s" "client_got s1 = client_got s"
      "in_frame n (xs @ [b]) (s1\<lparr>rx_state := SlipInFrame\<rparr>)"
      using store_byte [of n s xs b] frame by auto
    moreover have "s1\<lparr>rx_state := SlipInFrame\<rparr> = s1" using s1(2) frame by simp
    ultimately show ?thesis using False frame by (simp add: ComSlip_ProcessRxByte_def)
  qed
  then obtain s1 where s1: "process_bytes (slip_escape [b]) s = Inr s1" "in_frame n (xs @ [b]) s1" "client_got s1 = client_got s" by blast
  obtain s2 where s2: "process_bytes (slip_escape bs) s1 = Inr s2" "in_frame n ((xs @ [b]) @ bs) s2" "client_got s2 = client_got s1"
    using Cons.IH [OF s1(2)] by blast
  have "slip_escape (b # bs) = slip_escape [b] @ slip_escape bs" by simp
  then have "process_bytes (slip_escape (b # bs)) s = Inr s2" using process_then [OF s1(1)] s2(1) by simp
  then show ?case using s1(3) s2 by auto
qed simp

text \<open>The wake-up characters bring the decoder into a frame; they end a frame it was in.\<close>

lemma end_idles: "in_frame n [] s \<Longrightarrow> \<exists>s'. ComSlip_ProcessRxByte SLIP_END s = Inr s' \<and> in_frame n [] s' \<and> client_got s' = client_got s"
proof -
  assume s: "in_frame n [] s"
  then have "rx_index s = 0" by (simp add: in_frame_def unat_eq_zero)
  then show ?thesis using s by (auto simp: in_frame_def ComSlip_ProcessRxByte_def listening_def)
qed

lemma ends_idle: "in_frame n [] s \<Longrightarrow> \<exists>s'. process_bytes (replicate k SLIP_END) s = Inr s' \<and> in_frame n [] s' \<and> client_got s' = client_got s"
proof (induction k arbitrary: s)
  case (Suc k)
  obtain s1 where "ComSlip_ProcessRxByte SLIP_END s = Inr s1" "in_frame n [] s1" "client_got s1 = client_got s"
    using end_idles [OF Suc.prems] by blast
  then show ?case using Suc.IH [of s1] by simp
qed simp

lemma end_starts:
  assumes "listening n s" "between_frames s"
  shows "\<exists>s'. ComSlip_ProcessRxByte SLIP_END s = Inr s' \<and> in_frame n [] s' \<and> client_got s' = client_got s"
  using assms by (auto simp: in_frame_def ComSlip_ProcessRxByte_def listening_def between_frames_def)

lemma end_resets:
  assumes "listening n s"
  shows "\<exists>s' junk. ComSlip_ProcessRxByte SLIP_END s = Inr s' \<and> listening n s' \<and> between_frames s' \<and>
    client_got s' = client_got s @ junk \<and> length junk \<le> 1 \<and> (between_frames s \<longrightarrow> junk = [])"
proof (cases "between_frames s")
  case True
  then show ?thesis using end_starts [OF assms True] by (auto simp: in_frame_def between_frames_def unat_eq_zero intro!: exI [of _ "[]"])
next
  case False
  then consider "rx_state s = SlipInFrame" "rx_index s > 0" | "rx_state s = SlipEscape"
    using assms by (cases "rx_state s") (auto simp: between_frames_def listening_def word_gt_0)
  then show ?thesis
  proof cases
    case 1
    then show ?thesis using assms False
      by (auto simp: ComSlip_ProcessRxByte_def ComSlip_ProcessRxMsg_def listening_def between_frames_def)
  next
    case 2
    then show ?thesis using assms False
      by (auto simp: ComSlip_ProcessRxByte_def listening_def between_frames_def slip_chars)
  qed
qed

lemma end_delivers:
  assumes "in_frame n xs s" "xs \<noteq> []"
  shows "\<exists>s'. ComSlip_ProcessRxByte SLIP_END s = Inr s' \<and> listening n s' \<and> rx_state s' = SlipStart \<and> client_got s' = client_got s @ [take n xs]"
proof -
  have "unat (rx_index s) > 0" using assms by (auto simp: in_frame_def listening_def)
  then have "rx_index s > 0" by (simp add: unat_gt_0 word_gt_0)
  then show ?thesis
    using assms(1) by (auto simp: ComSlip_ProcessRxByte_def ComSlip_ProcessRxMsg_def listening_def in_frame_def)
qed

lemma frame_received:
  assumes "listening n s" "msg \<noteq> []"
  shows "\<exists>s' junk. process_bytes (slip_frame msg) s = Inr s' \<and> listening n s' \<and> between_frames s' \<and>
    client_got s' = client_got s @ junk @ [take n msg] \<and> length junk \<le> 1 \<and> (between_frames s \<longrightarrow> junk = [])"
proof -
  obtain s1 junk where s1: "ComSlip_ProcessRxByte SLIP_END s = Inr s1" "listening n s1" "between_frames s1"
    "client_got s1 = client_got s @ junk" "length junk \<le> 1" "between_frames s \<longrightarrow> junk = []"
    using end_resets [OF assms(1)] by blast
  obtain s2 where s2: "ComSlip_ProcessRxByte SLIP_END s1 = Inr s2" "in_frame n [] s2" "client_got s2 = client_got s1"
    using end_starts [OF s1(2,3)] by blast
  obtain s3 where s3: "process_bytes (replicate 38 SLIP_END) s2 = Inr s3" "in_frame n [] s3" "client_got s3 = client_got s2"
    using ends_idle [OF s2(2)] by blast
  obtain s4 where s4: "process_bytes (slip_escape msg) s3 = Inr s4" "in_frame n msg s4" "client_got s4 = client_got s3"
    using escaped_bytes_received [OF s3(2), of msg] by auto
  obtain s5 where s5: "ComSlip_ProcessRxByte SLIP_END s4 = Inr s5" "listening n s5" "rx_state s5 = SlipStart" "client_got s5 = client_got s4 @ [take n msg]"
    using end_delivers [OF s4(2) assms(2)] by blast
  have "slip_frame msg = [SLIP_END] @ [SLIP_END] @ replicate 38 SLIP_END @ slip_escape msg @ [SLIP_END]"
    by (simp add: slip_frame_def NUMBER_OF_WAKEUP_CHARS_def numeral_eq_Suc)
  then have "process_bytes (slip_frame msg) s = Inr s5"
    by (simp add: s1(1) s2(1) process_then [OF s3(1)] process_then [OF s4(1)] s5(1))
  then show ?thesis using s1 s2(3) s3(3) s4(3) s5 by (auto simp: between_frames_def)
qed

lemma frames_received:
  "listening n s \<Longrightarrow> between_frames s \<Longrightarrow> \<forall>msg\<in>set msgs. msg \<noteq> [] \<Longrightarrow>
   \<exists>s'. process_bytes (concat (map slip_frame msgs)) s = Inr s' \<and> client_got s' = client_got s @ map (take n) msgs"
proof (induction msgs arbitrary: s)
  case (Cons msg msgs)
  obtain s1 where s1: "process_bytes (slip_frame msg) s = Inr s1" "listening n s1" "between_frames s1" "client_got s1 = client_got s @ [take n msg]"
    using frame_received [OF Cons.prems(1), of msg] Cons.prems(2,3) by auto
  then show ?case using Cons.IH [OF s1(2,3)] Cons.prems(3) by (auto simp: process_append)
qed simp

lemma all_frames_received:
  assumes "listening n s" "\<forall>msg\<in>set msgs. msg \<noteq> []"
  shows "\<exists>s' junk. process_bytes (concat (map slip_frame msgs)) s = Inr s' \<and> client_got s' = client_got s @ junk @ map (take n) msgs \<and>
    length junk \<le> 1 \<and> (between_frames s \<longrightarrow> junk = [])"
proof (cases msgs)
  case (Cons msg rest)
  obtain s1 junk where s1: "process_bytes (slip_frame msg) s = Inr s1" "listening n s1" "between_frames s1"
    "client_got s1 = client_got s @ junk @ [take n msg]" "length junk \<le> 1" "between_frames s \<longrightarrow> junk = []"
    using frame_received [OF assms(1), of msg] assms(2) Cons by auto
  then show ?thesis using frames_received [OF s1(2,3), of rest] assms(2) Cons by (auto simp: process_append)
qed simp

text \<open>The bytes arrive in pieces, split anywhere; a read is started after each.\<close>

fun receive_pieces :: "bytes list \<Rightarrow> slip \<Rightarrow> fault + slip" where
  "receive_pieces [] s = Inr s"
| "receive_pieces (p # ps) s = andthen (receive_message p (length p) s) (receive_pieces ps)"

definition reads :: "nat \<Rightarrow> slip \<Rightarrow> slip" where
  "reads k s = s\<lparr>auto_reads := k\<rparr>"

lemma reads_fields [simp]:
  "rx_state (reads k s) = rx_state s" "rx_index (reads k s) = rx_index s" "rx_client (reads k s) = rx_client s"
  "rx_buffer_size (reads k s) = rx_buffer_size s" "rx_buffer (reads k s) = rx_buffer s" "client_got (reads k s) = client_got s"
  by (simp_all add: reads_def)

lemma store_reads: "ComSlip_StoreRxByte b (reads k s) = map_sum id (reads k) (ComSlip_StoreRxByte b s)"
  by (auto simp: ComSlip_StoreRxByte_def memcpy_at_def reads_def split: option.splits)

lemma byte_reads: "ComSlip_ProcessRxByte b (reads k s) = map_sum id (reads k) (ComSlip_ProcessRxByte b s)"
proof -
  have m: "andthen (map_sum id (reads k) x) (\<lambda>s1. Inr (s1\<lparr>rx_state := SlipInFrame\<rparr>)) =
      map_sum id (reads k) (andthen x (\<lambda>s1. Inr (s1\<lparr>rx_state := SlipInFrame\<rparr>)))" for x
    by (cases x) (simp_all add: reads_def)
  show ?thesis
    by (cases "rx_state s") (auto simp: ComSlip_ProcessRxByte_def ComSlip_ProcessRxMsg_def store_reads m, auto simp: reads_def)
qed

lemma bytes_reads: "process_bytes bs (reads k s) = map_sum id (reads k) (process_bytes bs s)"
proof (induction bs arbitrary: s)
  case (Cons b bs)
  then show ?case by (cases "ComSlip_ProcessRxByte b s") (simp_all add: byte_reads)
qed simp

lemma pieces_received:
  "process_bytes (concat ps) s = Inr s' \<Longrightarrow> \<exists>k. receive_pieces ps s = Inr (reads k s')"
proof (induction ps arbitrary: s s')
  case Nil
  then show ?case by (auto simp: reads_def intro!: exI [of _ "auto_reads s"])
next
  case (Cons p ps)
  obtain s1 where s1: "process_bytes p s = Inr s1" "process_bytes (concat ps) s1 = Inr s'"
    using Cons.prems by (auto simp: process_append elim!: andthen_InrE)
  define k where "k = auto_reads s1 + 1"
  have "receive_message p (length p) s = Inr (reads k s1)"
    using s1(1) by (simp add: receive_message_def read_at_def reads_def k_def)
  moreover have "process_bytes (concat ps) (reads k s1) = Inr (reads k s')"
    using s1(2) by (simp add: bytes_reads)
  then obtain j where "receive_pieces ps (reads k s1) = Inr (reads j (reads k s'))"
    using Cons.IH by blast
  ultimately show ?case by (auto simp: reads_def)
qed

text \<open>C13: whatever a listening decoder received before, and however the bytes arrive in pieces, sent messages are delivered in
  order, cut to the size of the client's buffer, behind at most one broken message, and behind none if the decoder was between
  frames.\<close>

theorem slip_messages_delivered:
  assumes "listening n s" "\<forall>msg\<in>set msgs. msg \<noteq> []" "concat pieces = concat (map slip_frame msgs)"
  shows "\<exists>s' junk. receive_pieces pieces s = Inr s' \<and> client_got s' = client_got s @ junk @ map (take n) msgs \<and>
    length junk \<le> 1 \<and> (between_frames s \<longrightarrow> junk = [])"
proof -
  obtain s' junk where s': "process_bytes (concat (map slip_frame msgs)) s = Inr s'" "client_got s' = client_got s @ junk @ map (take n) msgs"
    "length junk \<le> 1" "between_frames s \<longrightarrow> junk = []"
    using all_frames_received [OF assms(1,2)] by blast
  then show ?thesis using pieces_received [of pieces s s'] assms(3) by auto
qed

text \<open>A decoder in the middle of a frame, with a buffer of four bytes.\<close>

definition sample_slip :: slip where
  "sample_slip = \<lparr>rx_client = True, rx_state = SlipEscape, rx_index = 2, rx_buffer_size = 4, rx_buffer = Some [1, 2, 3, 4],
     client_got = [], line_out = [], auto_reads = 1\<rparr>"

theorem slip_messages_delivered_witness:
  "\<exists>s' junk. receive_pieces [take 41 (slip_frame [0xC0, 1, 0xDB]), drop 41 (slip_frame [0xC0, 1, 0xDB]) @ slip_frame [1, 2, 3, 4, 5]] sample_slip = Inr s' \<and>
     client_got s' = junk @ [[0xC0, 1, 0xDB], [1, 2, 3, 4]] \<and> length junk \<le> 1"
  using slip_messages_delivered [of 4 sample_slip "[[0xC0, 1, 0xDB], [1, 2, 3, 4, 5]]"
      "[take 41 (slip_frame [0xC0, 1, 0xDB]), drop 41 (slip_frame [0xC0, 1, 0xDB]) @ slip_frame [1, 2, 3, 4, 5]]"]
  by (auto simp: listening_def sample_slip_def append_assoc [symmetric] simp del: append_assoc)

section \<open>The frame as an encoding\<close>

definition decode_frame :: "bytes \<Rightarrow> bytes option" where
  "decode_frame bs =
     (case process_bytes bs \<lparr>rx_client = True, rx_state = SlipStart, rx_index = 0, rx_buffer_size = 65535,
         rx_buffer = Some (replicate 65535 0), client_got = [], line_out = [], auto_reads = 1\<rparr> of
        Inl _ \<Rightarrow> None
      | Inr s \<Rightarrow> (case client_got s of [msg] \<Rightarrow> Some msg | _ \<Rightarrow> None))"

interpretation serial: codec slip_frame decode_frame "\<lambda>msg. msg \<noteq> [] \<and> length msg < 65536"
proof
  fix msg :: bytes assume msg: "msg \<noteq> [] \<and> length msg < 65536"
  let ?s = "\<lparr>rx_client = True, rx_state = SlipStart, rx_index = 0, rx_buffer_size = 65535,
    rx_buffer = Some (replicate 65535 0), client_got = [], line_out = [], auto_reads = 1\<rparr> :: slip"
  have "listening 65535 ?s" "between_frames ?s" by (simp_all add: listening_def between_frames_def)
  then obtain s' where "process_bytes (slip_frame msg) ?s = Inr s'" "client_got s' = [take 65535 msg]"
    using frames_received [of 65535 ?s "[msg]"] msg by auto
  then show "decode_frame (slip_frame msg) = Some msg" using msg by (simp add: decode_frame_def)
qed

text \<open>Different messages have different frames.\<close>

lemma frames_differ: "msg \<noteq> [] \<Longrightarrow> msg' \<noteq> [] \<Longrightarrow> length msg < 65536 \<Longrightarrow> length msg' < 65536 \<Longrightarrow> slip_frame msg = slip_frame msg' \<longleftrightarrow> msg = msg'"
  by (rule serial.encode_eq_iff) simp_all

end
