(* ===== verification/Storage_Master.thy ===== *)
theory Storage_Master
  imports
    Signpost_Rpc Modem_Console
begin

text \<open>
  The storage module: \<open>libsignpost-tock/signpost_storage.c\<close> and the program \<open>storage_master/storage_manager/main.c\<close>, which keeps logs for the
  other modules as files. The file system below is FatFs, a third-party library; its calls are the record \<open>fat\<close>, a parameter: \<open>'d\<close> is the
  volume, \<open>'f\<close> an open file, and an \<open>FRESULT\<close> is a number, zero for \<open>FR_OK\<close>.
\<close>

section \<open>The file system\<close>

record fat_entry =
  fname :: bytes
  is_dir :: bool
  fsize :: u32

text \<open>\<open>f_open\<close> takes the mode: true for appending, false for reading. \<open>f_readdirs\<close> gives what \<open>f_readdir\<close> returns one after the other, and the
  \<open>FRESULT\<close> of the call that ended the list.\<close>

record ('d, 'f) fat =
  f_open :: "bytes \<Rightarrow> bool \<Rightarrow> 'd \<Rightarrow> nat \<times> 'f \<times> 'd"
  f_ptr :: "'f \<Rightarrow> nat"
  f_write :: "'f \<Rightarrow> bytes \<Rightarrow> 'd \<Rightarrow> nat \<times> nat \<times> 'f \<times> 'd"
  f_lseek :: "'f \<Rightarrow> nat \<Rightarrow> 'd \<Rightarrow> nat \<times> 'f \<times> 'd"
  f_read :: "'f \<Rightarrow> nat \<Rightarrow> 'd \<Rightarrow> nat \<times> bytes \<times> 'f \<times> 'd"
  f_close :: "'f \<Rightarrow> 'd \<Rightarrow> nat \<times> 'd"
  f_unlink :: "bytes \<Rightarrow> 'd \<Rightarrow> nat \<times> 'd"
  f_opendir :: "'d \<Rightarrow> nat"
  f_readdirs :: "'d \<Rightarrow> fat_entry list \<times> nat"
  f_mount :: "'d \<Rightarrow> nat \<times> 'd"
  f_mkfs :: "'d \<Rightarrow> nat \<times> 'd"

definition FR_NOT_READY :: nat where "FR_NOT_READY = 3"
definition FR_NO_FILESYSTEM :: nat where "FR_NO_FILESYSTEM = 13"
definition TOCK_SUCCESS :: int where "TOCK_SUCCESS = 0"
definition TOCK_EINVAL :: int where "TOCK_EINVAL = -6"
definition TOCK_ESIZE :: int where "TOCK_ESIZE = -7"

lemmas tock_codes = TOCK_SUCCESS_def TOCK_FAIL_def TOCK_EINVAL_def TOCK_ESIZE_def TOCK_ENOMEM_def

section \<open>Files\<close>

text \<open>A \<open>Storage_Record_t\<close> in memory.\<close>

definition storage_record :: "bytes \<Rightarrow> u32 \<Rightarrow> u32 \<Rightarrow> bytes" where
  "storage_record name offset len = strncpy_bytes name STORAGE_LOG_LEN @ [0] @ [0, 0, 0] @ le32 offset @ le32 len"

text \<open>The list has the memory that was allocated for it.\<close>

fun scan_entries :: "fat_entry list \<Rightarrow> nat \<Rightarrow> nat \<Rightarrow> bytes list \<Rightarrow> bytes \<Rightarrow> fault + nat \<times> bytes list" where
  "scan_entries [] end_res max_len found mem = Inr (end_res, found)"
| "scan_entries (e # es) end_res max_len found mem =
     (if is_dir e then scan_entries es end_res max_len found mem
      else if length found \<ge> max_len then Inr (0, found)
      else andthen (memcpy_at mem (length found * STORAGE_RECORD_LEN) (storage_record (fname e) 0 (fsize e)))
             (scan_entries es end_res max_len (found @ [storage_record (fname e) 0 (fsize e)])))"

definition storage_scan_files :: "('d, 'f) fat \<Rightarrow> nat \<Rightarrow> bytes \<Rightarrow> 'd \<Rightarrow> fault + int \<times> bytes list" where
  "storage_scan_files F max_len mem d =
     (if f_opendir F d = 0
      then andthen (scan_entries (fst (f_readdirs F d)) (snd (f_readdirs F d)) max_len [] mem) (\<lambda>(res, found). Inr (int res, found))
      else Inr (int (f_opendir F d), []))"

text \<open>A name as a string: the byte behind its 32 was never written.\<close>

definition c_name :: "bytes \<Rightarrow> fault + bytes" where
  "c_name name = (if 0 \<in> set name then Inr (cstr name) else Inl Uninitialised)"

text \<open>The results of a write: the return value, the bytes written and the offset, which are zero before.\<close>

definition storage_write_data :: "('d, 'f) fat \<Rightarrow> bytes \<Rightarrow> bytes \<Rightarrow> nat \<Rightarrow> 'd \<Rightarrow> fault + (int \<times> nat \<times> nat) \<times> 'd" where
  "storage_write_data F name buf bytes_to_write d =
     (let len = min (length buf) bytes_to_write
      in if 0x2F \<in> set (take STORAGE_LOG_LEN name) then Inr ((TOCK_EINVAL, 0, 0), d)
         else if strnlen name STORAGE_LOG_LEN = STORAGE_LOG_LEN then Inr ((TOCK_ESIZE, 0, 0), d)
         else andthen (c_name name) (\<lambda>path.
              let (res, fp, d1) = f_open F path True d
              in if res \<noteq> 0 then Inr ((TOCK_FAIL, 0, 0), d1)
                 else let offset = f_ptr F fp; (res2, written, fp2, d2) = f_write F fp (take len buf) d1
                 in if res2 \<noteq> 0 then Inr ((TOCK_FAIL, written, offset), d2)
                    else let (res3, d3) = f_close F fp2 d2
                    in Inr ((if res3 \<noteq> 0 then TOCK_FAIL else TOCK_SUCCESS, written, offset), d3)))"

definition storage_read_data :: "('d, 'f) fat \<Rightarrow> bytes \<Rightarrow> nat \<Rightarrow> nat \<Rightarrow> 'd \<Rightarrow> fault + (int \<times> bytes) \<times> 'd" where
  "storage_read_data F name offset len d =
     andthen (c_name name) (\<lambda>path.
     let (res, fp, d1) = f_open F path False d
     in if res \<noteq> 0 then Inr ((TOCK_FAIL, []), d1)
        else let (res1, fp1, d2) = f_lseek F fp offset d1
        in if res1 \<noteq> 0 then Inr ((TOCK_FAIL, []), d2)
           else let (res2, xs, fp2, d3) = f_read F fp1 len d2
           in if res2 \<noteq> 0 then Inr ((TOCK_FAIL, xs), d3)
              else let (res3, d4) = f_close F fp2 d3
              in Inr ((if res3 \<noteq> 0 then TOCK_FAIL else TOCK_SUCCESS, xs), d4))"

definition storage_del_data :: "('d, 'f) fat \<Rightarrow> bytes \<Rightarrow> 'd \<Rightarrow> fault + int \<times> 'd" where
  "storage_del_data F name d =
     andthen (c_name name) (\<lambda>path. let (res, d1) = f_unlink F path d in Inr (if res \<noteq> 0 then TOCK_FAIL else TOCK_SUCCESS, d1))"

text \<open>Mounting; without a disk it is tried for ever.\<close>

partial_function (option) mount_loop :: "('d, 'f) fat \<Rightarrow> nat \<Rightarrow> 'd \<Rightarrow> (int \<times> 'd) option" where
  "mount_loop F res d =
     (if res = 0 then Some (TOCK_SUCCESS, d)
      else if res = FR_NOT_READY then mount_loop F (fst (f_mount F d)) (snd (f_mount F d))
      else if res = FR_NO_FILESYSTEM
      then (let (res1, d1) = f_mkfs F d
            in if res1 \<noteq> 0 then Some (TOCK_FAIL, d1)
               else let (res2, d2) = f_mount F d1
               in if res2 \<noteq> 0 then Some (TOCK_FAIL, d2) else mount_loop F res2 d2)
      else Some (TOCK_FAIL, d))"

definition storage_initialize :: "('d, 'f) fat \<Rightarrow> 'd \<Rightarrow> (int \<times> 'd) option" where
  "storage_initialize F d = mount_loop F (fst (f_mount F d)) (snd (f_mount F d))"

section \<open>The program\<close>

record 'd storage =
  snode :: api
  disk :: 'd

definition reply_error :: "mbedtls \<Rightarrow> byte \<Rightarrow> byte \<Rightarrow> byte \<Rightarrow> int \<Rightarrow> 'd storage \<Rightarrow> fault + 'd storage" where
  "reply_error m dest api mt err s =
     andthen (signpost_api_error_reply_repeating m dest api mt err 1 (snode s)) (\<lambda>a. Inr (s\<lparr>snode := a\<rparr>))"

text \<open>A reply; when it fails, its error code is the next reply.\<close>

definition reply_or_error :: "mbedtls \<Rightarrow> byte \<Rightarrow> byte \<Rightarrow> (api \<Rightarrow> fault + int \<times> api) \<Rightarrow> 'd storage \<Rightarrow> fault + 'd storage" where
  "reply_or_error m dest mt reply s =
     andthen (reply (snode s)) (\<lambda>(err, a).
     let s1 = s\<lparr>snode := a\<rparr> in if err < TOCK_SUCCESS then reply_error m dest StorageApiType mt err s1 else Inr s1)"

definition try_malloc :: "'d storage \<Rightarrow> bool \<times> 'd storage" where
  "try_malloc s = (let (ok, a) = api_malloc (snode s) in (ok, s\<lparr>snode := a\<rparr>))"

text \<open>\<open>strncpy\<close> of the name: it reads to its end, wherever that is.\<close>

definition copy_logname :: "bytes \<Rightarrow> fault + bytes" where
  "copy_logname msg =
     (if length msg < STORAGE_LOG_LEN \<and> 0 \<notin> set msg then Inl OutOfBounds else Inr (strncpy_bytes msg STORAGE_LOG_LEN))"

definition storage_scan_command :: "('d, 'f) fat \<Rightarrow> mbedtls \<Rightarrow> byte \<Rightarrow> nat \<Rightarrow> bytes \<Rightarrow> 'd storage \<Rightarrow> fault + 'd storage" where
  "storage_scan_command F m src len msg s =
     (if len < 4 then reply_error m src StorageApiType StorageScanMessage TOCK_ESIZE s
      else andthen (read_at msg 0 4) (\<lambda>b.
           let list_len = unat (of_le32 b); (ok, s1) = try_malloc s
           in if \<not> ok then reply_error m src StorageApiType StorageScanMessage TOCK_ENOMEM s1
              else andthen (storage_scan_files F list_len (replicate (list_len * STORAGE_RECORD_LEN mod 2 ^ 32) 0) (disk s1)) (\<lambda>(err, found).
                   if err < TOCK_SUCCESS then reply_error m src StorageApiType StorageScanMessage err s1
                   else reply_or_error m src StorageScanMessage (signpost_storage_scan_reply m src (concat found) (length found)) s1)))"

definition storage_write_command :: "('d, 'f) fat \<Rightarrow> mbedtls \<Rightarrow> byte \<Rightarrow> nat \<Rightarrow> bytes \<Rightarrow> 'd storage \<Rightarrow> fault + 'd storage" where
  "storage_write_command F m src len msg s =
     andthen (copy_logname msg) (\<lambda>logname.
     let logname_len = strnlen logname STORAGE_LOG_LEN
     in if logname_len + 4 + 1 > len then reply_error m src StorageApiType StorageWriteMessage TOCK_ENOMEM s
        else let data_len = len - logname_len - 1
        in andthen (read_at msg (logname_len + 1) data_len) (\<lambda>data.
           andthen (storage_write_data F logname data data_len (disk s)) (\<lambda>((err, bytes_written, offset), d).
           let s1 = s\<lparr>disk := d\<rparr>
           in if err < TOCK_SUCCESS \<or> bytes_written < data_len then reply_error m src StorageApiType StorageWriteMessage err s1
              else reply_or_error m src StorageWriteMessage
                     (signpost_storage_write_reply m src (storage_record logname (word_of_nat offset) (word_of_nat data_len))) s1)))"

definition storage_read_command :: "('d, 'f) fat \<Rightarrow> mbedtls \<Rightarrow> byte \<Rightarrow> nat \<Rightarrow> bytes \<Rightarrow> 'd storage \<Rightarrow> fault + 'd storage" where
  "storage_read_command F m src len msg s =
     andthen (copy_logname msg) (\<lambda>logname.
     let logname_len = strnlen logname STORAGE_LOG_LEN
     in if logname_len + 4 * 2 + 2 > len then reply_error m src StorageApiType StorageReadMessage TOCK_ENOMEM s
        else andthen (read_at msg (logname_len + 1) 4) (\<lambda>off.
             andthen (read_at msg (logname_len + 2 + 4) 4) (\<lambda>n.
             let offset = unat (of_le32 off); wanted = unat (of_le32 n); (ok, s1) = try_malloc s
             in if \<not> ok then reply_error m src StorageApiType StorageReadMessage TOCK_ENOMEM s1
                else andthen (storage_read_data F logname offset wanted (disk s1)) (\<lambda>((err, xs), d).
                     let s2 = s1\<lparr>disk := d\<rparr>
                     in if err < TOCK_SUCCESS \<or> length xs < wanted then reply_error m src StorageApiType StorageReadMessage err s2
                        else reply_or_error m src StorageReadMessage (signpost_storage_read_reply m src xs wanted) s2))))"

definition storage_delete_command :: "('d, 'f) fat \<Rightarrow> mbedtls \<Rightarrow> byte \<Rightarrow> bytes \<Rightarrow> 'd storage \<Rightarrow> fault + 'd storage" where
  "storage_delete_command F m src msg s =
     andthen (copy_logname msg) (\<lambda>logname.
     andthen (storage_del_data F logname (disk s)) (\<lambda>(_, d).
     reply_or_error m src StorageDeleteMessage (signpost_storage_delete_reply m src (storage_record logname 0 0)) (s\<lparr>disk := d\<rparr>)))"

definition storage_api_callback ::
  "('d, 'f) fat \<Rightarrow> mbedtls \<Rightarrow> byte \<Rightarrow> byte \<Rightarrow> byte \<Rightarrow> byte \<Rightarrow> nat \<Rightarrow> bytes \<Rightarrow> 'd storage \<Rightarrow> fault + 'd storage" where
  "storage_api_callback F m src frame api mt len msg s =
     (if api \<noteq> StorageApiType then reply_error m src api mt PORT_EINVAL s
      else if frame = CommandFrame
      then if mt = StorageScanMessage then storage_scan_command F m src len msg s
           else if mt = StorageWriteMessage then storage_write_command F m src len msg s
           else if mt = StorageReadMessage then storage_read_command F m src len msg s
           else if mt = StorageDeleteMessage then storage_delete_command F m src msg s
           else Inr s
      else Inr s)"

text \<open>The start: the volume is mounted, then the initialisation is tried until it succeeds.\<close>

definition storage_handlers :: "api_handler list" where
  "storage_handlers = [\<lparr>h_api_type = StorageApiType, h_callback = UserHandler 0\<rparr>]"

partial_function (option) storage_init_loop ::
  "user \<Rightarrow> mbedtls \<Rightarrow> api_event list \<Rightarrow> 'd storage \<Rightarrow> (fault + 'd storage \<times> api_event list) option" where
  "storage_init_loop H m evs s =
     (case signpost_initialization_module_init H m (chars ''signpost'') (chars ''storage'') ModuleAddressStorage
             storage_handlers evs (snode s) of
        None \<Rightarrow> None
      | Some (Inl f) \<Rightarrow> Some (Inl f)
      | Some (Inr (rc, a, evs')) \<Rightarrow>
          if rc < 0 then storage_init_loop H m evs' (s\<lparr>snode := a\<rparr>) else Some (Inr (s\<lparr>snode := a\<rparr>, evs')))"

definition storage_start ::
  "('d, 'f) fat \<Rightarrow> user \<Rightarrow> mbedtls \<Rightarrow> api_event list \<Rightarrow> 'd storage \<Rightarrow> (int \<times> (fault + 'd storage \<times> api_event list)) option" where
  "storage_start F H m evs s =
     (case storage_initialize F (disk s) of
        None \<Rightarrow> None
      | Some (rc, d) \<Rightarrow>
          let s1 = s\<lparr>disk := d\<rparr>
          in if rc \<noteq> TOCK_SUCCESS then Some (rc, Inr (s1, evs))
             else map_option (\<lambda>res. (TOCK_SUCCESS, res)) (storage_init_loop H m evs s1))"

section \<open>What the program relies on\<close>

text \<open>
  A working volume of FatFs: \<open>files\<close> are its contents under the case-folded names \<open>key\<close>, \<open>at\<close> the file and position of an open
  file. Appending starts at the end and writes a prefix, all of it unless the volume is full; reading gives the bytes there.
\<close>

definition contents :: "('d \<Rightarrow> bytes \<Rightarrow> bytes option) \<Rightarrow> 'd \<Rightarrow> bytes \<Rightarrow> bytes" where
  "contents files d k = (case files d k of None \<Rightarrow> [] | Some xs \<Rightarrow> xs)"

definition appends_at_end :: "('d, 'f) fat \<Rightarrow> (bytes \<Rightarrow> bytes) \<Rightarrow> ('d \<Rightarrow> bytes \<Rightarrow> bytes option) \<Rightarrow> ('f \<Rightarrow> bytes \<times> nat) \<Rightarrow> bool" where
  "appends_at_end F key files at \<longleftrightarrow> (\<forall>name d res fp d'. f_open F name True d = (res, fp, d') \<longrightarrow>
     res = 0 \<and> at fp = (key name, length (contents files d (key name))) \<and> f_ptr F fp = length (contents files d (key name)) \<and>
     files d' = (files d)(key name \<mapsto> contents files d (key name)))"

definition writes_prefix :: "('d, 'f) fat \<Rightarrow> ('d \<Rightarrow> bytes \<Rightarrow> bytes option) \<Rightarrow> ('f \<Rightarrow> bytes \<times> nat) \<Rightarrow> bool" where
  "writes_prefix F files at \<longleftrightarrow> (\<forall>fp xs d res n fp' d' k old. f_write F fp xs d = (res, n, fp', d') \<longrightarrow>
     at fp = (k, length old) \<longrightarrow> files d k = Some old \<longrightarrow> res = 0 \<and> n \<le> length xs \<and> files d' = (files d)(k \<mapsto> old @ take n xs))"

definition opens_existing :: "('d, 'f) fat \<Rightarrow> (bytes \<Rightarrow> bytes) \<Rightarrow> ('d \<Rightarrow> bytes \<Rightarrow> bytes option) \<Rightarrow> ('f \<Rightarrow> bytes \<times> nat) \<Rightarrow> bool" where
  "opens_existing F key files at \<longleftrightarrow> (\<forall>name d res fp d'. f_open F name False d = (res, fp, d') \<longrightarrow>
     files d' = files d \<and> (res = 0 \<longleftrightarrow> files d (key name) \<noteq> None) \<and> (res = 0 \<longrightarrow> at fp = (key name, 0)))"

definition seeks :: "('d, 'f) fat \<Rightarrow> ('d \<Rightarrow> bytes \<Rightarrow> bytes option) \<Rightarrow> ('f \<Rightarrow> bytes \<times> nat) \<Rightarrow> bool" where
  "seeks F files at \<longleftrightarrow>
     (\<forall>fp p d res fp' d' k i xs. f_lseek F fp p d = (res, fp', d') \<longrightarrow> at fp = (k, i) \<longrightarrow> files d k = Some xs \<longrightarrow>
        res = 0 \<and> files d' = files d \<and> at fp' = (k, min p (length xs)))"

definition reads_there :: "('d, 'f) fat \<Rightarrow> ('d \<Rightarrow> bytes \<Rightarrow> bytes option) \<Rightarrow> ('f \<Rightarrow> bytes \<times> nat) \<Rightarrow> bool" where
  "reads_there F files at \<longleftrightarrow> (\<forall>fp n d res ys fp' d' k i xs. f_read F fp n d = (res, ys, fp', d') \<longrightarrow> at fp = (k, i) \<longrightarrow> files d k = Some xs \<longrightarrow>
        res = 0 \<and> files d' = files d \<and> ys = take n (drop i xs))"

definition closes :: "('d, 'f) fat \<Rightarrow> ('d \<Rightarrow> bytes \<Rightarrow> bytes option) \<Rightarrow> bool" where
  "closes F files \<longleftrightarrow> (\<forall>fp d res d'. f_close F fp d = (res, d') \<longrightarrow> res = 0 \<and> files d' = files d)"

definition fat_works :: "('d, 'f) fat \<Rightarrow> (bytes \<Rightarrow> bytes) \<Rightarrow> ('d \<Rightarrow> bytes \<Rightarrow> bytes option) \<Rightarrow> ('f \<Rightarrow> bytes \<times> nat) \<Rightarrow> bool" where
  "fat_works F key files at \<longleftrightarrow> appends_at_end F key files at \<and> writes_prefix F files at \<and> opens_existing F key files at \<and>
     seeks F files at \<and> reads_there F files at \<and> closes F files"

lemma open_append_works:
  assumes "fat_works F key files at" "f_open F name True d = (res, fp, d')"
  shows "res = 0 \<and> at fp = (key name, length (contents files d (key name))) \<and> f_ptr F fp = length (contents files d (key name)) \<and>
     files d' = (files d)(key name \<mapsto> contents files d (key name))"
  using assms unfolding fat_works_def appends_at_end_def by fast

lemma write_works:
  assumes "fat_works F key files at" "f_write F fp xs d = (res, n, fp', d')" "at fp = (k, length old)" "files d k = Some old"
  shows "res = 0 \<and> n \<le> length xs \<and> files d' = (files d)(k \<mapsto> old @ take n xs)"
  using assms unfolding fat_works_def writes_prefix_def by fast

lemma close_works: "fat_works F key files at \<Longrightarrow> f_close F fp d = (res, d') \<Longrightarrow> res = 0 \<and> files d' = files d"
  unfolding fat_works_def closes_def by fast

lemma open_read_works:
  assumes "fat_works F key files at" "f_open F name False d = (res, fp, d')"
  shows "files d' = files d \<and> (res = 0 \<longleftrightarrow> files d (key name) \<noteq> None) \<and> (res = 0 \<longrightarrow> at fp = (key name, 0))"
  using assms unfolding fat_works_def opens_existing_def by fast

lemma lseek_works:
  assumes "fat_works F key files at" "f_lseek F fp p d = (res, fp', d')" "at fp = (k, i)" "files d k = Some xs"
  shows "res = 0 \<and> files d' = files d \<and> at fp' = (k, min p (length xs))"
  using assms unfolding fat_works_def seeks_def by fast

lemma read_works:
  assumes "fat_works F key files at" "f_read F fp n d = (res, ys, fp', d')" "at fp = (k, i)" "files d k = Some xs"
  shows "res = 0 \<and> files d' = files d \<and> ys = take n (drop i xs)"
  using assms unfolding fat_works_def reads_there_def by fast

section \<open>Logs\<close>

text \<open>A write appends to its log, or is refused and changes nothing.\<close>

lemma write_appends:
  assumes F: "fat_works F key files at" and w: "storage_write_data F name buf n d = Inr ((rc, bw, off), d')"
  shows "rc < 0 \<and> bw = 0 \<and> files d' = files d \<or>
    rc = 0 \<and> bw \<le> min (length buf) n \<and> off = length (contents files d (key (cstr name))) \<and>
    files d' = (files d)(key (cstr name) \<mapsto> contents files d (key (cstr name)) @ take bw buf)"
proof (cases "0x2F \<in> set (take STORAGE_LOG_LEN name) \<or> strnlen name STORAGE_LOG_LEN = STORAGE_LOG_LEN")
  case True
  then show ?thesis using w by (auto simp: storage_write_data_def tock_codes Let_def split: if_splits)
next
  case False
  let ?k = "key (cstr name)"
  obtain res fp d1 where o: "f_open F (cstr name) True d = (res, fp, d1)" by (metis prod_cases3)
  define old where "old = contents files d ?k"
  have old: "res = 0" "at fp = (?k, length old)" "f_ptr F fp = length old" "files d1 = (files d)(?k \<mapsto> old)"
    using open_append_works [OF F o] by (simp_all add: old_def)
  obtain res2 k fp2 d2 where wr: "f_write F fp (take (min (length buf) n) buf) d1 = (res2, k, fp2, d2)" by (metis prod_cases4)
  then have wr': "res2 = 0" "k \<le> min (length buf) n" "files d2 = (files d)(?k \<mapsto> old @ take k buf)"
    using write_works [OF F wr old(2)] old(4) by (auto simp: min_def)
  obtain res3 d3 where cl: "f_close F fp2 d2 = (res3, d3)" by (metis prod.collapse)
  have "0 \<in> set name"
    using False w by (auto simp: storage_write_data_def c_name_def Let_def split: if_splits)
  then have "rc = 0 \<and> bw = k \<and> off = length old \<and> d' = d3"
    using w False o old(1,3) wr wr'(1) cl close_works [OF F cl] by (simp add: storage_write_data_def c_name_def Let_def tock_codes)
  then show ?thesis using close_works [OF F cl] wr' by (simp add: old_def)
qed

lemma read_keeps:
  assumes F: "fat_works F key files at" and r: "storage_read_data F name off n d = Inr ((rc, xs), d')"
  shows "files d' = files d \<and> (0 \<in> set name \<longrightarrow> files d (key (cstr name)) = Some ys \<longrightarrow> rc = 0 \<and> xs = take n (drop off ys))"
proof -
  have z: "0 \<in> set name" using r by (auto simp: storage_read_data_def c_name_def split: if_splits)
  let ?k = "key (cstr name)"
  obtain res fp d1 where o: "f_open F (cstr name) False d = (res, fp, d1)" by (metis prod_cases3)
  note o' = open_read_works [OF F o]
  show ?thesis
  proof (cases "files d ?k")
    case None
    then have "d' = d1" using r z o o' by (auto simp: storage_read_data_def c_name_def)
    then show ?thesis using o' None by simp
  next
    case (Some zs)
    then have res: "res = 0" "at fp = (?k, 0)" "files d1 ?k = Some zs" using o' by auto
    obtain res1 fp1 d2 where l: "f_lseek F fp off d1 = (res1, fp1, d2)" by (metis prod_cases3)
    note l' = lseek_works [OF F l res(2,3)]
    obtain res2 us fp2 d3 where rd: "f_read F fp1 n d2 = (res2, us, fp2, d3)" by (metis prod_cases4)
    have rd': "res2 = 0" "files d3 = files d2" "us = take n (drop (min off (length zs)) zs)"
      using read_works [OF F rd, of ?k _ zs] l' res(3) by auto
    obtain res3 d4 where cl: "f_close F fp2 d3 = (res3, d4)" by (metis prod.collapse)
    have "rc = 0 \<and> xs = us \<and> d' = d4"
      using r z o res(1) l l' rd rd'(1) cl close_works [OF F cl] by (simp add: storage_read_data_def c_name_def tock_codes)
    moreover have "drop (min off (length zs)) zs = drop off zs" by (simp add: min_def)
    ultimately show ?thesis using close_works [OF F cl] rd' l' o' Some by auto
  qed
qed

text \<open>Replies and memory leave the volume alone.\<close>

lemma reply_error_disk: "reply_error m dest api mt err s = Inr s' \<Longrightarrow> disk s' = disk s"
  by (auto simp: reply_error_def elim!: andthen_InrE)

lemma reply_or_error_disk: "reply_or_error m dest mt reply s = Inr s' \<Longrightarrow> disk s' = disk s"
  by (auto simp: reply_or_error_def Let_def elim!: andthen_InrE split: if_splits dest!: reply_error_disk)

lemma try_malloc_disk: "try_malloc s = (ok, s') \<Longrightarrow> disk s' = disk s"
  by (auto simp: try_malloc_def split: prod.splits)

lemmas keeps_disk = reply_error_disk reply_or_error_disk try_malloc_disk

definition grows :: "('d \<Rightarrow> bytes \<Rightarrow> bytes option) \<Rightarrow> 'd \<Rightarrow> 'd \<Rightarrow> bool" where
  "grows files d d' \<longleftrightarrow> (\<forall>k xs. files d k = Some xs \<longrightarrow> (\<exists>ys. files d' k = Some (xs @ ys)))"

lemma grows_same: "files d' = files d \<Longrightarrow> grows files d d'"
  by (simp add: grows_def)

lemma grows_trans: "grows files d d1 \<Longrightarrow> grows files d1 d2 \<Longrightarrow> grows files d d2"
  by (fastforce simp: grows_def)

lemma grows_append: "files d' = (files d)(k \<mapsto> contents files d k @ ys) \<Longrightarrow> grows files d d'"
  by (auto simp: grows_def contents_def)

lemma write_command_grows:
  assumes F: "fat_works F key files at" and w: "storage_write_command F m src len msg s = Inr s'"
  shows "grows files (disk s) (disk s')"
proof -
  obtain name where name: "copy_logname msg = Inr name" using w by (auto simp: storage_write_command_def elim!: andthen_InrE)
  show ?thesis
  proof (cases "strnlen name STORAGE_LOG_LEN + 4 + 1 > len")
    case True
    then show ?thesis using w name by (auto simp: storage_write_command_def intro!: grows_same dest!: keeps_disk)
  next
    case False
    then obtain data err n off d where "storage_write_data F name data (len - strnlen name STORAGE_LOG_LEN - 1) (disk s) = Inr ((err, n, off), d)"
      "disk s' = d"
      using w name by (auto simp: storage_write_command_def Let_def elim!: andthen_InrE split: if_splits dest!: keeps_disk)
    then show ?thesis using write_appends [OF F] grows_same grows_append by metis
  qed
qed

lemma read_command_keeps:
  assumes F: "fat_works F key files at" and r: "storage_read_command F m src len msg s = Inr s'"
  shows "files (disk s') = files (disk s)"
proof -
  have read: "files d' = files d" if "storage_read_data F name off n d = Inr ((rc, xs), d')" for name off n d rc xs d'
    using read_keeps [OF F that] by blast
  show ?thesis
    using r by (auto simp: storage_read_command_def Let_def split_beta elim!: andthen_InrE split: if_splits dest!: keeps_disk read)
       (auto simp: try_malloc_def split_beta)
qed

lemma scan_command_keeps: "storage_scan_command F m src len msg s = Inr s' \<Longrightarrow> disk s' = disk s"
  by (auto simp: storage_scan_command_def Let_def split_beta elim!: andthen_InrE split: if_splits dest!: keeps_disk)
     (auto simp: try_malloc_def split_beta)

type_synonym storage_message = "byte \<times> byte \<times> byte \<times> byte \<times> nat \<times> bytes"

fun storage_run :: "('d, 'f) fat \<Rightarrow> mbedtls \<Rightarrow> storage_message list \<Rightarrow> 'd storage \<Rightarrow> fault + 'd storage" where
  "storage_run F m [] s = Inr s"
| "storage_run F m ((src, frame, api, mt, len, msg) # ms) s =
     andthen (storage_api_callback F m src frame api mt len msg s) (storage_run F m ms)"

definition deletes :: "storage_message \<Rightarrow> bool" where
  "deletes x \<longleftrightarrow> (case x of (src, frame, api, mt, len, msg) \<Rightarrow> frame = CommandFrame \<and> api = StorageApiType \<and> mt = StorageDeleteMessage)"

lemma callback_grows:
  assumes "fat_works F key files at" "storage_api_callback F m src frame api mt len msg s = Inr s'" "\<not> deletes (src, frame, api, mt, len, msg)"
  shows "grows files (disk s) (disk s')"
  using assms(2,3) write_command_grows [OF assms(1)] read_command_keeps [OF assms(1)]
  by (auto simp: storage_api_callback_def deletes_def intro: grows_same dest!: scan_command_keeps reply_error_disk split: if_splits)

lemma run_grows:
  assumes "fat_works F key files at"
  shows "storage_run F m ms s = Inr s' \<Longrightarrow> \<not> list_ex deletes ms \<Longrightarrow> grows files (disk s) (disk s')"
proof (induction ms arbitrary: s)
  case Nil
  then show ?case by (simp add: grows_same)
next
  case (Cons x ms)
  then show ?case
    by (cases x) (auto elim!: andthen_InrE intro: grows_trans dest: callback_grows [OF assms])
qed

section \<open>Commands\<close>

text \<open>A name that a log can have, and the messages for it.\<close>

definition log_name :: "bytes \<Rightarrow> bool" where
  "log_name name \<longleftrightarrow> length name < 32 \<and> 0 \<notin> set name \<and> 0x2F \<notin> set name"

lemma name_in_message:
  assumes "log_name name"
  shows "copy_logname (name @ 0 # rest) = Inr (strncpy_bytes name 32)" "strnlen (strncpy_bytes name 32) 32 = length name"
    "cstr (strncpy_bytes name 32) = name" "cstr name = name" "0 \<in> set (strncpy_bytes name 32)" "0x2F \<notin> set (strncpy_bytes name 32)"
proof -
  have c: "cstr (name @ 0 # rest) = name" "cstr name = name"
  proof -
    have "takeWhile (\<lambda>c. c \<noteq> 0) (name @ 0 # ys) = name" for ys
      using assms by (subst takeWhile_append2) (auto simp: log_name_def)
    then show "cstr (name @ 0 # rest) = name" by (simp add: cstr_def)
    show "cstr name = name" using assms by (auto simp: log_name_def cstr_def takeWhile_eq_all_conv)
  qed
  show "cstr name = name" by (fact c(2))
  show "copy_logname (name @ 0 # rest) = Inr (strncpy_bytes name 32)"
    using c by (simp add: copy_logname_def strncpy_bytes_def STORAGE_LOG_LEN_def)
  show k: "cstr (strncpy_bytes name 32) = name" using assms c(2) by (simp add: cstr_strncpy log_name_def)
  show "strnlen (strncpy_bytes name 32) 32 = length name" using assms k by (simp add: strnlen_eq log_name_def)
  show "0 \<in> set (strncpy_bytes name 32)" using assms c(2) by (simp add: strncpy_bytes_def log_name_def)
  show "0x2F \<notin> set (strncpy_bytes name 32)" using assms c(2) by (auto simp: strncpy_bytes_def log_name_def dest: in_set_takeD)
qed

text \<open>A write to a log on a working volume succeeds.\<close>

lemma write_succeeds:
  assumes F: "fat_works F key files at" and "log_name name"
  shows "\<exists>n d'. n \<le> length data \<and> files d' = (files d)(key name \<mapsto> contents files d (key name) @ take n data) \<and>
    storage_write_data F (strncpy_bytes name 32) data (length data) d = Inr ((TOCK_SUCCESS, n, length (contents files d (key name))), d')"
proof -
  note name = name_in_message [OF assms(2)]
  have ok: "0x2F \<notin> set (take 32 (strncpy_bytes name 32))" using name(6) in_set_takeD by fast
  have short: "strnlen (strncpy_bytes name 32) 32 \<noteq> 32" using name(2) assms(2) by (simp add: log_name_def)
  obtain res fp d1 where o: "f_open F name True d = (res, fp, d1)" by (metis prod_cases3)
  obtain res2 k fp2 d2 where wr: "f_write F fp data d1 = (res2, k, fp2, d2)" by (metis prod_cases4)
  obtain res3 d3 where cl: "f_close F fp2 d2 = (res3, d3)" by (metis prod.collapse)
  note o' = open_append_works [OF F o]
  have "res2 = 0" using write_works [OF F wr, of "key name" "contents files d (key name)"] o' by simp
  then have w: "storage_write_data F (strncpy_bytes name 32) data (length data) d = Inr ((TOCK_SUCCESS, k, length (contents files d (key name))), d3)"
    using ok short name(3,5) o o' wr cl close_works [OF F cl]
    by (simp add: storage_write_data_def c_name_def STORAGE_LOG_LEN_def Let_def)
  then show ?thesis using write_appends [OF F w] name(3) by (auto simp: TOCK_SUCCESS_def)
qed

lemma write_command_run:
  fixes s :: "'d storage" and F :: "('d, 'f) fat"
  assumes "fat_works F key files at" "log_name name"
  defines "old \<equiv> contents files (disk s) (key name)"
  shows "\<exists>n d. n \<le> length data \<and> files d = (files (disk s))(key name \<mapsto> old @ take n data) \<and>
    storage_api_callback F m src CommandFrame StorageApiType StorageWriteMessage (length name + 1 + length data) (name @ [0] @ data @ rest) s =
      (if length data < 4 then reply_error m src StorageApiType StorageWriteMessage TOCK_ENOMEM s
       else if n < length data then reply_error m src StorageApiType StorageWriteMessage 0 (s\<lparr>disk := d\<rparr>)
       else reply_or_error m src StorageWriteMessage (signpost_storage_write_reply m src
         (storage_record name (word_of_nat (length old)) (word_of_nat (length data)))) (s\<lparr>disk := d\<rparr>))"
proof -
  note name = name_in_message [OF assms(2)]
  obtain n d where n: "n \<le> length data" "files d = (files (disk s))(key name \<mapsto> old @ take n data)"
    "storage_write_data F (strncpy_bytes name 32) data (length data) (disk s) = Inr ((TOCK_SUCCESS, n, length old), d)"
    using write_succeeds [OF assms(1,2), of data "disk s"] unfolding old_def by blast
  have rd: "read_at (name @ [0] @ data @ rest) (length name + 1) (length data) = Inr data" by (simp add: read_at_def)
  have rec: "storage_record (strncpy_bytes name 32) = storage_record name"
    using name(3,4) by (intro ext) (simp add: storage_record_def strncpy_bytes_def STORAGE_LOG_LEN_def cstr_strncpy)
  have "storage_api_callback F m src CommandFrame StorageApiType StorageWriteMessage (length name + 1 + length data) (name @ [0] @ data @ rest) s =
    storage_write_command F m src (length name + 1 + length data) (name @ [0] @ data @ rest) s"
    by (simp add: storage_api_callback_def StorageScanMessage_def StorageWriteMessage_def)
  also have "\<dots> = (if length data < 4 then reply_error m src StorageApiType StorageWriteMessage TOCK_ENOMEM s
       else if n < length data then reply_error m src StorageApiType StorageWriteMessage 0 (s\<lparr>disk := d\<rparr>)
       else reply_or_error m src StorageWriteMessage (signpost_storage_write_reply m src
         (storage_record name (word_of_nat (length old)) (word_of_nat (length data)))) (s\<lparr>disk := d\<rparr>))"
    using name(1,2) n(3) rd rec by (simp add: storage_write_command_def STORAGE_LOG_LEN_def TOCK_SUCCESS_def Let_def)
  finally show ?thesis using n(1,2) by blast
qed

text \<open>C22: a write command appends its data to the log, or as much of it as there is room for, and leaves the other logs alone.
  The reply names the offset and the length; when the volume was full the reply is an error with the code of success.
  Data of less than four bytes is refused as if there was no memory.\<close>

theorem write_command_appends:
  fixes s :: "'d storage" and F :: "('d, 'f) fat"
  assumes "fat_works F key files at" "log_name name"
  defines "old \<equiv> contents files (disk s) (key name)"
  shows "\<exists>n d. n \<le> length data \<and> files d = (files (disk s))(key name \<mapsto> old @ take n data) \<and>
    storage_api_callback F m src CommandFrame StorageApiType StorageWriteMessage (length name + 1 + length data) (name @ [0] @ data @ rest) s =
      (if length data < 4 then reply_error m src StorageApiType StorageWriteMessage TOCK_ENOMEM s
       else if n < length data then reply_error m src StorageApiType StorageWriteMessage 0 (s\<lparr>disk := d\<rparr>)
       else reply_or_error m src StorageWriteMessage (signpost_storage_write_reply m src
         (storage_record name (word_of_nat (length old)) (word_of_nat (length data)))) (s\<lparr>disk := d\<rparr>))"
  unfolding old_def by (rule write_command_run [OF assms(1,2)])

text \<open>Data that was written stays where the reply says, until its log is deleted.\<close>

lemma read_written:
  assumes F: "fat_works F key files at" and name: "log_name name" and xs: "files (disk s) (key name) = Some xs"
    and fits: "off < 2 ^ 32" "n < 2 ^ 32" and part: "take n (drop off xs) = ys" "length ys = n" and mem: "try_malloc s = (True, s1)"
  shows "\<exists>d. files d = files (disk s) \<and>
    storage_api_callback F m src CommandFrame StorageApiType StorageReadMessage (length name + 10)
      (name @ [0] @ le32 (word_of_nat off) @ [0] @ le32 (word_of_nat n)) s =
    reply_or_error m src StorageReadMessage (signpost_storage_read_reply m src ys n) (s1\<lparr>disk := d\<rparr>)"
proof -
  note nm = name_in_message [OF name]
  let ?msg = "name @ [0] @ le32 (word_of_nat off) @ [0] @ le32 (word_of_nat n)"
  have disk: "disk s1 = disk s" by (rule try_malloc_disk [OF mem])
  obtain res fp d1 where o: "f_open F name False (disk s) = (res, fp, d1)" by (metis prod_cases3)
  note o' = open_read_works [OF F o]
  have at: "res = 0" "at fp = (key name, 0)" "files d1 (key name) = Some xs" using o' xs by auto
  obtain res1 fp1 d2 where l: "f_lseek F fp off d1 = (res1, fp1, d2)" by (metis prod_cases3)
  note l' = lseek_works [OF F l at(2,3)]
  obtain res2 us fp2 d3 where r: "f_read F fp1 n d2 = (res2, us, fp2, d3)" by (metis prod_cases4)
  have r': "res2 = 0 \<and> files d3 = files d2 \<and> us = take n (drop (min off (length xs)) xs)"
    using read_works [OF F r, of "key name" _ xs] l' at(3) by simp
  moreover have "drop (min off (length xs)) xs = drop off xs" by (simp add: min_def)
  ultimately have us: "us = ys" using part(1) by simp
  obtain res3 d4 where cl: "f_close F fp2 d3 = (res3, d4)" by (metis prod.collapse)
  have read: "storage_read_data F (strncpy_bytes name 32) off n (disk s) = Inr ((TOCK_SUCCESS, ys), d4)"
    using nm(3,5) o at(1) l l' r r' us cl close_works [OF F cl] by (simp add: storage_read_data_def c_name_def)
  have rd: "read_at ?msg (length name + 1) 4 = Inr (le32 (word_of_nat off))" "read_at ?msg (length name + 2 + 4) 4 = Inr (le32 (word_of_nat n))"
    by (simp_all add: read_at_def)
  have u: "unat (word_of_nat off :: u32) = off" "unat (word_of_nat n :: u32) = n" using fits by (simp_all add: unat_of_nat)
  have "storage_api_callback F m src CommandFrame StorageApiType StorageReadMessage (length name + 10) ?msg s =
    storage_read_command F m src (length name + 10) ?msg s"
    by (simp add: storage_api_callback_def StorageScanMessage_def StorageWriteMessage_def StorageReadMessage_def)
  also have "\<dots> = reply_or_error m src StorageReadMessage (signpost_storage_read_reply m src ys n) (s1\<lparr>disk := d4\<rparr>)"
    using nm(1,2) mem rd u disk read part(2) by (simp add: storage_read_command_def STORAGE_LOG_LEN_def Let_def TOCK_SUCCESS_def)
  finally show ?thesis using close_works [OF F cl] r' l' o' by auto
qed

text \<open>C2: what a write command stored is what a read command with the offset and length of its reply is answered
  with, whatever commands other than deletions come in between.\<close>

theorem stored_data_read_back:
  fixes s s1 s2 s3 :: "'d storage" and F :: "('d, 'f) fat"
  assumes "fat_works F key files at" "log_name name" "4 \<le> length data"
    and "storage_api_callback F m src CommandFrame StorageApiType StorageWriteMessage (length name + 1 + length data) (name @ [0] @ data @ rest) s = Inr s1"
    and "storage_run F m ms s1 = Inr s2" "\<not> list_ex deletes ms"
    and "try_malloc s2 = (True, s3)"
  defines "old \<equiv> contents files (disk s) (key name)"
  assumes "length old < 2 ^ 32" "length data < 2 ^ 32"
  shows "\<exists>n d. n \<le> length data \<and> contents files (disk s1) (key name) = old @ take n data \<and> files d = files (disk s2) \<and>
    storage_api_callback F m src' CommandFrame StorageApiType StorageReadMessage (length name + 10)
      (name @ [0] @ le32 (word_of_nat (length old)) @ [0] @ le32 (word_of_nat n)) s2 =
    reply_or_error m src' StorageReadMessage (signpost_storage_read_reply m src' (take n data) n) (s3\<lparr>disk := d\<rparr>)"
proof -
  obtain n d where n: "n \<le> length data" "files d = (files (disk s))(key name \<mapsto> old @ take n data)"
    and run: "(if length data < 4 then reply_error m src StorageApiType StorageWriteMessage TOCK_ENOMEM s
       else if n < length data then reply_error m src StorageApiType StorageWriteMessage 0 (s\<lparr>disk := d\<rparr>)
       else reply_or_error m src StorageWriteMessage (signpost_storage_write_reply m src
         (storage_record name (word_of_nat (length old)) (word_of_nat (length data)))) (s\<lparr>disk := d\<rparr>)) = Inr s1"
    using write_command_run [OF assms(1,2), of data s m src rest] assms(4) unfolding old_def by auto
  have "disk s1 = d" using run assms(3) by (auto split: if_splits dest!: reply_error_disk reply_or_error_disk)
  then have s1: "files (disk s1) (key name) = Some (old @ take n data)" using n(2) by simp
  then obtain ys where s2: "files (disk s2) (key name) = Some ((old @ take n data) @ ys)"
    using run_grows [OF assms(1,5,6)] unfolding grows_def by blast
  have "take n (drop (length old) ((old @ take n data) @ ys)) = take n data" "length (take n data) = n" using n(1) by simp_all
  moreover have "n < 2 ^ 32" using n(1) assms(10) by simp
  ultimately show ?thesis
    using read_written [OF assms(1,2) s2 assms(9) _ _ _ assms(7), of n "take n data" m src'] s1 n(1) by (auto simp: contents_def)
qed

text \<open>A scan that failed is answered with an empty list, which the module takes for the result.\<close>

lemma failed_scan_is_empty:
  assumes "f_opendir F (disk s) \<noteq> 0" "try_malloc s = (True, s1)"
  shows "storage_api_callback F m src CommandFrame StorageApiType StorageScanMessage 4 (le32 n) s =
      reply_or_error m src StorageScanMessage (signpost_storage_scan_reply m src [] 0) s1"
    and "callback_length (svc a) \<Longrightarrow> \<not> callback_record (svc a) \<Longrightarrow>
      signpost_storage_scan_callback 0 a = Inr (a\<lparr>svc := (svc a)\<lparr>callback_record := False, callback_length := False, storage_result := False,
        storage_ready := True\<rparr>\<rparr>)"
  using assms try_malloc_disk [OF assms(2)]
  by (simp_all add: storage_api_callback_def storage_scan_command_def storage_scan_files_def TOCK_SUCCESS_def Let_def read_at_def
      signpost_storage_scan_callback_def PORT_SUCCESS_def)

text \<open>The memory for a scan is computed modulo \<open>2 ^ 32\<close>: for enough records there is room for none.\<close>

lemma scan_overflows:
  assumes "f_opendir F (disk s) = 0" "f_readdirs F (disk s) = (e # es, res)" "\<not> is_dir e" "try_malloc s = (True, s1)"
  shows "storage_api_callback F m src CommandFrame StorageApiType StorageScanMessage 4 (le32 0x40000000) s = Inl OutOfBounds"
proof -
  have "disk s1 = disk s" by (rule try_malloc_disk [OF assms(4)])
  then show ?thesis
    using assms by (simp add: storage_api_callback_def storage_scan_command_def storage_scan_files_def Let_def read_at_def
        STORAGE_RECORD_LEN_def memcpy_at_def storage_record_def)
qed

section \<open>A volume in memory\<close>

definition memory_volume :: "(bytes \<Rightarrow> bytes option, bytes \<times> nat) fat" where
  "memory_volume = \<lparr>
     f_open = (\<lambda>name app d. if app then (0, (name, length (contents id d name)), d(name \<mapsto> contents id d name))
       else (if d name = None then 4 else 0, (name, 0), d)),
     f_ptr = snd,
     f_write = (\<lambda>fp xs d. (0, length xs, (fst fp, snd fp + length xs), d(fst fp \<mapsto> contents id d (fst fp) @ xs))),
     f_lseek = (\<lambda>fp p d. (0, (fst fp, min p (length (contents id d (fst fp)))), d)),
     f_read = (\<lambda>fp n d. (0, take n (drop (snd fp) (contents id d (fst fp))), fp, d)),
     f_close = (\<lambda>fp d. (0, d)),
     f_unlink = (\<lambda>name d. (0, d(name := None))),
     f_opendir = (\<lambda>d. 0),
     f_readdirs = (\<lambda>d. ([], 0)),
     f_mount = (\<lambda>d. (0, d)),
     f_mkfs = (\<lambda>d. (0, d))\<rparr>"

lemma memory_volume_works: "fat_works memory_volume id id id"
  unfolding fat_works_def
  by (intro conjI) (auto simp: memory_volume_def appends_at_end_def writes_prefix_def opens_existing_def seeks_def reads_there_def
      closes_def contents_def)

definition toy_storage :: "(bytes \<Rightarrow> bytes option) storage" where
  "toy_storage = \<lparr>snode = toy_node, disk = (\<lambda>_. None)\<rparr>"

lemma send_keeps_memory:
  assumes "bus_clear m s" "length xs < 2 ^ 16 - 64" "signpost_api_send m dest fr ap mt (length xs) xs s = Inr (rc, s')"
  shows "malloc_rcs (penv s') = malloc_rcs (penv s)"
proof -
  have c: "mbedtls_ok m" "set_up s" "wr_rcs (penv s) = []" using assms(1) by (simp_all add: bus_clear_def)
  obtain n where n: "net_send m dest (signpost_api_addr_to_key (module_info s)) fr ap mt (length xs) xs (layers s) = Inr (rc, n)"
    and s': "s' = signpost_api_start_new_async_recv (s\<lparr>layers := n\<rparr>)"
    using assms(3) by (auto simp: signpost_api_send_def elim!: andthen_InrE)
  have "wr_rcs (seal_env k (penv s)) = []" for k using c(3) by (simp add: seal_env_def)
  then have "malloc_rcs (n_env n) = malloc_rcs (penv s)"
    using n unfolding net_send_write_all [OF c(1) assms(2)] by (auto simp: write_all_ok seal_env_def Let_def)
  moreover have "malloc_rcs (n_env n') = malloc_rcs (n_env n)" if "net_recv_async cb f b n = (r, n')" for cb f b r n'
    using that by (auto simp: net_recv_async_def signbus_app_recv_async_def signbus_protocol_recv_async_def
      signbus_io_recv_async_def port_signpost_i2c_slave_listen_def Let_def split: prod.splits option.splits)
  ultimately show ?thesis
    unfolding s' signpost_api_start_new_async_recv_def by (simp add: split_beta) (metis prod.collapse)
qed

lemma log_reply_sent:
  assumes "bus_clear toy_tls a" "log_name name"
  shows "\<exists>k a'. signpost_storage_write_reply toy_tls dest (storage_record name off len) a = Inr (int k, a') \<and> malloc_rcs (penv a') = malloc_rcs (penv a)"
proof -
  let ?r = "storage_record name off len"
  have l: "length ?r = STORAGE_RECORD_LEN" "length ?r < 2 ^ 16 - 64"
    using name_in_message(4) [OF assms(2)] assms(2)
    by (simp_all add: storage_record_def c_mem STORAGE_LOG_LEN_def STORAGE_RECORD_LEN_def)
  obtain k a' where r: "signpost_api_send toy_tls dest ResponseFrame StorageApiType StorageWriteMessage (length ?r) ?r a = Inr (int k, a')"
    by (rule request_sent [OF assms(1) l(2), of dest ResponseFrame StorageApiType StorageWriteMessage])
  then show ?thesis using send_keeps_memory [OF assms(1) l(2) r] by (auto simp: signpost_storage_write_reply_def l(1))
qed

definition sample_log :: bytes where "sample_log = chars ''log''"

lemma sample_log: "log_name sample_log"
  by code_simp

definition sample_data :: bytes where "sample_data = [1, 2, 3, 4]"

definition write_sample :: "(bytes \<Rightarrow> bytes option) storage \<Rightarrow> fault + (bytes \<Rightarrow> bytes option) storage" where
  "write_sample = storage_api_callback memory_volume toy_tls 0x30 CommandFrame StorageApiType StorageWriteMessage
     (length sample_log + 1 + length sample_data) (sample_log @ [0] @ sample_data @ [])"

theorem write_command_appends_witness:
  "\<exists>n d. n \<le> length sample_data \<and> d = [sample_log \<mapsto> take n sample_data] \<and>
    write_sample toy_storage =
      (if n < length sample_data then reply_error toy_tls 0x30 StorageApiType StorageWriteMessage 0 (toy_storage\<lparr>disk := d\<rparr>)
       else reply_or_error toy_tls 0x30 StorageWriteMessage (signpost_storage_write_reply toy_tls 0x30
         (storage_record sample_log (word_of_nat 0) (word_of_nat (length sample_data)))) (toy_storage\<lparr>disk := d\<rparr>))"
proof -
  have old: "contents id (disk toy_storage) (id sample_log) = []" "disk toy_storage = (\<lambda>_. None)" and data: "\<not> length sample_data < 4"
    by (simp_all add: toy_storage_def contents_def sample_data_def)
  obtain n d where "n \<le> length sample_data" "id d = (id (disk toy_storage))(id sample_log \<mapsto> [] @ take n sample_data)"
    "write_sample toy_storage = (if n < length sample_data then reply_error toy_tls 0x30 StorageApiType StorageWriteMessage 0 (toy_storage\<lparr>disk := d\<rparr>)
       else reply_or_error toy_tls 0x30 StorageWriteMessage (signpost_storage_write_reply toy_tls 0x30
         (storage_record sample_log (word_of_nat (length ([] :: bytes))) (word_of_nat (length sample_data)))) (toy_storage\<lparr>disk := d\<rparr>))"
    using write_command_appends [OF memory_volume_works sample_log, of sample_data toy_storage toy_tls "0x30" "[]"] data
    unfolding write_sample_def old(1) if_not_P [OF data] by blast
  then show ?thesis using old(2) by (intro exI [of _ n] exI [of _ d]) (simp only: id_apply append_Nil list.size conj_absorb simp_thms)
qed

text \<open>A module writes four bytes to a new log and another reads them.\<close>

theorem stored_data_read_back_witness:
  "\<exists>s1 s3 n d. write_sample toy_storage = Inr s1 \<and> disk s1 sample_log = Some (take n sample_data) \<and> d = disk s1 \<and>
    storage_api_callback memory_volume toy_tls 0x31 CommandFrame StorageApiType StorageReadMessage (length sample_log + 10)
      (sample_log @ [0] @ le32 0 @ [0] @ le32 (word_of_nat n)) s1 =
    reply_or_error toy_tls 0x31 StorageReadMessage (signpost_storage_read_reply toy_tls 0x31 (take n sample_data) n) (s3\<lparr>disk := d\<rparr>)"
proof -
  have old: "contents id (disk toy_storage) (id sample_log) = []" and data: "4 \<le> length sample_data" "length sample_data < 2 ^ 32"
    by (simp_all add: toy_storage_def contents_def sample_data_def)
  obtain k a where reply: "signpost_storage_write_reply toy_tls 0x30 (storage_record sample_log 0 (word_of_nat (length sample_data))) toy_node = Inr (int k, a)"
    and mem: "malloc_rcs (penv a) = malloc_rcs (penv toy_node)"
    using log_reply_sent [OF toy_node_clear(1) sample_log] by blast
  note name = name_in_message [OF sample_log]
  have no: "0x2F \<notin> set (take 32 (strncpy_bytes sample_log 32))" "length sample_log \<noteq> 32"
    using name(6) in_set_takeD sample_log by (fast, simp add: log_name_def)
  have w: "storage_write_data memory_volume (strncpy_bytes sample_log 32) sample_data (length sample_data) (disk toy_storage) =
    Inr ((TOCK_SUCCESS, length sample_data, 0), [sample_log \<mapsto> sample_data])"
    using name(2,3,5) no
    by (simp add: storage_write_data_def memory_volume_def c_name_def STORAGE_LOG_LEN_def contents_def toy_storage_def Let_def)
  have rec: "storage_record (strncpy_bytes sample_log 32) = storage_record sample_log"
    using name(3,4) by (intro ext) (simp add: storage_record_def strncpy_bytes_def STORAGE_LOG_LEN_def cstr_strncpy)
  have rd: "read_at (sample_log @ [0] @ sample_data @ []) (length sample_log + 1) (length sample_data) = Inr sample_data"
    by (simp add: read_at_def)
  define s1 where "s1 = \<lparr>snode = a, disk = [sample_log \<mapsto> sample_data]\<rparr>"
  have run: "write_sample toy_storage = Inr s1"
    using name(1,2) rd w rec data reply
    by (simp add: write_sample_def storage_api_callback_def StorageScanMessage_def StorageWriteMessage_def storage_write_command_def
        STORAGE_LOG_LEN_def TOCK_SUCCESS_def Let_def reply_or_error_def s1_def toy_storage_def)
  obtain s3 where s3: "try_malloc s1 = (True, s3)"
    using mem toy_node_memory by (auto simp: try_malloc_def api_malloc_def env_malloc_def s1_def)
  have no_ms: "storage_run memory_volume toy_tls [] s1 = Inr s1" "\<not> list_ex deletes []" by simp_all
  obtain n d where "contents id (disk s1) (id sample_log) = [] @ take n sample_data" "id d = id (disk s1)"
    "storage_api_callback memory_volume toy_tls 0x31 CommandFrame StorageApiType StorageReadMessage (length sample_log + 10)
      (sample_log @ [0] @ le32 (word_of_nat (length ([] :: bytes))) @ [0] @ le32 (word_of_nat n)) s1 =
    reply_or_error toy_tls 0x31 StorageReadMessage (signpost_storage_read_reply toy_tls 0x31 (take n sample_data) n) (s3\<lparr>disk := d\<rparr>)"
    using stored_data_read_back [OF memory_volume_works sample_log data(1) run [unfolded write_sample_def] no_ms s3, of "0x31"] data(2)
    unfolding old by auto
  moreover have "disk s1 sample_log = Some (contents id (disk s1) (id sample_log))" by (simp add: s1_def contents_def)
  ultimately show ?thesis using run by auto
qed

end
