(* ===== verification/Server_Packets.thy ===== *)
theory Server_Packets
  imports Signpost_Prelude
begin

text \<open>
  The server side of the packets, as far as the firmware depends on it: the receivers
  \<open>server/uplink/lora-receiver/lora-receiver.js\<close> and \<open>server/uplink/http-receiver/http-receiver.js\<close>, which cut what the radio sent
  into topics and data, and \<open>server/lab11/packet-parser/packet-parser.js\<close>, which reads the data. Their output goes to a message broker.
\<close>

section \<open>Reading a buffer\<close>

text \<open>
  \<open>Buffer.readUInt8\<close> and its siblings raise an error outside the buffer, which is \<open>None\<close>. Values that the server divides
  for display (the degrees) are kept in the unit of the packet; the kind of fix is read and then not used.
\<close>

definition readUInt8 :: "bytes \<Rightarrow> nat \<Rightarrow> int option" where
  "readUInt8 buf i = (if i < length buf then Some (uint (buf ! i)) else None)"

definition readUInt16BE :: "bytes \<Rightarrow> nat \<Rightarrow> int option" where
  "readUInt16BE buf i =
     (if i + 2 \<le> length buf then Some (uint (buf ! i) * 256 + uint (buf ! Suc i)) else None)"

definition readUInt32BE :: "bytes \<Rightarrow> nat \<Rightarrow> int option" where
  "readUInt32BE buf i =
     (if i + 4 \<le> length buf
      then Some (((uint (buf ! i) * 256 + uint (buf ! (i + 1))) * 256 + uint (buf ! (i + 2))) * 256 + uint (buf ! (i + 3)))
      else None)"

definition readInt16BE :: "bytes \<Rightarrow> nat \<Rightarrow> int option" where
  "readInt16BE buf i = map_option (\<lambda>x. if x \<ge> 2 ^ 15 then x - 2 ^ 16 else x) (readUInt16BE buf i)"

definition readInt32BE :: "bytes \<Rightarrow> nat \<Rightarrow> int option" where
  "readInt32BE buf i = map_option (\<lambda>x. if x \<ge> 2 ^ 31 then x - 2 ^ 32 else x) (readUInt32BE buf i)"

section \<open>The receivers\<close>

text \<open>
  The messages of a packet of the cellular network from \<open>index\<close> on, each with a length in front. A message whose lengths
  contradict each other is skipped. Topics are kept as bytes.
\<close>

function http_messages :: "bytes \<Rightarrow> nat \<Rightarrow> (bytes \<times> bytes) list option" where
  "http_messages buf index =
     (case readUInt16BE buf index of
        None \<Rightarrow> None
      | Some total_len \<Rightarrow>
          if total_len = 0 then Some []
          else let start_index = index + 2; skipped = start_index + nat total_len
          in case readUInt8 buf start_index of
               None \<Rightarrow> None
             | Some tlen \<Rightarrow>
                 if tlen + 2 > total_len then http_messages buf skipped
                 else let topic = take (nat tlen) (drop (start_index + 1) buf); i = start_index + 1 + nat tlen
                 in case readUInt8 buf i of
                      None \<Rightarrow> None
                    | Some dlen \<Rightarrow>
                        if tlen + dlen + 2 > total_len then http_messages buf skipped
                        else let data = take (nat dlen) (drop (i + 1) buf); i' = i + 1 + nat dlen
                        in if length buf \<le> i' then Some [(topic, data)]
                           else map_option ((#) (topic, data)) (http_messages buf i'))"
  by pat_completeness auto

termination
  by (relation "measure (\<lambda>(buf, index). length buf - index)") (auto simp: readUInt16BE_def split: if_split_asm)

declare http_messages.simps [simp del]

text \<open>The address, the sequence number and the messages of a packet.\<close>

definition http_parse :: "bytes \<Rightarrow> (bytes \<times> int \<times> (bytes \<times> bytes) list) option" where
  "http_parse buf =
     (if length buf < 6 then None
      else Option.bind (readUInt8 buf 6) (\<lambda>seq. map_option (\<lambda>ms. (take 6 buf, seq, ms)) (http_messages buf 7)))"

text \<open>The messages of a LoRa packet have no length in front.\<close>

function lora_messages :: "bytes \<Rightarrow> nat \<Rightarrow> (bytes \<times> bytes) list option" where
  "lora_messages buf index =
     (case readUInt8 buf index of
        None \<Rightarrow> None
      | Some tlen \<Rightarrow>
          let topic = take (nat tlen) (drop (index + 1) buf); i = index + 1 + nat tlen
          in case readUInt8 buf i of
               None \<Rightarrow> None
             | Some dlen \<Rightarrow>
                 let data = take (nat dlen) (drop (i + 1) buf); i' = i + 1 + nat dlen
                 in if length buf \<le> i' then Some [(topic, data)]
                    else map_option ((#) (topic, data)) (lora_messages buf i'))"
  by pat_completeness auto

termination
  by (relation "measure (\<lambda>(buf, index). length buf - index)") (auto simp: readUInt8_def split: if_split_asm)

declare lora_messages.simps [simp del]

text \<open>
  A packet with the sequence number of the last one of its sender is dropped. The table of the last numbers survives a
  packet that raises an error.
\<close>

definition lora_parse :: "(bytes \<rightharpoonup> int) \<Rightarrow> bytes \<Rightarrow> (bytes \<times> bytes) list option \<times> (bytes \<rightharpoonup> int)" where
  "lora_parse seen buf =
     (let addr = take 6 buf
      in case readUInt8 buf 6 of
           None \<Rightarrow> (None, if seen addr = None then seen(addr \<mapsto> 0) else seen)
         | Some seq \<Rightarrow>
             if seen addr = Some seq then (Some [], seen)
             else (lora_messages buf 7, seen(addr \<mapsto> seq)))"

section \<open>The packets\<close>

record server_energy =
  battery_voltage_mV :: int
  battery_current_uA :: int
  solar_voltage_mV :: int
  solar_current_uA :: int
  battery_capacity_percent_remaining :: int
  battery_capacity_remaining_mAh :: int
  battery_capacity_full_mAh :: int
  controller_energy_remaining_mWh :: int
  modules_energy_remaining_mWh :: "int list"
  energy_average_mW :: "(int \<times> int list) option"

record server_gps =
  latitude_microdegrees :: int
  longitude_microdegrees :: int
  timestamp :: "int \<times> int \<times> int \<times> int \<times> int \<times> int"
  gps_satellite_count :: int

fun read_all :: "(bytes \<Rightarrow> nat \<Rightarrow> int option) \<Rightarrow> bytes \<Rightarrow> nat list \<Rightarrow> int list option" where
  "read_all f buf [] = Some []"
| "read_all f buf (i # is) =
     (case f buf i of None \<Rightarrow> None | Some x \<Rightarrow> map_option ((#) x) (read_all f buf is))"

definition parse_energy :: "bytes \<Rightarrow> server_energy option" where
  "parse_energy buf =
     Option.bind (readUInt16BE buf 1) (\<lambda>battery_voltage.
     Option.bind (readInt32BE buf 3) (\<lambda>battery_current.
     Option.bind (readUInt16BE buf 7) (\<lambda>solar_voltage.
     Option.bind (readInt32BE buf 9) (\<lambda>solar_current.
     Option.bind (readUInt8 buf 13) (\<lambda>battery_percent.
     Option.bind (readUInt16BE buf 14) (\<lambda>battery_energy.
     Option.bind (readUInt16BE buf 16) (\<lambda>battery_capacity.
     Option.bind (read_all readUInt16BE buf [18, 20, 22]) (\<lambda>energy_low.
     Option.bind (readUInt16BE buf 24) (\<lambda>energy_controller.
     Option.bind (read_all readUInt16BE buf [26, 28, 30, 32]) (\<lambda>energy_high.
     Option.bind
       (if length buf > 45
        then Option.bind (read_all readUInt16BE buf [34, 36, 38]) (\<lambda>average_low.
             Option.bind (readUInt16BE buf 40) (\<lambda>average_controller.
             Option.bind (read_all readUInt16BE buf [42, 44, 46]) (\<lambda>average_high.
             Some (Some (average_controller, average_low @ average_high)))))
        else Some None) (\<lambda>averages.
     Some \<lparr>battery_voltage_mV = battery_voltage, battery_current_uA = battery_current,
           solar_voltage_mV = solar_voltage, solar_current_uA = solar_current,
           battery_capacity_percent_remaining = battery_percent,
           battery_capacity_remaining_mAh = battery_energy, battery_capacity_full_mAh = battery_capacity,
           controller_energy_remaining_mWh = energy_controller,
           modules_energy_remaining_mWh = energy_low @ tl energy_high,
           energy_average_mW = averages\<rparr>)))))))))))"

definition parse_gps :: "bytes \<Rightarrow> server_gps option" where
  "parse_gps buf =
     Option.bind (read_all readUInt8 buf [1, 2, 3, 4, 5, 6]) (\<lambda>date.
     Option.bind (readInt32BE buf 7) (\<lambda>latitude.
     Option.bind (readInt32BE buf 11) (\<lambda>longitude.
     Option.bind (readUInt8 buf 15) (\<lambda>fix.
     Option.bind (readUInt8 buf 16) (\<lambda>sats.
     let year = (if date ! 2 \<ge> 80 then date ! 2 + 1900 else date ! 2 + 2000)
     in Some \<lparr>latitude_microdegrees = latitude, longitude_microdegrees = longitude,
           timestamp = (year, date ! 1, date ! 0, date ! 3, date ! 4, date ! 5),
           gps_satellite_count = sats\<rparr>)))))"

text \<open>The status of the radio: the packets of the known modules, and the logs that wait for a mule.\<close>

record server_status =
  packets_sent :: "int \<rightharpoonup> int"
  packets_delayed_for_muling :: "(bytes \<times> int) list"
  radio_queue_length :: int

definition known_modules :: "int set" where "known_modules = {0x20, 0x22, 0x32, 0x33, 0x34, 0x36}"

fun count_packets :: "bytes \<Rightarrow> nat list \<Rightarrow> (int \<rightharpoonup> int) \<Rightarrow> (int \<rightharpoonup> int) option" where
  "count_packets buf [] sent = Some sent"
| "count_packets buf (j # js) sent =
     Option.bind (readUInt8 buf (1 + j * 2)) (\<lambda>addr.
       if addr \<in> known_modules
       then Option.bind (readUInt8 buf (1 + j * 2 + 1)) (\<lambda>n. count_packets buf js (sent(addr \<mapsto> n)))
       else count_packets buf js sent)"

fun stored_logs :: "bytes \<Rightarrow> nat \<Rightarrow> nat \<Rightarrow> ((bytes \<times> int) list \<times> nat) option" where
  "stored_logs buf 0 i = Some ([], i)"
| "stored_logs buf (Suc n) i =
     Option.bind (readUInt16BE buf i) (\<lambda>remaining.
     Option.bind (readUInt8 buf (i + 2)) (\<lambda>len.
     Option.bind (stored_logs buf n (i + 3 + nat len)) (\<lambda>(logs, i').
     Some ((take (nat len) (drop (i + 3) buf), remaining) # logs, i'))))"

definition parse_status :: "bytes \<Rightarrow> server_status option" where
  "parse_status buf =
     Option.bind (readUInt8 buf 1) (\<lambda>num_mods.
     Option.bind (count_packets buf [0..<nat num_mods] (\<lambda>a. if a \<in> known_modules then Some 0 else None)) (\<lambda>sent.
     let eventual_index = nat num_mods * 2 + 2
     in Option.bind (readUInt8 buf eventual_index) (\<lambda>num_stored.
        Option.bind (stored_logs buf (nat num_stored) (eventual_index + 1)) (\<lambda>(logs, i).
        Option.bind (readUInt8 buf i) (\<lambda>queue_size.
        Some \<lparr>packets_sent = sent, packets_delayed_for_muling = logs, radio_queue_length = queue_size\<rparr>)))))"

text \<open>The older type of the status has no list of logs: the length of the queue is where the list of modules is taken to end.\<close>

definition parse_status_counts :: "bytes \<Rightarrow> server_status option" where
  "parse_status_counts buf =
     Option.bind (readUInt8 buf 1) (\<lambda>num_mods.
     Option.bind (count_packets buf [0..<nat num_mods] (\<lambda>a. if a \<in> known_modules then Some 0 else None)) (\<lambda>sent.
     Option.bind (readUInt8 buf (1 + nat num_mods * 2)) (\<lambda>queue_size.
     Some \<lparr>packets_sent = sent, packets_delayed_for_muling = [], radio_queue_length = queue_size\<rparr>)))"

text \<open>
  What \<open>parse\<close> does with the data of a topic that ends in \<open>signpost/radio/status\<close>: the type of the message chooses. \<open>None\<close> is an error that is
  raised, and a message of another type gives no packet.
\<close>

definition parse_radio_status :: "bytes \<Rightarrow> server_status option option" where
  "parse_radio_status buf =
     Option.bind (readUInt8 buf 0) (\<lambda>message_type.
       if message_type = 1 then map_option Some (parse_status_counts buf)
       else if message_type = 2 then map_option Some (parse_status buf)
       else Some None)"

section \<open>Reading what was stored\<close>

lemma read_skip:
  "length xs \<le> n \<Longrightarrow> readUInt8 (xs @ ys) n = readUInt8 ys (n - length xs)"
  "length xs \<le> n \<Longrightarrow> readUInt16BE (xs @ ys) n = readUInt16BE ys (n - length xs)"
  "length xs \<le> n \<Longrightarrow> readUInt32BE (xs @ ys) n = readUInt32BE ys (n - length xs)"
  by (auto simp: readUInt8_def readUInt16BE_def readUInt32BE_def nth_append Suc_diff_le)

lemma read_skip_Cons:
  "0 < n \<Longrightarrow> readUInt8 (x # ys) n = readUInt8 ys (n - 1)"
  "0 < n \<Longrightarrow> readUInt16BE (x # ys) n = readUInt16BE ys (n - 1)"
  "0 < n \<Longrightarrow> readUInt32BE (x # ys) n = readUInt32BE ys (n - 1)"
  using read_skip [of "[x]"] by (simp_all add: Suc_leI)

lemma read_head:
  "readUInt8 (x # ys) 0 = Some (uint x)"
  "readUInt16BE (0 # 0 # ys) 0 = Some 0"
  by (simp_all add: readUInt8_def readUInt16BE_def)

lemmas read_packet = read_skip read_skip_Cons read_head readInt16BE_def readInt32BE_def

end
