(* ===== verification/Packet_Bytes.thy ===== *)
theory Packet_Bytes
  imports Server_Packets
begin

text \<open>
  The numbers in the packets of the firmware, highest byte first, as the programs of the modules store them byte by byte, and what
  the server reads from them.
\<close>

text \<open>The two and four bytes of an \<open>int\<close>, highest first.\<close>

definition be16_int :: "int \<Rightarrow> bytes" where
  "be16_int v = [word_of_int (drop_bit 8 (v AND 0xFF00)), word_of_int (v AND 0xFF)]"

definition be32_int :: "int \<Rightarrow> bytes" where
  "be32_int v =
     [word_of_int (drop_bit 24 (v AND 0xFF000000)), word_of_int (drop_bit 16 (v AND 0xFF0000)),
      word_of_int (drop_bit 8 (v AND 0xFF00)), word_of_int (v AND 0xFF)]"

section \<open>What the server reads\<close>

lemma uint_byte_of_int: "uint (word_of_int x :: byte) = x mod 256"
  by (simp add: unsigned_of_int take_bit_eq_mod)

lemma byte_field:
  "drop_bit 8 (v AND 0xFF00) mod 256 = (v div 256) mod 256"
  "drop_bit 16 (v AND 0xFF0000) mod 256 = (v div 65536) mod 256"
  "drop_bit 24 (v AND 0xFF000000) mod 256 = (v div 16777216) mod 256"
  "v AND 0xFF = v mod 256" for v :: int
proof -
  have "take_bit 8 (drop_bit n (v AND push_bit n (mask 8))) = take_bit 8 (drop_bit n v)" for n
    by (rule bit_eqI) (auto simp: bit_simps)
  then have field: "drop_bit n (v AND push_bit n (mask 8)) mod 256 = (v div 2 ^ n) mod 256" for n
    by (simp add: take_bit_eq_mod drop_bit_eq_div)
  show "drop_bit 8 (v AND 0xFF00) mod 256 = (v div 256) mod 256"
    using field [of 8] by (simp add: push_bit_eq_mult mask_eq_exp_minus_1)
  show "drop_bit 16 (v AND 0xFF0000) mod 256 = (v div 65536) mod 256"
    using field [of 16] by (simp add: push_bit_eq_mult mask_eq_exp_minus_1)
  show "drop_bit 24 (v AND 0xFF000000) mod 256 = (v div 16777216) mod 256"
    using field [of 24] by (simp add: push_bit_eq_mult mask_eq_exp_minus_1)
  show "v AND 0xFF = v mod 256"
    using take_bit_eq_mask [of 8 v] by (simp add: take_bit_eq_mod mask_eq_exp_minus_1)
qed

lemma int16_digits: "v div 256 mod 256 * 256 + v mod 256 = v mod 65536" for v :: int
  using zmod_zmult2_eq [of 256 v 256] by simp

lemma int32_digits:
  "((v div 16777216 mod 256 * 256 + v div 65536 mod 256) * 256 + v div 256 mod 256) * 256 + v mod 256 = v mod 2 ^ 32"
  for v :: int
proof -
  have "v mod 2 ^ 32 = 65536 * (v div 65536 mod 65536) + v mod 65536"
    using zmod_zmult2_eq [of 65536 v 65536] by simp
  moreover have "v div 65536 mod 65536 = 256 * (v div 16777216 mod 256) + v div 65536 mod 256"
    using zmod_zmult2_eq [of 256 "v div 65536" 256] by (simp flip: zdiv_zmult2_eq)
  ultimately show ?thesis using int16_digits [of v] by simp
qed

lemma byte_cong: "x mod 256 = y mod 256 \<Longrightarrow> word_of_int x = (word_of_int y :: byte)"
  by (simp add: word_of_int_eq_iff take_bit_eq_mod)

lemma be16_int_eq: "be16_int v = [word_of_int (v div 256), word_of_int v]"
  unfolding be16_int_def list.inject by (intro conjI byte_cong refl byte_field) (simp only: byte_field mod_mod_trivial)

lemma be32_int_eq:
  "be32_int v = [word_of_int (v div 16777216), word_of_int (v div 65536), word_of_int (v div 256), word_of_int v]"
  unfolding be32_int_def list.inject by (intro conjI byte_cong refl byte_field) (simp only: byte_field mod_mod_trivial)

text \<open>A number in the packet, wherever it stands.\<close>

lemma length_be_int [simp]: "length (be16_int v) = 2" "length (be32_int v) = 4"
  by (simp_all add: be16_int_def be32_int_def)

lemma nth_after: "(xs @ ys) ! (length xs + k) = ys ! k"
  by (rule nth_append_length_plus)

lemma read_be16: "readUInt16BE (xs @ be16_int v @ ys) (length xs) = Some (v mod 65536)"
  using int16_digits [of v] nth_after [of xs "be16_int v @ ys" 0] nth_after [of xs "be16_int v @ ys" 1]
  by (simp add: readUInt16BE_def be16_int_eq uint_byte_of_int)

lemma read_be32: "readUInt32BE (xs @ be32_int v @ ys) (length xs) = Some (v mod 2 ^ 32)"
proof -
  have "readUInt32BE (xs @ [a, b, c, d] @ ys) (length xs) = Some (((uint a * 256 + uint b) * 256 + uint c) * 256 + uint d)" for a b c d
    using nth_after [of xs "[a, b, c, d] @ ys" 0] by (simp add: readUInt32BE_def nth_append)
  then show ?thesis by (simp only: be32_int_eq uint_byte_of_int int32_digits)
qed

lemma read_be_head:
  "readUInt16BE (be16_int v @ ys) 0 = Some (v mod 65536)"
  "readUInt32BE (be32_int v @ ys) 0 = Some (v mod 2 ^ 32)"
  using read_be16 [of "[]"] read_be32 [of "[]"] by simp_all

definition wire16 :: "int \<Rightarrow> int" where "wire16 x = x mod 2 ^ 16"
definition wire32 :: "int \<Rightarrow> int" where
  "wire32 x = (let w = x mod 2 ^ 32 in if w \<ge> 2 ^ 31 then w - 2 ^ 32 else w)"

lemma wire16_id: "0 \<le> x \<Longrightarrow> x < 65536 \<Longrightarrow> wire16 x = x"
  by (simp add: wire16_def)

lemma wire32_id: "- (2 ^ 31) \<le> x \<Longrightarrow> x < 2 ^ 31 \<Longrightarrow> wire32 x = x"
proof (cases "0 \<le> x")
  case False
  moreover assume "- (2 ^ 31) \<le> x"
  ultimately have "x mod 2 ^ 32 = x + 2 ^ 32"
    using mod_pos_pos_trivial [of "x + 2 ^ 32" "2 ^ 32"] by simp
  then show ?thesis using \<open>- (2 ^ 31) \<le> x\<close> by (simp add: wire32_def)
qed (simp add: wire32_def)

end
