(* ===== verification/Controller_Updates.thy ===== *)
theory Controller_Updates
  imports Controller_Duties Packet_Bytes
begin

text \<open>
  The program of the controller, \<open>controller/signpost_controller/main.c\<close>: beside the library's callbacks it sends
  the radio an energy update and a position every minute;
  what the server makes of the energy update is \<open>Server_Packets.parse_energy\<close>. The statics of the program are the record \<open>main_program\<close>.
\<close>

section \<open>The program\<close>

datatype update_timer = SendEnergyUpdate | SendGpsUpdate

record main_program =
  ctl :: controller
  gps_buf :: bytes
  energy_buf :: bytes
  update_timers :: "(nat \<times> update_timer) list"

definition main_program_boot :: "controller \<Rightarrow> main_program" where
  "main_program_boot c = \<lparr>ctl = c, gps_buf = replicate 20 0, energy_buf = replicate 60 0, update_timers = []\<rparr>"

text \<open>
  While a publish waits for its reply, other callbacks run: the events \<open>evs\<close> reach the library, and \<open>D\<close> is what the
  callbacks do to the rest of the controller.
\<close>

definition publish ::
  "user \<Rightarrow> mbedtls \<Rightarrow> (controller \<Rightarrow> fault + controller) \<Rightarrow> bytes \<Rightarrow> bytes \<Rightarrow> byte \<Rightarrow> api_event list \<Rightarrow> controller
     \<Rightarrow> fault + int \<times> controller \<times> api_event list" where
  "publish H m D topic buf len evs c =
     andthen (signpost_networking_publish H m topic buf len evs (capi c)) (\<lambda>(rc, a, evs').
     andthen (D (c\<lparr>capi := a\<rparr>)) (\<lambda>c'. Inr (rc, c', evs')))"

definition tickle_both :: "waiting \<Rightarrow> int \<Rightarrow> controller \<Rightarrow> fault + controller" where
  "tickle_both W rc c =
     (if rc < 0 then Inr c
      else signpost_controller_hardware_watchdog_tickle W (signpost_controller_app_watchdog_tickle c))"

section \<open>Positions\<close>

definition gps_topic :: bytes where "gps_topic = chars ''gps'' @ [0]"

definition fix_byte :: "byte \<Rightarrow> byte" where
  "fix_byte satellite_count =
     (if satellite_count \<ge> 3 then 0x02 else if satellite_count \<ge> 4 then 0x03 else 0x01)"

definition gps_packet :: "timelocation_time \<Rightarrow> timelocation_location \<Rightarrow> bytes \<Rightarrow> bytes" where
  "gps_packet t l buf =
     overwrite buf 1
       ([t_day t, t_month t, ucast (t_year t - 2000), t_hours t, t_minutes t, t_seconds t]
        @ be32_int (uint (l_latitude l)) @ be32_int (uint (l_longitude l))
        @ [fix_byte (t_satellite_count t), t_satellite_count t])"

definition send_gps_update ::
  "user \<Rightarrow> mbedtls \<Rightarrow> waiting \<Rightarrow> (controller \<Rightarrow> fault + controller) \<Rightarrow> api_event list \<Rightarrow> main_program
     \<Rightarrow> fault + main_program \<times> api_event list" where
  "send_gps_update H m W D evs p =
     (let (t, l) = signpost_controller_get_gps (ctl p);
          buf = gps_packet t l (gps_buf p)
      in andthen (publish H m D gps_topic buf 18 evs (ctl p)) (\<lambda>(rc, c, evs').
         andthen (tickle_both W rc c) (\<lambda>c'. Inr (p\<lparr>ctl := c', gps_buf := buf\<rparr>, evs'))))"

section \<open>Energy\<close>

text \<open>The readings of an update; the lists hold the values of the modules 0, 1, 2, 5, 6 and 7.\<close>

record energy_readings =
  r_battery_voltage :: int
  r_battery_current :: int
  r_battery_energy :: int
  r_battery_percent :: int
  r_battery_full :: int
  r_solar_voltage :: int
  r_solar_current :: int
  r_controller_remaining :: int
  r_module_remaining :: "int list"
  r_controller_average :: int
  r_module_average :: "int list"

definition update_slots :: "int list" where
  "update_slots = filter (\<lambda>i. \<not> (i = 3 \<or> i = 4)) [0, 1, 2, 3, 4, 5, 6, 7]"

fun each_module :: "(int \<Rightarrow> controller \<Rightarrow> fault + int \<times> controller) \<Rightarrow> int list \<Rightarrow> controller \<Rightarrow> fault + int list \<times> controller" where
  "each_module f [] c = Inr ([], c)"
| "each_module f (i # is) c =
     andthen (f i c) (\<lambda>(x, c1). andthen (each_module f is c1) (\<lambda>(xs, c2). Inr (x # xs, c2)))"

definition reading :: "(board \<Rightarrow> 'a \<times> board) \<Rightarrow> controller \<Rightarrow> 'a \<times> controller" where
  "reading f c = (let (x, b) = f (cboard c) in (x, c\<lparr>cboard := b\<rparr>))"

text \<open>
  The charge in milliampere-hours is a quotient in double precision by 11.1 and 1000, cut off: the
  energies are 32-bit integers, for which that is the truncated quotient by 11100.
\<close>

definition charge_mah :: "int \<Rightarrow> int" where "charge_mah uwh = uwh sdiv 11100"

definition measure_energy :: "chips \<Rightarrow> controller \<Rightarrow> fault + energy_readings \<times> controller" where
  "measure_energy ch c =
     (let (bv, c1) = reading (signpost_energy_get_battery_voltage_mv ch) c;
          (bi, c2) = reading (signpost_energy_get_battery_current_ua ch) c1;
          (be, c3) = reading (signpost_energy_get_battery_energy_uwh ch) c2;
          (bp, c4) = reading (signpost_energy_get_battery_percent_mp ch) c3;
          (bf, c5) = reading (signpost_energy_get_battery_capacity_uwh ch) c4
      in andthen (on_board (signpost_energy_get_solar_voltage_mv ch) c5) (\<lambda>(sv, c6).
         andthen (on_board (signpost_energy_get_solar_current_ua ch) c6) (\<lambda>(si, c7).
         andthen (on_board (signpost_energy_policy_get_controller_energy_remaining_uwh ch (cpolicy c7)) c7) (\<lambda>(cr, c8).
         andthen (each_module (module_remaining ch) update_slots c8) (\<lambda>(mr, c9).
         andthen (each_module (\<lambda>i c. andthen (signpost_energy_policy_get_module_energy_average_uw i (cpolicy c)) (\<lambda>x. Inr (x, c)))
                    update_slots c9) (\<lambda>(ma, c10).
         Inr (\<lparr>r_battery_voltage = uint bv, r_battery_current = bi, r_battery_energy = charge_mah be,
                r_battery_percent = bp sdiv 1000, r_battery_full = charge_mah bf,
                r_solar_voltage = uint sv, r_solar_current = sint si,
                r_controller_remaining = cr, r_module_remaining = mr,
                r_controller_average = signpost_energy_policy_get_controller_energy_average_uw (cpolicy c9),
                r_module_average = ma\<rparr>, c10)))))))"

text \<open>Eight shares of two bytes, in thousands: modules 0 to 2, the controller, nothing for Linux, modules 5 to 7.\<close>

definition milli_block :: "int \<Rightarrow> int list \<Rightarrow> bytes" where
  "milli_block c ms =
     (let put = (\<lambda>x. be16_int (x sdiv 1000))
      in put (ms ! 0) @ put (ms ! 1) @ put (ms ! 2) @ put c @ [0, 0] @ put (ms ! 3) @ put (ms ! 4) @ put (ms ! 5))"

definition energy_packet :: "energy_readings \<Rightarrow> bytes \<Rightarrow> bytes" where
  "energy_packet r buf =
     overwrite buf 1
       (be16_int (r_battery_voltage r) @ be32_int (r_battery_current r)
        @ be16_int (r_solar_voltage r) @ be32_int (r_solar_current r)
        @ [word_of_int (r_battery_percent r)] @ be16_int (r_battery_energy r) @ be16_int (r_battery_full r)
        @ milli_block (r_controller_remaining r) (r_module_remaining r)
        @ milli_block (r_controller_average r) (r_module_average r))"

definition energy_topic :: bytes where "energy_topic = chars ''energy'' @ [0]"

definition send_energy_update ::
  "chips \<Rightarrow> user \<Rightarrow> mbedtls \<Rightarrow> waiting \<Rightarrow> (controller \<Rightarrow> fault + controller) \<Rightarrow> api_event list \<Rightarrow> main_program
     \<Rightarrow> fault + main_program \<times> api_event list" where
  "send_energy_update ch H m W D evs p =
     andthen (measure_energy ch (ctl p)) (\<lambda>(r, c).
     let buf = energy_packet r (energy_buf p)
     in andthen (publish H m D energy_topic buf 51 evs c) (\<lambda>(rc, c1, evs').
        andthen (tickle_both W rc c1) (\<lambda>c2. Inr (p\<lparr>ctl := c2, energy_buf := buf\<rparr>, evs'))))"

section \<open>The start\<close>

text \<open>\<open>None\<close> is a controller whose library never starts.\<close>

definition controller_main :: "chips \<Rightarrow> waiting \<Rightarrow> mbedtls \<Rightarrow> main_program \<Rightarrow> (fault + main_program) option" where
  "controller_main ch W m p =
     (case signpost_controller_init ch W m (ctl p) of
        None \<Rightarrow> None
      | Some (Inl f) \<Rightarrow> Some (Inl f)
      | Some (Inr c) \<Rightarrow>
          Some (andthen (delay_ms W 30000 c) (\<lambda>c1.
            Inr \<lparr>ctl = c1, gps_buf = (gps_buf p)[0 := 0x02], energy_buf = (energy_buf p)[0 := 0x01],
                 update_timers = [(60000, SendEnergyUpdate), (60000, SendGpsUpdate)]\<rparr>)))"

section \<open>What the server reads\<close>

definition milli16 :: "int \<Rightarrow> int" where "milli16 x = wire16 (x sdiv 1000)"

lemma server_reads_energy:
  assumes buf: "length buf = 60" and modules: "length (r_module_remaining r) = 6" "length (r_module_average r) = 6"
  shows "parse_energy (take 51 (energy_packet r buf)) = Some
    \<lparr>battery_voltage_mV = wire16 (r_battery_voltage r), battery_current_uA = wire32 (r_battery_current r),
      solar_voltage_mV = wire16 (r_solar_voltage r), solar_current_uA = wire32 (r_solar_current r),
      battery_capacity_percent_remaining = r_battery_percent r mod 256,
      battery_capacity_remaining_mAh = wire16 (r_battery_energy r),
      battery_capacity_full_mAh = wire16 (r_battery_full r),
      controller_energy_remaining_mWh = milli16 (r_controller_remaining r),
      modules_energy_remaining_mWh = map milli16 (r_module_remaining r),
      energy_average_mW = Some (milli16 (r_controller_average r),
        map milli16 (take 3 (r_module_average r)) @ [0] @ map milli16 (take 2 (drop 3 (r_module_average r))))\<rparr>"
proof -
  obtain b0 rest where b: "buf = b0 # rest" "length rest = 59" using buf by (cases buf) auto
  obtain m0 m1 m2 m5 m6 m7 where m: "r_module_remaining r = [m0, m1, m2, m5, m6, m7]"
    using modules(1) by (auto simp: numeral_eq_Suc length_Suc_conv)
  obtain a0 a1 a2 a5 a6 a7 where a: "r_module_average r = [a0, a1, a2, a5, a6, a7]"
    using modules(2) by (auto simp: numeral_eq_Suc length_Suc_conv)
  show ?thesis
    unfolding energy_packet_def b(1) m a milli_block_def Let_def overwrite_def parse_energy_def
    using b(2) by (simp add: read_packet read_be_head milli16_def wire16_def wire32_def Let_def uint_byte_of_int)
qed

lemma each_module_length: "each_module f is c = Inr (xs, c') \<Longrightarrow> length xs = length is"
  by (induction "is" arbitrary: c xs c') (auto simp: andthen_Inr_iff)

lemma length_update_slots [simp]: "length update_slots = 6"
  by (simp add: update_slots_def)

lemma measured_modules:
  "measure_energy ch c = Inr (r, c') \<Longrightarrow> length (r_module_remaining r) = 6 \<and> length (r_module_average r) = 6"
  by (auto simp: measure_energy_def andthen_Inr_iff Let_def split: prod.splits dest!: each_module_length)

lemma sent_energy:
  assumes "send_energy_update ch H m W D evs p = Inr (p', evs')"
  obtains r c where "measure_energy ch (ctl p) = Inr (r, c)" "energy_buf p' = energy_packet r (energy_buf p)"
  using assms by (auto simp: send_energy_update_def andthen_Inr_iff Let_def)

text \<open>Measuring changes the state of the board only.\<close>

lemma board_only:
  "reading f c = (x, c') \<Longrightarrow> cpolicy c' = cpolicy c \<and> capi c' = capi c"
  "on_board g c = Inr (y, c') \<Longrightarrow> cpolicy c' = cpolicy c \<and> capi c' = capi c"
  by (auto simp: reading_def on_board_def andthen_Inr_iff split: prod.splits)

lemma remaining_board_only:
  "each_module (module_remaining ch) is c = Inr (xs, c') \<Longrightarrow> cpolicy c' = cpolicy c \<and> capi c' = capi c"
  by (induction "is" arbitrary: c xs) (auto simp: andthen_Inr_iff module_remaining_def dest!: board_only(2))

lemma each_average:
  "each_module (\<lambda>i c. andthen (slot as i) (\<lambda>x. Inr (x, c))) is c = Inr (xs, c') \<Longrightarrow>
     c' = c \<and> xs = map (\<lambda>i. as ! nat i) is"
  by (induction "is" arbitrary: c xs) (auto simp: andthen_Inr_iff slot_def split: if_split_asm)

lemma measured_averages:
  assumes "measure_energy ch c = Inr (r, c')"
  shows "r_controller_average r = controller_energy_average (average (cpolicy c))"
    and "r_module_average r = map (\<lambda>i. module_energy_average (average (cpolicy c)) ! nat i) update_slots"
    and "capi c' = capi c"
proof -
  have avg: "each_module (\<lambda>i c. andthen (signpost_energy_policy_get_module_energy_average_uw i (cpolicy c)) (\<lambda>x. Inr (x, c))) is c0 = Inr (xs, c1) \<Longrightarrow>
      each_module (\<lambda>i c. andthen (slot (module_energy_average (average (cpolicy c0))) i) (\<lambda>x. Inr (x, c))) is c0 = Inr (xs, c1)"
    for "is" c0 xs c1
    by (induction "is" arbitrary: c0 xs) (auto simp: andthen_Inr_iff signpost_energy_policy_get_module_energy_average_uw_def)
  show "r_controller_average r = controller_energy_average (average (cpolicy c))"
    "r_module_average r = map (\<lambda>i. module_energy_average (average (cpolicy c)) ! nat i) update_slots" "capi c' = capi c"
    using assms
    by (auto simp: measure_energy_def andthen_Inr_iff Let_def signpost_energy_policy_get_controller_energy_average_uw_def
        split: prod.splits dest!: board_only remaining_board_only avg [THEN each_average])
qed

text \<open>C17: the server reads the energy update as it was measured, cut to the width of the packet, but the averages of the last
  three modules shifted by one place: module 5 is always reported with nothing, module 6 with the average of module 5 and module 7
  with that of module 6.\<close>

theorem energy_averages_shifted:
  assumes "send_energy_update ch H m W D evs p = Inr (p', evs')" "length (energy_buf p) = 60"
  defines "a \<equiv> \<lambda>i. milli16 (module_energy_average (average (cpolicy (ctl p))) ! i)"
  shows "\<exists>r c. measure_energy ch (ctl p) = Inr (r, c) \<and>
    parse_energy (take 51 (energy_buf p')) = Some
      \<lparr>battery_voltage_mV = wire16 (r_battery_voltage r), battery_current_uA = wire32 (r_battery_current r),
        solar_voltage_mV = wire16 (r_solar_voltage r), solar_current_uA = wire32 (r_solar_current r),
        battery_capacity_percent_remaining = r_battery_percent r mod 256,
        battery_capacity_remaining_mAh = wire16 (r_battery_energy r),
        battery_capacity_full_mAh = wire16 (r_battery_full r),
        controller_energy_remaining_mWh = milli16 (r_controller_remaining r),
        modules_energy_remaining_mWh = map milli16 (r_module_remaining r),
        energy_average_mW = Some (milli16 (controller_energy_average (average (cpolicy (ctl p)))),
          [a 0, a 1, a 2, 0, a 5, a 6])\<rparr>"
proof -
  obtain r c where r: "measure_energy ch (ctl p) = Inr (r, c)" "energy_buf p' = energy_packet r (energy_buf p)"
    using sent_energy [OF assms(1)] .
  note len = measured_modules [OF r(1)]
  show ?thesis
    using r server_reads_energy [OF assms(2)] len measured_averages [OF r(1)] by (auto simp: a_def update_slots_def)
qed

section \<open>When an update is sent\<close>

lemma solar_reads_ok:
  assumes "answers (Suc n) b"
  shows "\<exists>v b'. signpost_energy_get_solar_voltage_mv ch b = Inr (v, b') \<and> answers n b'"
    "\<exists>i b'. signpost_energy_get_solar_current_ua ch b = Inr (i, b') \<and> answers n b'"
  using select_mask_ok [OF assms, of ch "0x100"]
  by (auto simp: signpost_energy_get_solar_voltage_mv_def signpost_energy_get_solar_current_ua_def scaled_current_def
      get_ltc_current_ua_def call_def answers_def split: prod.split)

lemma battery_reads_answers:
  "reading (signpost_energy_get_battery_voltage_mv ch) c = (x1, c') \<Longrightarrow> answers n (cboard c) \<Longrightarrow> cpolicy c' = cpolicy c \<and> answers n (cboard c')"
  "reading (signpost_energy_get_battery_current_ua ch) c = (x, c') \<Longrightarrow> answers n (cboard c) \<Longrightarrow> cpolicy c' = cpolicy c \<and> answers n (cboard c')"
  "reading (signpost_energy_get_battery_energy_uwh ch) c = (x, c') \<Longrightarrow> answers n (cboard c) \<Longrightarrow> cpolicy c' = cpolicy c \<and> answers n (cboard c')"
  "reading (signpost_energy_get_battery_percent_mp ch) c = (x, c') \<Longrightarrow> answers n (cboard c) \<Longrightarrow> cpolicy c' = cpolicy c \<and> answers n (cboard c')"
  "reading (signpost_energy_get_battery_capacity_uwh ch) c = (x, c') \<Longrightarrow> answers n (cboard c) \<Longrightarrow> cpolicy c' = cpolicy c \<and> answers n (cboard c')"
  by (auto simp: reading_def answers_def signpost_energy_get_battery_voltage_mv_def signpost_energy_get_battery_current_ua_def
      signpost_energy_get_battery_energy_uwh_def signpost_energy_get_battery_percent_mp_def signpost_energy_get_battery_capacity_uwh_def
      read_soc_def split: prod.splits)

lemma each_module_ok:
  assumes "\<And>i c n. i \<in> set is \<Longrightarrow> answers (k + n) (cboard c) \<Longrightarrow> cpolicy c = p \<Longrightarrow>
      \<exists>x c'. f i c = Inr (x, c') \<and> answers n (cboard c') \<and> cpolicy c' = p"
    and "answers (k * length is + n) (cboard c)" "cpolicy c = p"
  shows "\<exists>xs c'. each_module f is c = Inr (xs, c') \<and> answers n (cboard c') \<and> cpolicy c' = p"
  using assms
proof (induction "is" arbitrary: c)
  case (Cons i "is")
  have "answers (k + (k * length is + n)) (cboard c)" using Cons.prems(2) by (simp add: add.assoc)
  from Cons.prems(1) [OF list.set_intros(1) this Cons.prems(3)]
  obtain x c1 where c1: "f i c = Inr (x, c1)" "answers (k * length is + n) (cboard c1)" "cpolicy c1 = p" by blast
  from Cons.IH [OF Cons.prems(1) [OF list.set_intros(2)] c1(2,3)] show ?case using c1(1) by fastforce
qed simp

text \<open>The selectors have to answer nine times.\<close>

lemma measure_ok:
  assumes "answers (9 + n) (cboard c)" "policy_wf (cpolicy c)"
  shows "\<exists>r c'. measure_energy ch c = Inr (r, c') \<and> answers n (cboard c')"
proof -
  obtain bv c1 where 1: "reading (signpost_energy_get_battery_voltage_mv ch) c = (bv, c1)" by fastforce
  obtain bi c2 where 2: "reading (signpost_energy_get_battery_current_ua ch) c1 = (bi, c2)" by fastforce
  obtain be c3 where 3: "reading (signpost_energy_get_battery_energy_uwh ch) c2 = (be, c3)" by fastforce
  obtain bp c4 where 4: "reading (signpost_energy_get_battery_percent_mp ch) c3 = (bp, c4)" by fastforce
  obtain bf c5 where 5: "reading (signpost_energy_get_battery_capacity_uwh ch) c4 = (bf, c5)" by fastforce
  have c5: "answers (9 + n) (cboard c5) \<and> cpolicy c5 = cpolicy c"
    using battery_reads_answers(1) [OF 1 assms(1)] battery_reads_answers(2) [OF 2] battery_reads_answers(3) [OF 3]
      battery_reads_answers(4) [OF 4] battery_reads_answers(5) [OF 5] by metis
  have n: "9 + n = Suc (Suc (Suc (6 + n)))" by simp
  obtain sv b6 where 6: "signpost_energy_get_solar_voltage_mv ch (cboard c5) = Inr (sv, b6)" "answers (Suc (Suc (6 + n))) b6"
    using solar_reads_ok(1) c5 n by metis
  obtain si b7 where 7: "signpost_energy_get_solar_current_ua ch b6 = Inr (si, b7)" "answers (Suc (6 + n)) b7"
    using solar_reads_ok(2) [OF 6(2)] by blast
  obtain e b8 where 8: "signpost_energy_get_controller_energy_uwh ch b7 = Inr (e, b8)" "answers (6 + n) b8"
    using energy_reads_ok(2) [OF 7(2)] by blast
  have pw: "length (module_energy_remaining (remaining (cpolicy c))) = 8" "length (module_energy_average (average (cpolicy c))) = 8"
    using assms(2) by (simp_all add: policy_wf_def)
  have sl: "i \<in> set update_slots \<Longrightarrow> \<exists>k. i = int k \<and> k < 8" for i
    by (rule exI [of _ "nat i"]) (auto simp: update_slots_def)
  have "\<exists>xs c'. each_module (module_remaining ch) update_slots (c5\<lparr>cboard := b8\<rparr>) = Inr (xs, c') \<and> answers n (cboard c')
      \<and> cpolicy c' = cpolicy c"
    by (rule each_module_ok [where k = 1]) (use sl module_remaining_ok pw 8(2) c5 in \<open>fastforce+\<close>)
  then obtain mr c9 where 9: "each_module (module_remaining ch) update_slots (c5\<lparr>cboard := b8\<rparr>) = Inr (mr, c9)" "answers n (cboard c9)"
      "cpolicy c9 = cpolicy c" by blast
  have "\<exists>xs c'. each_module (\<lambda>i c. andthen (signpost_energy_policy_get_module_energy_average_uw i (cpolicy c)) (\<lambda>x. Inr (x, c)))
      update_slots c9 = Inr (xs, c') \<and> answers n (cboard c') \<and> cpolicy c' = cpolicy c"
    by (rule each_module_ok [where k = 0])
      (use sl pw 9 in \<open>auto simp: signpost_energy_policy_get_module_energy_average_uw_def slot_def dest!: sl\<close>)
  then show ?thesis
    using 9(1) 6(1) 7(1) 8(1)
    by (auto simp: measure_energy_def 1 2 3 4 5 on_board_def signpost_energy_policy_get_controller_energy_remaining_uwh_def)
qed

text \<open>A controller with module 5 drawing 7 mW, without memory for a message.\<close>

definition metered_program :: main_program where
  "metered_program = main_program_boot (asked\<lparr>
     capi := (set_env ((penv api_boot)\<lparr>malloc_rcs := [False]\<rparr>) api_boot)\<lparr>module_info := module_zero\<lparr>self_name := [0x63, 0]\<rparr>\<rparr>,
     cboard := calm_board, cpolicy := policy_boot\<lparr>average := no_average\<lparr>module_energy_average := (replicate 8 0)[5 := 7000000]\<rparr>\<rparr>\<rparr>)"

lemma metered_program_sends:
  "\<exists>p'. send_energy_update calm_chips (\<lambda>_ _ _ _ _ _ _. Inr) toy_tls (\<lambda>_. Inr) Inr [] metered_program = Inr (p', [])"
proof -
  have "answers (9 + 0) (cboard (ctl metered_program))" "policy_wf (cpolicy (ctl metered_program))"
    by (simp_all add: metered_program_def main_program_boot_def answers_def calm_board_def policy_wf_def policy_boot_def no_average_def)
  then obtain r c where r: "measure_energy calm_chips (ctl metered_program) = Inr (r, c)" using measure_ok by meson
  have topic: "energy_topic = [0x65, 0x6E, 0x65, 0x72, 0x67, 0x79, 0]" by code_simp
  have "capi c = (set_env ((penv api_boot)\<lparr>malloc_rcs := [False]\<rparr>) api_boot)\<lparr>module_info := module_zero\<lparr>self_name := [0x63, 0]\<rparr>\<rparr>"
    using measured_averages(3) [OF r] by (simp add: metered_program_def main_program_boot_def)
  then obtain a where "signpost_networking_publish (\<lambda>_ _ _ _ _ _ _. Inr) toy_tls energy_topic buf 51 [] (capi c) = Inr (PORT_ENOMEM, a, [])" for buf
    by (simp add: signpost_networking_publish_def publish_slash_def read_at_def topic strnlen_def api_malloc_def env_malloc_def set_env_def Let_def NAME_LEN_def)
  then show ?thesis
    by (simp add: send_energy_update_def r publish_def tickle_both_def PORT_ENOMEM_def)
qed

theorem energy_averages_shifted_witness:
  "\<exists>p' s. send_energy_update calm_chips (\<lambda>_ _ _ _ _ _ _. Inr) toy_tls (\<lambda>_. Inr) Inr [] metered_program = Inr (p', [])
    \<and> parse_energy (take 51 (energy_buf p')) = Some s \<and> energy_average_mW s = Some (0, [0, 0, 0, 0, 7000, 0])"
proof -
  obtain p' where p': "send_energy_update calm_chips (\<lambda>_ _ _ _ _ _ _. Inr) toy_tls (\<lambda>_. Inr) Inr [] metered_program = Inr (p', [])"
    using metered_program_sends by blast
  have "length (energy_buf metered_program) = 60" by (simp add: metered_program_def main_program_boot_def)
  moreover have "milli16 0 = 0" "milli16 7000000 = 7000" by (simp_all add: milli16_def wire16_def)
  ultimately show ?thesis
    using energy_averages_shifted [OF p'] p'
    by (auto simp: metered_program_def main_program_boot_def no_average_def nth_list_update)
qed

section \<open>What the server learns of the position\<close>

text \<open>
  A position of the years 2000 to 2079 arrives as it was. The kind of fix is never the one of four satellites, which the code
  tests for after three.
\<close>

lemma fix_never_3d: "fix_byte n \<noteq> 0x03"
proof -
  have "4 \<le> n \<Longrightarrow> 3 \<le> n" by (rule order_trans [of _ 4]) simp_all
  then show ?thesis by (auto simp: fix_byte_def)
qed

lemma server_reads_position:
  assumes "length buf = 20" "2000 \<le> uint (t_year t)" "uint (t_year t) < 2080"
  shows "parse_gps (take 18 (gps_packet t l buf)) = Some
    \<lparr>latitude_microdegrees = sint (l_latitude l), longitude_microdegrees = sint (l_longitude l),
      timestamp = (uint (t_year t), uint (t_month t), uint (t_day t), uint (t_hours t), uint (t_minutes t), uint (t_seconds t)),
      gps_satellite_count = uint (t_satellite_count t)\<rparr>"
proof -
  obtain b0 rest where b: "buf = b0 # rest" "length rest = 19" using assms(1) by (cases buf) auto
  have year: "uint (ucast (t_year t - 2000) :: byte) = uint (t_year t) - 2000"
  proof -
    have "uint (t_year t - 2000) = uint (t_year t) - 2000"
      using assms(2) by (subst uint_sub_lem [THEN iffD1]) simp_all
    then show ?thesis using assms(2,3) by (simp add: unsigned_ucast_eq take_bit_eq_mod)
  qed
  have pos: "map_option (\<lambda>x. if 2 ^ 31 \<le> x then x - 2 ^ 32 else x) (Some (uint w mod 2 ^ 32)) = Some (sint w)" for w :: u32
  proof -
    have w: "0 \<le> uint w" "uint w < 4294967296" using uint_lt2p [of w] by simp_all
    then have "uint w div 2147483648 = (if 2147483648 \<le> uint w then 1 else 0)" by (auto intro: int_div_pos_eq)
    then show ?thesis
      using w by (simp add: sint_uint signed_take_bit_eq_take_bit_minus take_bit_eq_mod bit_iff_odd split: if_splits)
  qed
  show ?thesis
    unfolding gps_packet_def b(1) overwrite_def parse_gps_def
    using b(2) year assms(2,3) pos by (simp add: read_packet read_be_head Let_def)
qed

end
