(* ===== verification/Server_Uplink.thy ===== *)
theory Server_Uplink
  imports
    Server_Packets Radio_Sending Radio_Downlink Codec
begin

text \<open>
  From the ring of the radio to the server: what a cellular post or a LoRa packet holds is taken apart into the topics and
  data that the modules published; and the status messages of the two radio programs, one of which the server cannot read while it
  takes the other's counts for what they are not.
\<close>

section \<open>Messages in a packet\<close>

text \<open>A message in the ring is what a publish sent: a length, the topic, a length, the data.\<close>

definition short :: "bytes \<times> bytes \<Rightarrow> bool" where
  "short m \<longleftrightarrow> length (fst m) + length (snd m) + 2 \<le> 100"

abbreviation message_of :: "bytes \<times> bytes \<Rightarrow> bytes" where
  "message_of m \<equiv> subscribe_message (fst m) (snd m)"

definition http_frame :: "bytes \<times> bytes \<Rightarrow> bytes" where
  "http_frame m = [0, word_of_nat (length (message_of m))] @ message_of m"

lemma length_message_of: "length (message_of m) = length (fst m) + length (snd m) + 2"
  by (simp add: subscribe_message_def)

lemma uint_small_byte: "n < 256 \<Longrightarrow> uint (word_of_nat n :: byte) = int n"
  by (simp add: unsigned_of_nat take_bit_eq_mod)

lemma unat_small_byte: "n < 256 \<Longrightarrow> unat (word_of_nat n :: byte) = n"
  by (simp add: unat_of_nat)

lemma http_step:
  assumes "short m"
  shows "http_messages (xs @ http_frame m @ ys) (length xs) =
    (if ys = [] then Some [m] else map_option ((#) m) (http_messages (xs @ http_frame m @ ys) (length (xs @ http_frame m))))"
proof -
  obtain t d where m: "m = (t, d)" by fastforce
  define k where "k = length t + length d + 2"
  let ?buf = "xs @ [0, word_of_nat k] @ [word_of_nat (length t)] @ t @ [word_of_nat (length d)] @ d @ ys"
  have k: "k \<le> 100" "length t + length d + 2 = k" using assms by (simp_all add: short_def m k_def)
  have buf: "xs @ http_frame m @ ys = ?buf" by (simp add: http_frame_def m subscribe_message_def k_def)
  have 1: "readUInt16BE ?buf (length xs) = Some (int k)"
    using k by (simp add: readUInt16BE_def nth_append uint_small_byte)
  have 2: "readUInt8 ?buf (length xs + 2) = Some (int (length t))"
    using k by (simp add: readUInt8_def nth_append uint_small_byte)
  have 3: "readUInt8 ?buf (length xs + 2 + 1 + length t) = Some (int (length d))"
    using k by (simp add: readUInt8_def nth_append uint_small_byte)
  have 4: "take (length t) (drop (length xs + 2 + 1) ?buf) = t"
    "take (length d) (drop (length xs + 2 + 1 + length t + 1) ?buf) = d"
    by (simp_all add: drop_Cons')
  have 5: "length (xs @ http_frame m) = length xs + 2 + 1 + length t + 1 + length d"
    by (simp add: http_frame_def m subscribe_message_def)
  have 6: "length ?buf \<le> length xs + 2 + 1 + length t + 1 + length d \<longleftrightarrow> ys = []" by simp
  show ?thesis
    unfolding buf 5 by (subst http_messages.simps) (use 1 2 3 4 6 k in \<open>simp add: Let_def m\<close>)
qed

lemma http_concat:
  "ms \<noteq> [] \<Longrightarrow> \<forall>m\<in>set ms. short m \<Longrightarrow> http_messages (xs @ concat (map http_frame ms)) (length xs) = Some ms"
proof (induction ms arbitrary: xs)
  case (Cons m ms)
  have step: "http_messages (xs @ concat (map http_frame (m # ms))) (length xs) =
      (if concat (map http_frame ms) = [] then Some [m]
       else map_option ((#) m) (http_messages ((xs @ http_frame m) @ concat (map http_frame ms)) (length (xs @ http_frame m))))"
    using http_step [of m xs "concat (map http_frame ms)"] Cons.prems by simp
  show ?case
  proof (cases "ms = []")
    case False
    then have "concat (map http_frame ms) \<noteq> []" by (cases ms) (simp_all add: http_frame_def)
    moreover have "http_messages ((xs @ http_frame m) @ concat (map http_frame ms)) (length (xs @ http_frame m)) = Some ms"
      by (rule Cons.IH [OF False]) (use Cons.prems in simp)
    ultimately show ?thesis unfolding step by (simp only: if_False option.map)
  next
    case True
    then show ?thesis using step by simp
  qed
qed simp

lemma http_parse_packet:
  assumes "length addr = 6" "ms \<noteq> []" "\<forall>m\<in>set ms. short m"
  shows "http_parse (addr @ [s] @ concat (map http_frame ms)) = Some (addr, uint s, ms)"
  using http_concat [OF assms(2,3), of "addr @ [s]"] assms(1)
  by (simp add: http_parse_def readUInt8_def nth_append)

text \<open>A LoRa packet carries one message.\<close>

lemma lora_message: "short m \<Longrightarrow> lora_messages (xs @ message_of m) (length xs) = Some [m]"
  by (subst lora_messages.simps)
    (cases m; auto simp: short_def subscribe_message_def readUInt8_def nth_append uint_small_byte Let_def drop_Cons')

lemma lora_parse_packet:
  assumes "length addr = 6" "short m"
  shows "lora_parse seen (addr @ [s] @ message_of m) =
    (if seen addr = Some (uint s) then (Some [], seen) else (Some [m], seen(addr \<mapsto> uint s)))"
  using lora_message [OF assms(2), of "addr @ [s]"] assms(1)
  by (simp add: lora_parse_def readUInt8_def nth_append)

interpretation http_packet: codec "\<lambda>(addr, s, ms). addr @ [word_of_int s] @ concat (map http_frame ms)" http_parse
  "\<lambda>(addr, s, ms). length addr = 6 \<and> 0 \<le> s \<and> s < 256 \<and> ms \<noteq> [] \<and> (\<forall>m\<in>set ms. short m)"
  using http_parse_packet by unfold_locales (auto simp: uint_word_of_int_eq take_bit_eq_mod)

section \<open>The cellular network\<close>

lemma post_of_framed:
  assumes "map snd (messages r) = map message_of ms"
  shows "post_of r n = own_address r @ [seq_num r] @ concat (map http_frame (take n ms))"
proof -
  have "map framed_message (take n (messages r)) = map (\<lambda>xs. [0, word_of_nat (length xs)] @ xs) (take n (map snd (messages r)))"
    by (simp add: framed_message_def take_map)
  also have "\<dots> = map http_frame (take n ms)" unfolding assms by (simp add: http_frame_def take_map)
  finally show ?thesis by (simp add: post_of_def)
qed

lemma published_short:
  assumes "ring_wf r" "map snd (messages r) = map message_of ms"
  shows "\<forall>m\<in>set ms. short m"
proof
  fix m assume "m \<in> set ms"
  then have "message_of m \<in> snd ` set (messages r)"
    using arg_cong [OF assms(2), of set] by auto
  then obtain k where k: "k < ring_len r" "message_of m = snd (entry r ((unat (queue_head r) + k) mod 30))"
    by (auto simp: messages_def)
  then have "length (message_of m) = unat (data_length r ! ((unat (queue_head r) + k) mod 30))"
    using entry_length [OF assms(1)] by simp
  then show "short m" using assms(1) by (simp add: ring_wf_def short_def length_message_of)
qed

text \<open>C15: let the ring hold published messages (a topic and data), none longer than the first, and no callback run while the modem works. A cellular
  transmission that returns leaves the ring as it was, or it put on the modem's line a file for the server, announced with its length, and
  the request to post that file; and from these bytes the server takes exactly the topics and data of the messages that
  have left the ring, at least one, in order, with the address of the radio and the sequence number.\<close>

theorem cellular_messages_reach_server:
  assumes "ring_wf r" "messages r \<noteq> []" "length (own_address r) = 6"
    and "\<forall>m\<in>set (messages r). length (snd m) \<le> first_length r"
    and "map snd (messages r) = map message_of ms"
    and "send_cellular Inr r = Inr (go_on, r')"
  shows "messages r' = messages r \<and> seq_num r' = seq_num r \<or>
    (\<exists>n post before after. 0 < n \<and> n \<le> length ms \<and>
       line_out SARA_CONSOLE (modem r') = line_out SARA_CONSOLE (modem r) @ before @ file_command (length post) @ post @
         post_request POST_ADDRESS (chars ''/signpost'') @ after \<and>
       http_parse post = Some (own_address r, uint (seq_num r), take n ms) \<and>
       messages r' = drop n (messages r) \<and> seq_num r' = seq_num r + 1)"
proof -
  have len: "length ms = length (messages r)" using arg_cong [OF assms(5), of length] by simp
  have "http_parse (post_of r n) = Some (own_address r, uint (seq_num r), take n ms)" if "0 < n" "n \<le> length (messages r)" for n
    unfolding post_of_framed [OF assms(5)]
    by (rule http_parse_packet) (use assms(3) published_short [OF assms(1,5)] that len in \<open>auto dest: in_set_takeD\<close>)
  then show ?thesis using cellular_removes_what_it_posted [OF assms(1-4,6)] unfolding len by blast
qed

definition published_post :: radio where
  "published_post = sample_radio (Arrives sample_operator # post_answers sample_operator 0x31 @ [Arrives (file_answer accepted_file)])
     [(1, subscribe_message [0x61] [7])]"

lemma published_post_facts:
  "ring_wf published_post" "messages published_post = [(1, subscribe_message [0x61] [7])]" "length (own_address published_post) = 6"
  "\<forall>m\<in>set (messages published_post). length (snd m) \<le> first_length published_post"
  "\<exists>r'. send_cellular Inr published_post = Inr (True, r') \<and> messages r' = []"
proof -
  show facts: "ring_wf published_post" "messages published_post = [(1, subscribe_message [0x61] [7])]" "length (own_address published_post) = 6"
    "\<forall>m\<in>set (messages published_post). length (snd m) \<le> first_length published_post"
    by (simp_all add: published_post_def sample_ring sample_fields first_length_def subscribe_message_def)
  have op: "20 < length sample_operator" "length sample_operator \<le> 50" "ends_ok sample_operator" by code_simp+
  show "\<exists>r'. send_cellular Inr published_post = Inr (True, r') \<and> messages r' = []"
    using cellular_sends [OF facts(1) _ facts(3,4) _ _ op, where d = "0x31"] facts(2)
    by (simp add: published_post_def sample_fields first_length_def subscribe_message_def)
qed

theorem cellular_messages_reach_server_witness:
  "\<exists>r' post before after. send_cellular Inr published_post = Inr (True, r') \<and> messages r' = [] \<and>
     line_out SARA_CONSOLE (modem r') = before @ file_command (length post) @ post @ post_request POST_ADDRESS (chars ''/signpost'') @ after \<and>
     http_parse post = Some (own_address published_post, uint (seq_num published_post), [([0x61], [7])])"
proof -
  obtain r' where r': "send_cellular Inr published_post = Inr (True, r')" "messages r' = []"
    using published_post_facts(5) by blast
  have ne: "messages published_post \<noteq> []" by (simp add: published_post_facts)
  have mm: "map snd (messages published_post) = map message_of [([0x61], [7])]" by (simp add: published_post_facts)
  have "\<not> (messages r' = messages published_post \<and> seq_num r' = seq_num published_post)" using r'(2) ne by simp
  with cellular_messages_reach_server [OF published_post_facts(1) ne published_post_facts(3,4) mm r'(1)]
  obtain n post before after where n: "0 < n" "n \<le> length [([0x61 :: byte], [7 :: byte])]"
    and line: "line_out SARA_CONSOLE (modem r') = line_out SARA_CONSOLE (modem published_post) @ before @ file_command (length post) @ post @
         post_request POST_ADDRESS (chars ''/signpost'') @ after"
    and parse: "http_parse post = Some (own_address published_post, uint (seq_num published_post), take n [([0x61], [7])])" by blast
  have "n = 1" using n by simp
  then show ?thesis using r' parse line append.assoc by (metis One_nat_def take_Suc_Cons take0)
qed

section \<open>LoRa\<close>

text \<open>
  The packet of the first message; a repetition of the last packet, as when the radio missed its acknowledgement, is
  dropped.
\<close>

lemma lora_packet_reaches_server:
  assumes "ring_wf r" "messages r = (a, message_of m) # rest" "length (own_address r) = 6"
    and "seen (own_address r) \<noteq> Some (uint (seq_num r))"
  shows "lora_parse seen (lora_packet r) = (Some [m], seen(own_address r \<mapsto> uint (seq_num r)))"
    and "lora_parse (seen(own_address r \<mapsto> uint (seq_num r))) (lora_packet r) = (Some [], seen(own_address r \<mapsto> uint (seq_num r)))"
proof -
  have "message_of m \<in> snd ` set (messages r)" by (simp add: assms(2))
  then obtain k where "k < ring_len r" "message_of m = snd (entry r ((unat (queue_head r) + k) mod 30))"
    by (auto simp: messages_def)
  then have "length (message_of m) = unat (data_length r ! ((unat (queue_head r) + k) mod 30))"
    using entry_length [OF assms(1)] by simp
  then have "short m" using assms(1) by (simp add: ring_wf_def short_def length_message_of)
  then show "lora_parse seen (lora_packet r) = (Some [m], seen(own_address r \<mapsto> uint (seq_num r)))"
    "lora_parse (seen(own_address r \<mapsto> uint (seq_num r))) (lora_packet r) = (Some [], seen(own_address r \<mapsto> uint (seq_num r)))"
    using assms lora_parse_packet [OF assms(3), of m _ "seq_num r"] by (simp_all add: lora_packet_def)
qed

section \<open>The status message\<close>

text \<open>The buffer of the status as \<open>main\<close> sets it up: the topic, a place for the length, the type of the message.\<close>

definition status_layout :: "radio \<Rightarrow> bool" where
  "status_layout r \<longleftrightarrow> length (status_send_buf r) = 400 \<and> status_length_offset r = 22 \<and> status_data_offset r = 24 \<and>
     take 22 (status_send_buf r) = 21 # status_topic \<and> status_send_buf r ! 23 = 0x02"

lemma status_topic_bytes:
  "status_topic = [115, 105, 103, 110, 112, 111, 115, 116, 47, 114, 97, 100, 105, 111, 47, 115, 116, 97, 116, 117, 115]"
  by code_simp

lemma set_up_gives_layout:
  assumes "length (status_send_buf r) = 400" "set_up_status r = Inr r'"
  shows "status_layout r'"
  using assms by (auto simp: set_up_status_def status_layout_def status_topic_bytes andthen_Inr_iff memcpy_at_def overwrite_def
      nth_append split: if_split_asm)

text \<open>What a status of this form holds ends before the place where the server looks for the length of the queue.\<close>

lemma status_too_short:
  assumes "length data = 2 * n + 3" "readUInt8 data 1 = Some (int n)"
  shows "parse_status data = None"
proof -
  have "readUInt8 data (n * 2 + 2 + 1) = None" "readUInt16BE data (n * 2 + 2 + 1) = None"
    using assms(1) by (simp_all add: readUInt8_def readUInt16BE_def)
  then have "Option.bind (stored_logs data k (n * 2 + 2 + 1)) (\<lambda>(logs, i). Option.bind (readUInt8 data i) (f logs)) = None" for k f
    by (cases k) simp_all
  note past_end = this
  show ?thesis
  proof (cases "count_packets data [0..<n] (\<lambda>a. if a \<in> known_modules then Some 0 else None)")
    case (Some sent)
    then show ?thesis
      unfolding parse_status_def Let_def assms(2) bind.bind_lunit nat_int
      by (cases "readUInt8 data (n * 2 + 2)") (simp_all only: bind.bind_lunit bind.bind_lzero past_end)
  qed (simp add: parse_status_def assms(2) [simplified])
qed

lemma status_entries_keep:
  "status_entries is p reps r = Inr (p', reps', r') \<Longrightarrow> status_data_offset r = 24 \<Longrightarrow>
   \<exists>b. r' = r\<lparr>status_send_buf := b\<rparr> \<and> length b = length (status_send_buf r) \<and> take 25 b = take 25 (status_send_buf r)"
proof (induction "is" p reps r rule: status_entries.induct)
  case (1 packets reps r)
  then show ?case by (intro exI [of _ "status_send_buf r"]) simp
next
  case (2 i "is" packets reps r)
  show ?case
  proof (cases "module_num_map r ! i \<noteq> 0")
    case True
    then obtain b where b: "memcpy_at (status_send_buf r) (25 + 2 * i) [module_num_map r ! i, module_packet_count r ! i] = Inr b"
      and rest: "status_entries is ((packets + unat (module_packet_count r ! i)) mod 65536) (reps[i := (module_num_map r ! i, 0)])
        (r\<lparr>status_send_buf := b\<rparr>) = Inr (p', reps', r')" and i: "i < length reps"
      using 2(2,3) by (auto simp: andthen_Inr_iff split: if_split_asm)
    have "length b = length (status_send_buf r)" "take 25 b = take 25 (status_send_buf r)"
      using b by (auto simp: memcpy_at_def overwrite_def split: if_split_asm)
    moreover obtain b' where "r' = r\<lparr>status_send_buf := b'\<rparr>" "length b' = length b" "take 25 b' = take 25 b"
      using 2(1) [OF True i _ rest] 2(3) b by auto
    ultimately show ?thesis by auto
  next
    case False
    then show ?thesis using 2(2) by (intro exI [of _ "status_send_buf r"]) simp
  qed
qed

lemma on_node_quiet: "on_node Inr f r = Inr (rc, r') \<Longrightarrow> \<exists>a evs. r' = r\<lparr>node := a, node_events := evs\<rparr>"
  by (auto simp: on_node_def andthen_Inr_iff)

lemma report_keeps:
  "report_energy Inr m p reps r = Inr r' \<Longrightarrow>
     same_ring r r' \<and> status_send_buf r' = status_send_buf r \<and> number_of_modules r' = number_of_modules r \<and>
     status_length_offset r' = status_length_offset r \<and> status_data_offset r' = status_data_offset r"
  by (auto simp: report_energy_def andthen_Inr_iff same_ring_def dest!: on_node_quiet split: if_split_asm)

lemma add_buffer_prefix: "unat k = length xs \<Longrightarrow> add_buffer_to_queue a (xs @ ys) k r = add_buffer_to_queue a xs k r"
  by (auto simp: add_buffer_to_queue_def read_at_def Let_def)

lemma status_queued:
  assumes "status_layout r" "unat (number_of_modules r) \<le> 8" "status_send_buf r ! 24 = number_of_modules r"
    and "ring_wf r" "ring_len r < 29"
  shows "\<exists>r' data. queue_status r = Inr r' \<and> messages r' = messages r @ [(0x22, message_of (status_topic, data))] \<and> readUInt8 data 0 = Some 2 \<and>
    parse_radio_status data = None"
proof -
  let ?n = "unat (number_of_modules r)" and ?b = "status_send_buf r"
  define p where "p = 21 # status_topic"
  define rest where "rest = drop 25 ?b"
  have b: "length ?b = 400" "take 22 ?b = p" "?b ! 23 = 2" using assms(1) by (simp_all add: status_layout_def p_def)
  have lp: "length p = 22" by (simp add: p_def status_topic_bytes)
  have "drop 22 ?b = ?b ! 22 # ?b ! 23 # ?b ! 24 # rest"
    using b(1) Cons_nth_drop_Suc [of 22 ?b] Cons_nth_drop_Suc [of 23 ?b] Cons_nth_drop_Suc [of 24 ?b] by (simp add: rest_def)
  then have shape: "?b = p @ ?b ! 22 # 2 # number_of_modules r # rest"
    using append_take_drop_id [of 22 ?b] b(2,3) assms(3) by simp
  define body where "body = number_of_modules r # take (2 * ?n) rest @ [calc_queue_length r]"
  define tail where "tail = drop (Suc (2 * ?n)) rest"
  define l :: byte where "l = word_of_nat (2 * ?n + 3)"
  have lr: "length rest = 375" using b(1) by (simp add: rest_def)
  have 1: "memcpy_at ?b (24 + 1 + 2 * ?n) [calc_queue_length r] = Inr (p @ ?b ! 22 # 2 # body @ tail)"
    using assms(2) lp lr by (subst shape) (simp add: memcpy_at_def overwrite_def body_def tail_def b(1) take_Cons' drop_Cons')
  have 2: "memcpy_at (p @ ?b ! 22 # 2 # body @ tail) 22 [l] = Inr (p @ l # 2 # body @ tail)"
    using lp by (simp add: memcpy_at_def overwrite_def)
  define data where "data = 2 # body"
  have body: "length body = 2 * ?n + 2" using assms(2) lr by (simp add: body_def)
  have d: "length data = 2 * ?n + 3" "readUInt8 data 0 = Some 2" "readUInt8 data 1 = Some (int ?n)"
    using body by (simp_all add: data_def readUInt8_def body_def)
  have msg: "message_of (status_topic, data) = p @ l # data"
    using d(1) by (simp add: subscribe_message_def p_def l_def status_topic_bytes)
  have len: "length (message_of (status_topic, data)) = 26 + 2 * ?n" using msg lp d(1) by simp
  have add: "add_buffer_to_queue 0x22 (p @ l # 2 # body @ tail) k r1 = add_buffer_to_queue 0x22 (message_of (status_topic, data)) k r1"
    if "k = word_of_nat (length (message_of (status_topic, data)))" for k r1
  proof -
    have "unat k = length (message_of (status_topic, data))" unfolding that by (rule unat_small_byte) (use assms(2) len in simp)
    moreover have "p @ l # 2 # body @ tail = message_of (status_topic, data) @ tail" unfolding msg by (simp add: data_def)
    ultimately show ?thesis by (simp only: add_buffer_prefix)
  qed
  define r1 where "r1 = r\<lparr>status_send_buf := p @ l # 2 # body @ tail\<rparr>"
  have r1: "ring_wf r1" "ring_len r1 < 29" "messages r1 = messages r"
    using assms(4,5) same_ring_messages [of r r1] by (simp_all add: r1_def ring_wf_def ring_len_def same_ring_def)
  obtain r2 where r2: "add_buffer_to_queue 0x22 (message_of (status_topic, data)) (word_of_nat (26 + 2 * ?n)) r1 = Inr (0, r2)"
      "messages r2 = messages r @ [(0x22, message_of (status_topic, data))]"
    using add_buffer_stored [OF r1(1,2), where addr = "0x22" and xs = "message_of (status_topic, data)" and n = "word_of_nat (26 + 2 * ?n)"]
      assms(2) r1(3) len by fastforce
  have off: "unat (status_data_offset r) = 24" "unat (status_length_offset r) = 22" using assms(1) by (simp_all add: status_layout_def)
  have sums: "2 + 2 * ?n + 1 = 2 * ?n + 3" "24 + 1 + 2 * ?n + 1 = 26 + 2 * ?n" by simp_all
  have "queue_status r = Inr (r2\<lparr>send_counter := 0\<rparr>)"
    unfolding queue_status_def Let_def off sums l_def [symmetric] 1 andthen.simps 2 r1_def [symmetric]
    using r2(1) add [of "word_of_nat (26 + 2 * ?n)" r1] len by simp
  moreover have "messages (r2\<lparr>send_counter := 0\<rparr>) = messages r2" by (simp add: messages_def ring_len_def entry_def)
  ultimately show ?thesis using r2(2) d status_too_short [OF d(1,3)] by (auto simp: parse_radio_status_def)
qed

text \<open>C24: the status that the radio with Bluetooth (\<open>radio_app_ble\<close>) queues, when its buffer is laid out as the start does, at most eight modules are known,
  the ring has room and no callback runs while it reports its energy, is a message of the status topic and of the type with the stored messages, which it does not
  contain: the server's parser takes the branch of this type, reads past the end of the message and raises an error.\<close>

theorem quiet_status_not_read:
  assumes "status_layout r" "unat (number_of_modules r) \<le> 8" "ring_wf r" "ring_len r < 29"
    and "status_round Inr m r = Inr (True, r')"
  shows "\<exists>data. messages r' = messages r @ [(0x22, message_of (status_topic, data))] \<and> readUInt8 data 0 = Some 2 \<and>
    parse_radio_status data = None"
proof -
  define b where "b = overwrite (status_send_buf r) 24 [number_of_modules r]"
  have len: "length (status_send_buf r) = 400" and off: "status_data_offset r = 24" "status_length_offset r = 22"
    using assms(1) by (simp_all add: status_layout_def)
  have b: "memcpy_at (status_send_buf r) (unat (status_data_offset r)) [number_of_modules r] = Inr b"
    using len off by (simp add: memcpy_at_def b_def)
  define r1 where "r1 = r\<lparr>status_send_buf := b, heap := snd (pop True (heap r))\<rparr>"
  obtain packets reps r2 r3 where e: "status_entries [0..<NUMBER_OF_MODULES] 0 (replicate (unat (number_of_modules r1)) (0, 0)) r1 = Inr (packets, reps, r2)"
    and rep: "report_energy Inr m packets reps r2 = Inr r3" and q: "queue_status r3 = Inr r'"
    using assms(5) by (auto simp: status_round_def b r1_def andthen_Inr_iff Let_def split: prod.splits if_split_asm)
  obtain b' where b': "r2 = r1\<lparr>status_send_buf := b'\<rparr>" "length b' = length b" "take 25 b' = take 25 b"
    using status_entries_keep [OF e] off by (auto simp: r1_def)
  note r3 = report_keeps [OF rep]
  have buf: "status_send_buf r3 = b'" using r3 b'(1) by simp
  have lb: "length b = 400" "take 24 b = take 24 (status_send_buf r)" "b ! 24 = number_of_modules r"
    using len by (simp_all add: b_def overwrite_def nth_append)
  have t: "take 22 b' = take 22 (status_send_buf r)" "b' ! 23 = status_send_buf r ! 23" "b' ! 24 = number_of_modules r"
    using arg_cong [OF b'(3), of "take 22"] arg_cong [OF b'(3), of "\<lambda>xs. xs ! 23"] arg_cong [OF b'(3), of "\<lambda>xs. xs ! 24"]
      arg_cong [OF lb(2), of "take 22"] arg_cong [OF lb(2), of "\<lambda>xs. xs ! 23"] lb(3) by simp_all
  have ring: "same_ring r r3" using r3 b'(1) by (simp add: r1_def same_ring_def)
  have "\<exists>r' data. queue_status r3 = Inr r' \<and> messages r' = messages r3 @ [(0x22, message_of (status_topic, data))] \<and>
      readUInt8 data 0 = Some 2 \<and> parse_radio_status data = None"
    by (rule status_queued)
      (use r3 b' t lb assms(1-4) buf same_ring_wf [OF ring] ring_len_same [OF ring] in \<open>simp_all add: status_layout_def r1_def\<close>)
  then show ?thesis using same_ring_messages [OF ring] q by auto
qed

text \<open>A radio that has counted no packets yet and whose library is busy with another energy request.\<close>

definition idle_radio :: radio where
  "idle_radio = (radio_boot (upd_svc (\<lambda>v. v\<lparr>energy_cb := Some EnergySyncCallback\<rparr>) api_boot) clean_uart (replicate 6 0) [])"

theorem quiet_status_not_read_witness:
  "\<exists>r r' data. set_up_status idle_radio = Inr r \<and> status_round Inr toy_tls r = Inr (True, r') \<and>
     messages r' = [(0x22, message_of (status_topic, data))] \<and> parse_radio_status data = None"
proof -
  have l400: "length (status_send_buf idle_radio) = 400" by (simp add: idle_radio_def radio_boot_def)
  then obtain b where r: "set_up_status idle_radio = Inr (idle_radio\<lparr>status_send_buf := b, status_length_offset := 22, status_data_offset := 24\<rparr>)"
    by (simp add: set_up_status_def status_topic_bytes memcpy_at_def c_mem)
  let ?r = "idle_radio\<lparr>status_send_buf := b, status_length_offset := 22, status_data_offset := 24\<rparr>"
  have lay: "status_layout ?r" using set_up_gives_layout [OF l400 r] .
  have ring: "ring_wf ?r" "messages ?r = []"
    using same_ring_wf [of idle_radio ?r] same_ring_messages [of idle_radio ?r] radio_boot_ring
    by (simp_all add: same_ring_def idle_radio_def)
  have len: "ring_len ?r < 29" using arg_cong [OF ring(2), of length] by simp
  have n: "number_of_modules ?r = 0" by (simp add: idle_radio_def radio_boot_def)
  define b1 where "b1 = overwrite b 24 [0]"
  define r1 where "r1 = ?r\<lparr>status_send_buf := b1\<rparr>"
  have lb: "length b = 400" using lay by (simp add: status_layout_def)
  have b1: "memcpy_at b 24 [0] = Inr b1" using lb by (simp add: memcpy_at_def b1_def)
  have h: "heap idle_radio = []" "heap ?r = []" by (simp_all add: idle_radio_def radio_boot_def)
  have e: "status_entries [0..<NUMBER_OF_MODULES] 0 [] r1 = Inr (0, [], r1)"
    by (simp add: NUMBER_OF_MODULES_def upt_rec r1_def idle_radio_def radio_boot_def)
  have busy: "report_energy Inr toy_tls 0 [] r1 = Inr r1"
    by (simp add: report_energy_def on_node_def signpost_energy_query_def signpost_energy_query_async_def r1_def idle_radio_def
        radio_boot_def upd_svc_def PORT_EBUSY_def api_boot_def services_boot_def)
  have ok: "status_layout r1" "status_send_buf r1 ! 24 = number_of_modules r1" "number_of_modules r1 = 0"
    using lay lb n by (auto simp: status_layout_def r1_def b1_def overwrite_def nth_append)
  have ring1: "same_ring ?r r1" by (simp add: r1_def same_ring_def)
  obtain r' where q: "queue_status r1 = Inr r'"
    using status_queued [of r1] ok same_ring_wf [OF ring1] ring_len_same [OF ring1] ring(1) len by auto
  have r': "status_round Inr toy_tls ?r = Inr (True, r')"
  proof -
    have "idle_radio\<lparr>status_length_offset := 22, status_data_offset := 24, status_send_buf := b1, heap := []\<rparr> = r1"
      by (simp add: r1_def idle_radio_def radio_boot_def)
    then show ?thesis using n b1 h e busy q by (simp add: status_round_def Let_def)
  qed
  show ?thesis using quiet_status_not_read [OF lay _ ring(1) len r'] n ring(2) r r' by auto
qed

section \<open>The status of the radio without Bluetooth\<close>

text \<open>The other radio program (\<open>radio_app\<close>) sends the type without logs. The server reads it, with the list of modules one byte too early:
  the number of modules as an address, each count as the next address, and the last count as the length of the queue.\<close>

lemma counts_in_bounds: "\<forall>j\<in>set js. 2 * j + 2 < length buf \<Longrightarrow> \<exists>t1. count_packets buf js t0 = Some t1"
  by (induction buf js t0 rule: count_packets.induct) (auto simp: readUInt8_def mult.commute split: if_splits)

lemma counts_shifted:
  assumes "length data = 2 * n + 3" "data ! 0 = 1" "data ! 1 = word_of_nat n" "n \<le> 8"
  shows "\<exists>s. parse_radio_status data = Some (Some s) \<and> radio_queue_length s = uint (data ! (2 * n + 1))"
proof -
  have reads: "readUInt8 data 0 = Some 1" "readUInt8 data 1 = Some (int n)" "readUInt8 data (1 + n * 2) = Some (uint (data ! (2 * n + 1)))"
    using assms by (simp_all add: readUInt8_def uint_small_byte mult.commute)
  obtain t1 where "count_packets data [0..<n] (\<lambda>a. if a \<in> known_modules then Some 0 else None) = Some t1"
    using counts_in_bounds [of "[0..<n]" data] assms(1) by auto
  then show ?thesis using reads by (simp add: parse_radio_status_def parse_status_counts_def)
qed

lemma app_status_misread:
  assumes "length (status_send_buf r) = 50" "status_length_offset r = 22" "status_data_offset r = 24"
    and "take 22 (status_send_buf r) = 21 # status_topic" "status_send_buf r ! 23 = 1"
    and "unat (number_of_modules r) \<le> 8" "status_send_buf r ! 24 = number_of_modules r" "app_queue_status r = Inr r'"
  defines "n \<equiv> unat (number_of_modules r)"
  shows "\<exists>data s. take (26 + 2 * n) (status_send_buf r') = message_of (status_topic, data) \<and> parse_radio_status data = Some (Some s) \<and>
    radio_queue_length s = uint (status_send_buf r ! (24 + 2 * n))"
proof -
  define b1 where "b1 = (status_send_buf r)[25 + 2 * n := calc_queue_length r]"
  define b2 where "b2 = b1[22 := word_of_nat (2 * n + 3)]"
  have n8: "n \<le> 8" using assms(6) by (simp add: n_def)
  have put: "overwrite xs k [x] = xs[k := x]" if "k < length xs" for xs :: bytes and k x
    using that by (simp add: overwrite_def upd_conv_take_nth_drop)
  have 1: "memcpy_at (status_send_buf r) (25 + 2 * n) [calc_queue_length r] = Inr b1" "memcpy_at b1 22 [word_of_nat (2 * n + 3)] = Inr b2"
    using n8 assms(1) by (simp_all add: memcpy_at_def b1_def b2_def put)
  have offs: "unat (status_data_offset r) + 1 + 2 * n = 25 + 2 * n" "unat (status_length_offset r) = 22" "2 + 2 * n + 1 = 2 * n + 3"
    by (simp_all add: assms(2,3))
  obtain rc r1 where add: "app_add_buffer_to_queue 0x22 b2 (word_of_nat (25 + 2 * n + 1)) (r\<lparr>status_send_buf := b2\<rparr>) = Inr (rc, r1)"
    and r': "r' = r1\<lparr>send_counter := 0\<rparr>"
    using assms(8) unfolding app_queue_status_def Let_def n_def [symmetric] offs 1 andthen.simps
    by (elim andthen_InrE) auto
  have buf: "status_send_buf r' = b2"
    using add r' by (auto simp: app_add_buffer_to_queue_def Let_def elim!: andthen_InrE split: if_splits)
  define data where "data = take (2 * n + 3) (drop 23 b2)"
  have len: "length b2 = 50" using assms(1) by (simp add: b1_def b2_def)
  have d: "length data = 2 * n + 3" "data ! 0 = 1" "data ! 1 = word_of_nat n" "data ! (2 * n + 1) = status_send_buf r ! (24 + 2 * n)"
    using n8 len assms(1,5,7) by (simp_all add: data_def b2_def b1_def n_def)
  have "take 22 b2 = 21 # status_topic" using assms(4) by (simp add: b2_def b1_def)
  moreover have "drop 22 b2 = word_of_nat (2 * n + 3) # drop 23 b2"
    using len Cons_nth_drop_Suc [of 22 b2] by (simp add: b2_def b1_def assms(1))
  moreover have "take (26 + 2 * n) b2 = take 22 b2 @ take (Suc (2 * n + 3)) (drop 22 b2)"
    using take_add [of 22 "Suc (2 * n + 3)" b2] by (simp add: add.commute)
  ultimately have "take (26 + 2 * n) b2 = 21 # status_topic @ word_of_nat (2 * n + 3) # data"
    by (simp only: take_Suc_Cons data_def) simp
  also have "\<dots> = message_of (status_topic, data)"
    using d(1) by (simp add: subscribe_message_def status_topic_bytes)
  finally show ?thesis
    using counts_shifted [OF d(1-3) n8] d(4) buf by metis
qed

end
