(* ===== verification/Sensor_Modules.thy ===== *)
theory Sensor_Modules
  imports Signpost_Init Signpost_Services Backplane Packet_Bytes
begin

text \<open>
  What the programs of the sensor modules share: the library's state, the board, the loop that starts the library, and the time
  stamp of a report. Each program extends the record \<open>sensor_module\<close> with its own statics.
\<close>

record sensor_module =
  mnode :: api
  mevents :: "api_event list"
  mboard :: backplane
  leds :: "(nat \<times> bool) list"
  report_every :: "nat option"

definition module_boot :: "api \<Rightarrow> api_event list \<Rightarrow> sensor_module" where
  "module_boot a evs = \<lparr>mnode = a, mevents = evs, mboard = \<lparr>hw_log = [], pin_reads = \<lambda>_. []\<rparr>, leds = [], report_every = None\<rparr>"

definition board_ops :: "hw_op list \<Rightarrow> 'a sensor_module_scheme \<Rightarrow> 'a sensor_module_scheme" where
  "board_ops ops s = s\<lparr>mboard := hws ops (mboard s)\<rparr>"

definition led :: "nat \<Rightarrow> bool \<Rightarrow> 'a sensor_module_scheme \<Rightarrow> 'a sensor_module_scheme" where
  "led n on s = s\<lparr>leds := leds s @ [(n, on)]\<rparr>"

text \<open>
  A call of the library that waits for a reply; what other callbacks do to the module meanwhile is \<open>W\<close>.
\<close>

definition on_mnode ::
  "('a sensor_module_scheme \<Rightarrow> fault + 'a sensor_module_scheme) \<Rightarrow> (api_event list \<Rightarrow> api \<Rightarrow> fault + 'b \<times> api \<times> api_event list)
     \<Rightarrow> 'a sensor_module_scheme \<Rightarrow> fault + 'b \<times> 'a sensor_module_scheme" where
  "on_mnode W f s =
     andthen (f (mevents s) (mnode s)) (\<lambda>(x, a, evs).
     andthen (W (s\<lparr>mnode := a, mevents := evs\<rparr>)) (\<lambda>s'. Inr (x, s')))"

text \<open>The library is started until it succeeds, every five seconds; \<open>None\<close> is a module that tries for ever.\<close>

partial_function (option) module_init_loop ::
  "user \<Rightarrow> mbedtls \<Rightarrow> bytes \<Rightarrow> bytes \<Rightarrow> ('a sensor_module_scheme \<Rightarrow> fault + 'a sensor_module_scheme) \<Rightarrow> 'a sensor_module_scheme
     \<Rightarrow> (fault + 'a sensor_module_scheme) option" where
  "module_init_loop H m org name W s =
     (case signpost_init H m org name (mevents s) (mnode s) of
        None \<Rightarrow> None
      | Some (Inl f) \<Rightarrow> Some (Inl f)
      | Some (Inr (rc, a, evs)) \<Rightarrow>
          let s1 = s\<lparr>mnode := a, mevents := evs\<rparr>
          in if rc < 0
             then (case W (board_ops [Delay 5000] s1) of
                     Inl f \<Rightarrow> Some (Inl f)
                   | Inr s2 \<Rightarrow> module_init_loop H m org name W s2)
             else Some (Inr s1))"

text \<open>
  The time of the next report; \<open>secs\<close> are added when it could not be had. The library writes the time before it looks at the number of
  satellites, so that too few of them give a new time and an error.
\<close>

definition refresh_time :: "int \<Rightarrow> int \<times> int option \<Rightarrow> int \<Rightarrow> int" where
  "refresh_time secs res t =
     (let (rc, new) = res; t1 = (case new of None \<Rightarrow> t | Some x \<Rightarrow> x)
      in if rc < 0 then t1 + secs else t1)"

text \<open>A call with a buffer shorter than the length it is given: the publish reads past the end of the buffer, or fails before.\<close>

lemma memcpy_at_Inl: "memcpy_at b off xs = Inl f \<Longrightarrow> f = OutOfBounds"
  by (simp add: memcpy_at_def split: if_split_asm)

lemma publish_buffer_short:
  assumes "length data < dl"
  shows "publish_buffer name topic data dl slen nlen slash buf = Inl OutOfBounds"
proof -
  have s: "andthen m f = Inl OutOfBounds" if "m = Inl OutOfBounds \<or> (\<exists>x. m = Inr x \<and> f x = Inl OutOfBounds)" for m :: "fault + bytes" and f :: "bytes \<Rightarrow> fault + bytes"
    using that by auto
  have c: "memcpy_at b off xs = Inl OutOfBounds \<or> (\<exists>x. memcpy_at b off xs = Inr x)" for b :: bytes and off xs
    by (simp add: memcpy_at_def)
  have k: "andthen (memcpy_at b off xs) f = Inl OutOfBounds" if "\<And>x. f x = Inl OutOfBounds" for b :: bytes and off xs and f :: "bytes \<Rightarrow> fault + bytes"
    using that c [of b off xs] by auto
  have k': "andthen (if z then memcpy_at b off xs else Inr b) f = Inl OutOfBounds" if "\<And>x. f x = Inl OutOfBounds" for b :: bytes and off xs z and f :: "bytes \<Rightarrow> fault + bytes"
    using that k by simp
  have "read_at data 0 dl = Inl OutOfBounds" using assms by (simp add: read_at_def)
  then show ?thesis unfolding publish_buffer_def by (intro k k') simp
qed

lemma publish_too_long:
  assumes "length data < unat len" "signpost_networking_publish H m topic data len evs s = Inr (rc, s', evs')"
  shows "rc = PORT_ENOMEM"
proof -
  obtain ok s1 where "api_malloc s = (ok, s1)" by fastforce
  then show ?thesis
    using assms(2) publish_buffer_short [OF assms(1)]
    by (auto simp: signpost_networking_publish_def andthen_Inr_iff Let_def split: if_split_asm)
qed

end
