(* ===== verification/Motion_Detector.thy ===== *)
theory Motion_Detector
  imports Sensor_Modules Radio
begin

text \<open>
  The microwave radar of the motion module: the driver \<open>libsignpost-tock/microwave_radar.c\<close>, which sums up in a sliding window how far
  the samples are from their mean, and the program \<open>microwave_radar_module/motion_detector/main.c\<close>, which publishes the sums. The
  statics of the driver are the record \<open>radar\<close>; those of the program extend \<open>sensor_module\<close>.
\<close>

section \<open>The driver\<close>

definition SAMPLE_FREQ :: nat where "SAMPLE_FREQ = 4000"
definition MOTION_THRESHOLD :: u32 where "MOTION_THRESHOLD = 1000000"
definition ACCUMULATOR_SIZE :: nat where "ACCUMULATOR_SIZE = 16"
definition COUNTER_SIZE :: nat where "COUNTER_SIZE = 256"
definition NOISE_OFFSET :: u32 where "NOISE_OFFSET = 100"

datatype sample_state = RISING | FALLING | FINISHED_RISING | FINISHED_FALLING

record radar =
  sample_callback :: bool
  accumulator_buffer :: "u32 list"
  accumulator_pointer :: byte
  accumulator_counter :: u32
  mr_index :: u32
  motion_frequency :: u32
  last_average :: u32
  average_accumulator :: u32
  sample_state :: sample_state
  sample_counter :: u32
  max_sample :: u32
  min_sample :: u32
  callback_samples :: "u16 list"

definition radar_boot :: radar where
  "radar_boot = \<lparr>sample_callback = False, accumulator_buffer = replicate ACCUMULATOR_SIZE 0, accumulator_pointer = 0,
     accumulator_counter = 0, mr_index = 0, motion_frequency = 0, last_average = 0, average_accumulator = 0,
     sample_state = RISING, sample_counter = 0, max_sample = 2024, min_sample = 2024, callback_samples = []\<rparr>"

text \<open>
  The quotient of the counter by the frequency is a single-precision number; its inverse, in double precision, is cut off, for which
  its rounding makes no difference. The conversion of the infinite inverse of zero is undefined in C: \<open>at_zero\<close> is what the target gives.
\<close>

definition period_frequency :: "u32 \<Rightarrow> u32 \<Rightarrow> u32" where
  "period_frequency at_zero counter =
     (if counter = 0 then at_zero
      else word_of_int \<lfloor>1 / single (single (of_nat (unat counter)) / of_nat SAMPLE_FREQ)\<rfloor>)"

definition follow_signal :: "u16 \<Rightarrow> radar \<Rightarrow> radar" where
  "follow_signal sample r =
     (let s = ucast sample :: u32
      in if sample_state r = RISING
         then if s \<le> max_sample r - NOISE_OFFSET then r\<lparr>sample_state := FINISHED_RISING\<rparr>
              else r\<lparr>max_sample := (if s > max_sample r then s else max_sample r), sample_state := RISING,
                     sample_counter := sample_counter r + 1\<rparr>
         else if sample_state r = FALLING
         then if s \<ge> min_sample r + NOISE_OFFSET then r\<lparr>sample_state := FINISHED_FALLING\<rparr>
              else r\<lparr>min_sample := (if s < min_sample r then s else min_sample r), sample_state := FALLING,
                     sample_counter := sample_counter r + 1\<rparr>
         else r)"

definition motion_frequency_calculator :: "u32 \<Rightarrow> u16 \<Rightarrow> radar \<Rightarrow> radar" where
  "motion_frequency_calculator at_zero sample r =
     (let r1 = follow_signal sample r
      in if sample_state r1 = FINISHED_RISING \<or> sample_state r1 = FINISHED_FALLING
         then let r2 = r1\<lparr>motion_frequency := period_frequency at_zero (sample_counter r1), sample_counter := 0\<rparr>
              in r2\<lparr>sample_state := (if sample_state r2 = FINISHED_FALLING then RISING else FALLING),
                    max_sample := ucast sample, min_sample := ucast sample\<rparr>
         else r1)"

text \<open>The distance of a sample from the last mean: the difference is unsigned and becomes an \<open>int\<close>.\<close>

definition distance :: "u16 \<Rightarrow> u32 \<Rightarrow> u32" where
  "distance sample avg =
     (let s = sint (ucast sample - avg) in word_of_int (if s < 0 then s * - 1 else s))"

text \<open>The end of a slot of the window.\<close>

definition finish_slot :: "radar \<Rightarrow> radar" where
  "finish_slot r =
     (let next = accumulator_pointer r + 1;
          p = (if next = word_of_nat ACCUMULATOR_SIZE then 0 else next)
      in r\<lparr>last_average := average_accumulator r div word_of_nat COUNTER_SIZE, average_accumulator := 0,
           mr_index := sum_list (accumulator_buffer r), accumulator_pointer := p,
           accumulator_buffer := (accumulator_buffer r)[unat p := 0], accumulator_counter := 0\<rparr>)"

definition accumulate :: "u16 \<Rightarrow> radar \<Rightarrow> radar" where
  "accumulate sample r =
     (let p = unat (accumulator_pointer r);
          r1 = r\<lparr>accumulator_buffer := (accumulator_buffer r)[p := accumulator_buffer r ! p + distance sample (last_average r)],
                 average_accumulator := average_accumulator r + ucast sample,
                 accumulator_counter := accumulator_counter r + 1\<rparr>
      in if accumulator_counter r1 = word_of_nat COUNTER_SIZE then finish_slot r1 else r1)"

definition adc_callback :: "u32 \<Rightarrow> u16 \<Rightarrow> radar \<Rightarrow> radar" where
  "adc_callback at_zero sample r =
     (let r1 = motion_frequency_calculator at_zero sample (accumulate sample r)
      in if sample_callback r1 then r1\<lparr>callback_samples := callback_samples r1 @ [sample]\<rparr> else r1)"

text \<open>The results of the two system calls are combined bit by bit.\<close>

definition mr_init :: "u32 \<Rightarrow> u32 \<Rightarrow> radar \<Rightarrow> u32 \<times> radar" where
  "mr_init ret1 ret2 r = (ret1 OR ret2, r\<lparr>accumulator_buffer := replicate ACCUMULATOR_SIZE 0\<rparr>)"

definition mr_is_motion :: "radar \<Rightarrow> bool" where "mr_is_motion r \<longleftrightarrow> mr_index r > MOTION_THRESHOLD"
definition mr_motion_index :: "radar \<Rightarrow> u32" where "mr_motion_index r = mr_index r"
definition mr_motion_frequency_hz :: "radar \<Rightarrow> u32" where "mr_motion_frequency_hz r = motion_frequency r"

definition mr_frequency_to_speed_mmps :: "u32 \<Rightarrow> u32" where
  "mr_frequency_to_speed_mmps frequency =
     (let speed_fph = (frequency * 5280) div 31; speed_mfps = (speed_fph * 1000) div 3600
      in (speed_mfps * 1000) div 3280)"

definition mr_subscribe_samples :: "bool \<Rightarrow> radar \<Rightarrow> int \<times> radar" where
  "mr_subscribe_samples cb r = (0, r\<lparr>sample_callback := cb\<rparr>)"

definition mr_get_sample_frequency_hz :: u32 where "mr_get_sample_frequency_hz = word_of_nat SAMPLE_FREQ"
definition mr_get_motion_threshold :: u32 where "mr_get_motion_threshold = MOTION_THRESHOLD"

section \<open>The program\<close>

record motion_module = sensor_module +
  radar :: radar
  send_buf :: bytes
  report_count :: nat
  utime :: int

definition motion_boot :: "api \<Rightarrow> api_event list \<Rightarrow> motion_module" where
  "motion_boot a evs = sensor_module.extend (module_boot a evs)
     \<lparr>radar = radar_boot, send_buf = replicate 50 0, report_count = 0, utime = 0\<rparr>"

definition motion_byte :: "u32 \<Rightarrow> byte" where
  "motion_byte index = (if index > 510000 then 255 else ucast ((index div 2000) AND 0xFF))"

definition motion_topic :: bytes where "motion_topic = chars ''motion'' @ [0]"

definition motion_report ::
  "(tm \<Rightarrow> int) \<Rightarrow> user \<Rightarrow> mbedtls \<Rightarrow> (motion_module \<Rightarrow> fault + motion_module) \<Rightarrow> motion_module \<Rightarrow> fault + motion_module" where
  "motion_report mktime H m W s =
     (if 5 + report_count s < length (send_buf s)
      then let s1 = s\<lparr>send_buf := (send_buf s)[5 + report_count s := motion_byte (mr_motion_index (radar s))],
                      report_count := report_count s + 1\<rparr>
      in if report_count s1 = 20
         then andthen (on_mnode W (signpost_networking_publish H m motion_topic (send_buf s1)
                         (word_of_nat (5 + report_count s1 * 4))) s1) (\<lambda>(rc, s2).
              let s3 = (if rc \<ge> 0 then s2\<lparr>mboard := app_watchdog_tickle_kernel (mboard s2)\<rparr> else s2)\<lparr>report_count := 0\<rparr>
              in andthen (on_mnode W (signpost_timelocation_get_time mktime H m False) s3) (\<lambda>(res, s4).
                 let t = refresh_time 20 res (utime s4)
                 in Inr (s4\<lparr>utime := t, send_buf := overwrite (send_buf s4) 1 (be32_int t)\<rparr>)))
         else Inr s1
      else Inl OutOfBounds)"

text \<open>\<open>main\<close>: the radar is off until the library has started.\<close>

definition motion_main ::
  "user \<Rightarrow> mbedtls \<Rightarrow> (motion_module \<Rightarrow> fault + motion_module) \<Rightarrow> u32 \<Rightarrow> u32 \<Rightarrow> motion_module \<Rightarrow> (fault + motion_module) option" where
  "motion_main H m W ret1 ret2 s =
     map_option (\<lambda>res. andthen res (\<lambda>s1.
         let s2 = board_ops [GpioSet 3] (led 2 False s1);
             s3 = s2\<lparr>radar := snd (mr_init ret1 ret2 (radar s2)), send_buf := (send_buf s2)[0 := 0x02], report_every := Some 1000\<rparr>
         in Inr (s3\<lparr>mboard := app_watchdog_start (app_watchdog_set_kernel_timeout 60000 (mboard s3))\<rparr>)))
       (module_init_loop H m (chars ''lab11'') (chars ''radar'') W (board_ops [GpioOutput 3, GpioClear 3] (led 2 True s)))"

end
