(* ===== verification/Motion_Window.thy ===== *)
theory Motion_Window
  imports Motion_Detector
begin

text \<open>
  What the motion index is: the distances of the samples of the last sixteen slots of 256 samples from the mean of the slot before
  theirs, although the driver only keeps sixteen sums in a ring; and what the program makes of it.
\<close>

section \<open>The window as a function of the samples\<close>

definition gap :: "nat \<Rightarrow> u16 \<Rightarrow> nat" where
  "gap a x = nat \<bar>int (unat x) - int a\<bar>"

definition slot_sum :: "nat \<Rightarrow> u16 list \<Rightarrow> nat" where
  "slot_sum a w = sum_list (map (gap a) w)"

definition slot_mean :: "u16 list \<Rightarrow> nat" where
  "slot_mean w = sum_list (map unat w) div 256"

text \<open>The sums of the finished slots, the last one first; the first slot is measured from zero.\<close>

fun slot_sums :: "nat \<Rightarrow> u16 list list \<Rightarrow> nat list" where
  "slot_sums a [] = []"
| "slot_sums a (w # ws) = slot_sums (slot_mean w) ws @ [slot_sum a w]"

lemma gap_le: "a \<le> 65535 \<Longrightarrow> gap a x \<le> 65535"
proof -
  assume "a \<le> 65535"
  moreover have "0 \<le> uint x" "uint x < 65536" using unsigned_less [of x, where 'a = int] by simp_all
  ultimately have "\<bar>uint x - int a\<bar> \<le> 65535" by linarith
  then show ?thesis by (simp add: gap_def)
qed

lemma slot_sum_le:
  assumes "a \<le> 65535"
  shows "slot_sum a w \<le> length w * 65535"
  using gap_le [OF assms] by (induction w) (auto simp: slot_sum_def add_mono)

lemma sample_sum_le: "sum_list (map unat w) \<le> length w * 65535" for w :: "u16 list"
proof (induction w)
  case (Cons x w)
  then show ?case using unat_u16_less [of x] by simp
qed simp

lemma slot_mean_le: "length w = 256 \<Longrightarrow> slot_mean w \<le> 65535"
  using sample_sum_le [of w] by (simp add: slot_mean_def)

lemma distance_gap:
  assumes "unat avg \<le> 65535"
  shows "unat (distance x avg) = gap (unat avg) x"
proof -
  have x: "uint (ucast x :: u32) = uint x" "0 \<le> uint x" "uint x < 65536"
    using unsigned_less [of x, where 'a = int] by (simp_all add: unsigned_ucast_eq take_bit_eq_mod)
  have "int (unat avg) \<le> 65535" using assms by linarith
  then have a: "0 \<le> uint avg" "uint avg \<le> 65535" by simp_all
  have "ucast x - avg = word_of_int (uint x - uint avg)"
    using x(1) by (metis word_of_int_uint wi_hom_sub)
  then have "sint (ucast x - avg) = signed_take_bit 31 (uint x - uint avg)"
    by (simp only: signed_of_int) simp
  also have "\<dots> = uint x - uint avg"
  proof (rule signed_take_bit_int_eq_self)
    have "- 2147483648 \<le> uint x - uint avg" "uint x - uint avg < 2147483648" using x(2,3) a by linarith+
    then show "- (2 ^ 31) \<le> uint x - uint avg" "uint x - uint avg < 2 ^ 31" by simp_all
  qed
  finally have s: "sint (ucast x - avg) = uint x - uint avg" .
  have u: "unat (word_of_int k :: u32) = nat k" if "0 \<le> k" "k < 2 ^ 32" for k
    using that by (simp add: unsigned_of_int take_bit_eq_mod)
  define d where "d = uint x - uint avg"
  have "\<bar>d\<bar> < 65536" unfolding d_def using x(2,3) a by linarith
  then have d: "\<bar>d\<bar> < 2 ^ 32" by simp
  have "distance x avg = word_of_int \<bar>d\<bar>"
    unfolding distance_def s Let_def d_def [symmetric] by (simp add: abs_if)
  then have "unat (distance x avg) = nat \<bar>d\<bar>" using u [OF _ d] by simp
  then show ?thesis by (simp add: gap_def d_def)
qed

section \<open>The ring of sums\<close>

definition ring_index :: "nat \<Rightarrow> nat \<Rightarrow> nat" where
  "ring_index p k = (if k \<le> p then p - k else p + 16 - k)"

lemma ring_index_less: "p < 16 \<Longrightarrow> k < 16 \<Longrightarrow> ring_index p k < 16"
  by (auto simp: ring_index_def)

lemma ring_index_inj: "p < 16 \<Longrightarrow> inj_on (ring_index p) {..<16}"
  by (auto simp: ring_index_def inj_on_def split: if_split_asm)

lemma ring_index_0 [simp]: "ring_index p 0 = p"
  by (simp add: ring_index_def)

lemma ring_index_next: "p < 16 \<Longrightarrow> k < 15 \<Longrightarrow> ring_index ((p + 1) mod 16) (Suc k) = ring_index p k"
  by (cases "p = 15") (auto simp: ring_index_def)

lemma ring_sum:
  assumes "p < 16" "length (xs :: nat list) = 16"
  shows "sum_list xs = (\<Sum>k<16. xs ! ring_index p k)"
proof -
  have "bij_betw (ring_index p) {..<16} {..<16}"
    using ring_index_inj [OF assms(1)] ring_index_less [OF assms(1)]
    by (intro bij_betw_imageI endo_inj_surj) auto
  then show ?thesis
    using sum.reindex_bij_betw [of "ring_index p" "{..<16}" "{..<16}" "\<lambda>i. xs ! i"] assms(2)
    by (simp add: sum_list_sum_nth atLeast0LessThan)
qed

definition slot_at :: "nat list \<Rightarrow> nat \<Rightarrow> nat" where
  "slot_at xs k = (if k < length xs then xs ! k else 0)"

lemma sum_slot_at: "(\<Sum>k<n. slot_at xs k) = sum_list (take n xs)"
proof (induction n)
  case (Suc n)
  then show ?case by (cases "n < length xs") (simp_all add: slot_at_def take_Suc_conv_app_nth)
qed simp

section \<open>The invariant of the window\<close>

text \<open>The ring holds the sum of the slot that is being filled with \<open>part\<close> and the last fifteen sums of \<open>hist\<close>.\<close>

definition window :: "radar \<Rightarrow> nat list \<Rightarrow> nat \<Rightarrow> u16 list \<Rightarrow> bool" where
  "window r hist a part \<longleftrightarrow>
     length (accumulator_buffer r) = 16 \<and> unat (accumulator_pointer r) < 16 \<and>
     accumulator_counter r = word_of_nat (length part) \<and> length part < 256 \<and>
     unat (last_average r) = a \<and> a \<le> 65535 \<and> unat (average_accumulator r) = sum_list (map unat part) \<and>
     (\<forall>h\<in>set hist. h \<le> 256 * 65535) \<and>
     (\<forall>k<16. unat (accumulator_buffer r ! ring_index (unat (accumulator_pointer r)) k) = slot_at (slot_sum a part # hist) k)"

lemma window_boot: "window radar_boot [] 0 []"
  by (simp add: window_def radar_boot_def ACCUMULATOR_SIZE_def slot_sum_def slot_at_def ring_index_less nth_Cons split: nat.split)

lemma unat_add_small: "unat a + unat b < 2 ^ 32 \<Longrightarrow> unat (a + b) = unat a + unat b" for a b :: u32
  by (subst unat_add_lem [THEN iffD1]) simp_all

text \<open>A sample goes into the current slot.\<close>

definition stored :: "u16 \<Rightarrow> radar \<Rightarrow> radar" where
  "stored sample r =
     r\<lparr>accumulator_buffer := (accumulator_buffer r)[unat (accumulator_pointer r) :=
         accumulator_buffer r ! unat (accumulator_pointer r) + distance sample (last_average r)],
       average_accumulator := average_accumulator r + ucast sample,
       accumulator_counter := accumulator_counter r + 1\<rparr>"

lemma stored_fields:
  assumes "window r hist a part"
  shows "length (accumulator_buffer (stored x r)) = 16" "accumulator_pointer (stored x r) = accumulator_pointer r"
    "accumulator_counter (stored x r) = word_of_nat (length (part @ [x]))"
    "unat (last_average (stored x r)) = a" "unat (average_accumulator (stored x r)) = sum_list (map unat (part @ [x]))"
    "\<forall>k<16. unat (accumulator_buffer (stored x r) ! ring_index (unat (accumulator_pointer r)) k) = slot_at (slot_sum a (part @ [x]) # hist) k"
proof -
  let ?p = "unat (accumulator_pointer r)"
  have w: "length (accumulator_buffer r) = 16" "?p < 16" "length part < 256" "unat (last_average r) = a" "a \<le> 65535"
    "unat (average_accumulator r) = sum_list (map unat part)" "accumulator_counter r = word_of_nat (length part)"
    "\<forall>k<16. unat (accumulator_buffer r ! ring_index ?p k) = slot_at (slot_sum a part # hist) k"
    using assms by (simp_all add: window_def)
  show "length (accumulator_buffer (stored x r)) = 16" "accumulator_pointer (stored x r) = accumulator_pointer r"
    "accumulator_counter (stored x r) = word_of_nat (length (part @ [x]))" "unat (last_average (stored x r)) = a"
    using w by (simp_all add: stored_def)
  have ux: "unat (ucast x :: u32) = unat x" using unat_u16_less [of x] by (simp add: unsigned_ucast_eq take_bit_eq_mod)
  have "unat (average_accumulator r) + unat (ucast x :: u32) < 2 ^ 32"
    using sample_sum_le [of part] w(3,6) ux unat_u16_less [of x] by simp
  then show "unat (average_accumulator (stored x r)) = sum_list (map unat (part @ [x]))"
    using w(6) ux by (simp add: stored_def unat_add_small)
  have d: "unat (distance x (last_average r)) = gap a x" using distance_gap [of "last_average r" x] w(4,5) by simp
  have cur: "unat (accumulator_buffer r ! ?p) = slot_sum a part" using w(8) [rule_format, of 0] by (simp add: slot_at_def)
  have "slot_sum a part + gap a x < 2 ^ 32" using slot_sum_le [OF w(5), of part] gap_le [OF w(5), of x] w(3) by simp
  then have new: "unat (accumulator_buffer r ! ?p + distance x (last_average r)) = slot_sum a (part @ [x])"
    using d cur by (simp add: unat_add_small slot_sum_def)
  show "\<forall>k<16. unat (accumulator_buffer (stored x r) ! ring_index ?p k) = slot_at (slot_sum a (part @ [x]) # hist) k"
  proof (intro allI impI)
    fix k :: nat assume k: "k < 16"
    show "unat (accumulator_buffer (stored x r) ! ring_index ?p k) = slot_at (slot_sum a (part @ [x]) # hist) k"
    proof (cases k)
      case 0
      then show ?thesis using new w(1,2) by (simp add: stored_def slot_at_def)
    next
      case (Suc j)
      then have "ring_index ?p k \<noteq> ?p" using k by (auto simp: ring_index_def)
      then show ?thesis using w(8) k Suc by (simp add: stored_def slot_at_def)
    qed
  qed
qed

lemma accumulate_inside:
  assumes "window r hist a part" "length part < 255"
  shows "window (accumulate x r) hist a (part @ [x])" "mr_index (accumulate x r) = mr_index r"
proof -
  have "word_of_nat (length (part @ [x])) \<noteq> (256 :: u32)"
  proof
    assume eq: "word_of_nat (length (part @ [x])) = (256 :: u32)"
    have "unat (word_of_nat (length (part @ [x])) :: u32) = length (part @ [x])"
      unfolding unat_of_nat using assms(2) by (intro mod_less) simp
    then show False using assms(2) unfolding eq by simp
  qed
  then have acc: "accumulate x r = stored x r"
    using stored_fields(3) [OF assms(1), of x] by (simp add: accumulate_def stored_def Let_def COUNTER_SIZE_def)
  show "window (accumulate x r) hist a (part @ [x])"
    unfolding acc using stored_fields [OF assms(1), of x] assms by (simp add: window_def)
  show "mr_index (accumulate x r) = mr_index r" unfolding acc by (simp add: stored_def)
qed

lemma unat_div_256: "unat (w div 256) = unat w div 256" for w :: u32
  by (simp add: unat_div)

lemma unat_sum_list: "sum_list (map unat xs) < 2 ^ 32 \<Longrightarrow> unat (sum_list xs) = sum_list (map unat xs)" for xs :: "u32 list"
proof (induction xs)
  case (Cons x xs)
  then show ?case by (simp add: unat_add_small)
qed simp

lemma next_pointer:
  assumes "unat (p :: byte) < 16"
  shows "unat (if p + 1 = word_of_nat ACCUMULATOR_SIZE then 0 else p + 1) = (unat p + 1) mod 16"
proof -
  have s: "unat (p + 1) = unat p + 1" using assms by (subst unat_add_lem [THEN iffD1]) simp_all
  show ?thesis
  proof (cases "unat p = 15")
    case True
    then have "unat (p + 1) = unat (16 :: byte)" using s by simp
    then have "p + 1 = 16" by (rule unsigned_word_eqI)
    then show ?thesis using True by (simp add: ACCUMULATOR_SIZE_def)
  next
    case False
    then have "p + 1 \<noteq> 16" using arg_cong [of "p + 1" "16" unat] s by auto
    then show ?thesis using s False assms by (simp add: ACCUMULATOR_SIZE_def)
  qed
qed

lemma accumulate_last:
  fixes x :: u16
  assumes w: "window r hist a part" and last: "length part = 255"
  defines "full \<equiv> slot_sum a (part @ [x])"
  shows "window (accumulate x r) (full # hist) (slot_mean (part @ [x])) []"
    "unat (mr_index (accumulate x r)) = sum_list (take 16 (full # hist))"
proof -
  let ?r = "stored x r" and ?p = "unat (accumulator_pointer r)"
  note f = stored_fields [OF w, of x]
  have p: "?p < 16" and a: "a \<le> 65535" and h: "\<forall>h\<in>set hist. h \<le> 256 * 65535" using w by (simp_all add: window_def)
  have "accumulator_counter ?r = 256" using f(3) last by simp
  then have acc: "accumulate x r = finish_slot ?r"
    by (simp add: accumulate_def stored_def Let_def COUNTER_SIZE_def)
  have full: "full \<le> 256 * 65535" using slot_sum_le [OF a, of "part @ [x]"] last by (simp add: full_def)
  have p': "unat (accumulator_pointer (finish_slot ?r)) = (?p + 1) mod 16"
    using next_pointer [OF p] f(2) by (simp add: finish_slot_def Let_def)
  have buf: "accumulator_buffer (finish_slot ?r) = (accumulator_buffer ?r)[(?p + 1) mod 16 := 0]"
    using p' by (simp add: finish_slot_def Let_def)
  have bounds: "slot_at (full # hist) k \<le> 256 * 65535" for k
    using full h nth_mem [of k "full # hist"] by (auto simp: slot_at_def simp del: nth_mem)
  have sum: "sum_list (map unat (accumulator_buffer ?r)) = sum_list (take 16 (full # hist))"
  proof -
    have "sum_list (map unat (accumulator_buffer ?r)) = (\<Sum>k<16. map unat (accumulator_buffer ?r) ! ring_index ?p k)"
      by (rule ring_sum [OF p]) (simp add: f(1))
    also have "\<dots> = (\<Sum>k<16. slot_at (full # hist) k)"
      using f(1,6) ring_index_less [OF p] by (intro sum.cong refl) (simp add: full_def)
    finally show ?thesis by (simp add: sum_slot_at)
  qed
  have "(\<Sum>k<16::nat. slot_at (full # hist) k) \<le> (\<Sum>k<16::nat. 256 * 65535)" by (intro sum_mono bounds)
  then have "sum_list (map unat (accumulator_buffer ?r)) < 2 ^ 32" unfolding sum sum_slot_at by simp
  then show "unat (mr_index (accumulate x r)) = sum_list (take 16 (full # hist))"
    unfolding acc using sum by (simp add: finish_slot_def Let_def unat_sum_list)
  have mean: "unat (last_average (finish_slot ?r)) = slot_mean (part @ [x])"
    using f(5) by (simp add: finish_slot_def Let_def COUNTER_SIZE_def unat_div_256 slot_mean_def)
  have ring: "unat (accumulator_buffer (finish_slot ?r) ! ring_index ((?p + 1) mod 16) k) = slot_at (0 # full # hist) k" if "k < 16" for k
  proof (cases k)
    case 0
    then show ?thesis using f(1) unfolding buf by (simp add: slot_at_def)
  next
    case (Suc j)
    then have j: "j < 15" using that by simp
    have "ring_index ((?p + 1) mod 16) k \<noteq> (?p + 1) mod 16" using Suc that by (auto simp: ring_index_def)
    moreover have "ring_index ((?p + 1) mod 16) k = ring_index ?p j" unfolding Suc by (rule ring_index_next [OF p j])
    ultimately have "unat (accumulator_buffer (finish_slot ?r) ! ring_index ((?p + 1) mod 16) k) = slot_at (full # hist) j"
      unfolding buf using f(6) j by (simp add: full_def)
    then show ?thesis by (simp add: Suc slot_at_def)
  qed
  have "slot_mean (part @ [x]) \<le> 65535" by (rule slot_mean_le) (simp add: last)
  then show "window (accumulate x r) (full # hist) (slot_mean (part @ [x])) []"
    unfolding acc window_def p' using mean ring full h f(1)
    by (simp add: finish_slot_def Let_def slot_sum_def)
qed

section \<open>The callback\<close>

lemma follow_signal_keeps:
  "accumulator_buffer (follow_signal x r) = accumulator_buffer r" "accumulator_pointer (follow_signal x r) = accumulator_pointer r"
  "accumulator_counter (follow_signal x r) = accumulator_counter r" "last_average (follow_signal x r) = last_average r"
  "average_accumulator (follow_signal x r) = average_accumulator r" "mr_index (follow_signal x r) = mr_index r"
  by (simp_all add: follow_signal_def Let_def)

lemma adc_callback_keeps:
  "accumulator_buffer (adc_callback z x r) = accumulator_buffer (accumulate x r)"
  "accumulator_pointer (adc_callback z x r) = accumulator_pointer (accumulate x r)"
  "accumulator_counter (adc_callback z x r) = accumulator_counter (accumulate x r)"
  "last_average (adc_callback z x r) = last_average (accumulate x r)"
  "average_accumulator (adc_callback z x r) = average_accumulator (accumulate x r)"
  "mr_index (adc_callback z x r) = mr_index (accumulate x r)"
  by (simp_all add: adc_callback_def motion_frequency_calculator_def Let_def follow_signal_keeps)

lemma window_adc: "window (adc_callback z x r) hist a part \<longleftrightarrow> window (accumulate x r) hist a part"
  by (simp add: window_def adc_callback_keeps)

text \<open>The samples arrive one by one.\<close>

definition sampled :: "u32 \<Rightarrow> u16 list \<Rightarrow> radar \<Rightarrow> radar" where
  "sampled z xs r = fold (adc_callback z) xs r"

lemma sampled_append: "sampled z (xs @ ys) r = sampled z ys (sampled z xs r)"
  by (simp add: sampled_def)

lemma sampled_inside:
  assumes "window r hist a part" "length part + length xs < 256"
  shows "window (sampled z xs r) hist a (part @ xs) \<and> mr_index (sampled z xs r) = mr_index r"
  using assms
proof (induction xs arbitrary: r part)
  case (Cons x xs)
  then have "length part < 255" by simp
  note in1 = accumulate_inside [OF Cons.prems(1) this, of x]
  show ?case using Cons.IH [of "adc_callback z x r" "part @ [x]"] in1 Cons.prems(2)
    by (simp add: sampled_def window_adc adc_callback_keeps)
qed (simp add: sampled_def)

lemma sampled_slot:
  assumes "window r hist a []" "length w = 256"
  shows "window (sampled z w r) (slot_sum a w # hist) (slot_mean w) []"
    "unat (mr_index (sampled z w r)) = sum_list (take 16 (slot_sum a w # hist))"
proof -
  obtain xs x where w: "w = xs @ [x]" using assms(2) by (cases w rule: rev_cases) auto
  then have xs: "length xs = 255" using assms(2) by simp
  have "window (sampled z xs r) hist a xs" using sampled_inside [OF assms(1), of xs z] xs by simp
  note last = accumulate_last [OF this xs, of x]
  show "window (sampled z w r) (slot_sum a w # hist) (slot_mean w) []"
    "unat (mr_index (sampled z w r)) = sum_list (take 16 (slot_sum a w # hist))"
    using last unfolding w by (simp_all add: sampled_append sampled_def window_adc adc_callback_keeps)
qed

fun last_mean :: "nat \<Rightarrow> u16 list list \<Rightarrow> nat" where
  "last_mean a [] = a"
| "last_mean a (w # ws) = last_mean (slot_mean w) ws"

lemma sampled_slots:
  assumes "window r hist a []" "\<forall>w\<in>set ws. length w = 256" "unat (mr_index r) = sum_list (take 16 hist)"
  shows "window (sampled z (concat ws) r) (slot_sums a ws @ hist) (last_mean a ws) []
     \<and> unat (mr_index (sampled z (concat ws) r)) = sum_list (take 16 (slot_sums a ws @ hist))"
  using assms
proof (induction ws arbitrary: r hist a)
  case Nil
  then show ?case by (simp add: sampled_def)
next
  case (Cons w ws)
  have w: "length w = 256" using Cons.prems(2) by simp
  note one = sampled_slot [OF Cons.prems(1) w, of z]
  show ?case using Cons.IH [OF one(1)] Cons.prems(2) one(2) by (simp add: sampled_append)
qed

text \<open>
  C40: the motion index of the radar is what a sliding window over all samples so far gives, although the driver keeps only the last
  mean, a running sum and a ring of sixteen slots of which one is always being filled: after any number of whole slots of 256 samples
  and part of another, from the start of the program and whatever the signal is, it is the sum, over the last sixteen whole slots, of
  the distances of their samples from the mean of the slot before (zero before the first); no sum overflows.
\<close>

theorem motion_index_is_the_sliding_window:
  assumes "\<forall>w\<in>set ws. length w = 256" "length part < 256"
  shows "unat (mr_motion_index (fold (adc_callback z) (concat ws @ part) radar_boot)) = sum_list (take 16 (slot_sums 0 ws))"
proof -
  have "unat (mr_index radar_boot) = sum_list (take 16 [])" by (simp add: radar_boot_def)
  note slots = sampled_slots [OF window_boot assms(1) this, of z]
  then have "mr_index (sampled z part (sampled z (concat ws) radar_boot)) = mr_index (sampled z (concat ws) radar_boot)"
    using sampled_inside [of _ _ _ "[]" part z] assms(2) by fastforce
  then show ?thesis using slots by (simp add: mr_motion_index_def sampled_def)
qed

text \<open>A quiet sensor, whose every sample is the same: the first slot is measured from zero, so that it counts as motion.\<close>

lemma slot_sum_const: "slot_sum a (replicate n x) = n * gap a x"
  by (simp add: slot_sum_def sum_list_replicate)

lemma slot_mean_const: "slot_mean (replicate 256 x) = unat x"
  by (simp add: slot_mean_def sum_list_replicate)

lemma slot_sums_quiet: "slot_sums (unat x) (replicate n (replicate 256 x)) = replicate n 0"
  by (induction n) (simp_all add: slot_mean_const slot_sum_const gap_def replicate_append_same)

theorem motion_index_witness:
  "unat (mr_motion_index (fold (adc_callback 0) (concat (replicate 3 (replicate 256 2048)) @ [2048, 0]) radar_boot)) = 524288"
proof -
  have u: "unat (2048 :: u16) = 2048" by simp
  have "slot_sums 0 (replicate 3 (replicate 256 (2048 :: u16))) = slot_sums (unat (2048 :: u16)) (replicate 2 (replicate 256 2048)) @ [256 * 2048]"
    unfolding numeral_3_eq_3 numeral_2_eq_2 by (simp only: replicate_Suc slot_sums.simps slot_mean_const slot_sum_const gap_def u) simp
  also have "\<dots> = [0, 0, 524288]" unfolding slot_sums_quiet by (simp add: numeral_2_eq_2)
  finally have "slot_sums 0 (replicate 3 (replicate 256 (2048 :: u16))) = [0, 0, 524288]" .
  then show ?thesis
    using motion_index_is_the_sliding_window [of "replicate 3 (replicate 256 2048)" "[2048, 0]" 0] by simp
qed

section \<open>The program\<close>

text \<open>
  The twentieth report since the last publish sends 85 bytes from the buffer of 50: unless the library has no memory for its copy, it
  reads past the end.
\<close>

lemma twentieth_report_overreads:
  assumes "length (send_buf s) = 50" "report_count s = 19" "motion_report mktime H m W s = Inr s'"
  shows "\<exists>a evs. signpost_networking_publish H m motion_topic ((send_buf s)[24 := motion_byte (mr_motion_index (radar s))]) 85
           (mevents s) (mnode s) = Inr (PORT_ENOMEM, a, evs)"
proof -
  define buf where "buf = (send_buf s)[24 := motion_byte (mr_motion_index (radar s))]"
  have l: "length buf < unat (85 :: byte)" by (simp add: buf_def assms(1))
  from assms obtain rc a evs where p: "signpost_networking_publish H m motion_topic buf 85 (mevents s) (mnode s) = Inr (rc, a, evs)"
    by (auto simp: motion_report_def Let_def buf_def on_mnode_def andthen_Inr_iff)
  show ?thesis using p publish_too_long [OF l p] by (simp add: buf_def)
qed

end
