(* ===== verification/Ambient_Module.thy ===== *)
theory Ambient_Module
  imports Sensor_Modules
begin

text \<open>
  The ambient module, \<open>ambient_module/environmental_sensing/main.c\<close>: it measures once, sends the readings to the radio until
  that has taken them, and then asks the controller again and again to be switched off for three minutes. The sensors are drivers of
  the operating system: what they return, and what they store, is the record \<open>ambient_sensors\<close>.
\<close>

section \<open>The program\<close>

record ambient_sensors =
  pressure_sync :: int
  light_sync :: "int \<times> int option"
  temperature_sync :: "int \<times> int option"
  humidity_sync :: "int \<times> int option"

record ambient_data =
  d_light :: int
  d_temperature :: int
  d_humidity :: int
  d_pressure :: int
  d_err_code :: int

record ambient = sensor_module +
  samples :: ambient_data
  message_buf :: bytes
  sample_sensors_successful :: bool
  post_to_radio_successful :: bool

definition ambient_boot :: "api \<Rightarrow> api_event list \<Rightarrow> ambient" where
  "ambient_boot a evs = sensor_module.extend (module_boot a evs)
     \<lparr>samples = \<lparr>d_light = 0, d_temperature = 0, d_humidity = 0, d_pressure = 0, d_err_code = 0\<rparr>,
      message_buf = replicate 20 0, sample_sensors_successful = True, post_to_radio_successful = True\<rparr>"

text \<open>A variable that is zero until a driver stores into it, and the error code after a driver's result.\<close>

definition fetched :: "int \<times> int option \<Rightarrow> int" where
  "fetched r = (case snd r of None \<Rightarrow> 0 | Some x \<Rightarrow> x)"

definition next_error :: "int \<times> int option \<Rightarrow> int \<Rightarrow> int" where
  "next_error r e = (if fst r < 0 then fst r else e)"

definition shifted_byte :: "nat \<Rightarrow> int \<Rightarrow> byte" where
  "shifted_byte n v = word_of_int (drop_bit n v AND 0xFF)"

definition ambient_packet :: "ambient_data \<Rightarrow> bytes \<Rightarrow> bytes" where
  "ambient_packet d buf =
     overwrite buf 1
       [shifted_byte 8 (d_temperature d), shifted_byte 0 (d_temperature d), shifted_byte 8 (d_humidity d), shifted_byte 0 (d_humidity d),
        shifted_byte 8 (d_light d), shifted_byte 0 (d_light d),
        shifted_byte 16 (d_pressure d), shifted_byte 8 (d_pressure d), shifted_byte 0 (d_pressure d)]"

definition sample_sensors :: "ambient_sensors \<Rightarrow> ambient \<Rightarrow> ambient" where
  "sample_sensors sn s =
     (let err_code = next_error (humidity_sync sn) (next_error (temperature_sync sn) (fst (light_sync sn)));
          d = \<lparr>d_light = fetched (light_sync sn), d_temperature = fetched (temperature_sync sn),
               d_humidity = fetched (humidity_sync sn), d_pressure = pressure_sync sn, d_err_code = err_code\<rparr>
      in s\<lparr>samples := d, message_buf := ambient_packet d (message_buf s), sample_sensors_successful := (err_code = 0)\<rparr>)"

definition tphl_topic :: bytes where "tphl_topic = chars ''tphl'' @ [0]"

definition post_to_radio ::
  "user \<Rightarrow> mbedtls \<Rightarrow> (ambient \<Rightarrow> fault + ambient) \<Rightarrow> ambient \<Rightarrow> fault + ambient" where
  "post_to_radio H m W s =
     andthen (on_mnode W (signpost_networking_publish H m tphl_topic (message_buf s) 10) (s\<lparr>post_to_radio_successful := True\<rparr>))
       (\<lambda>(response, s1). Inr (if response < 0 then s1\<lparr>post_to_radio_successful := False\<rparr> else s1))"

text \<open>Posting until it succeeds; \<open>None\<close> is a module whose radio never takes the readings.\<close>

partial_function (option) post_loop ::
  "user \<Rightarrow> mbedtls \<Rightarrow> (ambient \<Rightarrow> fault + ambient) \<Rightarrow> ambient \<Rightarrow> (fault + ambient) option" where
  "post_loop H m W s =
     (case post_to_radio H m W s of
        Inl f \<Rightarrow> Some (Inl f)
      | Inr s1 \<Rightarrow>
          if post_to_radio_successful s1 then Some (Inr s1)
          else (case W (board_ops [Delay 1000] s1) of
                  Inl f \<Rightarrow> Some (Inl f)
                | Inr s2 \<Rightarrow> post_loop H m W s2))"

text \<open>The module asks for its duty cycle until it is switched off; \<open>n\<close> is how often.\<close>

fun request_duty_cycle :: "mbedtls \<Rightarrow> (ambient \<Rightarrow> fault + ambient) \<Rightarrow> nat \<Rightarrow> ambient \<Rightarrow> fault + ambient" where
  "request_duty_cycle m W 0 s = Inr s"
| "request_duty_cycle m W (Suc n) s =
     andthen (signpost_energy_duty_cycle m 180000 (mnode s)) (\<lambda>(rc, a).
     andthen (W (board_ops [Delay 1000] (s\<lparr>mnode := a\<rparr>))) (request_duty_cycle m W n))"

definition ambient_start :: "ambient_sensors \<Rightarrow> ambient \<Rightarrow> ambient" where
  "ambient_start sn s =
     (let s1 = s\<lparr>message_buf := (message_buf s)[0 := 0x01]\<rparr>;
          s2 = s1\<lparr>mboard := app_watchdog_start (app_watchdog_set_kernel_timeout 10000 (mboard s1))\<rparr>
      in board_ops [Delay 2000] (sample_sensors sn s2))"

definition ambient_main ::
  "user \<Rightarrow> mbedtls \<Rightarrow> ambient_sensors \<Rightarrow> (ambient \<Rightarrow> fault + ambient) \<Rightarrow> nat \<Rightarrow> ambient \<Rightarrow> (fault + ambient) option" where
  "ambient_main H m sn W n s =
     Option.bind (module_init_loop H m (chars ''lab11'') (chars ''ambient'') W s) (\<lambda>res.
       case res of
         Inl f \<Rightarrow> Some (Inl f)
       | Inr s1 \<Rightarrow>
           (case W (ambient_start sn s1) of
              Inl f \<Rightarrow> Some (Inl f)
            | Inr s2 \<Rightarrow>
                map_option (\<lambda>r. andthen r (request_duty_cycle m W n)) (post_loop H m W s2)))"

section \<open>What the server reads\<close>

text \<open>The hundredths of degrees and percent and the tenths of pascals are kept as they are in the packet.\<close>

record server_ambient =
  temperature_centi_c :: int
  humidity_centi :: int
  light_lux :: int
  pressure_deci_pascals :: int

definition parse_ambient :: "bytes \<Rightarrow> server_ambient option" where
  "parse_ambient buf =
     Option.bind (readInt16BE buf 1) (\<lambda>temp.
     Option.bind (readInt16BE buf 3) (\<lambda>humi.
     Option.bind (readInt16BE buf 5) (\<lambda>ligh.
     Option.bind (readUInt8 buf 7) (\<lambda>pres1.
     Option.bind (readUInt8 buf 8) (\<lambda>pres2.
     Option.bind (readUInt8 buf 9) (\<lambda>pres3.
     Some \<lparr>temperature_centi_c = temp, humidity_centi = humi, light_lux = ligh,
           pressure_deci_pascals = push_bit 16 pres1 + push_bit 8 pres2 + pres3\<rparr>))))))"

definition signed16 :: "int \<Rightarrow> int" where "signed16 x = (x + 2 ^ 15) mod 2 ^ 16 - 2 ^ 15"

lemma uint_shifted_byte: "uint (shifted_byte n v) = v div 2 ^ n mod 256"
  using take_bit_eq_mask [of 8 "drop_bit n v"]
  by (simp add: shifted_byte_def uint_byte_of_int take_bit_eq_mod drop_bit_eq_div mask_eq_exp_minus_1)

lemma signed16_mod: "signed16 v = (v mod 65536 + 32768) mod 65536 - 32768"
  by (simp add: signed16_def mod_add_left_eq)

lemma signed16_digits:
  "32768 \<le> v mod 65536 \<Longrightarrow> v mod 65536 - 65536 = signed16 v"
  "\<not> 32768 \<le> v mod 65536 \<Longrightarrow> v mod 65536 = signed16 v"
proof -
  define m where "m = v mod 65536"
  have m: "0 \<le> m" "m < 65536" by (simp_all add: m_def)
  have "(m + 32768) mod 65536 = (if 32768 \<le> m then m - 32768 else m + 32768)"
    using m mod_add_self2 [of "m - 32768" 65536] by (auto simp: mod_pos_pos_trivial add.commute)
  then show "32768 \<le> v mod 65536 \<Longrightarrow> v mod 65536 - 65536 = signed16 v" "\<not> 32768 \<le> v mod 65536 \<Longrightarrow> v mod 65536 = signed16 v"
    unfolding signed16_mod m_def [symmetric] by simp_all
qed

lemma readInt16BE_bytes:
  assumes "i + 2 \<le> length buf" "buf ! i = shifted_byte 8 v" "buf ! Suc i = shifted_byte 0 v"
  shows "readInt16BE buf i = Some (signed16 v)"
  using assms int16_digits [of v] signed16_digits [of v]
  by (simp add: readInt16BE_def readUInt16BE_def uint_shifted_byte)

lemma unsigned24_digits: "v div 65536 mod 256 * 65536 + v div 256 mod 256 * 256 + v mod 256 = v mod 16777216" for v :: int
proof -
  have "v mod (65536 * 256) = 65536 * (v div 65536 mod 256) + v mod 65536" by (rule zmod_zmult2_eq) simp
  then have "v mod 16777216 = 65536 * (v div 65536 mod 256) + v mod 65536" by (simp only: arith_simps)
  then show ?thesis using int16_digits [of v] by linarith
qed

lemma signed16_exact: "- (2 ^ 15) \<le> x \<Longrightarrow> x < 2 ^ 15 \<Longrightarrow> signed16 x = x"
  by (simp add: signed16_def)

lemma bright_light_is_negative: "2 ^ 15 \<le> x \<Longrightarrow> x < 2 ^ 16 \<Longrightarrow> signed16 x < 0"
  using signed16_digits(1) [of x] by simp

lemma ambient_packet_bytes:
  assumes "length buf = 20"
  shows "take 10 (ambient_packet d buf) =
    [hd buf, shifted_byte 8 (d_temperature d), shifted_byte 0 (d_temperature d), shifted_byte 8 (d_humidity d), shifted_byte 0 (d_humidity d),
     shifted_byte 8 (d_light d), shifted_byte 0 (d_light d),
     shifted_byte 16 (d_pressure d), shifted_byte 8 (d_pressure d), shifted_byte 0 (d_pressure d)]"
  using assms by (cases buf) (simp_all add: ambient_packet_def overwrite_def)

lemma sampled_packet:
  assumes "length (message_buf s) = 20"
  shows "parse_ambient (take 10 (message_buf (sample_sensors sn s))) =
    Some \<lparr>temperature_centi_c = signed16 (fetched (temperature_sync sn)), humidity_centi = signed16 (fetched (humidity_sync sn)),
          light_lux = signed16 (fetched (light_sync sn)), pressure_deci_pascals = pressure_sync sn mod 2 ^ 24\<rparr>"
    "take 1 (message_buf (sample_sensors sn s)) = take 1 (message_buf s)"
  using assms
  by (simp_all add: sample_sensors_def Let_def ambient_packet_bytes parse_ambient_def readInt16BE_bytes readUInt8_def
      uint_shifted_byte push_bit_eq_mult unsigned24_digits) (simp add: ambient_packet_def overwrite_def)

text \<open>
  The packet that the ambient module has made when it starts to post has the type the server looks for, and the server reads from
  it what the sensors gave: temperature, humidity and light as numbers of 16 bits with a sign, so that values within that range arrive
  as they were measured and a light of 32768 to 65535 lux arrives negative, and the pressure modulo 2^24.
\<close>

lemma ambient_readings_at_server:
  assumes "length (message_buf s) = 20"
  shows "readUInt8 (message_buf (ambient_start sn s)) 0 = Some 1 \<and>
    parse_ambient (take 10 (message_buf (ambient_start sn s))) =
      Some \<lparr>temperature_centi_c = signed16 (fetched (temperature_sync sn)), humidity_centi = signed16 (fetched (humidity_sync sn)),
            light_lux = signed16 (fetched (light_sync sn)), pressure_deci_pascals = pressure_sync sn mod 2 ^ 24\<rparr>"
proof
  have l: "length ((message_buf s)[0 := 1]) = 20" using assms by simp
  show "parse_ambient (take 10 (message_buf (ambient_start sn s))) =
      Some \<lparr>temperature_centi_c = signed16 (fetched (temperature_sync sn)), humidity_centi = signed16 (fetched (humidity_sync sn)),
            light_lux = signed16 (fetched (light_sync sn)), pressure_deci_pascals = pressure_sync sn mod 2 ^ 24\<rparr>"
    using sampled_packet(1) [of "s\<lparr>message_buf := (message_buf s)[0 := 1], mboard := b\<rparr>" for b] l
    by (simp add: ambient_start_def Let_def board_ops_def)
  have "take 1 (message_buf (ambient_start sn s)) = [1]"
    using sampled_packet(2) [of "s\<lparr>message_buf := (message_buf s)[0 := 1], mboard := b\<rparr>" for b] l
    by (cases "message_buf s") (simp_all add: ambient_start_def Let_def board_ops_def)
  then show "readUInt8 (message_buf (ambient_start sn s)) 0 = Some 1"
    by (cases "message_buf (ambient_start sn s)") (simp_all add: readUInt8_def)
qed

lemma bright_day_at_server:
  "parse_ambient (take 10 (message_buf (ambient_start
      \<lparr>pressure_sync = 1013250, light_sync = (0, Some 40000), temperature_sync = (0, Some (- 512)), humidity_sync = (0, Some 4100)\<rparr>
      (ambient_boot api_boot [])))) =
    Some \<lparr>temperature_centi_c = - 512, humidity_centi = 4100, light_lux = - 25536, pressure_deci_pascals = 1013250\<rparr>"
  using ambient_readings_at_server [of "ambient_boot api_boot []"]
  by (simp add: ambient_boot_def sensor_module.defs module_boot_def signed16_def fetched_def)

text \<open>The module only goes on when the radio has taken its readings.\<close>

lemma post_loop_posted:
  assumes "post_loop H m W s = Some (Inr s')"
  shows "post_to_radio_successful s' \<and> (\<exists>s0. post_to_radio H m W s0 = Inr s')"
proof -
  let ?P = "\<lambda>H m W (res :: fault + ambient). \<forall>s'. res = Inr s' \<longrightarrow> post_to_radio_successful s' \<and> (\<exists>s0. post_to_radio H m W s0 = Inr s')"
  have "?P H m W (Inr s')"
  proof (rule post_loop.raw_induct [where P = "\<lambda>H m W s res. ?P H m W res", OF _ assms])
    fix loop H m W s r
    assume ih: "\<And>H m W s r. loop H m W s = Some r \<Longrightarrow> ?P H m W r"
      and body: "(case post_to_radio H m W s of Inl f \<Rightarrow> Some (Inl f)
        | Inr s1 \<Rightarrow> if post_to_radio_successful s1 then Some (Inr s1)
            else (case W (board_ops [Delay 1000] s1) of Inl f \<Rightarrow> Some (Inl f) | Inr s2 \<Rightarrow> loop H m W s2)) = Some r"
    show "?P H m W r"
      using body ih by (cases "post_to_radio H m W s") (auto split: if_split_asm sum.split_asm)
  qed
  then show ?thesis using assms by blast
qed

end
