(* ===== verification/Audio_Module.thy ===== *)
theory Audio_Module
  imports Sensor_Modules Radio
begin

text \<open>
  The audio module, \<open>audio_module/spectrum_volume_reporter/main.c\<close>: a chip gives the loudness of seven bands of frequencies one after
  the other, the program turns the samples into tenths of decibels above 50 and publishes their averages.
\<close>

section \<open>The program\<close>

record audio = sensor_module +
  audio_buf :: bytes
  audio_buf2 :: bytes
  still_sampling :: bool
  sample_done :: bool
  bands_total :: "int list"
  bands_max :: "int list"
  bands_now :: "int list"
  bands_num :: "int list"
  band :: nat
  audio_count :: nat
  audio_time :: int
  sampling :: "nat option"

definition audio_boot :: "api \<Rightarrow> api_event list \<Rightarrow> audio" where
  "audio_boot a evs = sensor_module.extend (module_boot a evs)
     \<lparr>audio_buf = replicate 100 0, audio_buf2 = replicate 100 0, still_sampling = False, sample_done = False,
      bands_total = replicate 7 0, bands_max = replicate 7 0, bands_now = replicate 7 0, bands_num = replicate 7 0,
      band = 0, audio_count = 0, audio_time = 0, sampling = None\<rparr>"

text \<open>
  \<open>decibels\<close> is the value in double precision of the logarithmic formula, which the C library computes; it becomes a single-precision
  number, as does the last product. (\<open>single\<close> takes what is negative to zero, which the bounds hide.)
\<close>

definition convert_to_db :: "(u16 \<Rightarrow> rat) \<Rightarrow> u16 \<Rightarrow> byte" where
  "convert_to_db decibels output =
     (let out = (if output = 0 then 50 else single (decibels output));
          out = (if out < 50 then 50 else if out > 75 then 75 else out)
      in word_of_int \<lfloor>single ((out - 50) * 10)\<rfloor>)"

definition STROBE :: nat where "STROBE = 3"
definition RESET :: nat where "RESET = 4"
definition POWER :: nat where "POWER = 5"
definition GREEN_LED :: nat where "GREEN_LED = 2"
definition RED_LED :: nat where "RED_LED = 3"

text \<open>A sample of the current band; the chip goes on to the next, and starts again after the seventh. The sample is an \<open>int\<close>.\<close>

definition count_sample :: "(u16 \<Rightarrow> rat) \<Rightarrow> int \<Rightarrow> audio \<Rightarrow> audio" where
  "count_sample decibels sample s =
     (let i = band s; db = uint (convert_to_db decibels (word_of_int sample))
      in s\<lparr>bands_total := (bands_total s)[i := bands_total s ! i + db],
           bands_max := (if sample > bands_max s ! i then (bands_max s)[i := db] else bands_max s),
           bands_now := (bands_now s)[i := db],
           bands_num := (bands_num s)[i := bands_num s ! i + 1]\<rparr>)"

definition next_band :: "audio \<Rightarrow> audio" where
  "next_band s =
     (if band s = 6
      then let loud = bands_now s ! 3 > 60; s1 = led RED_LED loud (led GREEN_LED loud s)
           in (board_ops [GpioSet STROBE, GpioSet RESET, GpioClear STROBE, GpioClear RESET, GpioSet STROBE, GpioClear STROBE] s1)
                \<lparr>band := 0, still_sampling := True\<rparr>
      else s\<lparr>band := band s + 1\<rparr>)"

definition spectrum_callback :: "(u16 \<Rightarrow> rat) \<Rightarrow> int \<Rightarrow> audio \<Rightarrow> audio" where
  "spectrum_callback decibels sample s =
     (next_band (board_ops [GpioSet STROBE, GpioClear STROBE] (count_sample decibels sample s)))\<lparr>sample_done := True\<rparr>"

text \<open>
  The average of a band. Without samples it is the conversion of a value that is not a number, which C leaves undefined: \<open>at_nan\<close> is
  what the target gives.
\<close>

definition band_average :: "byte \<Rightarrow> int \<Rightarrow> int \<Rightarrow> byte" where
  "band_average at_nan acc num =
     (if num = 0 then at_nan else word_of_int \<lfloor>single (single (of_int acc) / single (of_int num))\<rfloor>)"

definition spectrum_topic :: bytes where "spectrum_topic = chars ''spectrum'' @ [0]"

definition store_averages :: "byte \<Rightarrow> audio \<Rightarrow> audio" where
  "store_averages at_nan s =
     s\<lparr>audio_buf := overwrite (audio_buf s) (5 + audio_count s * 7) (map2 (band_average at_nan) (bands_total s) (bands_num s)),
       bands_total := replicate 7 0, bands_now := replicate 7 0, bands_max := replicate 7 0, bands_num := replicate 7 0,
       audio_count := audio_count s + 1\<rparr>"

definition spectrum_report ::
  "byte \<Rightarrow> (tm \<Rightarrow> int) \<Rightarrow> user \<Rightarrow> mbedtls \<Rightarrow> (audio \<Rightarrow> fault + audio) \<Rightarrow> audio \<Rightarrow> fault + audio" where
  "spectrum_report at_nan mktime H m W s =
     (let s1 = store_averages at_nan s
      in if audio_count s1 = 10
         then let s2 = s1\<lparr>audio_buf2 := audio_buf s1, audio_count := 0\<rparr>
              in andthen (on_mnode W (signpost_networking_publish H m spectrum_topic (audio_buf2 s2) 75) s2) (\<lambda>(rc, s3).
                 let s4 = (if rc \<ge> 0 \<and> still_sampling s3
                           then s3\<lparr>mboard := app_watchdog_tickle_kernel (mboard s3), still_sampling := False\<rparr> else s3)
                 in andthen (on_mnode W (signpost_timelocation_get_time mktime H m False) s4) (\<lambda>(res, s5).
                    let t = refresh_time 10 res (audio_time s5)
                    in Inr (s5\<lparr>audio_time := t, audio_buf := overwrite (audio_buf s5) 1 (be32_int t)\<rparr>)))
         else Inr s1)"

definition audio_start :: "audio \<Rightarrow> audio" where
  "audio_start s =
     (let s1 = (board_ops [GpioOutput 8, GpioOutput 9, GpioClear 8, GpioClear 9] s)\<lparr>audio_buf := (audio_buf s)[0 := 0x03]\<rparr>;
          s2 = board_ops [GpioOutput STROBE, GpioOutput RESET, GpioOutput POWER, GpioClear POWER, GpioClear STROBE, GpioClear RESET] s1
      in s2\<lparr>mboard := app_watchdog_start (app_watchdog_set_kernel_timeout 60000 (mboard s2)), sampling := Some 700,
            report_every := Some 1000\<rparr>)"

definition audio_main ::
  "user \<Rightarrow> mbedtls \<Rightarrow> (audio \<Rightarrow> fault + audio) \<Rightarrow> audio \<Rightarrow> (fault + audio) option" where
  "audio_main H m W s =
     map_option (\<lambda>res. andthen res (\<lambda>s1. Inr (audio_start s1)))
       (module_init_loop H m (chars ''lab11'') (chars ''audio'') W s)"

section \<open>Samples and bands\<close>

text \<open>The levels of the samples of one band: every seventh sample.\<close>

definition levels_of :: "(u16 \<Rightarrow> rat) \<Rightarrow> nat \<Rightarrow> int list \<Rightarrow> int list" where
  "levels_of decibels j xs = map (\<lambda>k. uint (convert_to_db decibels (word_of_int (xs ! k)))) (filter (\<lambda>k. k mod 7 = j) [0..<length xs])"

lemma levels_snoc:
  "levels_of f j (xs @ [x]) = levels_of f j xs @ (if length xs mod 7 = j then [uint (convert_to_db f (word_of_int x))] else [])"
proof -
  have "map (\<lambda>k. uint (convert_to_db f (word_of_int ((xs @ [x]) ! k)))) (filter (\<lambda>k. k mod 7 = j) [0..<length xs]) = levels_of f j xs"
    unfolding levels_of_def by (intro map_cong refl) (auto simp: nth_append)
  then show ?thesis by (simp add: levels_of_def)
qed

lemma spectrum_callback_fields:
  "band (spectrum_callback f x s) = (if band s = 6 then 0 else band s + 1)"
  "bands_total (spectrum_callback f x s) = (bands_total s)[band s := bands_total s ! band s + uint (convert_to_db f (word_of_int x))]"
  "bands_num (spectrum_callback f x s) = (bands_num s)[band s := bands_num s ! band s + 1]"
  by (simp_all add: spectrum_callback_def next_band_def Let_def count_sample_def board_ops_def led_def)

lemma spectrum_callback_keeps:
  "audio_count (spectrum_callback f x s) = audio_count s" "audio_buf (spectrum_callback f x s) = audio_buf s"
  by (simp_all add: spectrum_callback_def next_band_def Let_def count_sample_def board_ops_def led_def)

lemma samples_keep:
  "audio_count (fold (spectrum_callback f) xs s) = audio_count s \<and> audio_buf (fold (spectrum_callback f) xs s) = audio_buf s"
  by (induction xs arbitrary: s) (simp_all add: spectrum_callback_keeps)

text \<open>
  Whatever was sampled since the last report, the program and the chip agree on the band: each total is the sum of the levels of every
  seventh sample, each number their number.
\<close>

lemma bands_follow_samples:
  assumes "band s = 0" "bands_total s = replicate 7 0" "bands_num s = replicate 7 0"
  shows "band (fold (spectrum_callback f) xs s) = length xs mod 7 \<and>
    bands_total (fold (spectrum_callback f) xs s) = map (\<lambda>j. sum_list (levels_of f j xs)) [0..<7] \<and>
    bands_num (fold (spectrum_callback f) xs s) = map (\<lambda>j. int (length (levels_of f j xs))) [0..<7]"
proof (induction xs rule: rev_induct)
  case Nil
  then show ?case using assms by (simp add: levels_of_def map_replicate_trivial)
next
  case (snoc x xs)
  let ?s = "fold (spectrum_callback f) xs s" and ?i = "length xs mod 7"
  have b: "band (spectrum_callback f x ?s) = (?i + 1) mod 7"
    using snoc by (auto simp: spectrum_callback_fields mod_Suc)
  have i: "?i < 7" by simp
  have t: "bands_total (spectrum_callback f x ?s) = map (\<lambda>j. sum_list (levels_of f j (xs @ [x]))) [0..<7]"
    unfolding spectrum_callback_fields using snoc i by (intro nth_equalityI) (simp_all add: nth_list_update levels_snoc)
  have n: "bands_num (spectrum_callback f x ?s) = map (\<lambda>j. int (length (levels_of f j (xs @ [x])))) [0..<7]"
    unfolding spectrum_callback_fields using snoc i by (intro nth_equalityI) (simp_all add: nth_list_update levels_snoc)
  show ?case using b t n by (simp add: mod_Suc)
qed

text \<open>With fewer than seven samples since the last report a band has none, and what is sent for it is undefined.\<close>

lemma band_without_samples:
  assumes "band s = 0" "bands_total s = replicate 7 0" "bands_num s = replicate 7 0" "length xs < 7"
    and "length (audio_buf s) = 100" "audio_count s < 10"
  shows "audio_buf (store_averages at_nan (fold (spectrum_callback f) xs s)) ! (5 + audio_count s * 7 + 6) = at_nan"
proof -
  have "levels_of f 6 xs = []" using assms(4) by (auto simp: levels_of_def filter_empty_conv)
  then show ?thesis
    using bands_follow_samples [OF assms(1-3), of f xs] assms(4-6) samples_keep [of f xs s]
    by (simp add: store_averages_def overwrite_def nth_append band_average_def)
qed

end
