(* ===== verification/Debug_Radio.thy ===== *)
theory Debug_Radio
  imports Sensor_Modules
begin

text \<open>
  The stand-in for the radio module in the laboratory, \<open>debug_radio_module/signpost_debug_radio_app/main.c\<close>: it hands what modules
  publish to a computer over a serial line (\<open>tools/debug_radio\<close>) and returns a reply when the computer has answered.
\<close>

section \<open>The program\<close>

text \<open>\<open>line\<close> is what went out, transmission by transmission; \<open>armed_for\<close> is the length for which the receiver is armed.\<close>

record debug_radio = sensor_module +
  reply_to :: byte
  line_buffer :: bytes
  line :: "bytes list"
  waiting_for_response :: bool
  armed_for :: "nat option"

definition debug_boot :: "api \<Rightarrow> api_event list \<Rightarrow> debug_radio" where
  "debug_boot a evs = sensor_module.extend (module_boot a evs)
     \<lparr>reply_to = 0, line_buffer = replicate 2048 0, line = [], waiting_for_response = False, armed_for = None\<rparr>"

text \<open>A transmission that is waited for: the callbacks of the module run meanwhile.\<close>

definition transmit :: "bytes \<Rightarrow> debug_radio \<Rightarrow> debug_radio" where
  "transmit xs s = s\<lparr>line := line s @ [xs]\<rparr>"

definition transmit_wait :: "(debug_radio \<Rightarrow> fault + debug_radio) \<Rightarrow> bytes \<Rightarrow> debug_radio \<Rightarrow> fault + debug_radio" where
  "transmit_wait W xs s = W (transmit xs s)"

text \<open>
  The mark of a command is a dollar sign, then come the length in two bytes and the message. That of a notification is the first byte
  of a static of its own, which is never assigned.
\<close>

definition debug_networking_callback ::
  "(debug_radio \<Rightarrow> fault + debug_radio) \<Rightarrow> byte \<Rightarrow> byte \<Rightarrow> nat \<Rightarrow> bytes \<Rightarrow> debug_radio \<Rightarrow> fault + debug_radio" where
  "debug_networking_callback W source frame len msg s =
     (let s0 = s\<lparr>reply_to := source\<rparr>
      in if frame = CommandFrame
         then andthen (transmit_wait W (chars ''$'') s0) (\<lambda>s1.
              andthen (transmit_wait W [word_of_nat len AND 0xFF, word_of_nat (drop_bit 8 len) AND 0xFF] s1) (\<lambda>s2.
              andthen (read_at msg 0 len) (\<lambda>xs.
              andthen (transmit_wait W xs s2) (\<lambda>s3.
              Inr (s3\<lparr>waiting_for_response := True, armed_for := Some 4096\<rparr>)))))
         else if frame = NotificationFrame
         then andthen (transmit_wait W [0] s0) (\<lambda>s1.
              andthen (read_at msg 0 len) (\<lambda>xs. Inr (transmit xs s1)))
         else Inr s0)"

text \<open>The answer of the computer: the kernel stores it in the buffer it was given, of the length it was told, and calls back.\<close>

definition debug_rx_callback :: "mbedtls \<Rightarrow> debug_radio \<Rightarrow> fault + debug_radio" where
  "debug_rx_callback m s =
     andthen (signpost_networking_publish_reply m (reply_to s) 1 (mnode s)) (\<lambda>(_, a).
     Inr (s\<lparr>waiting_for_response := False, mnode := a\<rparr>))"

definition line_answers :: "mbedtls \<Rightarrow> bytes \<Rightarrow> debug_radio \<Rightarrow> fault + debug_radio" where
  "line_answers m xs s =
     (case armed_for s of
        None \<Rightarrow> Inr s
      | Some n \<Rightarrow>
          andthen (memcpy_at (line_buffer s) 0 (take n xs)) (\<lambda>b.
          debug_rx_callback m (s\<lparr>line_buffer := b, armed_for := None\<rparr>)))"

definition watchdog_timer_cb :: "debug_radio \<Rightarrow> debug_radio" where
  "watchdog_timer_cb s = s\<lparr>mboard := app_watchdog_tickle_kernel (mboard s)\<rparr>"

definition debug_handlers :: "api_handler list" where
  "debug_handlers = [\<lparr>h_api_type = NetworkingApiType, h_callback = UserHandler 0\<rparr>]"

partial_function (option) debug_init_loop ::
  "user \<Rightarrow> mbedtls \<Rightarrow> (debug_radio \<Rightarrow> fault + debug_radio) \<Rightarrow> debug_radio \<Rightarrow> (fault + debug_radio) option" where
  "debug_init_loop H m W s =
     (case signpost_initialization_module_init H m (chars ''signpost'') (chars ''radio'') ModuleAddressRadio
             debug_handlers (mevents s) (mnode s) of
        None \<Rightarrow> None
      | Some (Inl f) \<Rightarrow> Some (Inl f)
      | Some (Inr (rc, a, evs)) \<Rightarrow>
          let s1 = s\<lparr>mnode := a, mevents := evs\<rparr>
          in if rc < 0
             then (case W (board_ops [Delay 5000] s1) of
                     Inl f \<Rightarrow> Some (Inl f)
                   | Inr s2 \<Rightarrow> debug_init_loop H m W s2)
             else Some (Inr s1))"

definition debug_radio_main ::
  "user \<Rightarrow> mbedtls \<Rightarrow> (debug_radio \<Rightarrow> fault + debug_radio) \<Rightarrow> debug_radio \<Rightarrow> (fault + debug_radio) option" where
  "debug_radio_main H m W s =
     (case W (board_ops [Delay 1000] s) of
        Inl f \<Rightarrow> Some (Inl f)
      | Inr s0 \<Rightarrow>
          map_option (\<lambda>res. andthen res (\<lambda>s1. andthen (transmit_wait W (chars ''#r'') s1) (\<lambda>s2.
              Inr (s2\<lparr>report_every := Some 160,
                     mboard := app_watchdog_start (app_watchdog_set_kernel_timeout 500 (mboard s2))\<rparr>))))
            (debug_init_loop H m W s0))"

section \<open>What the computer gets\<close>

text \<open>
  The computer waits for a dollar sign, takes the next two bytes as the length of a message and that many bytes as the message. What
  it gets for a command is what was published.
\<close>

definition radio_tool :: "bytes \<Rightarrow> (bytes \<times> bytes) option" where
  "radio_tool xs =
     (case xs of
        d # l # h # rest \<Rightarrow>
          (let n = unat l + 256 * unat h in if d = 36 \<and> n \<le> length rest then Some (take n rest, drop n rest) else None)
      | _ \<Rightarrow> None)"

lemma dollar: "chars ''$'' = [36]"
  by (simp add: chars_def)

lemma length_bytes:
  assumes "n < 65536"
  shows "unat (word_of_nat n AND 0xFF :: byte) + 256 * unat (word_of_nat (drop_bit 8 n) AND 0xFF :: byte) = n"
proof -
  have m: "w AND 0xFF = w" for w :: byte 
    using take_bit_eq_mask [of 8 w] take_bit_length_eq [of w] by (simp add: mask_eq_exp_minus_1)
  show ?thesis unfolding m using assms by (simp add: unat_of_nat drop_bit_eq_div)
qed

lemma computer_gets_command:
  assumes "length msg < 65536"
  shows "\<exists>s'. debug_networking_callback Inr source CommandFrame (length msg) msg s = Inr s' \<and>
    (\<exists>sent. line s' = line s @ sent \<and> radio_tool (concat sent @ rest) = Some (msg, rest)) \<and>
    armed_for s' = Some 4096 \<and> line_buffer s' = line_buffer s"
  using length_bytes [OF assms]
  by (simp add: debug_networking_callback_def Let_def transmit_wait_def transmit_def read_at_def dollar radio_tool_def)

text \<open>The receiver is armed for twice the length of its buffer: a longer answer of the computer overflows it.\<close>

lemma long_answer_overflows:
  assumes "armed_for s = Some 4096" "length (line_buffer s) = 2048" "2048 < length xs"
  shows "line_answers m xs s = Inl OutOfBounds"
  using assms by (simp add: line_answers_def memcpy_at_def min_def)

end
