(* ===== verification/Tock_Port.thy ===== *)
theory Tock_Port
  imports Signpost_Port
begin

text \<open>
  The platform of the modules that run Tock, \<open>libsignpost-tock/port_signpost_tock.c\<close>: how the calls of the platform interface,
  which \<open>Signpost_Port\<close> describes by their results, become system calls and waits. The kernel is the record \<open>tock\<close>: results of system
  calls (an exhausted list means success), the calls so far, and the events it will deliver while the program waits.
\<close>

section \<open>The kernel and the statics\<close>

datatype tock_event = I2cSlaveWrite int | I2cMasterWrite int | I2cOther int | GpioEdge

datatype tock_call =
    SetMasterBuffer | SetReadBuffer | SetWriteBuffer nat | SetAddress byte | SetI2cCallback | I2cWrite byte nat | I2cListen
  | EnableRead nat | PinOut nat | PinIn nat nat | PinHigh nat | PinLow nat | PinRead nat | GpioCallback | GpioEnable nat nat
  | GpioDisable nat | YieldTimeout u32 | Led nat bool | Rng nat nat | DelayCall nat

record tock =
  tock_rcs :: "int list"
  tock_log :: "tock_call list"
  tock_events :: "tock_event list"
  master_buffer :: bytes
  slave_read_buffer :: bytes
  master_yield_flag :: bool
  master_len_or_rc :: int
  slave_callback :: bool
  gpio_callback :: bool
  delivered :: "tock_event list"

definition tock_boot :: "int list \<Rightarrow> tock_event list \<Rightarrow> tock" where
  "tock_boot rcs evs = \<lparr>tock_rcs = rcs, tock_log = [], tock_events = evs, master_buffer = replicate PORT_I2C_MAX_LEN 0,
     slave_read_buffer = replicate PORT_I2C_MAX_LEN 0, master_yield_flag = False, master_len_or_rc = 0,
     slave_callback = False, gpio_callback = False, delivered = []\<rparr>"

definition sys :: "tock_call \<Rightarrow> tock \<Rightarrow> int \<times> tock" where
  "sys c t = (let (rc, rcs) = pop 0 (tock_rcs t) in (rc, t\<lparr>tock_rcs := rcs, tock_log := tock_log t @ [c]\<rparr>))"

definition MOD_OUT :: nat where "MOD_OUT = 0"
definition MOD_IN :: nat where "MOD_IN = 1"
definition PPS :: nat where "PPS = 2"
definition DEBUG_LED :: nat where "DEBUG_LED = 0"

text \<open>Calls one after the other, given up with \<open>PORT_FAIL\<close> at the first that fails.\<close>

fun sys_all :: "tock_call list \<Rightarrow> tock \<Rightarrow> int \<times> tock" where
  "sys_all [] t = (PORT_SUCCESS, t)"
| "sys_all (c # cs) t = (let (rc, t') = sys c t in if rc < 0 then (PORT_FAIL, t') else sys_all cs t')"

section \<open>The callbacks\<close>

text \<open>What is given to the library is kept in \<open>delivered\<close>; a callback that was never set is a null pointer.\<close>

definition i2c_master_slave_callback :: "tock_event \<Rightarrow> tock \<Rightarrow> fault + tock" where
  "i2c_master_slave_callback ev t =
     (case ev of
        I2cSlaveWrite n \<Rightarrow> (if slave_callback t then Inr (t\<lparr>delivered := delivered t @ [ev]\<rparr>) else Inl NullPointer)
      | I2cMasterWrite n \<Rightarrow> Inr (t\<lparr>master_yield_flag := True, master_len_or_rc := n\<rparr>)
      | _ \<Rightarrow> Inr t)"

definition port_signpost_gpio_interrupt_callback :: "tock \<Rightarrow> fault + tock" where
  "port_signpost_gpio_interrupt_callback t =
     (if gpio_callback t then Inr (t\<lparr>delivered := delivered t @ [GpioEdge]\<rparr>) else Inl NullPointer)"

definition handle_event :: "tock_event \<Rightarrow> tock \<Rightarrow> fault + tock" where
  "handle_event ev t = (if ev = GpioEdge then port_signpost_gpio_interrupt_callback t else i2c_master_slave_callback ev t)"

text \<open>Waiting for the flag: the events run until one sets it.\<close>

fun yield_for_flag :: "tock_event list \<Rightarrow> tock \<Rightarrow> fault + tock" where
  "yield_for_flag evs t =
     (if master_yield_flag t then Inr (t\<lparr>tock_events := evs\<rparr>)
      else case evs of
             [] \<Rightarrow> Inl Blocked
           | ev # evs' \<Rightarrow> (case handle_event ev t of Inl f \<Rightarrow> Inl f | Inr t' \<Rightarrow> yield_for_flag evs' t'))"

declare yield_for_flag.simps [simp del]

section \<open>The operations\<close>

definition tock_port_init :: "byte \<Rightarrow> tock \<Rightarrow> int \<times> tock" where
  "tock_port_init i2c_address = sys_all [SetMasterBuffer, SetReadBuffer, SetAddress i2c_address, SetI2cCallback]"

definition tock_port_master_write :: "byte \<Rightarrow> bytes \<Rightarrow> nat \<Rightarrow> tock \<Rightarrow> fault + int \<times> tock" where
  "tock_port_master_write dest buf len t =
     andthen (read_at buf 0 len) (\<lambda>xs.
     andthen (memcpy_at (master_buffer t) 0 xs) (\<lambda>mb.
     let (rc, t1) = sys (I2cWrite dest len) (t\<lparr>master_buffer := mb, master_yield_flag := False\<rparr>)
     in if rc < 0 then Inr (PORT_FAIL, t1)
        else andthen (yield_for_flag (tock_events t1) t1) (\<lambda>t2.
             Inr (if master_len_or_rc t2 < 0 then PORT_FAIL else master_len_or_rc t2, t2))))"

definition tock_port_slave_listen :: "nat \<Rightarrow> tock \<Rightarrow> int \<times> tock" where
  "tock_port_slave_listen max_len t =
     (let (rc, t1) = sys (SetWriteBuffer max_len) t
      in if rc < 0 then (PORT_FAIL, t1) else sys_all [I2cListen] (t1\<lparr>slave_callback := True\<rparr>))"

text \<open>The result of the kernel is returned as it is: what follows it in the source is never reached.\<close>

definition tock_port_slave_read_setup :: "bytes \<Rightarrow> nat \<Rightarrow> tock \<Rightarrow> fault + int \<times> tock" where
  "tock_port_slave_read_setup buf len t =
     andthen (read_at buf 0 len) (\<lambda>xs.
     andthen (memcpy_at (slave_read_buffer t) 0 xs) (\<lambda>rb. Inr (sys (EnableRead len) (t\<lparr>slave_read_buffer := rb\<rparr>))))"

text \<open>The result of making a pin an output or an input is not looked at.\<close>

definition tock_port_mod_out_set :: "tock \<Rightarrow> int \<times> tock" where
  "tock_port_mod_out_set t = sys_all [PinHigh MOD_OUT] (snd (sys (PinOut MOD_OUT) t))"

definition tock_port_mod_out_clear :: "tock \<Rightarrow> int \<times> tock" where
  "tock_port_mod_out_clear t = sys_all [PinLow MOD_OUT] (snd (sys (PinOut MOD_OUT) t))"

definition tock_port_mod_in_read :: "tock \<Rightarrow> int \<times> tock" where
  "tock_port_mod_in_read t = sys (PinRead MOD_IN) (snd (sys (PinIn MOD_IN 0) t))"

definition tock_port_pps_read :: "tock \<Rightarrow> int \<times> tock" where
  "tock_port_pps_read t = sys (PinRead PPS) (snd (sys (PinIn PPS 0) t))"

text \<open>The two interrupts share one callback; the edges are numbered 1 (rising) and 2 (falling), the pull-up resistor 1.\<close>

definition tock_port_mod_in_enable_interrupt_falling :: "tock \<Rightarrow> int \<times> tock" where
  "tock_port_mod_in_enable_interrupt_falling t = sys_all [GpioCallback, PinIn MOD_IN 1, GpioEnable MOD_IN 2] (t\<lparr>gpio_callback := True\<rparr>)"

definition tock_port_mod_in_enable_interrupt_rising :: "tock \<Rightarrow> int \<times> tock" where
  "tock_port_mod_in_enable_interrupt_rising t = sys_all [GpioCallback, PinIn MOD_IN 1, GpioEnable MOD_IN 1] (t\<lparr>gpio_callback := True\<rparr>)"

definition tock_port_mod_in_disable_interrupt :: "tock \<Rightarrow> int \<times> tock" where
  "tock_port_mod_in_disable_interrupt = sys_all [GpioDisable MOD_IN]"

definition tock_port_wait_for_with_timeout :: "u32 \<Rightarrow> tock \<Rightarrow> int \<times> tock" where
  "tock_port_wait_for_with_timeout ms t =
     (let (rc, t1) = sys (YieldTimeout ms) t in (if rc = 0 then PORT_SUCCESS else PORT_FAIL, t1))"

definition tock_port_delay_ms :: "nat \<Rightarrow> tock \<Rightarrow> tock" where
  "tock_port_delay_ms ms t = snd (sys (DelayCall ms) t)"

definition tock_port_debug_led :: "bool \<Rightarrow> tock \<Rightarrow> int \<times> tock" where
  "tock_port_debug_led on = sys_all [Led DEBUG_LED on]"

definition tock_port_rng_sync :: "nat \<Rightarrow> nat \<Rightarrow> tock \<Rightarrow> int \<times> tock" where
  "tock_port_rng_sync len num t = (let (rc, t1) = sys (Rng len num) t in (if rc \<ge> 0 then rc else PORT_FAIL, t1))"

text \<open>The state is neither saved nor loaded.\<close>

definition tock_port_save_state :: int where "tock_port_save_state = PORT_SUCCESS"
definition tock_port_load_state :: int where "tock_port_load_state = PORT_SUCCESS"

section \<open>A write on the bus\<close>

definition delivers :: "tock_event list \<Rightarrow> tock \<Rightarrow> bool" where
  "delivers evs t \<longleftrightarrow> (\<forall>ev\<in>set evs. (\<exists>n. ev = I2cSlaveWrite n) \<or> ev = GpioEdge) \<and> slave_callback t \<and> gpio_callback t"

lemma yield_delivers:
  assumes "delivers evs t" "\<not> master_yield_flag t"
  shows "yield_for_flag (evs @ I2cMasterWrite n # rest) t =
    Inr (t\<lparr>delivered := delivered t @ evs, master_yield_flag := True, master_len_or_rc := n, tock_events := rest\<rparr>)"
  using assms
proof (induction evs arbitrary: t)
  case Nil
  then show ?case by (simp add: yield_for_flag.simps handle_event_def i2c_master_slave_callback_def)
next
  case (Cons ev evs)
  then have "handle_event ev t = Inr (t\<lparr>delivered := delivered t @ [ev]\<rparr>)"
    by (auto simp: delivers_def handle_event_def i2c_master_slave_callback_def port_signpost_gpio_interrupt_callback_def)
  moreover have "delivers evs (t\<lparr>delivered := delivered t @ [ev]\<rparr>)" using Cons.prems(1) by (simp add: delivers_def)
  ultimately show ?case using Cons by (simp add: yield_for_flag.simps [of "ev # _"])
qed

text \<open>
  A write that the kernel takes puts the data into its buffer and gives the length that the kernel reports, or an error, whatever
  arrives from the bus and the pins before it is done: that is delivered in its order.
\<close>

lemma tock_write_returns:
  assumes "len \<le> length buf" "len \<le> 255" "length (master_buffer t) = 255"
    and "tock_rcs t = 0 # rcs" "tock_events t = evs @ I2cMasterWrite n # rest" "delivers evs t"
  shows "\<exists>t'. tock_port_master_write dest buf len t = Inr (if n < 0 then PORT_FAIL else n, t') \<and>
    delivered t' = delivered t @ evs \<and> tock_events t' = rest \<and> take len (master_buffer t') = take len buf"
proof -
  define t1 where "t1 = t\<lparr>master_buffer := overwrite (master_buffer t) 0 (take len buf), master_yield_flag := False,
    tock_rcs := rcs, tock_log := tock_log t @ [I2cWrite dest len]\<rparr>"
  have "delivers evs t1" "\<not> master_yield_flag t1" using assms(6) by (simp_all add: delivers_def t1_def)
  note y = yield_delivers [OF this, of n rest]
  show ?thesis using y assms(1-5)
    by (simp add: tock_port_master_write_def read_at_def memcpy_at_def sys_def t1_def [symmetric]) (simp add: t1_def overwrite_def)
qed

text \<open>A write longer than the buffer of the port is copied past its end.\<close>

lemma tock_write_too_long:
  "len \<le> length buf \<Longrightarrow> length (master_buffer t) = 255 \<Longrightarrow> 255 < len \<Longrightarrow> tock_port_master_write dest buf len t = Inl OutOfBounds"
  by (simp add: tock_port_master_write_def read_at_def memcpy_at_def)

text \<open>The port starts exactly when the kernel takes all four calls.\<close>

lemma sys_all_success:
  "fst (sys_all cs t) = PORT_SUCCESS \<longleftrightarrow> (\<forall>rc\<in>set (take (length cs) (tock_rcs t)). rc \<ge> 0)"
proof (induction cs arbitrary: t)
  case (Cons c cs)
  then show ?case by (cases "tock_rcs t") (auto simp: sys_def PORT_FAIL_def PORT_SUCCESS_def)
qed simp

end
