(* ===== verification/Disk_Io.thy ===== *)
theory Disk_Io
  imports Signpost_Port
begin

text \<open>
  The layer between the FAT file system and the memory card of the storage module, \<open>libsignpost-tock/mmc_io.c\<close>, and the calls of
  \<open>libsignpost-tock/signpost_tock_firmware_update.c\<close>. The driver of the card belongs to the operating system: it is the parameter
  \<open>sdcard\<close> over a state of its own.
\<close>

section \<open>The disk\<close>

definition STA_NOINIT :: byte where "STA_NOINIT = 0x01"
definition STA_NODISK :: byte where "STA_NODISK = 0x02"

datatype dresult = RES_OK | RES_ERROR | RES_WRPRT | RES_NOTRDY | RES_PARERR

definition MAX_SS :: nat where "MAX_SS = 512"

record 'c sdcard =
  sdcard_initialize_sync :: "'c \<Rightarrow> int \<times> (u32 \<times> u32) option \<times> 'c"
  sdcard_read_block_sync :: "u32 \<Rightarrow> 'c \<Rightarrow> int \<times> bytes option \<times> 'c"
  sdcard_write_block_sync :: "u32 \<Rightarrow> bytes \<Rightarrow> 'c \<Rightarrow> int \<times> 'c"

record 'c disk =
  block_size :: u32
  card_kb :: u32
  disk_sta :: byte
  card :: 'c

definition disk_boot :: "'c \<Rightarrow> 'c disk" where
  "disk_boot c = \<lparr>block_size = 0, card_kb = 0, disk_sta = STA_NOINIT, card = c\<rparr>"

definition disk_initialize :: "'c sdcard \<Rightarrow> byte \<Rightarrow> 'c disk \<Rightarrow> byte \<times> 'c disk" where
  "disk_initialize sd pdrv d =
     (if pdrv \<noteq> 0 then (STA_NODISK, d)
      else let (err, sizes, c) = sdcard_initialize_sync sd (card d);
               d1 = (case sizes of None \<Rightarrow> d | Some (b, k) \<Rightarrow> d\<lparr>block_size := b, card_kb := k\<rparr>)\<lparr>card := c\<rparr>;
               sta = (if err \<noteq> 0 then disk_sta d1 OR STA_NODISK else disk_sta d1 AND NOT STA_NOINIT)
           in (sta, d1\<lparr>disk_sta := sta\<rparr>))"

definition disk_status :: "byte \<Rightarrow> 'c disk \<Rightarrow> byte" where
  "disk_status pdrv d = (if pdrv \<noteq> 0 then STA_NODISK else disk_sta d)"

text \<open>One block after the other; the results of the driver are not looked at. A block is given to the driver by its address.\<close>

fun read_blocks :: "'c sdcard \<Rightarrow> u32 \<Rightarrow> nat list \<Rightarrow> bytes \<Rightarrow> 'c \<Rightarrow> fault + bytes \<times> 'c" where
  "read_blocks sd sector [] buff c = Inr (buff, c)"
| "read_blocks sd sector (i # is) buff c =
     (let (err, block, c') = sdcard_read_block_sync sd (sector + word_of_nat i) c
      in case block of
           None \<Rightarrow> read_blocks sd sector is buff c'
         | Some xs \<Rightarrow> andthen (memcpy_at buff (MAX_SS * i) xs) (\<lambda>buff'. read_blocks sd sector is buff' c'))"

fun write_blocks :: "'c sdcard \<Rightarrow> u32 \<Rightarrow> nat list \<Rightarrow> bytes \<Rightarrow> 'c \<Rightarrow> fault + 'c" where
  "write_blocks sd sector [] buff c = Inr c"
| "write_blocks sd sector (i # is) buff c =
     andthen (read_at buff (MAX_SS * i) MAX_SS) (\<lambda>xs.
     let (err, c') = sdcard_write_block_sync sd (sector + word_of_nat i) xs c
     in write_blocks sd sector is buff c')"

definition disk_read :: "'c sdcard \<Rightarrow> byte \<Rightarrow> bytes \<Rightarrow> u32 \<Rightarrow> nat \<Rightarrow> 'c disk \<Rightarrow> fault + dresult \<times> bytes \<times> 'c disk" where
  "disk_read sd pdrv buff sector count d =
     (if pdrv \<noteq> 0 then Inr (RES_PARERR, buff, d)
      else if disk_sta d AND STA_NOINIT \<noteq> 0 then Inr (RES_NOTRDY, buff, d)
      else andthen (read_blocks sd sector [0..<count] buff (card d)) (\<lambda>(buff', c). Inr (RES_OK, buff', d\<lparr>card := c\<rparr>)))"

definition disk_write :: "'c sdcard \<Rightarrow> byte \<Rightarrow> bytes \<Rightarrow> u32 \<Rightarrow> nat \<Rightarrow> 'c disk \<Rightarrow> fault + dresult \<times> 'c disk" where
  "disk_write sd pdrv buff sector count d =
     (if pdrv \<noteq> 0 then Inr (RES_PARERR, d)
      else if disk_sta d AND STA_NOINIT \<noteq> 0 then Inr (RES_NOTRDY, d)
      else andthen (write_blocks sd sector [0..<count] buff (card d)) (\<lambda>c. Inr (RES_OK, d\<lparr>card := c\<rparr>)))"

datatype ioctl_command = CTRL_SYNC | GET_SECTOR_COUNT | GET_SECTOR_SIZE | GET_BLOCK_SIZE | CTRL_TRIM | OtherCtrl

text \<open>The value that a command stores, if it stores one. A card whose block size is zero makes the division trap.\<close>

definition disk_ioctl :: "byte \<Rightarrow> ioctl_command \<Rightarrow> 'c disk \<Rightarrow> fault + dresult \<times> u32 option" where
  "disk_ioctl pdrv cmd d =
     (if pdrv \<noteq> 0 then Inr (RES_PARERR, None)
      else if disk_sta d AND STA_NOINIT \<noteq> 0 then Inr (RES_NOTRDY, None)
      else case cmd of
             CTRL_SYNC \<Rightarrow> Inr (RES_OK, None)
           | GET_SECTOR_COUNT \<Rightarrow>
               (if block_size d = 0 then Inl DivisionByZero else Inr (RES_OK, Some (card_kb d div block_size d * 1024)))
           | GET_SECTOR_SIZE \<Rightarrow> Inr (RES_OK, Some (block_size d AND 0xFFFF))
           | GET_BLOCK_SIZE \<Rightarrow> Inr (RES_OK, Some 1)
           | CTRL_TRIM \<Rightarrow> Inr (RES_OK, None)
           | OtherCtrl \<Rightarrow> Inr (RES_PARERR, None))"

section \<open>What the file system is told\<close>

text \<open>An initialised disk reports success whatever the card does; a card that fails leaves the buffer as it was.\<close>

lemma disk_write_never_fails:
  assumes "disk_sta d AND STA_NOINIT = 0" "MAX_SS * count \<le> length buff"
  shows "\<exists>d'. disk_write sd 0 buff sector count d = Inr (RES_OK, d')"
proof -
  have "\<exists>c'. write_blocks sd sector is buff c = Inr c'" if "\<forall>i\<in>set is. i < count" for "is" c
    using that
  proof (induction "is" arbitrary: c)
    case (Cons i "is")
    have "Suc i \<le> count" using Cons.prems by auto
    then have "MAX_SS * i + MAX_SS \<le> length buff" using assms(2) mult_le_mono2 [of "Suc i" count MAX_SS] by simp
    then show ?case using Cons by (simp add: read_at_def split: prod.split)
  qed simp
  then obtain c' where "write_blocks sd sector [0..<count] buff (card d) = Inr c'" by force
  then show ?thesis using assms(1) by (simp add: disk_write_def)
qed

lemma broken_card_reads_nothing:
  assumes "disk_sta d AND STA_NOINIT = 0" "\<And>s c. fst (snd (sdcard_read_block_sync sd s c)) = None"
  shows "\<exists>d'. disk_read sd 0 buff sector count d = Inr (RES_OK, buff, d')"
proof -
  have "\<exists>c'. read_blocks sd sector is buff c = Inr (buff, c')" for "is" c
  proof (induction "is" arbitrary: c)
    case (Cons i "is")
    obtain e b c' where s: "sdcard_read_block_sync sd (sector + word_of_nat i) c = (e, b, c')" by (metis prod_cases3)
    then show ?case using assms(2) [of "sector + word_of_nat i" c] Cons by simp
  qed simp
  then obtain c' where "read_blocks sd sector [0..<count] buff (card d) = Inr (buff, c')" by blast
  then show ?thesis using assms(1) by (simp add: disk_read_def)
qed

text \<open>A card that has failed once stays without a medium for \<open>disk_status\<close>, although it works later.\<close>

lemma status_remembers_failure: "bit (disk_sta d) 1 \<Longrightarrow> bit (disk_sta (snd (disk_initialize sd pdrv d))) 1"
  by (auto simp: disk_initialize_def Let_def STA_NODISK_def STA_NOINIT_def bit_simps split: prod.split option.split)

text \<open>The number of sectors: the division comes first, so that up to 511 kilobytes of the card are not used.\<close>

lemma sector_count:
  assumes "disk_sta d AND STA_NOINIT = 0" "block_size d = 512" "unat (card_kb d) < 2 ^ 30"
  shows "\<exists>n. disk_ioctl 0 GET_SECTOR_COUNT d = Inr (RES_OK, Some n) \<and>
    unat n = 2 * (unat (card_kb d) - unat (card_kb d) mod 512)"
proof -
  define k where "k = unat (card_kb d)"
  have "unat (card_kb d div 512) = k div 512" by (simp add: unat_div k_def)
  moreover have "k div 512 * 1024 < 2 ^ 32" using assms(3) div_times_less_eq_dividend [of k 512] by (simp add: k_def)
  ultimately have "unat (card_kb d div 512 * 1024) = k div 512 * 1024" by (subst unat_mult_lem [THEN iffD1]) simp_all
  moreover have "k div 512 * 1024 = 2 * (k - k mod 512)" by (simp add: minus_mod_eq_div_mult)
  ultimately show ?thesis using assms(1,2) by (simp add: disk_ioctl_def k_def)
qed

section \<open>The firmware update\<close>

text \<open>
  The two system-call drivers of the update: results of the calls, oldest first, a log, and the flag of the synchronous copy, which is
  a static. \<open>waited\<close> counts how often the program really waited for the driver.
\<close>

datatype stfu_call = StfuAllow nat bytes | StfuCommand int int int | StfuSubscribe nat | StfuAllowBuffer nat

record stfu =
  stfu_rcs :: "int list"
  stfu_log :: "stfu_call list"
  fired :: bool
  waited :: nat

definition stfu_boot :: stfu where "stfu_boot = \<lparr>stfu_rcs = [], stfu_log = [], fired = False, waited = 0\<rparr>"

definition stfu_sys :: "stfu_call \<Rightarrow> stfu \<Rightarrow> int \<times> stfu" where
  "stfu_sys c s = (let (rc, rcs) = pop 0 (stfu_rcs s) in (rc, s\<lparr>stfu_rcs := rcs, stfu_log := stfu_log s @ [c]\<rparr>))"

definition signpost_tock_firmware_update_go :: "u32 \<Rightarrow> u32 \<Rightarrow> u32 \<Rightarrow> u32 \<Rightarrow> stfu \<Rightarrow> int \<times> stfu" where
  "signpost_tock_firmware_update_go source destination len crc s =
     (let config = concat (map le32 [source, destination, len, crc]);
          (ret, s1) = stfu_sys (StfuAllow 0 config) s
      in if ret < 0 then (ret, s1) else stfu_sys (StfuCommand 1 0 0) s1)"

text \<open>A wait ends at once when the flag is already set; otherwise the callback sets it.\<close>

definition wait_for_copy :: "stfu \<Rightarrow> stfu" where
  "wait_for_copy s = (if fired s then s else s\<lparr>fired := True, waited := waited s + 1\<rparr>)"

definition signpost_tock_firmware_update_put_buffer :: "nat \<Rightarrow> u32 \<Rightarrow> u32 \<Rightarrow> stfu \<Rightarrow> int \<times> stfu" where
  "signpost_tock_firmware_update_put_buffer buffer offset len s =
     (let (r1, s1) = stfu_sys (StfuSubscribe 1) s
      in if r1 < 0 then (r1, s1)
         else let (r2, s2) = stfu_sys (StfuAllowBuffer buffer) s1
         in if r2 < 0 then (r2, s2)
            else let arg0 = push_bit 8 len OR 3; (r3, s3) = stfu_sys (StfuCommand (sint arg0) (sint offset) 0) s2
            in if r3 < 0 then (r3, s3) else (0, wait_for_copy s3))"

text \<open>The flag is never reset: only the first copy is waited for.\<close>

lemma only_first_copy_is_waited_for:
  assumes "signpost_tock_firmware_update_put_buffer b o1 l1 s = (0, s1)" "signpost_tock_firmware_update_put_buffer b2 o2 l2 s1 = (r, s2)"
  shows "waited s2 = waited s1"
proof -
  have keep: "fired (snd (stfu_sys c s)) = fired s" "waited (snd (stfu_sys c s)) = waited s" for c s
    by (simp_all add: stfu_sys_def split: prod.split)
  have keep': "fired s' = fired s \<and> waited s' = waited s" if "stfu_sys c s = (x, s')" for c s x s'
    using keep [of c s] that by simp_all
  have f: "fired s1"
    using assms(1)
    by (auto simp: signpost_tock_firmware_update_put_buffer_def wait_for_copy_def Let_def split: prod.split_asm if_split_asm)
  then show ?thesis
    using assms(2)
    by (auto simp: signpost_tock_firmware_update_put_buffer_def wait_for_copy_def Let_def split: prod.split_asm if_split_asm dest!: keep')
qed

end
