(* ===== verification/Spec2Isabelle.thy ===== *)
theory Spec2Isabelle
  imports Crc16 Signbus_App Signpost_Boot Signpost_Formats Energy_Accounting Controller_Duties Gps_Facts Radio_Invariant Radio_Downlink Serial_Slip Storage_Master Controller_Updates Server_Uplink
    Motion_Window Ambient_Module Audio_Module Debug_Radio Tock_Port Disk_Io
begin

text \<open>
  The Signpost software: a model of the C code that every module of a Signpost runs
  (\<open>signpost/apps/libsignpost\<close>), of the program of the controller (\<open>signpost/apps/libsignpost-tock\<close>, \<open>signpost/apps/controller\<close>), of those of the radio
  module (\<open>signpost/apps/radio_module\<close>), the storage module (\<open>signpost/apps/storage_master\<close>) and the modules with sensors, and of what the
  server (\<open>server\<close>) makes of their packets.

  \<^bold>\<open>The program.\<close> A Signpost is a backplane with eight slots. Slot 3 is the controller, slot 4 the storage
  module; the others hold modules. They talk over one I2C bus. The library is a stack: the network layer
  cuts a message into packets of 255 bytes and puts them together again, the protocol layer
  encrypts and authenticates, the application layer adds a header of frame, API and message type, and
  \<open>signpost_api.c\<close> sends requests, waits for answers and hands incoming messages to the callbacks. A module starts by
  pulling a pin to ask for the bus, declares its name, and gets an address; then it may exchange a
  key. The controller grants the bus to one module at a time, accounts for the energy of each slot, switches off
  the slots that used theirs up, answers questions about time, place and energy, and watches over
  the modules and over itself.

  \<^bold>\<open>Theories of the library.\<close>
  \<^item> \<open>Signpost_Prelude\<close>: machine types, faults, buffers, C strings, little-endian layout. A C call that may be
    undefined, block or divide by zero has the type \<open>fault + 'a\<close>; \<open>andthen\<close> runs the rest only after success.
  \<^item> \<open>Crc16\<close> (\<open>CRC16.c\<close>): the table-driven and the bitwise checksum are equal (C1), what \<open>CRC16_Check\<close>
    accepts and that it refuses every change of two consecutive bytes (C3).
  \<^item> \<open>Signpost_Port\<close> (\<open>port_signpost.h\<close>): the platform as an environment: scripts of results and a log of effects.
  \<^item> \<open>Signbus_Io\<close>, \<open>Signbus_Link\<close> (\<open>signbus_io_interface.c\<close>): sending, receiving, reading as a slave. What is on the bus after a
    send (C4), that a receive gives the message sent, whatever else arrives in between (C6), and exactly when a
    packet is handled within its buffer (C7).
  \<^item> \<open>Codec\<close>: the interface of an encoding (a decoder undoes it on valid inputs), with composition; the layers are
    interpretations of it.
  \<^item> \<open>Signbus_Protocol\<close> (\<open>signbus_protocol_layer.c\<close>): sealing and opening; wrong digests are rejected (C9), short datagrams are
    read out of bounds (C10), clear ones are accepted despite a key (C11).
  \<^item> \<open>Signbus_App\<close> (\<open>signbus_app_layer.c\<close>): two nodes; a message reaches the other node's callback (C12), and frames
    determine the message.
  \<^item> \<open>Signpost_Api\<close>, \<open>Signpost_Services\<close>, \<open>Signpost_Init\<close> (\<open>signpost_api.c\<close>): module table, dispatch, the six services,
    the initialisation loop (a \<open>partial_function\<close>, as it may run for ever).
  \<^item> \<open>Signpost_Rpc\<close>: requests and their answers, behind and between other traffic (C14); \<open>Signpost_Formats\<close>: the formats of publishing, subscribing and
    processing; \<open>Signpost_Boot\<close>: the initialisation as a step relation, when it
    ends and with what (C23, C25, C26, C28).

  \<^bold>\<open>Theories of the controller.\<close>
  \<^item> \<open>Energy_Monitors\<close> (\<open>i2c_selector.c\<close>, \<open>signpost_energy_monitors.c\<close>): selecting and reading the coulomb counters. The record \<open>board\<close>
    holds the kernel's answers and the readings to come; \<open>chips\<close> are the conversions of the drivers.
  \<^item> \<open>Energy_Policy\<close> (\<open>signpost_energy_policy.c\<close>): the record \<open>policy\<close> is the file's statics. \<open>spill_loop\<close> is the loop that
    spreads surplus energy; its measure is the number of modules that can still take some.
  \<^item> \<open>Energy_Accounting\<close>: surplus respects capacities (C29), shares follow the battery (C30), when an update returns (C31; it needs
    17 answered selections), reports move energy (C32) and are safe exactly when they
    name known modules and come from one (C33).
  \<^item> \<open>Backplane\<close> (\<open>controller.c\<close>, \<open>app_watchdog.c\<close>): pins and switches over a log of commands.
  \<^item> \<open>Minmea\<close> (\<open>minmea.c\<close>): GPS sentences; a pointer into a C string is a suffix of it. \<open>Gps_Receiver\<close> (\<open>gps.c\<close>): the record \<open>gps\<close>
    holds the statics of the driver, with its system calls. \<open>Gps_Facts\<close>: checksums, sentences without a position (C18), the
    precision of positions (C21).
  \<^item> \<open>Controller\<close>, \<open>Controller_Services\<close> (\<open>signpost_controller.c\<close>, \<open>fm25cl.c\<close>): the record \<open>controller\<close> holds the statics of the file and
    the states of the parts below; one definition per callback, and the start. Where the code
    calls \<open>delay_ms\<close> other callbacks may run: they are the parameter \<open>W\<close>. \<open>controller_event\<close> runs any callback.
  \<^item> \<open>Controller_Isolation\<close>: the locale \<open>waits\<close> states that a wait keeps the bookkeeping while the check of the modules runs;
    it is interpreted for no events and for any callbacks, nested to any depth (\<open>nested_events\<close>). The locale \<open>bus_waits\<close> adds that a wait keeps
    the lines of the bus, and is interpreted for every callback that does (\<open>keeps_bus\<close>): all but the energy update, duty cycles and commands that switch
    modules. With these an isolated module is alone on the bus (C34), the end of an isolation writes outside the table (C35), a silent module times out (C36).
  \<^item> \<open>Controller_Duties\<close>: the kernel's watchdog refines rounds of reports (C37), an energy update sets states and
    switches by the balances (C38), and puts modules on the bus during an isolation; what a module learns of its energy (C39), and what a declaration does to the module table.
  \<^item> \<open>Controller_Updates\<close> (\<open>controller/signpost_controller/main.c\<close>): the packets of energy and position that the controller publishes every
    minute; the server gives some averages of the energy to the wrong modules (C17).

  \<^bold>\<open>Theories of the radio module.\<close> It collects what the modules publish and sends it over Bluetooth, LoRa or the cellular network.
  \<^item> \<open>Modem_Console\<close> (\<open>multi_console.c\<close>, \<open>at_command.c\<close>): the serial lines and AT commands over a record \<open>uart\<close> of scripts;
    \<open>Modem_Xdot\<close> (\<open>xdot.c\<close>), \<open>Modem_Sara\<close> (\<open>sara_u260.c\<close>): the LoRa and the cellular modem; \<open>Modem_Facts\<close>: what they do on a line that works;
    \<open>Modem_Line\<close>: what the driver of the cellular modem writes on its line, file by file and request by request.
  \<^item> \<open>Radio\<close> (\<open>radio_module/radio_app_ble/main.c\<close>): the record \<open>radio\<close> holds the statics of the file, the library's state and the modem's.
    Other callbacks run in the waits, as the parameter \<open>W\<close>. \<open>radio_event\<close> runs any callback, \<open>main_pass\<close> a pass of the main loop.
  \<^item> \<open>Radio_Ring\<close>: the locale \<open>bounded_queue\<close>, interpreted for the ring of messages: it is a queue as long as nothing is removed from it when it is empty, which
    the removal does not test (C5). \<open>Radio_Sending\<close>: a
    cellular transmission removes what it posted, two radios that take the same message lose another (C16), a post overflows behind a short
    first message (C20). \<open>Radio_Invariant\<close>: the locale \<open>waits_well\<close>, interpreted for quiet waits and for callbacks nested to any depth: the
    state stays well-formed (C27).
  \<^item> \<open>Radio_Downlink\<close> (\<open>radio_module/radio_app/main.c\<close>): the variant without Bluetooth. Its functions whose text is that of the other variant are
    modelled once, in \<open>Radio\<close>. Whatever is received from the LoRa network is forwarded, refused or makes the program fault, by its lengths and its text (C8); what is forwarded
    reaches the subscriber of the controller (C19).
  \<^item> \<open>Serial_Slip\<close> (\<open>ComSlip.c\<close>): the framing of a serial line; messages are delivered from any state of the decoder (C13).

  \<^bold>\<open>Theory of the storage module.\<close>
  \<^item> \<open>Storage_Master\<close> (\<open>signpost_storage.c\<close>, \<open>storage_master/storage_manager/main.c\<close>): logs of the other modules as files. The record \<open>storage\<close> holds the
    library's state and the volume. What a write command does (C22), and that its data is read back, whatever commands but deletions come in
    between (C2).

  \<^bold>\<open>Theories of the modules with sensors.\<close>
  \<^item> \<open>Sensor_Modules\<close>: what their programs share: the library's state, the board, the start. \<open>W\<close> stands for the other callbacks.
  \<^item> \<open>Motion_Detector\<close> (\<open>microwave_radar.c\<close>, \<open>microwave_radar_module/motion_detector/main.c\<close>): the record \<open>radar\<close> holds the statics of the driver, with
    those of its functions. \<open>Motion_Window\<close>: the motion index is that of a sliding window over the samples (C40), and the twentieth report
    reads past its buffer.
  \<^item> \<open>Ambient_Module\<close> (\<open>ambient_module/environmental_sensing/main.c\<close>): what the server reads of a sample. \<open>Audio_Module\<close>
    (\<open>audio_module/spectrum_volume_reporter/main.c\<close>): the program and the chip agree on the band of each sample.
  \<^item> \<open>Debug_Radio\<close> (\<open>debug_radio_module/signpost_debug_radio_app/main.c\<close>): the stand-in for the radio; what the computer behind it gets.

  \<^bold>\<open>Theories of the platform.\<close>
  \<^item> \<open>Tock_Port\<close> (\<open>port_signpost_tock.c\<close>): the platform interface over the kernel's calls and events; a write on the bus returns what the kernel reports,
    and what arrives meanwhile is delivered in order.
  \<^item> \<open>Disk_Io\<close> (\<open>mmc_io.c\<close>, \<open>signpost_tock_firmware_update.c\<close>): the layer below the file system, which drops the errors of the card, and the calls of the
    firmware update.

  \<^bold>\<open>Theories of the server.\<close>
  \<^item> \<open>Server_Packets\<close> (\<open>http-receiver.js\<close>, \<open>lora-receiver.js\<close>, \<open>packet-parser.js\<close>): how a packet is cut into messages and how messages are read; a read
    outside the buffer is \<open>None\<close>. \<open>Packet_Bytes\<close>: numbers of two and four bytes, as the modules store and the server reads them.
  \<^item> \<open>Server_Uplink\<close>: the messages that the radio removes after a cellular transmission are those that the server takes from what is on the modem's line,
    by an interpretation of the locale of encodings (C15). The status of the radio with Bluetooth is of a type that the server cannot read from it (C24); that of
    the radio without is read with its list one byte off.

  \<^bold>\<open>Bounds.\<close> Machine integers are words where their width matters; lengths are naturals with the wrap of \<open>size_t\<close> written
  out (\<open>size_sub\<close>). Energies are integers; they stay far below \<open>2 ^ 31\<close> microwatt-hours. The radio's single-precision shares are
  rationals rounded to 24 bits (\<open>single\<close>). Loops are structural or
  have a measure; the loops that may run for ever (starting a module, the controller, the radio or the storage, joining a LoRa network, mounting a
  volume, posting the readings of the ambient module) are partial functions. No definition uses fuel; the number of rounds that the ambient module asks for its
  duty cycle before it is switched off is an argument.

  \<^bold>\<open>Parameters.\<close> mbedTLS (\<open>mbedtls\<close>, \<open>ecdh_lib\<close>; \<open>mbedtls_ok\<close> is what the code relies on: decryption undoes encryption, digests
  have their length), the drivers of the counter chips, \<open>mktime\<close>, the handlers an application registers, the
  floating-point conversion of timer ticks, the sensors of the ambient module, the logarithm of the audio module, the values that the target gives where a
  conversion is undefined, the driver of the memory card, and FatFs (\<open>fat\<close>; \<open>fat_works\<close> is what is relied on: appending, reading and closing do what is documented). The kernel and the hardware are scripts in the state.

  \<^bold>\<open>Not modelled.\<close> The FAT file system and its code pages are third-party code. The sample applications and the tests of the boards only call
  what is modelled, as do two drivers that nothing else uses (\<open>msgeq7.c\<close>, \<open>smbus_interrupt.c\<close>). The kernel's drivers are Rust, the port for mbed is C++,
  and of the server (JavaScript) only the parsing of the packets of the modelled programs is here: the rest passes messages to brokers
  and databases. Of the callbacks that the kernel could run inside a
  wait, only those inside \<open>delay_ms\<close> of the controller, the waits of the radio application and the waits of \<open>signpost_api.c\<close> are
  modelled; those of the radio run at the end of the wait. The set-up of the Bluetooth services has no state of the program and is the event
  \<open>StartAdvertising\<close>.
\<close>

end
